(* ===== verification/Prelude.thy ===== *)
theory Prelude
  imports Main "HOL-Library.Word"
begin

text \<open>
  Shared vocabulary of the development: the outcome type of code that can throw, the
  characters of the C locale that the lexers rely on, and the list and option lemmas that the
  component theories share.  Strings are byte strings: a \<^typ>\<open>char\<close> is one \<^verbatim>\<open>char\<close> of the
  source, and every \<^typ>\<open>string\<close> is the sequence of bytes the code would hold.
\<close>

section \<open>Collections of facts\<close>

named_theorems outcome_simps \<open>unfolding the outcome monad\<close>
named_theorems lexer_defs \<open>definitions of the tokenizer's operations\<close>
named_theorems parser_defs \<open>definitions of the expression parser's operations\<close>

section \<open>Outcomes\<close>

text \<open>
  What a call can end in besides returning.  \<open>Parse_error msg pos\<close> is a thrown parser or
  tokenizer error with the position of the character iterator it carries; \<open>Read_past_end pos\<close>
  is a read at or beyond the end of the input buffer (undefined behaviour in the source, an
  assertion failure in a debug build); \<open>Out_of_fuel\<close> is the model's own outcome for a
  recursion that has not finished within the given fuel.
\<close>

datatype perror =
    Parse_error string nat
  | Read_past_end nat
  | Out_of_fuel

type_synonym 'a outcome = "perror + 'a"

definition ebind :: "'e + 'a \<Rightarrow> ('a \<Rightarrow> 'e + 'b) \<Rightarrow> 'e + 'b" where
  "ebind r f = (case r of Inl e \<Rightarrow> Inl e | Inr a \<Rightarrow> f a)"

lemma ebind_simps [simp, outcome_simps]:
  "ebind (Inl e) f = Inl e"
  "ebind (Inr a) f = f a"
  by (simp_all add: ebind_def)

lemma ebind_eq_Inr [simp]:
  "ebind r f = Inr b \<longleftrightarrow> (\<exists>a. r = Inr a \<and> f a = Inr b)"
  by (cases r) auto

lemma ebind_eq_Inl:
  "ebind r f = Inl e \<longleftrightarrow> r = Inl e \<or> (\<exists>a. r = Inr a \<and> f a = Inl e)"
  by (cases r) auto

lemma ebind_assoc: "ebind (ebind r f) g = ebind r (\<lambda>a. ebind (f a) g)"
  by (cases r) auto

lemma ebind_cong [fundef_cong]:
  "r = r' \<Longrightarrow> (\<And>a. r' = Inr a \<Longrightarrow> f a = g a) \<Longrightarrow> ebind r f = ebind r' g"
  by (cases r') auto

section \<open>Characters of the C locale\<close>

abbreviation code :: "char \<Rightarrow> nat" where
  "code c \<equiv> of_char c"

definition c_isspace :: "char \<Rightarrow> bool" where
  "c_isspace c \<longleftrightarrow> code c = 32 \<or> (9 \<le> code c \<and> code c \<le> 13)"

definition c_isdigit :: "char \<Rightarrow> bool" where
  "c_isdigit c \<longleftrightarrow> 48 \<le> code c \<and> code c \<le> 57"

definition c_isupper :: "char \<Rightarrow> bool" where
  "c_isupper c \<longleftrightarrow> 65 \<le> code c \<and> code c \<le> 90"

definition c_islower :: "char \<Rightarrow> bool" where
  "c_islower c \<longleftrightarrow> 97 \<le> code c \<and> code c \<le> 122"

definition c_isalnum :: "char \<Rightarrow> bool" where
  "c_isalnum c \<longleftrightarrow> c_isdigit c \<or> c_isupper c \<or> c_islower c"

definition c_tolower :: "char \<Rightarrow> char" where
  "c_tolower c = (if c_isupper c then char_of (code c + 32) else c)"

definition c_toupper :: "char \<Rightarrow> char" where
  "c_toupper c = (if c_islower c then char_of (code c - 32) else c)"

text \<open>
  \<^verbatim>\<open>strchr (set, c) != nullptr\<close>: the terminating NUL is part of the searched string, so a
  NUL byte is found in every set.
\<close>

definition strchr_found :: "string \<Rightarrow> char \<Rightarrow> bool" where
  "strchr_found cs c \<longleftrightarrow> code c = 0 \<or> c \<in> set cs"

lemma c_tolower_idem [simp]: "c_tolower (c_tolower c) = c_tolower c"
  by (auto simp: c_tolower_def c_isupper_def)

lemma c_tolower_toupper [simp]: "c_tolower (c_toupper c) = c_tolower c"
  by (auto simp: c_tolower_def c_toupper_def c_isupper_def c_islower_def)

section \<open>Slices of a buffer\<close>

definition slice :: "nat \<Rightarrow> nat \<Rightarrow> 'a list \<Rightarrow> 'a list" where
  "slice b e xs = take (e - b) (drop b xs)"

lemma slice_empty [simp]: "slice b b xs = []"
  by (simp add: slice_def)

lemma length_slice [simp]: "length (slice b e xs) = min (e - b) (length xs - b)"
  by (simp add: slice_def min.commute)

lemma slice_append_slice:
  "b \<le> m \<Longrightarrow> m \<le> e \<Longrightarrow> slice b m xs @ slice m e xs = slice b e xs"
proof -
  assume "b \<le> m" "m \<le> e"
  then have "e - b = (m - b) + (e - m)" and "drop (m - b) (drop b xs) = drop m xs"
    by simp_all
  then show ?thesis
    by (simp add: slice_def take_add)
qed

lemma takeWhile_length_le [simp]: "length (takeWhile P xs) \<le> length xs"
  by (rule length_takeWhile_le)

lemma set_slice_subset: "set (slice b e xs) \<subseteq> set xs"
  unfolding slice_def by (meson order_trans set_take_subset set_drop_subset)

end
