(* ===== verification/Char_Iter.thy ===== *)
theory Char_Iter
  imports Prelude
begin

text \<open>
  UTF-8 as the code decodes it (\<^verbatim>\<open>rapidjson::UTF8<char>\<close>, encodings.h) and the character
  iterator of the tokenizer (\<^verbatim>\<open>char_iterator_base\<close> in cdk/foundation/string.h and
  \<^verbatim>\<open>char_iterator\<close> in parser/char_iterator.h).  The iterator is a position in the input
  buffer.  The source also caches the decoded current character in \<^verbatim>\<open>m_char\<close>, where 0 means "not
  decoded"; every operation of the tokenizer leaves the cache empty, so it is not part of the state,
  but it is visible in \<open>utf8_consume\<close>: a decoded NUL counts as not decoded.
\<close>

section \<open>UTF-8\<close>

definition utf8_range :: "nat \<Rightarrow> nat" where
  "utf8_range c =
    (if c < 0x80 then 0
     else if c < 0x90 then 0x10
     else if c < 0xA0 then 0x40
     else if c < 0xC0 then 0x20
     else if c < 0xC2 then 8
     else if c < 0xE0 then 2
     else if c = 0xE0 then 10
     else if c = 0xED then 4
     else if c < 0xF0 then 3
     else if c = 0xF0 then 11
     else if c < 0xF4 then 6
     else if c = 0xF4 then 5
     else 8)"

text \<open>\<^verbatim>\<open>Mem_stream::Take\<close>: at the end of the buffer it returns NUL and does not move.\<close>

fun mem_take :: "string \<Rightarrow> nat \<times> string" where
  "mem_take [] = (0, [])"
| "mem_take (c # cs) = (code c, cs)"

text \<open>The macro pair \<^verbatim>\<open>COPY(); TRANS(mask)\<close>.\<close>

definition utf8_copy :: "nat \<Rightarrow> bool \<times> nat \<times> string \<Rightarrow> bool \<times> nat \<times> string" where
  "utf8_copy msk = (\<lambda>(ok, cp, s).
     let (c, s') = mem_take s
     in (ok \<and> Bit_Operations.and (utf8_range c) msk \<noteq> 0, cp * 64 + c mod 64, s'))"

abbreviation utf8_tail :: "bool \<times> nat \<times> string \<Rightarrow> bool \<times> nat \<times> string" where
  "utf8_tail \<equiv> utf8_copy 0x70"

definition utf8_decode :: "string \<Rightarrow> bool \<times> nat \<times> string" where
  "utf8_decode s =
    (let (c, s1) = mem_take s in
     if c < 0x80 then (True, c, s1)
     else
       let t = utf8_range c;
           st = (True, if 32 \<le> t then 0 else take_bit (8 - t) c, s1)
       in if t = 2 then utf8_tail st
          else if t = 3 then utf8_tail (utf8_tail st)
          else if t = 4 then utf8_tail (utf8_copy 0x50 st)
          else if t = 5 then utf8_tail (utf8_tail (utf8_copy 0x10 st))
          else if t = 6 then utf8_tail (utf8_tail (utf8_tail st))
          else if t = 10 then utf8_tail (utf8_copy 0x20 st)
          else if t = 11 then utf8_tail (utf8_tail (utf8_copy 0x60 st))
          else (False, fst (snd st), s1))"

text \<open>
  \<^verbatim>\<open>operator*\<close> followed by \<^verbatim>\<open>operator++\<close>: the increment decodes again when the cached character is 0,
  so a NUL byte is consumed together with the character behind it.
\<close>

definition utf8_consume :: "string \<Rightarrow> bool \<times> nat \<times> string" where
  "utf8_consume s =
    (let (ok, cp, s1) = utf8_decode s
     in (ok, cp, if ok \<and> cp = 0 \<and> s1 \<noteq> [] then snd (snd (utf8_decode s1)) else s1))"

definition utf8_encode :: "nat \<Rightarrow> string" where
  "utf8_encode cp =
    map char_of
     (if cp \<le> 0x7F then [cp]
      else if cp \<le> 0x7FF then [0xC0 + cp div 64, 0x80 + cp mod 64]
      else if cp \<le> 0xFFFF then
        [0xE0 + cp div 4096, 0x80 + (cp div 64) mod 64, 0x80 + cp mod 64]
      else
        [0xF0 + cp div 262144, 0x80 + (cp div 4096) mod 64,
         0x80 + (cp div 64) mod 64, 0x80 + cp mod 64])"

text \<open>\<^verbatim>\<open>UTF16::Encode\<close>: the code units \<^verbatim>\<open>cdk::string\<close> keeps.\<close>

definition utf16_encode :: "nat \<Rightarrow> nat list" where
  "utf16_encode cp =
    (if cp \<le> 0xFFFF then [cp]
     else [(cp - 0x10000) div 1024 + 0xD800, (cp - 0x10000) mod 1024 + 0xDC00])"

text \<open>Unicode scalar values: what UTF-8 can carry.\<close>

definition scalar_value :: "nat \<Rightarrow> bool" where
  "scalar_value cp \<longleftrightarrow> cp < 0xD800 \<or> (0xE000 \<le> cp \<and> cp < 0x110000)"

lemma mem_take_rest: "snd (mem_take s) = drop 1 s"
  by (cases s) auto

lemma utf8_copy_rest [simp]: "snd (snd (utf8_copy m st)) = drop 1 (snd (snd st))"
  by (cases st) (simp add: utf8_copy_def mem_take_rest split_beta Let_def)

lemma utf8_decode_rest:
  "\<exists>n. 1 \<le> n \<and> n \<le> 4 \<and> snd (snd (utf8_decode s)) = drop n s"
proof -
  have "snd (snd (utf8_decode s)) \<in> {drop 1 s, drop 2 s, drop 3 s, drop 4 s}"
    by (auto simp: utf8_decode_def Let_def mem_take_rest split_beta numeral_eq_Suc)
  then obtain n where "n \<in> {1, 2, 3, 4}" "snd (snd (utf8_decode s)) = drop n s"
    by blast
  then show ?thesis
    by (intro exI [of _ n]) auto
qed

lemma utf8_consume_rest: "\<exists>n. 1 \<le> n \<and> snd (snd (utf8_consume s)) = drop n s"
proof -
  obtain ok cp s1 where d: "utf8_decode s = (ok, cp, s1)"
    by (cases "utf8_decode s") auto
  obtain n where n: "1 \<le> n" "s1 = drop n s"
    using utf8_decode_rest [of s] d by auto
  obtain m where m: "snd (snd (utf8_decode s1)) = drop m s1"
    using utf8_decode_rest [of s1] by blast
  have "snd (snd (utf8_consume s)) = drop n s \<or> snd (snd (utf8_consume s)) = drop (m + n) s"
    using n m by (simp add: utf8_consume_def d)
  then show ?thesis
    using n(1) by (metis trans_le_add2)
qed

lemma add_mult_mod: "b < m \<Longrightarrow> (m * k + b) mod m = (b::nat)"
  by simp

lemmas lead_mods = add_mult_mod [of _ 64 2, simplified] add_mult_mod [of _ 64 3, simplified]
  add_mult_mod [of _ 32 7, simplified] add_mult_mod [of _ 4 60, simplified]

lemma utf8_copy_cont:
  "b < 64 \<Longrightarrow> utf8_copy m (ok, cp, char_of (0x80 + b) # s) =
    (ok \<and> Bit_Operations.and (utf8_range (0x80 + b)) m \<noteq> 0, cp * 64 + b, s)"
  by (simp add: utf8_copy_def lead_mods)

lemma utf8_range_cont:
  "b < 64 \<Longrightarrow> utf8_range (0x80 + b) = (if b < 16 then 0x10 else if b < 32 then 0x40 else 0x20)"
  by (simp add: utf8_range_def)

lemma utf8_tail_cont [simp]:
  "b < 64 \<Longrightarrow> utf8_tail (ok, cp, char_of (0x80 + b) # s) = (ok, cp * 64 + b, s)"
  by (simp add: utf8_copy_cont utf8_range_cont)

text \<open>Decoding is the inverse of encoding, one lemma per length of the encoding.\<close>

lemma utf8_decode_encode1: "cp \<le> 0x7F \<Longrightarrow> utf8_decode (utf8_encode cp @ s) = (True, cp, s)"
  by (simp add: utf8_decode_def utf8_encode_def)

lemma utf8_decode_encode2:
  assumes "0x7F < cp" "cp \<le> 0x7FF"
  shows "utf8_decode (utf8_encode cp @ s) = (True, cp, s)"
proof -
  define q where "q = cp div 64"
  have q: "2 \<le> q" "q < 32"
    using assms by (auto simp: q_def)
  have "take_bit 6 (0xC0 + q) = q"
    using q by (simp add: take_bit_eq_mod lead_mods)
  then have "utf8_decode (map char_of [0xC0 + q, 0x80 + cp mod 64] @ s) = (True, q * 64 + cp mod 64, s)"
    using q by (simp add: utf8_decode_def utf8_range_def)
  then show ?thesis
    using assms by (simp add: utf8_encode_def q_def)
qed

lemma utf8_decode_encode3:
  assumes "0x7FF < cp" "cp \<le> 0xFFFF" "scalar_value cp"
  shows "utf8_decode (utf8_encode cp @ s) = (True, cp, s)"
proof -
  define q where "q = cp div 4096"
  define r where "r = (cp div 64) mod 64"
  have q: "q < 16" and r: "r < 64"
    using assms by (auto simp: q_def r_def)
  have eq: "(q * 64 + r) * 64 + cp mod 64 = cp"
    unfolding q_def r_def by (simp add: div_mult2_eq [of cp 64 64, simplified])
  have q0: "0 < q \<or> 32 \<le> r" and q13: "q = 13 \<Longrightarrow> r < 32"
    using assms eq r by (auto simp: scalar_value_def)
  have tb: "take_bit 5 (0xE0 + q) = q" "q = 13 \<Longrightarrow> take_bit 4 (0xED::nat) = q"
    using q by (simp_all add: take_bit_eq_mod lead_mods)
  have "utf8_decode (map char_of [0xE0 + q, 0x80 + r, 0x80 + cp mod 64] @ s)
      = (True, (q * 64 + r) * 64 + cp mod 64, s)"
    using q r q0 q13 tb
    by (auto simp: utf8_decode_def utf8_range_def utf8_copy_cont utf8_range_cont)
  then show ?thesis
    using assms eq by (simp add: utf8_encode_def q_def r_def)
qed

lemma utf8_decode_encode4:
  assumes "0xFFFF < cp" "scalar_value cp"
  shows "utf8_decode (utf8_encode cp @ s) = (True, cp, s)"
proof -
  define q where "q = cp div 262144"
  define r where "r = (cp div 4096) mod 64"
  define t where "t = (cp div 64) mod 64"
  have lt: "q < 5" "r < 64" "t < 64"
    using assms by (auto simp: q_def r_def t_def scalar_value_def)
  have eq: "((q * 64 + r) * 64 + t) * 64 + cp mod 64 = cp"
    unfolding q_def r_def t_def
    by (simp add: div_mult2_eq [of cp 64 64, simplified] div_mult2_eq [of cp 4096 64, simplified]
        flip: div_mult2_eq [of cp 64 64, simplified])
  have q0: "0 < q \<or> 16 \<le> r" and q4: "q = 4 \<Longrightarrow> r < 16"
    using assms eq lt by (auto simp: scalar_value_def)
  have tb: "q < 4 \<Longrightarrow> take_bit 2 (0xF0 + q) = q"
    by (simp add: take_bit_eq_mod lead_mods)
  have tb4: "take_bit 3 (0xF0 + q) = q" if "\<not> q < 4"
  proof -
    from that lt have "q = 4" by simp
    then show ?thesis by (simp add: take_bit_eq_mod)
  qed
  have "utf8_decode (map char_of [0xF0 + q, 0x80 + r, 0x80 + t, 0x80 + cp mod 64] @ s)
      = (True, ((q * 64 + r) * 64 + t) * 64 + cp mod 64, s)"
    using lt q0 q4 tb tb4
    by (auto simp: utf8_decode_def utf8_range_def utf8_copy_cont utf8_range_cont)
  then show ?thesis
    using assms eq by (simp add: utf8_encode_def q_def r_def t_def)
qed

lemma utf8_decode_encode:
  assumes "scalar_value cp"
  shows "utf8_decode (utf8_encode cp @ s) = (True, cp, s)"
  using assms utf8_decode_encode1 utf8_decode_encode2 utf8_decode_encode3 utf8_decode_encode4
  by (meson not_le)

section \<open>The character iterator\<close>

record char_it =
  ci_inp :: string  \<comment> \<open>the bytes \<^verbatim>\<open>[m_stream.begin_, m_stream.end_)\<close>\<close>
  ci_pos :: nat     \<comment> \<open>\<^verbatim>\<open>m_pos\<close>, as an offset\<close>

definition ci_rest :: "'a char_it_scheme \<Rightarrow> string" where
  "ci_rest it = drop (ci_pos it) (ci_inp it)"

definition ci_at_end :: "'a char_it_scheme \<Rightarrow> bool" where
  "ci_at_end it \<longleftrightarrow> ci_pos it = length (ci_inp it)"

definition ci_at_end_off :: "nat \<Rightarrow> 'a char_it_scheme \<Rightarrow> bool" where
  "ci_at_end_off off it \<longleftrightarrow>
     ci_at_end it \<or> (off \<noteq> 0 \<and> length (ci_inp it) \<le> ci_pos it + off)"

definition get_unit :: "'a char_it_scheme \<Rightarrow> char" where
  "get_unit it = ci_inp it ! ci_pos it"

definition cur_char_is :: "char \<Rightarrow> 'a char_it_scheme \<Rightarrow> bool" where
  "cur_char_is c it \<longleftrightarrow> c = get_unit it"

definition cur_char_in :: "string \<Rightarrow> 'a char_it_scheme \<Rightarrow> bool" where
  "cur_char_in cs it \<longleftrightarrow> strchr_found cs (get_unit it)"

definition cur_char_is_space :: "'a char_it_scheme \<Rightarrow> bool" where
  "cur_char_is_space it \<longleftrightarrow> c_isspace (get_unit it)"

definition is_word_char :: "char \<Rightarrow> bool" where
  "is_word_char c \<longleftrightarrow> c = CHR ''_'' \<or> c_isalnum c"

definition cur_char_is_word :: "'a char_it_scheme \<Rightarrow> bool" where
  "cur_char_is_word it \<longleftrightarrow> is_word_char (get_unit it)"

definition next_char_is :: "char \<Rightarrow> 'a char_it_scheme \<Rightarrow> bool" where
  "next_char_is c it \<longleftrightarrow> c = ci_inp it ! Suc (ci_pos it)"

definition next_char_in :: "string \<Rightarrow> 'a char_it_scheme \<Rightarrow> bool" where
  "next_char_in cs it \<longleftrightarrow>
     (let c = ci_inp it ! Suc (ci_pos it) in code c \<noteq> 0 \<and> c \<in> set cs)"

definition ci_adv :: "nat \<Rightarrow> 'a char_it_scheme \<Rightarrow> 'a char_it_scheme" where
  "ci_adv n it = it\<lparr>ci_pos := ci_pos it + n\<rparr>"

definition next_unit :: "'a char_it_scheme \<Rightarrow> 'a char_it_scheme" where
  "next_unit it = ci_adv 1 it"

text \<open>
  \<^verbatim>\<open>char_t consume_char()\<close>: decode one code point and move behind it; \<open>None\<close> is
  \<^verbatim>\<open>invalid_char\<close>.  At the end of the input it returns NUL and stays.
\<close>

definition consume_code_point :: "'a char_it_scheme \<Rightarrow> nat option \<times> 'a char_it_scheme" where
  "consume_code_point it =
    (if ci_at_end it then (Some 0, it)
     else let (ok, cp, s) = utf8_consume (ci_rest it)
          in (if ok then Some cp else None,
              it\<lparr>ci_pos := length (ci_inp it) - length s\<rparr>))"

definition consume_char :: "char \<Rightarrow> 'a char_it_scheme \<Rightarrow> bool \<times> 'a char_it_scheme" where
  "consume_char c it = (if c \<noteq> get_unit it then (False, it) else (True, next_unit it))"

text \<open>
  \<^verbatim>\<open>char_t consume_char(const char *set)\<close> returns the consumed character as its truth value,
  so on a NUL byte it moves and still answers false.
\<close>

definition consume_char_in :: "string \<Rightarrow> 'a char_it_scheme \<Rightarrow> bool \<times> 'a char_it_scheme" where
  "consume_char_in cs it =
    (if \<not> cur_char_in cs it then (False, it)
     else (code (get_unit it) \<noteq> 0, next_unit it))"

fun consume_chars_loop :: "string \<Rightarrow> 'a char_it_scheme \<Rightarrow> string \<times> 'a char_it_scheme" where
  "consume_chars_loop [] it = ([], it)"
| "consume_chars_loop (c # cs) it =
    (if ci_at_end it then (c # cs, it)
     else let (b, it') = consume_char c it
          in if b then consume_chars_loop cs it' else (c # cs, it'))"

definition consume_chars :: "string \<Rightarrow> 'a char_it_scheme \<Rightarrow> bool \<times> 'a char_it_scheme" where
  "consume_chars cs it =
    (let (left, it') = consume_chars_loop cs it
     in if left \<noteq> [] then (False, it) else (True, it'))"

definition skip_ws :: "'a char_it_scheme \<Rightarrow> 'a char_it_scheme" where
  "skip_ws it = ci_adv (length (takeWhile c_isspace (ci_rest it))) it"

section \<open>Basic facts\<close>

definition ci_wf :: "'a char_it_scheme \<Rightarrow> bool" where
  "ci_wf it \<longleftrightarrow> ci_pos it \<le> length (ci_inp it)"

lemma ci_adv_simps [simp]:
  "ci_inp (ci_adv n it) = ci_inp it"
  "ci_pos (ci_adv n it) = ci_pos it + n"
  "ci_adv m (ci_adv n it) = ci_adv (n + m) it"
  "ci_adv 0 it = it"
  by (simp_all add: ci_adv_def)

lemma ci_rest_adv [simp]: "ci_rest (ci_adv n it) = drop n (ci_rest it)"
  by (simp add: ci_rest_def add.commute)

lemma next_unit_simps [simp]:
  "ci_inp (next_unit it) = ci_inp it"
  "ci_pos (next_unit it) = Suc (ci_pos it)"
  "ci_rest (next_unit it) = drop 1 (ci_rest it)"
  by (simp_all add: next_unit_def)

lemma length_ci_rest [simp]: "length (ci_rest it) = length (ci_inp it) - ci_pos it"
  by (simp add: ci_rest_def)

lemma ci_at_end_iff_rest: "ci_wf it \<Longrightarrow> ci_at_end it \<longleftrightarrow> ci_rest it = []"
  by (auto simp: ci_wf_def ci_at_end_def ci_rest_def)

lemma get_unit_rest: "ci_rest it = c # cs \<Longrightarrow> get_unit it = c"
  by (metis ci_rest_def drop_eq_Nil2 get_unit_def hd_drop_conv_nth leI list.distinct(1) list.sel(1))

lemma ci_wf_adv: "ci_wf it \<Longrightarrow> n \<le> length (ci_rest it) \<Longrightarrow> ci_wf (ci_adv n it)"
  by (simp add: ci_wf_def)

lemma ci_wf_next [intro]: "ci_wf it \<Longrightarrow> \<not> ci_at_end it \<Longrightarrow> ci_wf (next_unit it)"
  by (simp add: ci_wf_def ci_at_end_def)

lemma skip_ws_simps [simp]:
  "ci_inp (skip_ws it) = ci_inp it"
  "ci_pos it \<le> ci_pos (skip_ws it)"
  by (simp_all add: skip_ws_def)

lemma ci_rest_skip_ws [simp]: "ci_rest (skip_ws it) = dropWhile c_isspace (ci_rest it)"
  by (simp add: skip_ws_def dropWhile_eq_drop)

lemma ci_wf_skip_ws [intro]: "ci_wf it \<Longrightarrow> ci_wf (skip_ws it)"
  unfolding skip_ws_def by (rule ci_wf_adv) (simp_all del: length_ci_rest)

lemma consume_code_point_progress:
  assumes "ci_wf it" "\<not> ci_at_end it" "consume_code_point it = (r, it')"
  shows "ci_inp it' = ci_inp it" "ci_pos it < ci_pos it'" "ci_wf it'"
proof -
  obtain ok cp s where d: "utf8_consume (ci_rest it) = (ok, cp, s)"
    by (cases "utf8_consume (ci_rest it)") auto
  obtain n where n: "1 \<le> n" "s = drop n (ci_rest it)"
    using utf8_consume_rest [of "ci_rest it"] d by auto
  have it': "it' = it\<lparr>ci_pos := length (ci_inp it) - length s\<rparr>"
    using assms(2,3) d by (simp add: consume_code_point_def)
  have "ci_pos it < length (ci_inp it)"
    using assms(1,2) by (simp add: ci_wf_def ci_at_end_def)
  then show "ci_inp it' = ci_inp it" "ci_pos it < ci_pos it'" "ci_wf it'"
    using it' n by (auto simp: ci_wf_def)
qed

lemma consume_chars_loop_inp:
  "consume_chars_loop cs it = (l, it') \<Longrightarrow> ci_inp it' = ci_inp it"
  by (induction cs it rule: consume_chars_loop.induct)
     (auto simp: consume_char_def Let_def split: if_splits)

end
