(* ===== verification/Tokens.thy ===== *)
theory Tokens
  imports Char_Iter
begin

text \<open>
  The tokenizer: \<^verbatim>\<open>Token\<close>, \<^verbatim>\<open>Tokenizer\<close> and \<^verbatim>\<open>Tokenizer::iterator\<close> of
  parser/tokenizer.h and tokenizer.cc.  An iterator is a character iterator extended with the
  start \<^verbatim>\<open>m_pos\<close> of the current token, the flag \<^verbatim>\<open>m_at_end\<close> and the current token.  When no
  token can be recognised the iterator keeps its old token and does not move, exactly as
  \<^verbatim>\<open>operator++\<close>, which ignores the result of \<^verbatim>\<open>get_next_token\<close>, leaves it.
\<close>

section \<open>Tokens\<close>

datatype tok_type =
    T_EMPTY
  | T_WORD | T_QWORD | T_QSTRING | T_QQSTRING | T_NUMBER | T_INTEGER | T_HEX
  | T_LPAREN | T_RPAREN | T_LCURLY | T_RCURLY | T_LSQBRACKET | T_RSQBRACKET
  | T_DOT | T_COMMA | T_EQ | T_GT | T_LT | T_AMPERSTAND | T_BAR | T_HAT
  | T_PLUS | T_MINUS | T_STAR | T_SLASH | T_PERCENT | T_BANG | T_TILDE
  | T_QUESTION | T_COLON | T_DOLLAR
  | T_NE | T_DF | T_GE | T_LE | T_LSHIFT | T_RSHIFT | T_DOUBLESTAR
  | T_ARROW2 | T_ARROW | T_AMPERSTAND2 | T_BAR2 | T_EQ2

definition symbol_list2 :: "(string \<times> tok_type) list" where
  "symbol_list2 =
    [(''!='', T_NE), (''<>'', T_DF), (''>='', T_GE), (''<='', T_LE),
     (''<<'', T_LSHIFT), (''>>'', T_RSHIFT), (''**'', T_DOUBLESTAR),
     (''->>'', T_ARROW2), (''->'', T_ARROW), (''&&'', T_AMPERSTAND2),
     (''||'', T_BAR2), (''=='', T_EQ2)]"

definition symbol_list1 :: "(char \<times> tok_type) list" where
  "symbol_list1 =
    [(CHR ''('', T_LPAREN), (CHR '')'', T_RPAREN), (CHR ''{'', T_LCURLY),
     (CHR ''}'', T_RCURLY), (CHR ''['', T_LSQBRACKET), (CHR '']'', T_RSQBRACKET),
     (CHR ''.'', T_DOT), (CHR '','', T_COMMA), (CHR ''='', T_EQ), (CHR ''>'', T_GT),
     (CHR ''<'', T_LT), (CHR ''&'', T_AMPERSTAND), (CHR ''|'', T_BAR), (CHR ''^'', T_HAT),
     (CHR ''+'', T_PLUS), (CHR ''-'', T_MINUS), (CHR ''*'', T_STAR), (CHR ''/'', T_SLASH),
     (CHR ''%'', T_PERCENT), (CHR ''!'', T_BANG), (CHR ''~'', T_TILDE),
     (CHR ''?'', T_QUESTION), (CHR '':'', T_COLON), (CHR ''$'', T_DOLLAR)]"

record token =
  tok_ty :: tok_type
  tok_begin :: nat
  tok_end :: nat

record tok_it = char_it +
  ti_pos :: nat
  ti_end :: bool
  ti_tok :: token

definition empty_token :: token where
  "empty_token = \<lparr>tok_ty = T_EMPTY, tok_begin = 0, tok_end = 0\<rparr>"

text \<open>The bytes of a token; \<^verbatim>\<open>get_text\<close>, \<^verbatim>\<open>get_bytes\<close> and \<^verbatim>\<open>get_utf8\<close> all denote them.\<close>

definition tok_bytes :: "tok_it \<Rightarrow> string" where
  "tok_bytes it = slice (tok_begin (ti_tok it)) (tok_end (ti_tok it)) (ci_inp it)"

section \<open>Recognising tokens\<close>

definition set_tok_pos :: "nat \<Rightarrow> nat \<Rightarrow> tok_it \<Rightarrow> tok_it" where
  "set_tok_pos b e it = it\<lparr>ti_tok := (ti_tok it)\<lparr>tok_begin := b, tok_end := e\<rparr>\<rparr>"

definition set_tok_type :: "tok_type \<Rightarrow> tok_it \<Rightarrow> tok_it" where
  "set_tok_type t it = it\<lparr>ti_tok := (ti_tok it)\<lparr>tok_ty := t\<rparr>\<rparr>"

definition set_token :: "tok_type \<Rightarrow> nat \<Rightarrow> nat \<Rightarrow> tok_it \<Rightarrow> tok_it" where
  "set_token t b e it = set_tok_pos b e (set_tok_type t it)"

definition throw_error :: "string \<Rightarrow> 'b char_it_scheme \<Rightarrow> 'a outcome" where
  "throw_error msg it = Inl (Parse_error msg (ci_pos it))"

abbreviation dec_digits :: string where
  "dec_digits \<equiv> ''0123456789''"

definition parse_digits :: "tok_it \<Rightarrow> bool \<times> tok_it" where
  "parse_digits it =
    (let n = length (takeWhile (strchr_found dec_digits) (ci_rest it))
     in (0 < n, ci_adv n it))"

text \<open>
  \<^verbatim>\<open>parse_number\<close>, from its end: the exponent behind \<^verbatim>\<open>E\<close> (whose sign is read without a check
  for the end of the input), the fraction behind the integer digits, and the whole.
\<close>

definition number_exponent :: "tok_it \<Rightarrow> (bool \<times> tok_it) outcome" where
  "number_exponent it =
    (if ci_at_end it then Inl (Read_past_end (ci_pos it))
     else
       let it1 = snd (consume_char_in ''+-'' it);
           (d, it2) = parse_digits it1 in
       if \<not> d then throw_error ''No digits in the exponent'' it2
       else Inr (True, set_token T_NUMBER (ti_pos it2) (ci_pos it2) it2))"

definition number_fraction :: "tok_it \<Rightarrow> (bool \<times> tok_it) outcome" where
  "number_fraction it =
    (let (dot, it1) = (if ci_at_end it then (False, it) else consume_char (CHR ''.'') it);
         (d, it2) = (if dot then parse_digits it1 else (True, it1)) in
     if \<not> d then throw_error ''No digits after decimal point'' it2
     else
       let (ex, it3) = (if ci_at_end it2 then (False, it2) else consume_char_in ''Ee'' it2) in
       if \<not> dot \<and> \<not> ex then Inr (True, set_token T_INTEGER (ti_pos it3) (ci_pos it3) it3)
       else if \<not> ex then Inr (True, set_token T_NUMBER (ti_pos it3) (ci_pos it3) it3)
       else number_exponent it3)"

definition parse_number :: "tok_it \<Rightarrow> (bool \<times> tok_it) outcome" where
  "parse_number it =
    (if ti_end it then Inr (False, it)
     else if cur_char_is (CHR ''.'') it \<and> \<not> ci_at_end_off 1 it \<and> \<not> next_char_in dec_digits it
     then Inr (False, it)
     else
       let (d, it1) = parse_digits it in
       if \<not> d \<and> \<not> cur_char_is (CHR ''.'') it1 then Inr (False, it1)
       else number_fraction it1)"

abbreviation hex_digits :: string where
  "hex_digits \<equiv> ''0123456789ABCDEFabcdef''"

text \<open>
  The loop \<^verbatim>\<open>for (; !at_end() && consume_char(hex digits); ret = true);\<close> also moves over the
  one NUL byte that ends it.
\<close>

definition parse_hex_digits :: "tok_it \<Rightarrow> bool \<times> tok_it" where
  "parse_hex_digits it =
    (let n = length (takeWhile (\<lambda>c. c \<in> set hex_digits) (ci_rest it));
         it1 = ci_adv n it
     in (0 < n,
         if ci_at_end it1 then it1
         else snd (consume_char_in hex_digits it1)))"

definition parse_hex :: "tok_it \<Rightarrow> (bool \<times> tok_it) outcome" where
  "parse_hex it =
    (if ci_at_end it then Inr (False, it)
     else if \<not> cur_char_in ''Xx0'' it then Inr (False, it)
     else if cur_char_is (CHR ''X'') it \<or> cur_char_is (CHR ''x'') it then
       (if ci_at_end_off 1 it \<or> \<not> next_char_is (CHR 0x27) it then Inr (False, it)
        else
          let it1 = next_unit (next_unit it);
              (h, it2) = parse_hex_digits it1 in
          if \<not> h then throw_error ''Unexpected character inside hex literal'' it2
          else
            let it3 = set_token T_HEX (ci_pos it1) (ci_pos it2) it2 in
            if ci_at_end it3 then throw_error ''Unexpected character inside hex literal'' it3
            else
              let (q, it4) = consume_char (CHR 0x27) it3 in
              if \<not> q then throw_error ''Unexpected character inside hex literal'' it4
              else Inr (True, it4))
     else if cur_char_is (CHR ''0'') it then
       (if ci_at_end_off 1 it \<or> \<not> next_char_in ''Xx'' it then Inr (False, it)
        else
          let it1 = next_unit (next_unit it);
              (h, it2) = parse_hex_digits it1 in
          if \<not> h then throw_error ''No hex digits found after 0x'' it2
          else Inr (True, set_token T_HEX (ci_pos it1) (ci_pos it2) it2))
     else Inr (False, it))"

text \<open>
  One round of the loop of \<^verbatim>\<open>parse_quotted_string\<close> on the remaining input \<open>c # cs\<close>: a lone quote
  closes the string; otherwise an escaping backslash or the first of two quotes is skipped and one
  code point is consumed.  The numbers count the bytes consumed in the round.
\<close>

datatype qstep = Q_closed nat | Q_invalid nat | Q_char nat string

definition quoted_step :: "char \<Rightarrow> char \<Rightarrow> string \<Rightarrow> qstep" where
  "quoted_step q c cs =
    (if c \<noteq> CHR 0x5C \<and> c = q \<and> (cs = [] \<or> hd cs \<noteq> q) then Q_closed 1
     else
       let k = (if c = CHR 0x5C \<or> c = q then 1 else 0); s1 = drop k (c # cs) in
       if s1 = [] then Q_char k [CHR 0x00]
       else
         let (ok, cp, s2) = utf8_consume s1; m = k + (length s1 - length s2) in
         if ok then Q_char m (utf8_encode cp) else Q_invalid m)"

text \<open>
  The loop, behind the opening quote.  \<open>n\<close> counts the bytes consumed, \<open>acc\<close> collects the first
  characters for the error message, the last argument is what is left of the input.  \<open>Inr n\<close>: the
  closing quote was the last of \<open>n\<close> bytes.
\<close>

abbreviation quoted_start_len :: nat where
  "quoted_start_len \<equiv> 8"

lemma utf8_decode_shorter:
  "(ok, cp, s') = utf8_decode (c # cs) \<Longrightarrow> length s' < length (c # cs)"
  using utf8_decode_rest [of "c # cs"] by (metis Suc_le_eq diff_less length_drop length_greater_0_conv
      list.distinct(1) not_less_eq_eq prod.sel(2) One_nat_def)

lemma utf8_consume_shorter: "s \<noteq> [] \<Longrightarrow> length (snd (snd (utf8_consume s))) < length s"
  using utf8_consume_rest [of s] by auto

definition qstep_len :: "qstep \<Rightarrow> nat" where
  "qstep_len s = (case s of Q_closed k \<Rightarrow> k | Q_invalid k \<Rightarrow> k | Q_char k t \<Rightarrow> k)"

lemma quoted_step_len:
  "0 < qstep_len (quoted_step q c cs)" "qstep_len (quoted_step q c cs) \<le> length (c # cs)"
proof -
  define k where "k = (if c = CHR 0x5C \<or> c = q then 1 else 0 :: nat)"
  have k: "k \<le> 1" "drop k (c # cs) = [] \<Longrightarrow> k = 1" and len: "length (drop k (c # cs)) + k = length (c # cs)"
    by (auto simp: k_def split: if_splits)
  obtain ok cp s2 where u: "utf8_consume (drop k (c # cs)) = (ok, cp, s2)"
    by (cases "utf8_consume (drop k (c # cs))") auto
  have lt: "length s2 < length (drop k (c # cs))" if "drop k (c # cs) \<noteq> []"
    using utf8_consume_shorter [OF that] u by simp
  have "0 < qstep_len (quoted_step q c cs) \<and> qstep_len (quoted_step q c cs) \<le> length (c # cs)"
    using k len lt
    by (auto simp: quoted_step_def Let_def qstep_len_def u simp flip: k_def simp del: length_drop drop_eq_Nil)
  then show "0 < qstep_len (quoted_step q c cs)" "qstep_len (quoted_step q c cs) \<le> length (c # cs)"
    by simp_all
qed

function quoted_loop :: "char \<Rightarrow> nat \<Rightarrow> string \<Rightarrow> string \<Rightarrow> (string \<times> nat) + nat" where
  "quoted_loop q n acc [] =
    Inl (''Unterminated quoted string starting with '' @ q # acc @ ''...'', n)"
| "quoted_loop q n acc (c # cs) =
    (case quoted_step q c cs of
       Q_closed k \<Rightarrow> Inr (n + k)
     | Q_invalid k \<Rightarrow> Inl (''Invalid utf8 string'', n + k)
     | Q_char k t \<Rightarrow>
         quoted_loop q (n + k) (if n + k < quoted_start_len then acc @ t else acc) (drop k (c # cs)))"
  by pat_completeness auto
termination
proof (relation "measure (\<lambda>(q, n, acc, s). length s)")
  fix q n acc c cs k t
  assume "quoted_step q c cs = Q_char k t"
  then have "0 < k"
    using quoted_step_len(1) [of q c cs] by (simp add: qstep_len_def)
  then show "((q, n + k, if n + k < quoted_start_len then acc @ t else acc, drop k (c # cs)), q, n, acc, c # cs)
    \<in> measure (\<lambda>(q, n, acc, s). length s)"
    by (cases k) auto
qed simp

definition parse_quotted_string :: "char \<Rightarrow> tok_it \<Rightarrow> (bool \<times> tok_it) outcome" where
  "parse_quotted_string q it =
    (let (b, it1) = consume_char q it in
     if \<not> b then Inr (False, it1)
     else
       case quoted_loop q 0 [] (ci_rest it1) of
         Inl (msg, n) \<Rightarrow> throw_error msg (ci_adv n it1)
       | Inr n \<Rightarrow> Inr (True, set_tok_pos (ci_pos it1) (ci_pos it1 + n - 1) (ci_adv n it1)))"

definition parse_string :: "tok_it \<Rightarrow> (bool \<times> tok_it) outcome" where
  "parse_string it =
    (let quote = get_unit it in
     if \<not> (quote = CHR 0x22 \<or> quote = CHR 0x27) then Inr (False, it)
     else
       ebind (parse_quotted_string quote it) (\<lambda>(b, it1).
         if \<not> b then Inr (False, it1)
         else Inr (True, set_tok_type (if quote = CHR 0x22 then T_QQSTRING else T_QSTRING) it1)))"

definition parse_word :: "tok_it \<Rightarrow> (bool \<times> tok_it) outcome" where
  "parse_word it =
    (if ci_at_end it then Inr (False, it)
     else if cur_char_is (CHR 0x60) it then
       ebind (parse_quotted_string (CHR 0x60) it) (\<lambda>(b, it1). Inr (True, set_tok_type T_QWORD it1))
     else
       let n = length (takeWhile is_word_char (ci_rest it));
           it1 = ci_adv n it in
       if n = 0 then Inr (False, it1)
       else Inr (True, set_token T_WORD (ti_pos it1) (ci_pos it1) it1))"

fun try_symbols2 :: "(string \<times> tok_type) list \<Rightarrow> tok_it \<Rightarrow> bool \<times> tok_it" where
  "try_symbols2 [] it = (False, it)"
| "try_symbols2 ((s, t) # ss) it =
    (let (b, it1) = consume_chars s it in
     if b then (True, set_token t (ti_pos it1) (ci_pos it1) it1)
     else try_symbols2 ss it1)"

definition parse_symbol :: "tok_it \<Rightarrow> bool \<times> tok_it" where
  "parse_symbol it =
    (let c = get_unit it;
         (b, it1) = try_symbols2 (filter (\<lambda>(s, t). hd s = c) symbol_list2) it in
     if b then (True, it1)
     else
       case map_of symbol_list1 c of
         None \<Rightarrow> (False, it1)
       | Some t \<Rightarrow>
           let it2 = snd (consume_char c it1)
           in (True, set_token t (ti_pos it2) (ci_pos it2) it2))"

definition parse_by_first_char :: "tok_it \<Rightarrow> (bool \<times> tok_it) outcome" where
  "parse_by_first_char it =
    (let c = get_unit it in
     if c = CHR 0x22 \<or> c = CHR 0x27 then parse_string it
     else if c = CHR ''x'' \<or> c = CHR ''X'' \<or> c = CHR ''0'' then
       ebind (parse_hex it) (\<lambda>(b, it1). if b then Inr (True, it1) else parse_number it1)
     else if c = CHR ''.'' \<or> (c_isdigit c \<and> c \<noteq> CHR ''0'') then parse_number it
     else Inr (False, it))"

definition get_next_token :: "tok_it \<Rightarrow> (bool \<times> tok_it) outcome" where
  "get_next_token it0 =
    (let it1 = skip_ws it0;
         it = it1\<lparr>ti_pos := ci_pos it1\<rparr> in
     if ti_end it \<or> ci_at_end it then Inr (False, it\<lparr>ti_end := True\<rparr>)
     else if code (get_unit it) < 127 then
       ebind (parse_by_first_char it) (\<lambda>(b, it2).
         if b then Inr (True, it2)
         else
           let (b', it3) = parse_symbol it2 in
           if b' then Inr (True, it3) else parse_word it3)
     else parse_word it)"

section \<open>Iterating over the tokens\<close>

definition tokenizer_start :: "string \<Rightarrow> tok_it" where
  "tokenizer_start s =
    \<lparr>ci_inp = s, ci_pos = 0, ti_pos = 0, ti_end = False, ti_tok = empty_token\<rparr>"

definition tok_next :: "tok_it \<Rightarrow> tok_it outcome" where
  "tok_next it = ebind (get_next_token it) (\<lambda>(b, it'). Inr it')"

definition tokenizer_begin :: "string \<Rightarrow> tok_it outcome" where
  "tokenizer_begin s = tok_next (tokenizer_start s)"

definition tokenizer_empty :: "string \<Rightarrow> bool" where
  "tokenizer_empty s \<longleftrightarrow> s = []"

end
