(* ===== verification/Keywords.thy ===== *)
theory Keywords
  imports Tokens
begin

text \<open>
  Reserved words and operators of X DevAPI expressions: the classes \<^verbatim>\<open>Keyword\<close> and \<^verbatim>\<open>Op\<close> of
  parser/expr_parser.h, with the tables \<^verbatim>\<open>KEYWORD_LIST\<close>, \<^verbatim>\<open>UNARY_OP\<close> and \<^verbatim>\<open>BINARY_OP\<close>.
\<close>

section \<open>Keywords\<close>

datatype keyword =
    K_NONE | K_NOT | K_AND | K_OR | K_XOR | K_IS | K_BETWEEN | K_L_TRUE | K_L_FALSE | K_L_NULL
    | K_LIKE | K_RLIKE | K_INTERVAL | K_REGEXP | K_OVERLAPS | K_ESCAPE | K_HEX | K_BIN | K_MOD
    | K_AS | K_USING | K_ASC | K_DESC | K_CAST | K_CHARACTER | K_SET | K_CHARSET | K_ASCII
    | K_UNICODE | K_BYTE | K_BINARY | K_CHAR | K_NCHAR | K_DATE | K_DATETIME | K_TIME
    | K_DECIMAL | K_SIGNED | K_UNSIGNED | K_INTEGER | K_INT | K_JSON | K_IN | K_SOUNDS
    | K_LEADING | K_TRAILING | K_BOTH | K_FROM | K_MICROSECOND | K_SECOND | K_MINUTE | K_HOUR
    | K_DAY | K_WEEK | K_MONTH | K_QUARTER | K_YEAR

text \<open>\<^verbatim>\<open>KEYWORD_LIST\<close>: the enum constant, its name and the word.\<close>

definition keyword_list :: "(keyword \<times> string \<times> string) list" where
  "keyword_list =
    [(K_NOT, ''NOT'', ''not''), (K_AND, ''AND'', ''and''), (K_OR, ''OR'', ''or''),
     (K_XOR, ''XOR'', ''xor''), (K_IS, ''IS'', ''is''), (K_BETWEEN, ''BETWEEN'', ''between''),
     (K_L_TRUE, ''L_TRUE'', ''true''), (K_L_FALSE, ''L_FALSE'', ''false''),
     (K_L_NULL, ''L_NULL'', ''null''), (K_LIKE, ''LIKE'', ''like''),
     (K_RLIKE, ''RLIKE'', ''rlike''), (K_INTERVAL, ''INTERVAL'', ''interval''),
     (K_REGEXP, ''REGEXP'', ''regexp''), (K_OVERLAPS, ''OVERLAPS'', ''overlaps''),
     (K_ESCAPE, ''ESCAPE'', ''escape''), (K_HEX, ''HEX'', ''hex''), (K_BIN, ''BIN'', ''bin''),
     (K_MOD, ''MOD'', ''mod''), (K_AS, ''AS'', ''as''), (K_USING, ''USING'', ''using''),
     (K_ASC, ''ASC'', ''asc''), (K_DESC, ''DESC'', ''desc''), (K_CAST, ''CAST'', ''cast''),
     (K_CHARACTER, ''CHARACTER'', ''character''), (K_SET, ''SET'', ''set''),
     (K_CHARSET, ''CHARSET'', ''charset''), (K_ASCII, ''ASCII'', ''ascii''),
     (K_UNICODE, ''UNICODE'', ''unicode''), (K_BYTE, ''BYTE'', ''byte''),
     (K_BINARY, ''BINARY'', ''binary''), (K_CHAR, ''CHAR'', ''char''),
     (K_NCHAR, ''NCHAR'', ''nchar''), (K_DATE, ''DATE'', ''date''),
     (K_DATETIME, ''DATETIME'', ''datetime''), (K_TIME, ''TIME'', ''time''),
     (K_DECIMAL, ''DECIMAL'', ''decimal''), (K_SIGNED, ''SIGNED'', ''signed''),
     (K_UNSIGNED, ''UNSIGNED'', ''unsigned''), (K_INTEGER, ''INTEGER'', ''integer''),
     (K_INT, ''INT'', ''int''), (K_JSON, ''JSON'', ''json''), (K_IN, ''IN'', ''in''),
     (K_SOUNDS, ''SOUNDS'', ''sounds''), (K_LEADING, ''LEADING'', ''leading''),
     (K_TRAILING, ''TRAILING'', ''trailing''), (K_BOTH, ''BOTH'', ''both''),
     (K_FROM, ''FROM'', ''from''), (K_MICROSECOND, ''MICROSECOND'', ''microsecond''),
     (K_SECOND, ''SECOND'', ''second''), (K_MINUTE, ''MINUTE'', ''minute''),
     (K_HOUR, ''HOUR'', ''hour''), (K_DAY, ''DAY'', ''day''), (K_WEEK, ''WEEK'', ''week''),
     (K_MONTH, ''MONTH'', ''month''), (K_QUARTER, ''QUARTER'', ''quarter''),
     (K_YEAR, ''YEAR'', ''year'')]"

text \<open>
  \<^verbatim>\<open>kw_cmp\<close>: lexicographic comparison of the lower-cased characters, which are (signed)
  \<^verbatim>\<open>char\<close> values.
\<close>

definition schar :: "char \<Rightarrow> int" where
  "schar c = (if code c < 128 then int (code c) else int (code c) - 256)"

definition char_cmp :: "char \<Rightarrow> char \<Rightarrow> bool" where
  "char_cmp a b \<longleftrightarrow> schar (c_tolower a) < schar (c_tolower b)"

fun kw_cmp :: "string \<Rightarrow> string \<Rightarrow> bool" where
  "kw_cmp [] [] = False"
| "kw_cmp [] (b # bs) = True"
| "kw_cmp (a # as) [] = False"
| "kw_cmp (a # as) (b # bs) =
    (if char_cmp a b then True else if char_cmp b a then False else kw_cmp as bs)"

definition keyword_equal :: "string \<Rightarrow> string \<Rightarrow> bool" where
  "keyword_equal a b \<longleftrightarrow> \<not> kw_cmp a b \<and> \<not> kw_cmp b a"

text \<open>\<^verbatim>\<open>kw_map.find\<close>: the entry whose key is equivalent to the word under \<^verbatim>\<open>kw_cmp\<close>.\<close>

definition kw_find :: "string \<Rightarrow> keyword" where
  "kw_find w =
    (case find (\<lambda>(k, n, s). keyword_equal s w) keyword_list of
       None \<Rightarrow> K_NONE
     | Some (k, n, s) \<Rightarrow> k)"

definition keyword_get :: "tok_it \<Rightarrow> keyword" where
  "keyword_get it = (if tok_ty (ti_tok it) \<noteq> T_WORD then K_NONE else kw_find (tok_bytes it))"

definition keyword_name :: "keyword \<Rightarrow> string" where
  "keyword_name k =
    (case find (\<lambda>(k', n, s). k' = k) keyword_list of None \<Rightarrow> [] | Some (k', n, s) \<Rightarrow> n)"

section \<open>Operators\<close>

datatype op_type =
    O_NONE | O_STAR | O_PLUS | O_MINUS | O_NEG | O_BITNEG | O_NOT | O_BINARY_START | O_ADD
    | O_SUB | O_MUL | O_DIV | O_MOD | O_OR | O_AND | O_BITOR | O_BITAND | O_BITXOR | O_LSHIFT
    | O_RSHIFT | O_EQ | O_NE | O_GT | O_GE | O_LT | O_LE | O_IS | O_IS_NOT | O_IN | O_NOT_IN
    | O_CONT_IN | O_NOT_CONT_IN | O_LIKE | O_NOT_LIKE | O_RLIKE | O_NOT_RLIKE | O_BETWEEN
    | O_NOT_BETWEEN | O_REGEXP | O_NOT_REGEXP | O_CAST | O_SOUNDS_LIKE | O_OVERLAPS
    | O_NOT_OVERLAPS

definition unary_op :: "(op_type \<times> string \<times> tok_type list \<times> keyword list) list" where
  "unary_op =
    [(O_STAR, ''*'', [T_STAR], []), (O_PLUS, ''+'', [T_PLUS], []),
     (O_MINUS, ''-'', [T_MINUS], []), (O_NEG, ''!'', [T_BANG], []),
     (O_BITNEG, ''~'', [T_TILDE], []), (O_NOT, ''not'', [], [K_NOT])]"

definition binary_op :: "(op_type \<times> string \<times> tok_type list \<times> keyword list) list" where
  "binary_op =
    [(O_ADD, ''+'', [T_PLUS], []), (O_SUB, ''-'', [T_MINUS], []), (O_MUL, ''*'', [T_STAR], []),
     (O_DIV, ''/'', [T_SLASH], []), (O_MOD, ''%'', [T_PERCENT], [K_MOD]),
     (O_OR, ''||'', [T_BAR2], [K_OR]), (O_AND, ''&&'', [T_AMPERSTAND2], [K_AND]),
     (O_BITOR, ''|'', [T_BAR], []), (O_BITAND, ''&'', [T_AMPERSTAND], []),
     (O_BITXOR, ''^'', [T_HAT], []), (O_LSHIFT, ''<<'', [T_LSHIFT], []),
     (O_RSHIFT, ''>>'', [T_RSHIFT], []), (O_EQ, ''=='', [T_EQ, T_EQ2], []),
     (O_NE, ''!='', [T_NE, T_DF], []), (O_GT, ''>'', [T_GT], []), (O_GE, ''>='', [T_GE], []),
     (O_LT, ''<'', [T_LT], []), (O_LE, ''<='', [T_LE], []), (O_IS, ''is'', [], [K_IS]),
     (O_IS_NOT, ''is_not'', [], []), (O_IN, ''in'', [], [K_IN]), (O_NOT_IN, ''not_in'', [], []),
     (O_CONT_IN, ''cont_in'', [], []), (O_NOT_CONT_IN, ''not_cont_in'', [], []),
     (O_LIKE, ''like'', [], [K_LIKE]), (O_NOT_LIKE, ''not_like'', [], []),
     (O_RLIKE, ''regexp'', [], [K_RLIKE]), (O_NOT_RLIKE, ''not_regexp'', [], []),
     (O_BETWEEN, ''between'', [], [K_BETWEEN]), (O_NOT_BETWEEN, ''not_between'', [], []),
     (O_REGEXP, ''regexp'', [], [K_REGEXP]), (O_NOT_REGEXP, ''not_regexp'', [], []),
     (O_CAST, ''cast'', [], [K_CAST]), (O_SOUNDS_LIKE, ''sounds like'', [], [K_SOUNDS]),
     (O_OVERLAPS, ''overlaps'', [], [K_OVERLAPS]), (O_NOT_OVERLAPS, ''not_overlaps'', [], [])]"

text \<open>
  The maps \<^verbatim>\<open>unary_tok_map\<close>, \<^verbatim>\<open>unary_kw_map\<close>, \<^verbatim>\<open>binary_tok_map\<close> and \<^verbatim>\<open>binary_kw_map\<close> are filled
  entry by entry, so a later declaration would overwrite an earlier one.
\<close>

definition op_tok_map ::
  "(op_type \<times> string \<times> tok_type list \<times> keyword list) list \<Rightarrow> tok_type \<Rightarrow> op_type option" where
  "op_tok_map decls t = map_option fst (find (\<lambda>(a, b, ts, ks). t \<in> set ts) (rev decls))"

definition op_kw_map ::
  "(op_type \<times> string \<times> tok_type list \<times> keyword list) list \<Rightarrow> keyword \<Rightarrow> op_type option" where
  "op_kw_map decls k = map_option fst (find (\<lambda>(a, b, ts, ks). k \<in> set ks) (rev decls))"

definition op_get ::
  "(op_type \<times> string \<times> tok_type list \<times> keyword list) list \<Rightarrow> tok_it \<Rightarrow> op_type" where
  "op_get decls it =
    (case op_tok_map decls (tok_ty (ti_tok it)) of
       Some a \<Rightarrow> a
     | None \<Rightarrow>
         let kw = keyword_get it in
         if kw = K_NONE then O_NONE
         else case op_kw_map decls kw of None \<Rightarrow> O_NONE | Some a \<Rightarrow> a)"

definition get_unary :: "tok_it \<Rightarrow> op_type" where
  "get_unary = op_get unary_op"

definition get_binary :: "tok_it \<Rightarrow> op_type" where
  "get_binary = op_get binary_op"

definition op_name :: "op_type \<Rightarrow> string" where
  "op_name a =
    (case find (\<lambda>(a', b, ts, ks). a' = a) (unary_op @ binary_op) of
       None \<Rightarrow> [] | Some (a', b, ts, ks) \<Rightarrow> b)"

definition is_binary_op :: "op_type \<Rightarrow> bool" where
  "is_binary_op a \<longleftrightarrow> a \<in> set (map fst binary_op)"

text \<open>\<^verbatim>\<open>operator==(Op::Type, const Token&)\<close>: binary operators are the enum values behind \<^verbatim>\<open>BINARY_START\<close>.\<close>

definition op_is_token :: "op_type \<Rightarrow> tok_it \<Rightarrow> bool" where
  "op_is_token a it \<longleftrightarrow> (if is_binary_op a then a = get_binary it else a = get_unary it)"

section \<open>Facts\<close>

lemma schar_inj: "schar a = schar b \<longleftrightarrow> a = b"
proof
  assume "schar a = schar b"
  moreover have "code a < 256" "code b < 256"
    by simp_all
  ultimately have "code a = code b"
    unfolding schar_def by presburger
  then show "a = b"
    by simp
qed simp

lemma kw_cmp_neither:
  "\<not> kw_cmp a b \<and> \<not> kw_cmp b a \<longleftrightarrow> map c_tolower a = map c_tolower b"
  by (induction a b rule: kw_cmp.induct) (auto simp: char_cmp_def schar_inj [symmetric])

lemma keyword_equal_iff: "keyword_equal a b \<longleftrightarrow> map c_tolower a = map c_tolower b"
  by (simp add: keyword_equal_def kw_cmp_neither)

lemma keyword_equal_refl [simp]: "keyword_equal a a"
  by (simp add: keyword_equal_iff)

lemma kw_find_cong: "map c_tolower v = map c_tolower w \<Longrightarrow> kw_find v = kw_find w"
  by (simp add: kw_find_def keyword_equal_iff)

lemma kw_find_code [code]:
  "kw_find w =
    (let lw = map c_tolower w in
     case find (\<lambda>(k, n, s). s = lw) keyword_list of None \<Rightarrow> K_NONE | Some (k, n, s) \<Rightarrow> k)"
proof -
  have "\<forall>(k, n, s) \<in> set keyword_list. map c_tolower s = s"
    by code_simp
  then have "find (\<lambda>(k, n, s). keyword_equal s w) keyword_list
      = find (\<lambda>(k, n, s). s = map c_tolower w) keyword_list"
    by (intro find_cong) (auto simp: keyword_equal_iff)
  then show ?thesis
    by (simp add: kw_find_def Let_def)
qed

end
