(* ===== verification/Expr_Model.thy ===== *)
theory Expr_Model
  imports Keywords
begin

text \<open>
  What the expression parser produces.  The source reports an expression to a processor;
  wherever the parser has to look ahead it stores it in \<^verbatim>\<open>Stored_any\<close>, \<^verbatim>\<open>Stored_scalar\<close>,
  \<^verbatim>\<open>Stored_list\<close> and \<^verbatim>\<open>Stored_doc\<close> (parser/expr_parser.h) and replays it later.  The
  datatype below is that storage: one constructor for every value of \<^verbatim>\<open>Stored_scalar::m_type\<close>
  the parser uses, plus arrays and documents.
\<close>

section \<open>Document paths\<close>

text \<open>\<^verbatim>\<open>Doc_path_storage\<close> of cdk/api/document.h; indices are 32-bit.\<close>

datatype path_el =
    MEMBER string
  | MEMBER_ASTERISK
  | ARRAY_INDEX "32 word"
  | ARRAY_INDEX_ASTERISK
  | DOUBLE_ASTERISK

datatype doc_path = Whole_document | Path "path_el list"

definition path_is_empty :: "doc_path \<Rightarrow> bool" where
  "path_is_empty p \<longleftrightarrow> p = Path []"

section \<open>Table and column references\<close>

text \<open>
  \<^verbatim>\<open>parser::Table_ref\<close> and \<^verbatim>\<open>parser::Column_ref\<close>.  An empty name stands for an absent table
  or schema, as in their \<^verbatim>\<open>table()\<close> and \<^verbatim>\<open>schema()\<close> members.
\<close>

record table_ref =
  tr_name :: string
  tr_schema :: string

record column_ref =
  cr_table :: table_ref
  cr_name :: string

definition tref_empty :: table_ref where
  "tref_empty = \<lparr>tr_name = [], tr_schema = []\<rparr>"

definition cref_empty :: column_ref where
  "cref_empty = \<lparr>cr_table = tref_empty, cr_name = []\<rparr>"

definition tref_set :: "string \<Rightarrow> table_ref \<Rightarrow> table_ref" where
  "tref_set n t = t\<lparr>tr_name := n\<rparr>"

definition tref_set2 :: "string \<Rightarrow> string \<Rightarrow> table_ref \<Rightarrow> table_ref" where
  "tref_set2 n s t = t\<lparr>tr_name := n, tr_schema := s\<rparr>"

definition cref_has_table :: "column_ref \<Rightarrow> bool" where
  "cref_has_table c \<longleftrightarrow> tr_name (cr_table c) \<noteq> []"

definition tref_has_schema :: "table_ref \<Rightarrow> bool" where
  "tref_has_schema t \<longleftrightarrow> tr_schema t \<noteq> []"

definition cref_set_name :: "string \<Rightarrow> column_ref \<Rightarrow> column_ref" where
  "cref_set_name n c = c\<lparr>cr_name := n\<rparr>"

definition cref_set :: "string \<Rightarrow> column_ref \<Rightarrow> column_ref" where
  "cref_set n c = cref_set_name n (c\<lparr>cr_table := tref_empty\<rparr>)"

definition cref_set2 :: "string \<Rightarrow> string \<Rightarrow> column_ref \<Rightarrow> column_ref" where
  "cref_set2 n t c = (let c' = cref_set n c in c'\<lparr>cr_table := tref_set t (cr_table c')\<rparr>)"

section \<open>Expressions\<close>

text \<open>
  A floating literal is kept as the exact decimal \<open>m * 10 ^ e\<close> that its digits denote; the
  source rounds it to a \<^verbatim>\<open>double\<close>.
\<close>

datatype expr =
    V_NULL
  | V_BOOL bool
  | V_STR string
  | V_OCTETS string
  | V_INT "64 word"
  | V_UINT "64 word"
  | V_DOUBLE bool int int
  | PARAM string
  | OP string "expr list"
  | FUNC table_ref "expr list"
  | COL_REF column_ref "doc_path option"
  | PATH doc_path
  | ARR "expr list"
  | DOC "(string \<times> expr) list"

text \<open>
  \<^verbatim>\<open>Stored_doc\<close> is a \<^verbatim>\<open>std::map\<close> keyed by \<^verbatim>\<open>cdk::string\<close>: keys are kept in the order of their
  UTF-16 code units, and a repeated key replaces the earlier value.
\<close>

function utf16_units :: "string \<Rightarrow> nat list" where
  "utf16_units s =
    (case s of
       [] \<Rightarrow> []
     | c # cs \<Rightarrow> (let (ok, cp, s') = utf8_decode (c # cs) in utf16_encode cp @ utf16_units s'))"
  by pat_completeness auto
termination
  by (relation "measure length") (auto dest: utf8_decode_shorter)

declare utf16_units.simps [simp del]

fun units_less :: "nat list \<Rightarrow> nat list \<Rightarrow> bool" where
  "units_less [] [] = False"
| "units_less [] (y # ys) = True"
| "units_less (x # xs) [] = False"
| "units_less (x # xs) (y # ys) = (x < y \<or> (x = y \<and> units_less xs ys))"

definition key_less :: "string \<Rightarrow> string \<Rightarrow> bool" where
  "key_less a b = units_less (utf16_units a) (utf16_units b)"

fun doc_insert :: "string \<Rightarrow> 'v \<Rightarrow> (string \<times> 'v) list \<Rightarrow> (string \<times> 'v) list" where
  "doc_insert k v [] = [(k, v)]"
| "doc_insert k v ((k', v') # kvs) =
    (if key_less k k' then (k, v) # (k', v') # kvs
     else if key_less k' k then (k', v') # doc_insert k v kvs
     else (k', v) # kvs)"

definition doc_of_list :: "(string \<times> 'v) list \<Rightarrow> (string \<times> 'v) list" where
  "doc_of_list kvs = fold (\<lambda>(k, v). doc_insert k v) kvs []"

section \<open>The order of document keys\<close>

lemma units_less_irrefl [simp]: "\<not> units_less xs xs"
  by (induction xs) auto

lemma units_less_trans: "units_less xs ys \<Longrightarrow> units_less ys zs \<Longrightarrow> units_less xs zs"
proof (induction xs ys arbitrary: zs rule: units_less.induct)
  case (2 y ys)
  then show ?case by (cases zs) auto
next
  case (4 x xs y ys)
  then show ?case by (cases zs) auto
qed auto

lemma units_less_total: "units_less xs ys \<or> units_less ys xs \<or> xs = ys"
  by (induction xs ys rule: units_less.induct) auto

lemma key_less_irrefl [simp]: "\<not> key_less a a"
  by (simp add: key_less_def)

lemma key_less_trans: "key_less a b \<Longrightarrow> key_less b c \<Longrightarrow> key_less a c"
  unfolding key_less_def by (rule units_less_trans)

lemma key_not_less_units:
  "\<not> key_less a b \<Longrightarrow> \<not> key_less b a \<Longrightarrow> utf16_units a = utf16_units b"
  unfolding key_less_def using units_less_total by blast

fun doc_sorted :: "(string \<times> 'v) list \<Rightarrow> bool" where
  "doc_sorted [] = True"
| "doc_sorted ((k, v) # kvs) = ((\<forall>(k', v') \<in> set kvs. key_less k k') \<and> doc_sorted kvs)"

lemma key_less_congL: "utf16_units a = utf16_units b \<Longrightarrow> key_less a c = key_less b c"
  by (simp add: key_less_def)

lemma doc_insert_keys: "fst ` set (doc_insert k v kvs) \<subseteq> insert k (fst ` set kvs)"
  by (induction k v kvs rule: doc_insert.induct) auto

lemma doc_sorted_insert: "doc_sorted kvs \<Longrightarrow> doc_sorted (doc_insert k v kvs)"
proof (induction k v kvs rule: doc_insert.induct)
  case (2 k v k' v' kvs)
  consider "key_less k k'" | "\<not> key_less k k'" "key_less k' k" | "\<not> key_less k k'" "\<not> key_less k' k"
    by blast
  then show ?case
  proof cases
    case 1
    then show ?thesis using 2 by (auto intro: key_less_trans)
  next
    case 2
    with "2.IH" "2.prems" show ?thesis
      using doc_insert_keys [of k v kvs] by (fastforce simp: image_subset_iff)
  next
    case 3
    then show ?thesis using 2 by auto
  qed
qed simp

end
