(* ===== verification/Numbers.thy ===== *)
theory Numbers
  imports Expr_Model
begin

text \<open>
  String to number conversions (\<^verbatim>\<open>strtonum\<close> and its instances in parser/tokenizer.h), as the C++
  library's \<^verbatim>\<open>num_get\<close> facet of the C locale performs them on the texts of number tokens: the
  longest prefix of digits is converted, a value outside the range of the type is a conversion
  failure, and left-over characters make the conversion partial.
\<close>

datatype num_error = Conv_failed string | Conv_partial string

definition num_error_msg :: "num_error \<Rightarrow> string" where
  "num_error_msg e =
    (case e of
       Conv_failed s \<Rightarrow> ''Failed to convert string '' @ [CHR 0x27] @ s @ [CHR 0x27] @ '' to a number''
     | Conv_partial s \<Rightarrow>
         ''Not all characters consumed when converting string '' @ [CHR 0x27] @ s @ [CHR 0x27]
         @ '' to a number'')"

definition digit_val :: "char \<Rightarrow> nat" where
  "digit_val c =
    (if c_isdigit c then code c - 48
     else if c_isupper c then code c - 55
     else if c_islower c then code c - 87
     else 36)"

definition is_digit_in :: "nat \<Rightarrow> char \<Rightarrow> bool" where
  "is_digit_in radix c \<longleftrightarrow> digit_val c < radix"

definition digits_val :: "nat \<Rightarrow> string \<Rightarrow> int" where
  "digits_val radix ds = foldl (\<lambda>v c. v * int radix + int (digit_val c)) 0 ds"

text \<open>Integers of the given exclusive bound: \<open>2 ^ 64\<close> for \<^verbatim>\<open>uint64_t\<close>, \<open>2 ^ 63\<close> for \<^verbatim>\<open>int64_t\<close>.\<close>

definition strtonum_int :: "int \<Rightarrow> nat \<Rightarrow> string \<Rightarrow> num_error + int" where
  "strtonum_int bound radix s =
    (let ds = takeWhile (is_digit_in radix) s; v = digits_val radix ds in
     if ds = [] \<or> bound \<le> v then Inl (Conv_failed s)
     else if ds \<noteq> s then Inl (Conv_partial s)
     else Inr v)"

definition strtoui :: "nat \<Rightarrow> string \<Rightarrow> num_error + int" where
  "strtoui = strtonum_int 18446744073709551616"

definition strtoi :: "nat \<Rightarrow> string \<Rightarrow> num_error + int" where
  "strtoi = strtonum_int 9223372036854775808"

text \<open>
  A decimal overflows a \<^verbatim>\<open>double\<close> when it is not below the midpoint between the largest finite
  value and the next power of two.
\<close>

definition dbl_overflow_bound :: int where
  "dbl_overflow_bound = 2 ^ 1024 - 2 ^ 970"

definition dbl_overflows :: "int \<Rightarrow> int \<Rightarrow> bool" where
  "dbl_overflows m e \<longleftrightarrow>
    (if 0 \<le> e then dbl_overflow_bound \<le> m * 10 ^ nat e
     else dbl_overflow_bound * 10 ^ nat (- e) \<le> m)"

definition strtod :: "string \<Rightarrow> num_error + (int \<times> int)" where
  "strtod s =
    (let is = takeWhile c_isdigit s;
         s1 = drop (length is) s;
         (fs, s2) = (case s1 of
            c # cs \<Rightarrow> if c = CHR ''.'' then (takeWhile c_isdigit cs, dropWhile c_isdigit cs) else ([], s1)
          | [] \<Rightarrow> ([], s1));
         (hasexp, neg, es, s3) = (case s2 of
            c # cs \<Rightarrow>
              if c = CHR ''e'' \<or> c = CHR ''E'' then
                (case cs of
                   d # ds \<Rightarrow>
                     if d = CHR ''+'' \<or> d = CHR ''-''
                     then (True, d = CHR ''-'', takeWhile c_isdigit ds, dropWhile c_isdigit ds)
                     else (True, False, takeWhile c_isdigit cs, dropWhile c_isdigit cs)
                 | [] \<Rightarrow> (True, False, [], []))
              else (False, False, [], s2)
          | [] \<Rightarrow> (False, False, [], []));
         m = digits_val 10 (is @ fs);
         e = (if neg then - digits_val 10 es else digits_val 10 es) - int (length fs)
     in if is @ fs = [] \<or> (hasexp \<and> es = []) \<or> dbl_overflows m e then Inl (Conv_failed s)
        else if s3 \<noteq> [] then Inl (Conv_partial s)
        else Inr (m, e))"

lemma digits_val_append: "digits_val r (ds @ [c]) = digits_val r ds * int r + int (digit_val c)"
  by (simp add: digits_val_def)

lemma digits_val_nonneg: "0 \<le> digits_val r ds"
  by (induction ds rule: rev_induct) (simp_all add: digits_val_append digits_val_def [of r "[]"])

lemma digits_val_bound:
  "\<forall>c \<in> set ds. is_digit_in r c \<Longrightarrow> digits_val r ds < int r ^ length ds"
proof (induction ds rule: rev_induct)
  case Nil
  then show ?case by (simp add: digits_val_def)
next
  case (snoc c ds)
  then have ih: "digits_val r ds + 1 \<le> int r ^ length ds" and "int (digit_val c) < int r"
    by (auto simp: is_digit_in_def)
  then have "digits_val r ds * int r + int (digit_val c) < (digits_val r ds + 1) * int r"
    by (simp add: algebra_simps)
  also have "\<dots> \<le> int r ^ length ds * int r"
    using ih by (rule mult_right_mono) simp
  finally show ?case
    by (simp add: digits_val_append mult.commute)
qed

lemma strtonum_int_range: "strtonum_int b r s = Inr v \<Longrightarrow> 0 \<le> v \<and> v < b"
  by (auto simp: strtonum_int_def Let_def digits_val_nonneg split: if_splits)

end
