(* ===== verification/Expr_Parser.thy ===== *)
theory Expr_Parser
  imports Numbers
begin

text \<open>
  The recursive-descent parser for X DevAPI expressions: \<^verbatim>\<open>Token_base\<close>, \<^verbatim>\<open>List_parser\<close>,
  \<^verbatim>\<open>Any_parser\<close> (parser/parser.h), \<^verbatim>\<open>Expr_token_base\<close> and \<^verbatim>\<open>Expr_parser_base\<close>
  (parser/expr_parser.h and expr_parser.cc).

  Every production of the source calls the others through the dispatcher \<^verbatim>\<open>parse(Start, prc)\<close>,
  so each one is modelled as a function of that dispatcher (\<open>rec\<close>), and the dispatcher itself
  ties the knot with fuel: one unit for every nested call.  The parser state is the token
  iterator, shared by reference between all parser objects, and the member \<^verbatim>\<open>m_col_ref\<close>, which
  the productions of one parser object use to pass identifiers to each other.
\<close>

section \<open>State and token access\<close>

datatype parser_mode = DOCUMENT | TABLE

record pctx =
  px_mode :: parser_mode
  px_blobs :: bool  \<comment> \<open>\<^verbatim>\<open>m_strings_as_blobs\<close>\<close>

record pst =
  ps_it :: tok_it
  ps_col :: column_ref

datatype start =
    S_FULL | S_ATOMIC | S_MUL | S_ADD | S_SHIFT | S_BIT | S_COMP | S_ILRI | S_AND | S_OR
  | S_DOC | S_ARR

type_synonym 'a prs = "pst \<Rightarrow> ('a \<times> pst) outcome"
type_synonym dispatcher = "pctx \<Rightarrow> start \<Rightarrow> expr prs"

definition parse_error :: "string \<Rightarrow> 'a prs" where
  "parse_error msg st = throw_error msg (ps_it st)"

definition unsupported :: "string \<Rightarrow> 'a prs" where
  "unsupported what = parse_error (what @ '' not supported yet'')"

definition tokens_available :: "pst \<Rightarrow> bool" where
  "tokens_available st \<longleftrightarrow> \<not> ti_end (ps_it st)"

definition cur_type :: "pst \<Rightarrow> tok_type" where
  "cur_type st = tok_ty (ti_tok (ps_it st))"

definition cur_text :: "pst \<Rightarrow> string" where
  "cur_text st = tok_bytes (ps_it st)"

definition cur_token_type_is :: "tok_type \<Rightarrow> pst \<Rightarrow> bool" where
  "cur_token_type_is t st \<longleftrightarrow> tokens_available st \<and> cur_type st = t"

definition cur_token_type_in :: "tok_type list \<Rightarrow> pst \<Rightarrow> bool" where
  "cur_token_type_in ts st \<longleftrightarrow> tokens_available st \<and> cur_type st \<in> set ts"

definition cur_kw :: "pst \<Rightarrow> keyword" where
  "cur_kw st = keyword_get (ps_it st)"

definition cur_kw_is :: "keyword \<Rightarrow> pst \<Rightarrow> bool" where
  "cur_kw_is k st \<longleftrightarrow> tokens_available st \<and> cur_kw st = k"

definition cur_kw_in :: "keyword list \<Rightarrow> pst \<Rightarrow> bool" where
  "cur_kw_in ks st \<longleftrightarrow> tokens_available st \<and> cur_kw st \<in> set ks"

definition cur_op_is :: "op_type \<Rightarrow> pst \<Rightarrow> bool" where
  "cur_op_is a st \<longleftrightarrow> tokens_available st \<and> op_is_token a (ps_it st)"

definition cur_op_in :: "op_type list \<Rightarrow> pst \<Rightarrow> bool" where
  "cur_op_in ops st \<longleftrightarrow>
     tokens_available st \<and> (get_binary (ps_it st) \<in> set ops \<or> get_unary (ps_it st) \<in> set ops)"

text \<open>
  \<^verbatim>\<open>consume_token()\<close>: the text of the current token, and the iterator moved on.  Moving on runs
  the tokenizer, which may throw.
\<close>

definition consume_token :: "string prs" where
  "consume_token st = ebind (tok_next (ps_it st)) (\<lambda>it. Inr (cur_text st, st\<lparr>ps_it := it\<rparr>))"

definition consume_if :: "(pst \<Rightarrow> bool) \<Rightarrow> bool prs" where
  "consume_if p st =
    (if p st then ebind (consume_token st) (\<lambda>(t, st'). Inr (True, st')) else Inr (False, st))"

definition consume_throw :: "(pst \<Rightarrow> bool) \<Rightarrow> string \<Rightarrow> string prs" where
  "consume_throw p msg st = (if p st then consume_token st else parse_error msg st)"

section \<open>CAST\<close>

definition cast_data_type_dimension :: "bool \<Rightarrow> string prs" where
  "cast_data_type_dimension double st =
    ebind (consume_throw (cur_token_type_is T_LPAREN) ''Expected type dimension specification'' st)
     (\<lambda>(u, st1).
    ebind (consume_throw (cur_token_type_is T_INTEGER) ''Expected integer type dimension'' st1)
     (\<lambda>(i, st2).
    ebind (if double then consume_if (cur_token_type_is T_COMMA) st2 else Inr (False, st2))
     (\<lambda>(comma, st3).
    ebind (if comma
           then ebind (consume_throw (cur_token_type_is T_INTEGER)
                        (''Expected second type dimension after '' @ [CHR 0x27] @ '','' @ [CHR 0x27]) st3)
                  (\<lambda>(j, st4). Inr ('','' @ j, st4))
           else Inr ([], st3))
     (\<lambda>(second, st5).
    ebind (consume_throw (cur_token_type_is T_RPAREN)
            (''Expected '' @ [CHR 0x27] @ '')'' @ [CHR 0x27] @ '' closing type dimension specification'') st5)
     (\<lambda>(v, st6). Inr (''('' @ i @ second @ '')'', st6))))))"

definition parse_cast_type :: "string prs" where
  "parse_cast_type st =
    (if \<not> tokens_available st then parse_error ''Expected cast type'' st
     else
       let type = cur_kw st in
       ebind (consume_token st) (\<lambda>(t, st1).
         if type = K_NONE then parse_error ''Unexpected cast type'' st1
         else if type \<in> {K_BINARY, K_CHAR, K_DECIMAL} then
           (if cur_token_type_is T_LPAREN st1
            then ebind (cast_data_type_dimension (type = K_DECIMAL) st1)
                   (\<lambda>(dim, st2). Inr (keyword_name type @ dim, st2))
            else Inr (keyword_name type, st1))
         else if type \<in> {K_SIGNED, K_UNSIGNED} then
           ebind (consume_if (cur_kw_in [K_INTEGER, K_INT]) st1)
             (\<lambda>(b, st2). Inr (keyword_name type @ '' '' @ keyword_name K_INTEGER, st2))
         else if type \<in> {K_DATE, K_DATETIME, K_TIME, K_INTEGER, K_JSON} then
           Inr (keyword_name type, st1)
         else parse_error ''Unexpected cast type'' st1))"

definition parse_cast :: "dispatcher \<Rightarrow> pctx \<Rightarrow> expr option prs" where
  "parse_cast rec ctx st =
    ebind (consume_if (cur_op_is O_CAST) st) (\<lambda>(b, st1).
      if \<not> b then Inr (None, st1)
      else
        ebind (consume_throw (cur_token_type_is T_LPAREN)
                (''Expected '' @ [CHR 0x27] @ ''('' @ [CHR 0x27] @ '' after CAST'') st1) (\<lambda>(u, st2).
        ebind (rec ctx S_FULL st2) (\<lambda>(e, st3).
        ebind (consume_throw (cur_kw_is K_AS) ''Expected AS after expression inside CAST operator'' st3)
         (\<lambda>(v, st4).
        ebind (parse_cast_type st4) (\<lambda>(ty, st5).
        ebind (consume_throw (cur_token_type_is T_RPAREN)
                (''Expected '' @ [CHR 0x27] @ '')'' @ [CHR 0x27] @ '' closing CAST operator call'') st5)
         (\<lambda>(w, st6). Inr (Some (OP (op_name O_CAST) [e, V_OCTETS ty]), st6)))))))"

section \<open>Document paths\<close>

definition get_ident :: "string option prs" where
  "get_ident st =
    (if cur_token_type_in [T_WORD, T_QWORD] st
     then ebind (consume_token st) (\<lambda>(t, st'). Inr (Some t, st'))
     else Inr (None, st))"

definition parse_docpath_member :: "path_el option prs" where
  "parse_docpath_member st =
    (if cur_token_type_is T_STAR st
     then ebind (consume_token st) (\<lambda>(t, st'). Inr (Some MEMBER_ASTERISK, st'))
     else if cur_token_type_in [T_WORD, T_QQSTRING, T_QSTRING] st
     then ebind (consume_token st) (\<lambda>(t, st'). Inr (Some (MEMBER t), st'))
     else Inr (None, st))"

definition parse_docpath_member_dot :: "path_el option prs" where
  "parse_docpath_member_dot st =
    ebind (consume_if (cur_token_type_is T_DOT) st) (\<lambda>(b, st1).
      if \<not> b then Inr (None, st1)
      else ebind (parse_docpath_member st1) (\<lambda>(m, st2).
        case m of
          None \<Rightarrow> parse_error (''Expected member name or '' @ [CHR 0x27] @ ''*'' @ [CHR 0x27]
                   @ '' after '' @ [CHR 0x27] @ ''.'' @ [CHR 0x27] @ '' in a document path'') st2
        | Some el \<Rightarrow> Inr (Some el, st2)))"

definition parse_docpath_array :: "path_el option prs" where
  "parse_docpath_array st =
    ebind (consume_if (cur_token_type_is T_LSQBRACKET) st) (\<lambda>(b, st1).
      if \<not> b then Inr (None, st1)
      else
        ebind (consume_if (cur_token_type_is T_STAR) st1) (\<lambda>(star, st2).
        ebind (if star then Inr (ARRAY_INDEX_ASTERISK, st2)
               else if \<not> cur_token_type_is T_INTEGER st2
               then parse_error (''Expected '' @ [CHR 0x27] @ ''*'' @ [CHR 0x27]
                 @ '' or integer index after '' @ [CHR 0x27] @ ''['' @ [CHR 0x27]
                 @ '' in a document path'') st2
               else ebind (consume_token st2) (\<lambda>(t, st3).
                 case strtoui 10 t of
                   Inl e \<Rightarrow> parse_error (num_error_msg e) st3
                 | Inr v \<Rightarrow>
                     if 4294967296 \<le> v then parse_error ''Array index too large'' st3
                     else Inr (ARRAY_INDEX (word_of_int v), st3)))
         (\<lambda>(el, st4).
        ebind (consume_throw (cur_token_type_is T_RSQBRACKET)
                (''Expected '' @ [CHR 0x27] @ '']'' @ [CHR 0x27]
                 @ '' to close a document path array component'') st4)
         (\<lambda>(u, st5). Inr (Some el, st5)))))"

text \<open>
  The loop of \<^verbatim>\<open>parse_document_path1\<close>; the Boolean is \<^verbatim>\<open>last_double_star\<close>, the result the
  path items in order.  Each round spends a unit of fuel.
\<close>

fun document_path_loop :: "nat \<Rightarrow> bool \<Rightarrow> path_el list prs" where
  "document_path_loop 0 last_ds st = Inl Out_of_fuel"
| "document_path_loop (Suc n) last_ds st =
    (if \<not> cur_token_type_in [T_DOUBLESTAR, T_DOT, T_LSQBRACKET] st
     then if last_ds
          then parse_error (''Document path ending in '' @ [CHR 0x27] @ ''**'' @ [CHR 0x27]) st
          else Inr ([], st)
     else
       ebind (consume_if (cur_token_type_is T_DOUBLESTAR) st) (\<lambda>(ds, st1).
       if ds then ebind (document_path_loop n True st1) (\<lambda>(els, st2). Inr (DOUBLE_ASTERISK # els, st2))
       else
         ebind (parse_docpath_member_dot st1) (\<lambda>(m, st2).
           case m of
             Some el \<Rightarrow> ebind (document_path_loop n False st2) (\<lambda>(els, st3). Inr (el # els, st3))
           | None \<Rightarrow>
               ebind (parse_docpath_array st2) (\<lambda>(a, st3).
                 case a of
                   Some el \<Rightarrow> ebind (document_path_loop n False st3) (\<lambda>(els, st4). Inr (el # els, st4))
                 | None \<Rightarrow> Inr ([], st3)))))"

definition parse_document_path1 :: "nat \<Rightarrow> path_el list prs" where
  "parse_document_path1 n = document_path_loop n False"

definition parse_document_path :: "nat \<Rightarrow> bool \<Rightarrow> path_el list option prs" where
  "parse_document_path n require_dot st =
    ebind (consume_if (cur_token_type_is T_DOUBLESTAR) st) (\<lambda>(ds, st1).
    ebind (if ds then Inr (Some DOUBLE_ASTERISK, st1)
           else ebind (parse_docpath_member_dot st1) (\<lambda>(m, st2).
             if m \<noteq> None then Inr (m, st2)
             else if require_dot then Inr (None, st2)
             else parse_docpath_member st2))
     (\<lambda>(first, st3).
       case first of
         None \<Rightarrow> Inr (None, st3)
       | Some el \<Rightarrow>
           ebind (parse_document_path1 n st3) (\<lambda>(els, st4).
             if els = [] \<and> ds
             then parse_error (''Document path ending in '' @ [CHR 0x27] @ ''**'' @ [CHR 0x27]) st4
             else Inr (Some (el # els), st4))))"

definition parse_document_field :: "nat \<Rightarrow> bool \<Rightarrow> doc_path prs" where
  "parse_document_field n prefix st =
    ebind (consume_if (cur_token_type_is T_DOLLAR) st) (\<lambda>(dollar, st1).
      if dollar then
        ebind (parse_document_path n True st1) (\<lambda>(p, st2).
          case p of None \<Rightarrow> Inr (Whole_document, st2) | Some els \<Rightarrow> Inr (Path els, st2))
      else if prefix
      then parse_error (''Expected '' @ [CHR 0x27] @ ''$'' @ [CHR 0x27] @ '' to start a document path'') st1
      else
        ebind (parse_document_path n False st1) (\<lambda>(p, st2).
          case p of None \<Rightarrow> parse_error ''Expected a document path'' st2
          | Some els \<Rightarrow> Inr (Path els, st2)))"

text \<open>The two overloads that take initial member segments.\<close>

definition parse_document_field_from :: "nat \<Rightarrow> string list \<Rightarrow> doc_path prs" where
  "parse_document_field_from n firsts st =
    ebind (parse_document_path1 n st) (\<lambda>(els, st1). Inr (Path (map MEMBER firsts @ els), st1))"

section \<open>Identifiers\<close>

text \<open>
  \<^verbatim>\<open>parse_schema_ident\<close>: success flag and the types of the looked-at tokens
  (\<open>T_EMPTY\<close> for none); the identifier goes to \<^verbatim>\<open>m_col_ref.m_table_ref\<close>.
\<close>

definition set_table :: "(table_ref \<Rightarrow> table_ref) \<Rightarrow> pst \<Rightarrow> pst" where
  "set_table f st = st\<lparr>ps_col := (ps_col st)\<lparr>cr_table := f (cr_table (ps_col st))\<rparr>\<rparr>"

definition parse_schema_ident :: "(bool \<times> tok_type \<times> tok_type) prs" where
  "parse_schema_ident st =
    (if \<not> tokens_available st then Inr ((False, T_EMPTY, T_EMPTY), st)
     else
       let t0 = cur_type st in
       ebind (get_ident st) (\<lambda>(id, st1).
         case id of
           None \<Rightarrow> Inr ((False, t0, T_EMPTY), st1)
         | Some name \<Rightarrow>
             ebind (consume_if (cur_token_type_is T_DOT) (set_table (tref_set name) st1)) (\<lambda>(dot, st2).
               if \<not> dot then Inr ((True, t0, T_EMPTY), st2)
               else if \<not> tokens_available st2 then Inr ((False, t0, T_EMPTY), st2)
               else
                 let t1 = cur_type st2 in
                 ebind (get_ident st2) (\<lambda>(id1, st3).
                   case id1 of
                     None \<Rightarrow> Inr ((False, t0, t1), st3)
                   | Some name1 \<Rightarrow> Inr ((True, t0, t1), set_table (tref_set2 name1 name) st3)))))"

text \<open>
  \<^verbatim>\<open>parse_column_ident1\<close>: completes the column reference in \<^verbatim>\<open>m_col_ref\<close> and returns the path
  (\<open>Path []\<close> when there is none).  A quoted path is parsed from a token sequence of its own.
\<close>

definition parse_column_ident1 :: "nat \<Rightarrow> doc_path prs" where
  "parse_column_ident1 n st =
    ebind (consume_if (cur_token_type_is T_DOT) st) (\<lambda>(dot, st1).
    ebind (if dot then
             ebind (get_ident st1) (\<lambda>(id, st2).
               case id of
                 None \<Rightarrow> parse_error (''Expected identifier after '' @ [CHR 0x27] @ ''.'' @ [CHR 0x27]) st2
               | Some name \<Rightarrow> Inr ((), st2\<lparr>ps_col := cref_set_name name (ps_col st2)\<rparr>))
           else
             let t = cr_table (ps_col st1) in
             Inr ((), st1\<lparr>ps_col :=
               (if tref_has_schema t then cref_set2 (tr_name t) (tr_schema t) (ps_col st1)
                else cref_set (tr_name t) (ps_col st1))\<rparr>))
     (\<lambda>(u, st3).
    ebind (consume_if (\<lambda>s. cur_token_type_is T_ARROW s \<or> cur_token_type_is T_ARROW2 s) st3)
     (\<lambda>(arrow, st4).
      if \<not> arrow then Inr (Path [], st4)
      else if cur_token_type_in [T_QSTRING, T_QQSTRING] st4 then
        ebind (consume_token st4) (\<lambda>(str, st5).
        ebind (tokenizer_begin str) (\<lambda>it.
        ebind (parse_document_field n True \<lparr>ps_it = it, ps_col = cref_empty\<rparr>) (\<lambda>(p, st6).
          if tokens_available st6
          then parse_error ''Unexpected characters in a quoted path component'' st5
          else Inr (p, st5))))
      else parse_document_field n True st4)))"

definition parse_column_ident :: "nat \<Rightarrow> doc_path prs" where
  "parse_column_ident n st =
    ebind (parse_schema_ident st) (\<lambda>((ok, t0, t1), st1).
      if \<not> ok then parse_error ''Expected a column identifier'' st1
      else parse_column_ident1 n st1)"

section \<open>Lists, arrays and documents\<close>

text \<open>\<^verbatim>\<open>List_parser::do_parse\<close> for elements that always parse or throw.\<close>

fun list_loop :: "nat \<Rightarrow> 'a prs \<Rightarrow> 'a list prs" where
  "list_loop 0 el st = Inl Out_of_fuel"
| "list_loop (Suc n) el st =
    ebind (el st) (\<lambda>(x, st1).
    ebind (consume_if (cur_token_type_is T_COMMA) st1) (\<lambda>(comma, st2).
      if \<not> comma then Inr ([x], st2)
      else ebind (list_loop n el st2) (\<lambda>(xs, st3). Inr (x # xs, st3))))"

text \<open>A new parser object on the same tokens: its own \<^verbatim>\<open>m_col_ref\<close>, the caller's is kept.\<close>

definition fresh_parser :: "'a prs \<Rightarrow> 'a prs" where
  "fresh_parser p st =
    ebind (p (st\<lparr>ps_col := cref_empty\<rparr>)) (\<lambda>(x, st1). Inr (x, st1\<lparr>ps_col := ps_col st\<rparr>))"

definition parse_argslist :: "nat \<Rightarrow> dispatcher \<Rightarrow> pctx \<Rightarrow> bool \<Rightarrow> expr list prs" where
  "parse_argslist n rec ctx blobs =
    list_loop n (fresh_parser (rec (ctx\<lparr>px_blobs := blobs\<rparr>) S_FULL))"

text \<open>\<^verbatim>\<open>Any_parser::do_parse\<close>: array elements and document values.\<close>

definition parse_any :: "dispatcher \<Rightarrow> pctx \<Rightarrow> expr prs" where
  "parse_any rec ctx st =
    (if cur_token_type_is T_LCURLY st then rec ctx S_DOC st
     else if cur_token_type_is T_LSQBRACKET st then rec ctx S_ARR st
     else rec ctx S_FULL st)"

definition parse_arr :: "nat \<Rightarrow> dispatcher \<Rightarrow> pctx \<Rightarrow> expr list prs" where
  "parse_arr n rec ctx st =
    (let ctx' = ctx\<lparr>px_blobs := False\<rparr> in
     ebind (consume_token st) (\<lambda>(u, st1).
     ebind (if cur_token_type_is T_RSQBRACKET st1 then Inr ([], st1)
            else list_loop n (fresh_parser (parse_any rec ctx')) st1) (\<lambda>(es, st2).
     ebind (consume_throw (cur_token_type_is T_RSQBRACKET)
             (''Expected '' @ [CHR 0x27] @ '']'' @ [CHR 0x27] @ '' to close array'') st2)
      (\<lambda>(v, st3). Inr (es, st3)))))"

text \<open>\<^verbatim>\<open>KV_parser\<close>; the first argument says whether this is the first pair of the document.\<close>

definition parse_kv :: "dispatcher \<Rightarrow> pctx \<Rightarrow> bool \<Rightarrow> (string \<times> expr) prs" where
  "parse_kv rec ctx is_first st =
    (if \<not> cur_token_type_in [T_QQSTRING, T_QSTRING, T_WORD] st
     then parse_error (if is_first then ''Expected a key-value pair in a document''
                       else ''Expected next list element'') st
     else
       ebind (consume_token st) (\<lambda>(key, st1).
       ebind (consume_throw (cur_token_type_is T_COLON)
               (''Expected '' @ [CHR 0x27] @ '':'' @ [CHR 0x27] @ '' after key name in a document'') st1)
        (\<lambda>(u, st2).
       ebind (parse_any rec ctx st2) (\<lambda>(v, st3). Inr ((key, v), st3)))))"

fun kv_loop :: "nat \<Rightarrow> dispatcher \<Rightarrow> pctx \<Rightarrow> bool \<Rightarrow> (string \<times> expr) list prs" where
  "kv_loop 0 rec ctx is_first st = Inl Out_of_fuel"
| "kv_loop (Suc n) rec ctx is_first st =
    ebind (fresh_parser (parse_kv rec ctx is_first) st) (\<lambda>(x, st1).
    ebind (consume_if (cur_token_type_is T_COMMA) st1) (\<lambda>(comma, st2).
      if \<not> comma then Inr ([x], st2)
      else ebind (kv_loop n rec ctx False st2) (\<lambda>(xs, st3). Inr (x # xs, st3))))"

definition parse_doc :: "nat \<Rightarrow> dispatcher \<Rightarrow> pctx \<Rightarrow> (string \<times> expr) list prs" where
  "parse_doc n rec ctx st =
    (let ctx' = ctx\<lparr>px_blobs := False\<rparr> in
     ebind (consume_token st) (\<lambda>(u, st1).
     ebind (if cur_token_type_is T_RCURLY st1 then Inr ([], st1)
            else kv_loop n rec ctx' True st1) (\<lambda>(kvs, st2).
     ebind (consume_throw (cur_token_type_is T_RCURLY)
             (''Expected '' @ [CHR 0x27] @ ''}'' @ [CHR 0x27] @ '' closing a document'') st2)
      (\<lambda>(v, st3). Inr (doc_of_list kvs, st3)))))"

section \<open>Function calls\<close>

text \<open>
  The argument \<^verbatim>\<open>func\<close> of \<^verbatim>\<open>parse_function_call\<close> and \<^verbatim>\<open>parse_special_args\<close> is a reference to
  \<^verbatim>\<open>m_col_ref.m_table_ref\<close>, so its later uses read what parsing the first argument left there.
\<close>

definition parse_special_args :: "dispatcher \<Rightarrow> pctx \<Rightarrow> expr list prs" where
  "parse_special_args rec ctx st =
    (let func = cr_table (ps_col st) in
     if tref_has_schema func then Inr ([], st)
     else if keyword_equal (tr_name func) ''char'' then
       (if cur_kw_is K_USING st then unsupported ''USING clause inside function CHAR()'' st
        else Inr ([], st))
     else if keyword_equal (tr_name func) ''trim'' \<and> cur_kw_is K_FROM st
     then unsupported ''FROM clause inside function TRIM()'' st
     else if keyword_equal (tr_name func) ''position'' then
       ebind (consume_throw (cur_kw_is K_IN) ''Expected IN inside POSITION(... IN ...)'' st) (\<lambda>(u, st1).
       ebind (rec ctx S_FULL st1) (\<lambda>(e, st2). Inr ([e], st2)))
     else Inr ([], st))"

definition parse_function_call :: "nat \<Rightarrow> dispatcher \<Rightarrow> pctx \<Rightarrow> expr option prs" where
  "parse_function_call n rec ctx st =
    ebind (consume_if (cur_token_type_is T_LPAREN) st) (\<lambda>(b, st1).
      if \<not> b then Inr (None, st1)
      else
        let func = cr_table (ps_col st1);
            qualified = tref_has_schema func;
            is_position = (\<not> qualified \<and> keyword_equal (tr_name func) ''position'');
            callee = (if is_position then tref_set ''locate'' tref_empty else func) in
        ebind (if cur_token_type_is T_RPAREN st1 then Inr ([], st1)
               else if \<not> qualified \<and> keyword_equal (tr_name func) ''trim''
                       \<and> cur_kw_in [K_BOTH, K_LEADING, K_TRAILING] st1
               then unsupported ''LEADING, TRAILING or BOTH clause inside function TRIM()'' st1
               else
                 ebind (rec ctx (if is_position then S_COMP else S_FULL) st1) (\<lambda>(e, st2).
                 ebind (consume_if (cur_token_type_is T_COMMA) st2) (\<lambda>(comma, st3).
                 ebind (if comma then parse_argslist n rec ctx False st3
                        else parse_special_args rec ctx st3)
                  (\<lambda>(es, st4). Inr (e # es, st4)))))
         (\<lambda>(args, st5).
        ebind (consume_throw (cur_token_type_is T_RPAREN)
                (''Expected '' @ [CHR 0x27] @ '')'' @ [CHR 0x27] @ '' to close function argument list'') st5)
         (\<lambda>(u, st6). Inr (Some (FUNC callee args), st6))))"

section \<open>Atomic expressions\<close>

definition num_result :: "num_error + 'a \<Rightarrow> ('a \<Rightarrow> expr) \<Rightarrow> expr prs" where
  "num_result r f st = (case r of Inl e \<Rightarrow> parse_error (num_error_msg e) st | Inr v \<Rightarrow> Inr (f v, st))"

text \<open>Literals; \<open>None\<close> when the current token is none.  \<open>neg\<close> is set behind a unary minus.\<close>

definition parse_literal :: "pctx \<Rightarrow> bool \<Rightarrow> expr option prs" where
  "parse_literal ctx neg st =
    (let kw = cur_kw st; lift = (\<lambda>p s. ebind (p s) (\<lambda>(e, s'). Inr (Some e, s'))) in
     if kw = K_L_NULL then ebind (consume_token st) (\<lambda>(t, st1). Inr (Some V_NULL, st1))
     else if kw = K_L_TRUE \<or> kw = K_L_FALSE
     then ebind (consume_token st) (\<lambda>(t, st1). Inr (Some (V_BOOL (kw = K_L_TRUE)), st1))
     else case cur_type st of
       T_QQSTRING \<Rightarrow> ebind (consume_token st)
         (\<lambda>(t, st1). Inr (Some (if px_blobs ctx then V_OCTETS t else V_STR t), st1))
     | T_QSTRING \<Rightarrow> ebind (consume_token st)
         (\<lambda>(t, st1). Inr (Some (if px_blobs ctx then V_OCTETS t else V_STR t), st1))
     | T_NUMBER \<Rightarrow> ebind (consume_token st)
         (\<lambda>(t, st1). lift (num_result (strtod t) (\<lambda>(m, e). V_DOUBLE neg m e)) st1)
     | T_INTEGER \<Rightarrow> ebind (consume_token st) (\<lambda>(t, st1).
         if neg then lift (num_result (strtoi 10 t) (\<lambda>v. V_INT (word_of_int (- v)))) st1
         else lift (num_result (strtoui 10 t) (\<lambda>v. V_UINT (word_of_int v))) st1)
     | T_HEX \<Rightarrow> ebind (consume_token st) (\<lambda>(t, st1).
         if neg then lift (num_result (strtoi 16 t) (\<lambda>v. V_INT (word_of_int (- v)))) st1
         else lift (num_result (strtoui 16 t) (\<lambda>v. V_UINT (word_of_int v))) st1)
     | _ \<Rightarrow> Inr (None, st))"

definition parse_reference :: "nat \<Rightarrow> dispatcher \<Rightarrow> pctx \<Rightarrow> expr prs" where
  "parse_reference n rec ctx st =
    ebind (parse_schema_ident (st\<lparr>ps_col := cref_empty\<rparr>)) (\<lambda>((ident, t0, t1), st1).
    ebind (if ident then parse_function_call n rec ctx st1 else Inr (None, st1)) (\<lambda>(fc, st2).
      case fc of
        Some e \<Rightarrow> Inr (e, st2)
      | None \<Rightarrow>
          if px_mode ctx = TABLE then
            (if \<not> ident then parse_error ''Expected atomic expression'' st2
             else ebind (parse_column_ident1 n st2) (\<lambda>(p, st3).
               Inr (COL_REF (ps_col st3) (if path_is_empty p then None else Some p), st3)))
          else if t0 = T_QWORD \<or> t1 = T_QWORD
          then parse_error ''Expected atomic expression'' st2
          else
            let c = ps_col st2 in
            ebind (if cref_has_table c \<and> tref_has_schema (cr_table c)
                   then parse_document_field_from n [tr_schema (cr_table c), tr_name (cr_table c)] st2
                   else if cref_has_table c
                   then parse_document_field_from n [tr_name (cr_table c)] st2
                   else parse_document_field n True st2)
             (\<lambda>(p, st3). Inr (PATH p, st3))))"

definition parse_unary_arg :: "dispatcher \<Rightarrow> pctx \<Rightarrow> op_type \<Rightarrow> expr prs" where
  "parse_unary_arg rec ctx a st =
    ebind (rec ctx S_ATOMIC st) (\<lambda>(e, st1). Inr (OP (op_name a) [e], st1))"

definition parse_literal_or_reference :: "nat \<Rightarrow> dispatcher \<Rightarrow> pctx \<Rightarrow> bool \<Rightarrow> expr prs" where
  "parse_literal_or_reference n rec ctx neg st =
    ebind (parse_literal ctx neg st) (\<lambda>(l, st1).
      case l of Some e \<Rightarrow> Inr (e, st1) | None \<Rightarrow> parse_reference n rec ctx st1)"

definition parse_atomic :: "nat \<Rightarrow> dispatcher \<Rightarrow> pctx \<Rightarrow> expr prs" where
  "parse_atomic n rec ctx st =
    (if \<not> tokens_available st then parse_error ''Expected an expression'' st
     else if cur_type st = T_LCURLY then rec ctx S_DOC st
     else if cur_type st = T_LSQBRACKET then rec ctx S_ARR st
     else if cur_type st = T_LPAREN then
       ebind (consume_token st) (\<lambda>(u, st1).
       ebind (rec ctx S_FULL st1) (\<lambda>(e, st2).
       ebind (consume_throw (cur_token_type_is T_RPAREN)
               (''Expected '' @ [CHR 0x27] @ '')'' @ [CHR 0x27]
                @ '' to close parenthesized sub-expression'') st2)
        (\<lambda>(v, st3). Inr (e, st3))))
     else if cur_type st = T_COLON then
       ebind (consume_token st) (\<lambda>(u, st1).
       ebind (consume_throw (cur_token_type_is T_WORD)
               (''Expected parameter name after '' @ [CHR 0x27] @ '':'' @ [CHR 0x27]) st1)
        (\<lambda>(name, st2). Inr (PARAM name, st2)))
     else if cur_op_is O_STAR st then
       ebind (consume_token st) (\<lambda>(u, st1). Inr (OP (op_name O_STAR) [], st1))
     else
       ebind (parse_cast rec ctx st) (\<lambda>(c, st1).
         case c of
           Some e \<Rightarrow> Inr (e, st1)
         | None \<Rightarrow>
             let a = get_unary (ps_it st1) in
             if a = O_PLUS \<or> a = O_MINUS then
               ebind (consume_token st1) (\<lambda>(u, st2).
                 if cur_token_type_in [T_NUMBER, T_INTEGER] st2
                 then parse_literal_or_reference n rec ctx (a = O_MINUS) st2
                 else parse_unary_arg rec ctx a st2)
             else if a = O_NEG \<or> a = O_NOT \<or> a = O_BITNEG then
               ebind (consume_token st1) (\<lambda>(u, st2). parse_unary_arg rec ctx a st2)
             else parse_literal_or_reference n rec ctx False st1))"

section \<open>Operators\<close>

definition left_assoc_binary_op ::
  "dispatcher \<Rightarrow> pctx \<Rightarrow> op_type list \<Rightarrow> start \<Rightarrow> start \<Rightarrow> expr prs" where
  "left_assoc_binary_op rec ctx ops lhs rhs st =
    ebind (rec ctx lhs st) (\<lambda>(l, st1).
      if \<not> cur_op_in ops st1 then Inr (l, st1)
      else
        let a = get_binary (ps_it st1) in
        ebind (consume_token st1) (\<lambda>(u, st2).
        ebind (rec ctx rhs st2) (\<lambda>(r, st3). Inr (OP (op_name a) [l, r], st3))))"

definition parse_mul :: "dispatcher \<Rightarrow> pctx \<Rightarrow> expr prs" where
  "parse_mul rec ctx = left_assoc_binary_op rec ctx [O_MUL, O_DIV, O_MOD] S_ATOMIC S_MUL"

definition parse_add :: "dispatcher \<Rightarrow> pctx \<Rightarrow> expr prs" where
  "parse_add rec ctx = left_assoc_binary_op rec ctx [O_ADD, O_SUB] S_MUL S_ADD"

definition parse_shift :: "dispatcher \<Rightarrow> pctx \<Rightarrow> expr prs" where
  "parse_shift rec ctx = left_assoc_binary_op rec ctx [O_LSHIFT, O_RSHIFT] S_ADD S_SHIFT"

definition parse_bit :: "dispatcher \<Rightarrow> pctx \<Rightarrow> expr prs" where
  "parse_bit rec ctx st =
    (if cur_op_is O_BITNEG st
     then ebind (consume_token st) (\<lambda>(u, st1). parse_unary_arg rec ctx O_BITNEG st1)
     else left_assoc_binary_op rec ctx [O_BITAND, O_BITOR, O_BITXOR] S_SHIFT S_BIT st)"

definition parse_comp :: "dispatcher \<Rightarrow> pctx \<Rightarrow> expr prs" where
  "parse_comp rec ctx =
    left_assoc_binary_op rec ctx [O_GE, O_GT, O_LE, O_LT, O_EQ, O_NE] S_BIT S_COMP"

definition parse_and :: "dispatcher \<Rightarrow> pctx \<Rightarrow> expr prs" where
  "parse_and rec ctx = left_assoc_binary_op rec ctx [O_AND] S_ILRI S_AND"

definition parse_or :: "dispatcher \<Rightarrow> pctx \<Rightarrow> expr prs" where
  "parse_or rec ctx = left_assoc_binary_op rec ctx [O_OR] S_AND S_OR"

text \<open>The operator that is reported, from the one that was read and the negation.\<close>

definition ilri_op :: "op_type \<Rightarrow> bool \<Rightarrow> bool \<Rightarrow> op_type" where
  "ilri_op a neg lparen =
    (case a of
       O_IS \<Rightarrow> if neg then O_IS_NOT else a
     | O_IN \<Rightarrow> if \<not> lparen then (if neg then O_NOT_CONT_IN else O_CONT_IN)
               else if neg then O_NOT_IN else a
     | O_LIKE \<Rightarrow> if neg then O_NOT_LIKE else a
     | O_RLIKE \<Rightarrow> if neg then O_NOT_RLIKE else a
     | O_BETWEEN \<Rightarrow> if neg then O_NOT_BETWEEN else a
     | O_REGEXP \<Rightarrow> if neg then O_NOT_REGEXP else a
     | O_OVERLAPS \<Rightarrow> if neg then O_NOT_OVERLAPS else a
     | _ \<Rightarrow> a)"

definition ilri_args :: "nat \<Rightarrow> dispatcher \<Rightarrow> pctx \<Rightarrow> op_type \<Rightarrow> expr list prs" where
  "ilri_args n rec ctx a st =
    (let comp = (\<lambda>s. ebind (rec ctx S_COMP s) (\<lambda>(e, s'). Inr ([e], s'))) in
     if a = O_IS \<or> a = O_IS_NOT then
       (let kw = (if tokens_available st then cur_kw st else K_NONE) in
        ebind (if tokens_available st then consume_token st else Inr ([], st)) (\<lambda>(u, st1).
          case kw of
            K_L_TRUE \<Rightarrow> Inr ([V_BOOL True], st1)
          | K_L_FALSE \<Rightarrow> Inr ([V_BOOL False], st1)
          | K_L_NULL \<Rightarrow> Inr ([V_NULL], st1)
          | _ \<Rightarrow> parse_error ''expected TRUE, FALSE or NULL after IS'' st1))
     else if a \<in> {O_IN, O_CONT_IN, O_NOT_IN, O_NOT_CONT_IN} then
       ebind (consume_if (cur_token_type_is T_LPAREN) st) (\<lambda>(b, st1).
         if b then
           ebind (parse_argslist n rec ctx True st1) (\<lambda>(es, st2).
           ebind (consume_throw (cur_token_type_is T_RPAREN)
                   (''Expected '' @ [CHR 0x27] @ '')'' @ [CHR 0x27] @ '' to close IN(... expression'') st2)
            (\<lambda>(u, st3). Inr (es, st3)))
         else comp st1)
     else if a \<in> {O_LIKE, O_NOT_LIKE, O_RLIKE, O_NOT_RLIKE} then
       ebind (comp st) (\<lambda>(es, st1).
         if cur_kw_is K_ESCAPE st1 then unsupported ''ESCAPE clause for (R)LIKE operator'' st1
         else Inr (es, st1))
     else if a \<in> {O_REGEXP, O_NOT_REGEXP, O_OVERLAPS, O_NOT_OVERLAPS} then comp st
     else if a \<in> {O_BETWEEN, O_NOT_BETWEEN} then
       ebind (comp st) (\<lambda>(es, st1).
       ebind (consume_throw (cur_kw_is K_AND) ''Expected AND in BETWEEN ... expression'' st1) (\<lambda>(u, st2).
       ebind (comp st2) (\<lambda>(fs, st3). Inr (es @ fs, st3))))
     else Inr ([], st))"

definition parse_ilri :: "nat \<Rightarrow> dispatcher \<Rightarrow> pctx \<Rightarrow> expr prs" where
  "parse_ilri n rec ctx st =
    ebind (rec ctx S_COMP st) (\<lambda>(first, st1).
    ebind (consume_if (cur_op_is O_NOT) st1) (\<lambda>(neg, st2).
      if \<not> cur_op_in [O_IS, O_IN, O_LIKE, O_RLIKE, O_BETWEEN, O_REGEXP, O_SOUNDS_LIKE, O_OVERLAPS] st2
      then if neg
           then parse_error ''Expected IN, (R)LIKE, BETWEEN, OVERLAPS or REGEXP after NOT'' st2
           else Inr (first, st2)
      else
        let a = get_binary (ps_it st2) in
        ebind (consume_token st2) (\<lambda>(u, st3).
          if neg \<and> a = O_IS then parse_error ''Operator NOT before IS, should be IS NOT'' st3
          else
            ebind (if a = O_IS then consume_if (cur_op_is O_NOT) st3 else Inr (False, st3)) (\<lambda>(isnot, st4).
              if a = O_SOUNDS_LIKE \<and> cur_kw_is K_LIKE st4
              then unsupported ''Operator SOUNDS LIKE'' st4
              else
                let b = ilri_op a (neg \<or> isnot) (cur_token_type_is T_LPAREN st4) in
                ebind (ilri_args n rec ctx b st4) (\<lambda>(es, st5).
                  Inr (OP (op_name b) (first # es), st5))))))"

section \<open>The dispatcher\<close>

definition parse_start :: "nat \<Rightarrow> dispatcher \<Rightarrow> dispatcher" where
  "parse_start n rec ctx s =
    (case s of
       S_FULL \<Rightarrow> parse_or rec ctx
     | S_ATOMIC \<Rightarrow> parse_atomic n rec ctx
     | S_MUL \<Rightarrow> parse_mul rec ctx
     | S_ADD \<Rightarrow> parse_add rec ctx
     | S_SHIFT \<Rightarrow> parse_shift rec ctx
     | S_BIT \<Rightarrow> parse_bit rec ctx
     | S_COMP \<Rightarrow> parse_comp rec ctx
     | S_ILRI \<Rightarrow> parse_ilri n rec ctx
     | S_AND \<Rightarrow> parse_and rec ctx
     | S_OR \<Rightarrow> parse_or rec ctx
     | S_DOC \<Rightarrow> (\<lambda>st. ebind (parse_doc n rec ctx st) (\<lambda>(kvs, st1). Inr (DOC kvs, st1)))
     | S_ARR \<Rightarrow> (\<lambda>st. ebind (parse_arr n rec ctx st) (\<lambda>(es, st1). Inr (ARR es, st1))))"

fun parse :: "nat \<Rightarrow> dispatcher" where
  "parse 0 ctx s st = Inl Out_of_fuel"
| "parse (Suc n) ctx s st = parse_start n (parse n) ctx s st"

section \<open>Entry points\<close>

definition start_state :: "string \<Rightarrow> pst outcome" where
  "start_state s = ebind (tokenizer_begin s) (\<lambda>it. Inr \<lparr>ps_it = it, ps_col = cref_empty\<rparr>)"

definition expression_parser :: "nat \<Rightarrow> parser_mode \<Rightarrow> string \<Rightarrow> expr outcome" where
  "expression_parser n mode s =
    ebind (start_state s) (\<lambda>st.
      if tokenizer_empty s then throw_error ''Expected an expression'' (ps_it st)
      else
        ebind (parse n \<lparr>px_mode = mode, px_blobs = False\<rparr> S_FULL st) (\<lambda>(e, st1).
          if tokens_available st1
          then throw_error ''Unexpected characters after expression'' (ps_it st1)
          else Inr e))"

datatype sort_direction = ASC | DESC

definition order_parser :: "nat \<Rightarrow> parser_mode \<Rightarrow> string \<Rightarrow> (sort_direction \<times> expr) outcome" where
  "order_parser n mode s =
    ebind (start_state s) (\<lambda>st.
      if \<not> tokens_available st
      then throw_error ''Expected sorting order specification'' (ps_it st)
      else
        ebind (parse n \<lparr>px_mode = mode, px_blobs = False\<rparr> S_FULL st) (\<lambda>(e, st1).
        ebind (if \<not> tokens_available st1 then Inr (ASC, st1)
               else case cur_kw st1 of
                 K_ASC \<Rightarrow> ebind (consume_token st1) (\<lambda>(u, st2). Inr (ASC, st2))
               | K_DESC \<Rightarrow> ebind (consume_token st1) (\<lambda>(u, st2). Inr (DESC, st2))
               | _ \<Rightarrow> throw_error ''Expected sorting direction ASC or DESC'' (ps_it st1)) (\<lambda>(dir, st3).
          if tokens_available st3
          then throw_error ''Unexpected characters after sorting order specification'' (ps_it st3)
          else Inr (dir, e))))"

definition projection_tbl_mode :: "nat \<Rightarrow> parser_mode \<Rightarrow> string \<Rightarrow> (expr \<times> string option) outcome" where
  "projection_tbl_mode n mode s =
    ebind (start_state s) (\<lambda>st.
      if \<not> tokens_available st
      then throw_error ''Expected projection specification'' (ps_it st)
      else
        ebind (parse n \<lparr>px_mode = mode, px_blobs = False\<rparr> S_FULL st) (\<lambda>(e, st1).
        ebind (if \<not> tokens_available st1 then Inr (None, st1)
               else
                 ebind (consume_throw (cur_kw_is K_AS) (''Invalid characters in projection specification,''
                   @ '' only AS <name> allowed after the projection expression'') st1) (\<lambda>(u, st2).
                 ebind (consume_throw (cur_token_type_in [T_WORD, T_QWORD])
                          ''Expected identifier after AS'' st2)
                  (\<lambda>(a, st3). Inr (Some a, st3)))) (\<lambda>(alias, st4).
          if tokens_available st4
          then throw_error ''Unexpected characters after projection specification'' (ps_it st4)
          else Inr (e, alias))))"

definition projection_doc_mode :: "nat \<Rightarrow> parser_mode \<Rightarrow> string \<Rightarrow> (string \<times> expr) outcome" where
  "projection_doc_mode n mode s =
    ebind (start_state s) (\<lambda>st.
      if \<not> tokens_available st
      then throw_error ''Expected projection specification'' (ps_it st)
      else
        ebind (parse n \<lparr>px_mode = mode, px_blobs = False\<rparr> S_FULL st) (\<lambda>(e, st1).
        ebind (consume_throw (cur_kw_is K_AS) ''Expected AS in projection specification'' st1) (\<lambda>(u, st2).
        ebind (consume_throw (cur_token_type_in [T_WORD, T_QWORD])
                 ''Expected identifier after AS'' st2) (\<lambda>(a, st3).
          if tokens_available st3
          then throw_error ''Invalid characters after projection specification'' (ps_it st3)
          else Inr (a, e)))))"

definition table_field_parser :: "nat \<Rightarrow> string \<Rightarrow> (column_ref \<times> doc_path) outcome" where
  "table_field_parser n s =
    ebind (start_state s) (\<lambda>st.
    ebind (parse_column_ident n st) (\<lambda>(p, st1). Inr (ps_col st1, p)))"

definition doc_field_parser :: "nat \<Rightarrow> string \<Rightarrow> doc_path outcome" where
  "doc_field_parser n s =
    ebind (start_state s) (\<lambda>st.
    ebind (parse_document_field n False st) (\<lambda>(p, st1).
      if tokens_available st1 then throw_error ''Unexpected characters at the end'' (ps_it st1)
      else Inr p))"

end
