(* ===== verification/Lexer_Laws.thy ===== *)
theory Lexer_Laws
  imports Tokens
begin

text \<open>
  What the tokenizer promises: every recogniser either fails without moving or produces a token
  inside the input and moves strictly forward; between tokens only white space is skipped; an
  iterator that meets a character no token starts with is stuck for ever.
\<close>

section \<open>The contract of a recogniser\<close>

definition tok_wf :: "tok_it \<Rightarrow> bool" where
  "tok_wf it \<longleftrightarrow> ci_wf it \<and> tok_begin (ti_tok it) \<le> tok_end (ti_tok it)
     \<and> tok_end (ti_tok it) \<le> ci_pos it \<and> (ti_end it \<longrightarrow> ci_at_end it)"

definition lex_step :: "tok_it \<Rightarrow> tok_it \<Rightarrow> bool" where
  "lex_step it it' \<longleftrightarrow> ci_inp it' = ci_inp it \<and> ti_pos it' = ti_pos it \<and> ti_end it' = ti_end it
     \<and> ci_pos it < ci_pos it' \<and> ci_pos it' \<le> length (ci_inp it)
     \<and> ti_pos it \<le> tok_begin (ti_tok it') \<and> tok_begin (ti_tok it') \<le> tok_end (ti_tok it')
     \<and> tok_end (ti_tok it') \<le> ci_pos it'"

definition lex_ok :: "tok_it \<Rightarrow> (bool \<times> tok_it) outcome \<Rightarrow> bool" where
  "lex_ok it r =
    (case r of
       Inl (Parse_error m p) \<Rightarrow> p \<le> length (ci_inp it)
     | Inl (Read_past_end p) \<Rightarrow> p = length (ci_inp it)
     | Inl Out_of_fuel \<Rightarrow> False
     | Inr (b, it') \<Rightarrow> if b then lex_step it it' else it' = it)"

text \<open>The states a recogniser is called in.\<close>

definition lex_pre :: "tok_it \<Rightarrow> bool" where
  "lex_pre it \<longleftrightarrow> ci_pos it < length (ci_inp it) \<and> ti_pos it = ci_pos it \<and> \<not> ti_end it"

named_theorems lex_simps \<open>the tokenizer's state after its primitive steps\<close>

lemma set_token_sel [lex_simps]:
  "ci_inp (set_token t b e it) = ci_inp it" "ci_pos (set_token t b e it) = ci_pos it"
  "ti_pos (set_token t b e it) = ti_pos it" "ti_end (set_token t b e it) = ti_end it"
  "ti_tok (set_token t b e it) = (ti_tok it)\<lparr>tok_ty := t, tok_begin := b, tok_end := e\<rparr>"
  by (simp_all add: set_token_def set_tok_pos_def set_tok_type_def)

lemma set_tok_pos_sel [lex_simps]:
  "ci_inp (set_tok_pos b e it) = ci_inp it" "ci_pos (set_tok_pos b e it) = ci_pos it"
  "ti_pos (set_tok_pos b e it) = ti_pos it" "ti_end (set_tok_pos b e it) = ti_end it"
  "ti_tok (set_tok_pos b e it) = (ti_tok it)\<lparr>tok_begin := b, tok_end := e\<rparr>"
  by (simp_all add: set_tok_pos_def)

lemma set_tok_type_sel [lex_simps]:
  "ci_inp (set_tok_type t it) = ci_inp it" "ci_pos (set_tok_type t it) = ci_pos it"
  "ti_pos (set_tok_type t it) = ti_pos it" "ti_end (set_tok_type t it) = ti_end it"
  "ti_tok (set_tok_type t it) = (ti_tok it)\<lparr>tok_ty := t\<rparr>"
  by (simp_all add: set_tok_type_def)

lemma ci_adv_sel [lex_simps]:
  "ti_pos (ci_adv n it) = ti_pos it" "ti_end (ci_adv n it) = ti_end it"
  "ti_tok (ci_adv n it) = ti_tok it"
  by (simp_all add: ci_adv_def)

lemma next_unit_sel [lex_simps]:
  "ti_pos (next_unit it) = ti_pos it" "ti_end (next_unit it) = ti_end it"
  "ti_tok (next_unit it) = ti_tok it"
  by (simp_all add: next_unit_def lex_simps)

lemma takeWhile_rest_bound:
  "ci_pos it \<le> length (ci_inp it) \<Longrightarrow>
   ci_pos it + length (takeWhile P (ci_rest it)) \<le> length (ci_inp it)"
  using length_takeWhile_le [of P "ci_rest it"] by simp

section \<open>The recognisers keep it\<close>


lemma lex_okI:
  "lex_step it it' \<Longrightarrow> lex_ok it (Inr (True, it'))"
  "lex_ok it (Inr (False, it))"
  "p = length (ci_inp it) \<Longrightarrow> lex_ok it (Inl (Read_past_end p))"
  by (simp_all add: lex_ok_def)

definition moves :: "tok_it \<Rightarrow> tok_it \<Rightarrow> bool" where
  "moves it it' \<longleftrightarrow> ci_inp it' = ci_inp it \<and> ti_pos it' = ti_pos it \<and> ti_end it' = ti_end it
     \<and> ti_tok it' = ti_tok it \<and> ci_pos it \<le> ci_pos it' \<and> ci_pos it' \<le> length (ci_inp it)"

lemma moves_refl: "ci_wf it \<Longrightarrow> moves it it"
  by (simp add: moves_def ci_wf_def)

lemma moves_wf: "moves it it' \<Longrightarrow> ci_wf it'"
  by (simp add: moves_def ci_wf_def)

lemma moves_trans: "moves it it' \<Longrightarrow> moves it' it'' \<Longrightarrow> moves it it''"
  by (simp add: moves_def)

lemma moves_pos: "moves it it' \<Longrightarrow> ci_pos it \<le> ci_pos it'"
  by (simp add: moves_def)

lemma moves_less: "p < ci_pos it \<Longrightarrow> moves it it' \<Longrightarrow> p < ci_pos it'"
  by (simp add: moves_def)

lemma moves_next: "ci_wf it \<Longrightarrow> \<not> ci_at_end it \<Longrightarrow> moves it (next_unit it)"
  by (simp add: moves_def ci_wf_def ci_at_end_def lex_simps)

lemma moves_adv: "ci_wf it \<Longrightarrow> moves it (ci_adv (length (takeWhile P (ci_rest it))) it)"
  using takeWhile_rest_bound [of it P] by (simp add: moves_def ci_wf_def lex_simps)

lemma parse_digits_moves:
  "ci_wf it \<Longrightarrow> parse_digits it = (b, it') \<Longrightarrow> moves it it' \<and> (b \<longleftrightarrow> ci_pos it < ci_pos it')"
  unfolding parse_digits_def Let_def using moves_adv [of it] by force

lemma consume_char_moves:
  "ci_wf it \<Longrightarrow> \<not> ci_at_end it \<Longrightarrow> consume_char c it = (b, it') \<Longrightarrow> moves it it' \<and> (b \<longleftrightarrow> ci_pos it < ci_pos it')"
  by (auto simp: consume_char_def moves_refl moves_next split: if_splits)

lemma consume_char_in_moves:
  "ci_wf it \<Longrightarrow> \<not> ci_at_end it \<Longrightarrow> consume_char_in cs it = (b, it') \<Longrightarrow> moves it it'"
  by (auto simp: consume_char_in_def moves_refl moves_next split: if_splits)

lemma lex_ok_token:
  "lex_pre it \<Longrightarrow> moves it it' \<Longrightarrow> ci_pos it < ci_pos it' \<Longrightarrow> ci_pos it \<le> b \<Longrightarrow> b \<le> e \<Longrightarrow> e \<le> ci_pos it'
   \<Longrightarrow> lex_ok it (Inr (True, set_token t b e it'))"
  by (simp add: lex_okI moves_def lex_step_def lex_simps lex_pre_def)

lemma lex_ok_here:
  "lex_pre it \<Longrightarrow> moves it it' \<Longrightarrow> ci_pos it < ci_pos it'
   \<Longrightarrow> lex_ok it (Inr (True, set_token t (ti_pos it') (ci_pos it') it'))"
  by (rule lex_ok_token) (simp_all add: moves_def lex_pre_def)

lemma lex_ok_throw: "moves it it' \<Longrightarrow> lex_ok it (throw_error m it')"
  by (simp add: lex_ok_def throw_error_def moves_def)

lemma number_exponent_ok:
  assumes pre: "lex_pre it" and m: "moves it it'" "ci_pos it < ci_pos it'"
  shows "lex_ok it (number_exponent it')"
proof (cases "ci_at_end it'")
  case True
  then show ?thesis using m by (simp add: number_exponent_def ci_at_end_def lex_okI moves_def)
next
  case False
  obtain sg it1 where sg: "consume_char_in ''+-'' it' = (sg, it1)" by fastforce
  obtain d it2 where d: "parse_digits it1 = (d, it2)" by fastforce
  have m1: "moves it' it1" using sg False m(1) by (metis consume_char_in_moves moves_wf)
  then have m2: "moves it1 it2" using d by (metis parse_digits_moves moves_wf)
  have m3: "moves it it2" using m(1) m1 m2 by (metis moves_trans)
  moreover have "ci_pos it < ci_pos it2" using m(2) m1 m2 by (metis moves_less)
  ultimately show ?thesis
    using False pre by (simp add: number_exponent_def sg d lex_ok_here lex_ok_throw)
qed

lemma number_fraction_ok:
  assumes pre: "lex_pre it" and m: "moves it it'" 
    and p: "ci_pos it < ci_pos it' \<or> (\<not> ci_at_end it' \<and> cur_char_is (CHR ''.'') it')"
  shows "lex_ok it (number_fraction it')"
proof -
  obtain dot it1 where dot: "(if ci_at_end it' then (False, it') else consume_char (CHR ''.'') it') = (dot, it1)"
    by fastforce
  have m1: "moves it' it1" using dot moves_wf [OF m] 
    by (metis consume_char_moves moves_refl prod.inject)
  obtain d it2 where d: "(if dot then parse_digits it1 else (True, it1)) = (d, it2)" by fastforce
  have m2: "moves it1 it2" using d moves_wf [OF m1] 
    by (metis parse_digits_moves moves_refl prod.inject)
  obtain ex it3 where ex: "(if ci_at_end it2 then (False, it2) else consume_char_in ''Ee'' it2) = (ex, it3)"
    by fastforce
  have m3: "moves it2 it3" using ex moves_wf [OF m2] 
    by (metis consume_char_in_moves moves_refl prod.inject)
  have "ci_pos it < ci_pos it1"
    using p m m1 dot by (auto simp: consume_char_def cur_char_is_def dest!: moves_pos)
  then have lt: "ci_pos it < ci_pos it3" using m2 m3 by (metis moves_less)
  have mm: "moves it it2" "moves it it3" using m m1 m2 m3 by (metis moves_trans)+
  show ?thesis
    unfolding number_fraction_def dot d ex Let_def split
    using lex_ok_throw [OF mm(1)] lex_ok_here [OF pre mm(2) lt] number_exponent_ok [OF pre mm(2) lt]
    by simp
qed

lemma parse_number_ok:
  assumes pre: "lex_pre it"
  shows "lex_ok it (parse_number it)"
proof -
  have wf: "ci_wf it" and ne: "\<not> ci_at_end it"
    using pre by (simp_all add: lex_pre_def ci_wf_def ci_at_end_def)
  obtain d it1 where d: "parse_digits it = (d, it1)" by fastforce
  have m1: "moves it it1" and d1: "d \<longleftrightarrow> ci_pos it < ci_pos it1" "\<not> d \<Longrightarrow> it1 = it"
    using parse_digits_moves [OF wf d] d by (auto simp: parse_digits_def Let_def)
  show ?thesis
    unfolding parse_number_def d Let_def split
    using number_fraction_ok [OF pre m1] d1 ne lex_okI(2) [of it] by auto
qed

lemma parse_hex_digits_moves:
  assumes "parse_hex_digits it = (b, it')" "ci_wf it"
  shows "moves it it'"
proof -
  define it1 where "it1 = ci_adv (length (takeWhile (\<lambda>c. c \<in> set hex_digits) (ci_rest it))) it"
  have "moves it it1"
    unfolding it1_def by (rule moves_adv [OF assms(2)])
  moreover have "it' = (if ci_at_end it1 then it1 else snd (consume_char_in hex_digits it1))"
    using assms(1) by (auto simp only: parse_hex_digits_def Let_def it1_def prod.inject)
  then have "moves it1 it'"
    using moves_wf [OF \<open>moves it it1\<close>] 
    by (auto simp del: set_simps simp: moves_refl intro: consume_char_in_moves [OF _ _ prod.collapse [symmetric]])
  ultimately show ?thesis by (rule moves_trans)
qed


lemma quoted_loop_bounds:
  "case quoted_loop q n acc s of
     Inr k \<Rightarrow> n < k \<and> k \<le> n + length s
   | Inl (m, k) \<Rightarrow> n \<le> k \<and> k \<le> n + length s"
proof (induction q n acc s rule: quoted_loop.induct)
  case (2 q n acc c cs)
  show ?case
    using quoted_step_len [of q c cs] "2.IH"
    by (cases "quoted_step q c cs") (fastforce simp: qstep_len_def split: sum.splits)+
qed simp

lemma parse_quotted_string_ok:
  assumes "lex_pre it"
  shows "lex_ok it (parse_quotted_string q it)"
proof (cases "fst (consume_char q it)")
  case False
  then show ?thesis
    by (auto simp: parse_quotted_string_def consume_char_def lex_okI split: if_splits)
next
  case True
  then have "consume_char q it = (True, next_unit it)"
    by (simp add: consume_char_def split: if_splits)
  then show ?thesis
    using assms quoted_loop_bounds [where q = q and n = 0 and acc = "[]" and s = "ci_rest (next_unit it)"]
    by (auto simp: parse_quotted_string_def lex_ok_def throw_error_def lex_step_def lex_simps lex_pre_def
        split: sum.splits)
qed

lemma parse_string_ok:
  assumes "lex_pre it"
  shows "lex_ok it (parse_string it)"
  using parse_quotted_string_ok [OF assms, of "get_unit it"]
  by (auto simp: parse_string_def lex_ok_def lex_step_def lex_simps Let_def ebind_def split: sum.splits perror.splits)

lemma parse_word_ok:
  assumes pre: "lex_pre it"
  shows "lex_ok it (parse_word it)"
proof -
  have wf: "ci_wf it" and ne: "\<not> ci_at_end it"
    using pre by (simp_all add: lex_pre_def ci_wf_def ci_at_end_def)
  have q: "lex_ok it (ebind (parse_quotted_string (CHR 0x60) it) (\<lambda>(b, it1). Inr (True, set_tok_type T_QWORD it1)))"
    if "cur_char_is (CHR 0x60) it"
  proof -
    have "\<not> (\<exists>it'. parse_quotted_string (CHR 0x60) it = Inr (False, it'))"
      using that by (auto simp: parse_quotted_string_def consume_char_def cur_char_is_def throw_error_def split: sum.splits)
    then show ?thesis
      using parse_quotted_string_ok [OF pre, of "CHR 0x60"]
      by (auto simp: lex_ok_def lex_step_def lex_simps ebind_def split: sum.splits perror.splits)
  qed
  define it1 where "it1 = ci_adv (length (takeWhile is_word_char (ci_rest it))) it"
  have m: "moves it it1"
    unfolding it1_def by (rule moves_adv [OF wf])
  show ?thesis
    unfolding parse_word_def Let_def using q ne lex_ok_here [OF pre m] 
    by (auto simp: lex_okI it1_def)
qed


lemma lex_pre_wf: "lex_pre it \<Longrightarrow> ci_wf it" "lex_pre it \<Longrightarrow> \<not> ci_at_end it"
  by (simp_all add: lex_pre_def ci_wf_def ci_at_end_def)

lemma moves_two:
  assumes "lex_pre it" "\<not> ci_at_end_off 1 it"
  shows "moves it (next_unit (next_unit it))"
  using assms by (simp add: moves_def lex_pre_def ci_at_end_off_def lex_simps)

lemma hex_body_ok:
  assumes pre: "lex_pre it" and off: "\<not> ci_at_end_off 1 it"
    and d: "parse_hex_digits (next_unit (next_unit it)) = (h, it2)"
  shows "lex_ok it (throw_error m it2)"
    "lex_ok it (Inr (True, set_token T_HEX (Suc (Suc (ci_pos it))) (ci_pos it2) it2))"
    "lex_ok it (throw_error m (set_token T_HEX (Suc (Suc (ci_pos it))) (ci_pos it2) it2))"
    "\<not> ci_at_end it2 \<Longrightarrow> lex_ok it (Inr (True, next_unit (set_token T_HEX (Suc (Suc (ci_pos it))) (ci_pos it2) it2)))"
proof -
  have m2: "moves (next_unit (next_unit it)) it2"
    using d moves_wf [OF moves_two [OF pre off]] by (rule parse_hex_digits_moves)
  have m: "moves it it2"
    using moves_two [OF pre off] m2 by (rule moves_trans)
  have p: "Suc (Suc (ci_pos it)) \<le> ci_pos it2"
    using moves_pos [OF m2] by simp
  show "lex_ok it (throw_error m it2)"
    by (rule lex_ok_throw [OF m])
  show t: "lex_ok it (Inr (True, set_token T_HEX (Suc (Suc (ci_pos it))) (ci_pos it2) it2))"
    using p by (intro lex_ok_token [OF pre m]) simp_all
  show "lex_ok it (throw_error m (set_token T_HEX (Suc (Suc (ci_pos it))) (ci_pos it2) it2))"
    using m by (simp add: lex_ok_def throw_error_def lex_simps moves_def)
  show "lex_ok it (Inr (True, next_unit (set_token T_HEX (Suc (Suc (ci_pos it))) (ci_pos it2) it2)))"
    if "\<not> ci_at_end it2"
    using t that m by (simp add: lex_ok_def lex_step_def lex_simps ci_at_end_def moves_def)
qed

lemma parse_hex_ok:
  assumes pre: "lex_pre it"
  shows "lex_ok it (parse_hex it)"
proof (cases "ci_at_end_off 1 it")
  case True
  then show ?thesis
    by (simp add: parse_hex_def lex_okI)
next
  case off: False
  obtain h it2 where d: "parse_hex_digits (next_unit (next_unit it)) = (h, it2)" by fastforce
  note ok = hex_body_ok [OF pre off d]
  have at: "ci_at_end (set_token T_HEX (Suc (Suc (ci_pos it))) (ci_pos it2) it2) = ci_at_end it2"
    by (simp add: ci_at_end_def lex_simps)
  show ?thesis
    using ok lex_okI(2) [of it]
    by (simp add: parse_hex_def Let_def d at consume_char_def)
qed

lemma consume_chars_spec:
  "ci_wf it \<Longrightarrow> consume_chars_loop cs it = (l, it') \<Longrightarrow>
   moves it it' \<and> ci_pos it' + length l = ci_pos it + length cs"
proof (induction cs it rule: consume_chars_loop.induct)
  case (1 it)
  then show ?case by (simp add: moves_refl)
next
  case (2 c cs it)
  show ?case
  proof (cases "ci_at_end it \<or> c \<noteq> get_unit it")
    case True
    then show ?thesis using "2.prems" by (auto simp: moves_refl consume_char_def split: if_splits)
  next
    case False
    then have m: "moves it (next_unit it)" using "2.prems"(1) by (simp add: moves_next)
    from False have "consume_chars_loop cs (next_unit it) = (l, it')"
      using "2.prems"(2) by (simp add: consume_char_def)
    then show ?thesis
      using "2.IH" [of "(True, next_unit it)"] False moves_wf [OF m] moves_trans [OF m]
      by (simp add: consume_char_def)
  qed
qed

lemma consume_chars_moves:
  assumes "ci_wf it" "consume_chars cs it = (b, it')"
  shows "if b then moves it it' \<and> ci_pos it' = ci_pos it + length cs else it' = it"
proof -
  obtain l it1 where l: "consume_chars_loop cs it = (l, it1)" by fastforce
  show ?thesis
    using assms consume_chars_spec [OF assms(1) l] by (auto simp: consume_chars_def l split: if_splits)
qed

lemma try_symbols2_ok:
  "lex_pre it \<Longrightarrow> \<forall>(s, t) \<in> set ss. s \<noteq> [] \<Longrightarrow> lex_ok it (Inr (try_symbols2 ss it))"
proof (induction ss it rule: try_symbols2.induct)
  case (1 it)
  then show ?case by (simp add: lex_okI)
next
  case (2 s t ss it)
  obtain b it1 where c: "consume_chars s it = (b, it1)" by fastforce
  show ?case
    using consume_chars_moves [OF lex_pre_wf(1) [OF "2.prems"(1)] c] "2.IH" [OF c [symmetric]] "2.prems" c
      lex_ok_here [OF "2.prems"(1), of it1 t]
    by (cases b) auto
qed

lemma parse_symbol_ok:
  assumes pre: "lex_pre it"
  shows "lex_ok it (Inr (parse_symbol it))"
proof -
  define ss where "ss = filter (\<lambda>(s, t). hd s = get_unit it) symbol_list2"
  obtain b it1 where t: "try_symbols2 ss it = (b, it1)" by fastforce
  have "\<forall>(s, t) \<in> set symbol_list2. s \<noteq> []"
    by (simp add: symbol_list2_def)
  then have "lex_ok it (Inr (try_symbols2 ss it))"
    by (intro try_symbols2_ok [OF pre]) (auto simp: ss_def)
  then have ok: "lex_ok it (Inr (b, it1))" and f: "\<not> b \<Longrightarrow> it1 = it"
    by (auto simp: t lex_ok_def)
  have m: "moves it (next_unit it)"
    using pre by (simp add: moves_next lex_pre_wf)
  have tok: "lex_ok it (Inr (True, set_token t (ti_pos it) (Suc (ci_pos it)) (next_unit it)))" for t
    using lex_ok_here [OF pre m] by (simp add: lex_simps)
  show ?thesis
    unfolding parse_symbol_def Let_def ss_def [symmetric] t split
    using ok f tok by (auto simp: consume_char_def lex_okI lex_simps split: option.splits)
qed

lemma lex_ok_bind:
  "lex_ok it r \<Longrightarrow> lex_ok it (f it) \<Longrightarrow>
   lex_ok it (ebind r (\<lambda>(b, it'). if b then Inr (True, it') else f it'))"
  by (auto simp: lex_ok_def ebind_def split: sum.splits if_splits)

lemma parse_by_first_char_ok: "lex_pre it \<Longrightarrow> lex_ok it (parse_by_first_char it)"
  unfolding parse_by_first_char_def Let_def
  using parse_string_ok lex_ok_bind [where f = parse_number, OF parse_hex_ok parse_number_ok] parse_number_ok
  by (auto simp: lex_okI)


section \<open>Moving to the next token\<close>

text \<open>The iterator at the start of the next token.\<close>

definition at_token :: "tok_it \<Rightarrow> tok_it" where
  "at_token it = (skip_ws it)\<lparr>ti_pos := ci_pos (skip_ws it)\<rparr>"

lemma skip_ws_sel [lex_simps]:
  "ti_pos (skip_ws it) = ti_pos it" "ti_end (skip_ws it) = ti_end it" "ti_tok (skip_ws it) = ti_tok it"
  by (simp_all add: skip_ws_def lex_simps)

lemma at_token_sel [lex_simps]:
  "ci_inp (at_token it) = ci_inp it" "ti_end (at_token it) = ti_end it"
  "ti_tok (at_token it) = ti_tok it" "ti_pos (at_token it) = ci_pos (skip_ws it)"
  "ci_pos (at_token it) = ci_pos (skip_ws it)" "get_unit (at_token it) = get_unit (skip_ws it)"
  by (simp_all add: at_token_def lex_simps get_unit_def)

lemma at_token_pre:
  assumes "ci_wf it" "\<not> ti_end it" "\<not> ci_at_end (at_token it)"
  shows "lex_pre (at_token it)"
  using assms ci_wf_skip_ws [of it] by (simp add: lex_pre_def lex_simps ci_wf_def ci_at_end_def)

definition recognise :: "tok_it \<Rightarrow> (bool \<times> tok_it) outcome" where
  "recognise it =
    (if code (get_unit it) < 127 then
       ebind (parse_by_first_char it) (\<lambda>(b, it2).
         if b then Inr (True, it2)
         else
           let (b', it3) = parse_symbol it2 in
           if b' then Inr (True, it3) else parse_word it3)
     else parse_word it)"

lemma get_next_token_eq:
  "get_next_token it =
    (if ti_end it \<or> ci_at_end (at_token it) then Inr (False, (at_token it)\<lparr>ti_end := True\<rparr>)
     else recognise (at_token it))"
  by (simp add: get_next_token_def recognise_def at_token_def Let_def lex_simps)

lemma recognise_ok:
  assumes pre: "lex_pre it"
  shows "lex_ok it (recognise it)"
proof -
  have "lex_ok it (let (b, it') = parse_symbol it in if b then Inr (True, it') else parse_word it')"
    using parse_symbol_ok [OF pre] parse_word_ok [OF pre]
    by (cases "parse_symbol it") (auto simp: lex_ok_def)
  from lex_ok_bind [OF parse_by_first_char_ok [OF pre], where f =
      "\<lambda>it. let (b, it') = parse_symbol it in if b then Inr (True, it') else parse_word it'", OF this]
  show ?thesis
    using parse_word_ok [OF pre] by (simp add: recognise_def)
qed

lemma get_next_token_cases:
  assumes wf: "ci_wf it"
  obtains (ending) "ti_end it \<or> ci_at_end (at_token it)"
      "get_next_token it = Inr (False, (at_token it)\<lparr>ti_end := True\<rparr>)"
  | (token) it' where "lex_pre (at_token it)" "get_next_token it = Inr (True, it')"
      "lex_step (at_token it) it'"
  | (stuck) "lex_pre (at_token it)" "get_next_token it = Inr (False, at_token it)"
  | (error) m p where "get_next_token it = Inl (Parse_error m p)" "p \<le> length (ci_inp it)"
  | (past_end) "get_next_token it = Inl (Read_past_end (length (ci_inp it)))"
proof (cases "ti_end it \<or> ci_at_end (at_token it)")
  case True
  then show thesis using ending by (simp add: get_next_token_eq)
next
  case False
  then have pre: "lex_pre (at_token it)" and eq: "get_next_token it = recognise (at_token it)"
    using wf at_token_pre by (simp_all add: get_next_token_eq)
  show thesis
  proof (cases "recognise (at_token it)")
    case (Inl e)
    then show thesis
      using recognise_ok [OF pre] error past_end eq by (cases e) (auto simp: lex_ok_def lex_simps)
  next
    case (Inr r)
    then show thesis
      using recognise_ok [OF pre] token stuck eq pre by (cases r) (auto simp: lex_ok_def split: if_splits)
  qed
qed


section \<open>Characters that start a token\<close>

definition lexable :: "char \<Rightarrow> bool" where
  "lexable c \<longleftrightarrow> c_isspace c \<or> is_word_char c \<or> c \<in> set (map fst symbol_list1)
     \<or> c \<in> {CHR 0x22, CHR 0x27, CHR 0x60}"

lemma lexable_ascii: "lexable c \<Longrightarrow> code c < 127"
  by (auto simp: lexable_def c_isspace_def is_word_char_def c_isalnum_def c_isdigit_def c_isupper_def
      c_islower_def symbol_list1_def)

lemma parse_quotted_not_False:
  "cur_char_is q it \<Longrightarrow> parse_quotted_string q it \<noteq> Inr (False, it')"
  by (auto simp: parse_quotted_string_def cur_char_is_def consume_char_def throw_error_def split: sum.splits)

lemma parse_string_not_False:
  "get_unit it \<in> {CHR 0x22, CHR 0x27} \<Longrightarrow> parse_string it \<noteq> Inr (False, it')"
  by (auto simp: parse_string_def Let_def parse_quotted_not_False cur_char_is_def)

lemma parse_word_not_False:
  assumes "lex_pre it" "get_unit it = CHR 0x60 \<or> is_word_char (get_unit it)"
  shows "parse_word it \<noteq> Inr (False, it')"
proof -
  have "ci_rest it \<noteq> []" "\<not> ci_at_end it"
    using assms(1) by (auto simp: lex_pre_def ci_rest_def ci_at_end_def)
  moreover from this obtain c cs where "ci_rest it = c # cs" by (cases "ci_rest it") auto
  moreover from this have "get_unit it = c" by (rule get_unit_rest)
  ultimately show ?thesis
    using assms(2) by (auto simp: parse_word_def cur_char_is_def Let_def)
qed

lemma parse_symbol_False:
  "parse_symbol it = (False, it') \<Longrightarrow> get_unit it \<notin> set (map fst symbol_list1)"
  by (auto simp: parse_symbol_def Let_def map_of_eq_None_iff split: prod.splits if_splits option.splits)

lemma recognise_lexable:
  assumes pre: "lex_pre it" and lx: "lexable (get_unit it)" "\<not> c_isspace (get_unit it)"
  shows "recognise it \<noteq> Inr (False, it')"
proof
  assume F: "recognise it = Inr (False, it')"
  have asc: "code (get_unit it) < 127" using lx(1) by (rule lexable_ascii)
  then obtain it2 where f: "parse_by_first_char it = Inr (False, it2)"
    using F by (auto simp: recognise_def split: if_splits)
  then have "it2 = it" using parse_by_first_char_ok [OF pre] by (simp add: lex_ok_def)
  then obtain it3 where s: "parse_symbol it = (False, it3)" and w: "parse_word it3 = Inr (False, it')"
    using F asc f by (auto simp: recognise_def split: prod.splits if_splits)
  have "it3 = it" using parse_symbol_ok [OF pre] s by (simp add: lex_ok_def)
  then have "\<not> is_word_char (get_unit it)" "get_unit it \<noteq> CHR 0x60"
    using w parse_word_not_False [OF pre] by blast+
  moreover have "get_unit it \<notin> {CHR 0x22, CHR 0x27}"
    using f parse_string_not_False [of it] by (auto simp: parse_by_first_char_def Let_def)
  ultimately show False
    using lx parse_symbol_False [OF s] by (auto simp: lexable_def)
qed

section \<open>The iterator's step\<close>

definition tok_le :: "tok_it \<Rightarrow> tok_it \<Rightarrow> bool" where
  "tok_le it it' \<longleftrightarrow> tok_wf it' \<and> ci_inp it' = ci_inp it \<and> ci_pos it \<le> ci_pos it'
     \<and> (ti_end it \<longrightarrow> ti_end it')"

definition perror_in :: "string \<Rightarrow> perror \<Rightarrow> bool" where
  "perror_in s e =
    (case e of Parse_error m p \<Rightarrow> p \<le> length s | Read_past_end p \<Rightarrow> p \<le> length s | Out_of_fuel \<Rightarrow> False)"

lemma tok_le_refl: "tok_wf it \<Longrightarrow> tok_le it it"
  by (simp add: tok_le_def)

lemma tok_le_trans: "tok_le it it' \<Longrightarrow> tok_le it' it'' \<Longrightarrow> tok_le it it''"
  by (auto simp: tok_le_def)

lemma skip_ws_not_space:
  assumes "ci_wf it" "\<not> ci_at_end (skip_ws it)"
  shows "\<not> c_isspace (get_unit (skip_ws it))"
proof -
  have "ci_rest (skip_ws it) \<noteq> []"
    using assms ci_at_end_iff_rest [OF ci_wf_skip_ws] by blast
  then obtain c cs where "dropWhile c_isspace (ci_rest it) = c # cs"
    by (metis ci_rest_skip_ws neq_Nil_conv)
  then show ?thesis
    using get_unit_rest [of "skip_ws it" c cs] by (auto simp: dropWhile_eq_Cons_conv)
qed

lemma lex_pre_unit_mem: "lex_pre it \<Longrightarrow> get_unit it \<in> set (ci_inp it)"
  by (simp add: lex_pre_def get_unit_def)

lemma skip_ws_id:
  "ci_rest it = c # cs \<Longrightarrow> \<not> c_isspace c \<Longrightarrow> skip_ws it = it"
  by (simp add: skip_ws_def)

lemma skip_ws_end:
  "ci_wf it \<Longrightarrow> ci_at_end it \<Longrightarrow> ci_at_end (skip_ws it)"
  by (simp add: skip_ws_def ci_at_end_def ci_rest_def)

lemma skip_ws_less: "ci_pos (skip_ws it) < n \<Longrightarrow> ci_pos it < n"
  using skip_ws_simps(2) le_less_trans by blast

lemma tok_wf_step:
  assumes "lex_step (at_token it) it'" "\<not> ti_end it"
  shows "tok_wf it'" "ci_inp it' = ci_inp it" "ci_pos it < ci_pos it'" "\<not> ti_end it'"
  using assms by (auto simp: lex_step_def tok_wf_def ci_wf_def lex_simps intro: skip_ws_less)

lemma tok_next_spec:
  assumes wf: "tok_wf it"
  shows "case tok_next it of
     Inl e \<Rightarrow> perror_in (ci_inp it) e
   | Inr it' \<Rightarrow> tok_le it it' \<and>
       (list_all lexable (ci_inp it) \<and> \<not> ti_end it \<longrightarrow> ci_pos it < ci_pos it' \<or> ti_end it')"
proof -
  have ci: "ci_wf it" using wf by (simp add: tok_wf_def)
  then have ws: "ci_wf (skip_ws it)" by (rule ci_wf_skip_ws)
  from ci show ?thesis
  proof (cases rule: get_next_token_cases)
    case ending
    have "ci_at_end (at_token it)"
      using ending wf skip_ws_end [OF ci] by (auto simp: tok_wf_def ci_at_end_def lex_simps)
    then show ?thesis
      using ending wf ws by (auto simp: tok_next_def tok_le_def tok_wf_def ci_wf_def ci_at_end_def lex_simps)
  next
    case (token it')
    then have "\<not> ti_end it" by (simp add: lex_pre_def lex_simps)
    from tok_wf_step [OF token(3) this] show ?thesis
      using token \<open>\<not> ti_end it\<close> by (simp add: tok_next_def tok_le_def)
  next
    case stuck
    have "\<not> list_all lexable (ci_inp it)"
    proof
      assume "list_all lexable (ci_inp it)"
      then have "lexable (get_unit (at_token it))"
        using lex_pre_unit_mem [OF stuck(1)] by (simp add: list_all_iff lex_simps)
      moreover have "\<not> c_isspace (get_unit (at_token it))"
        using stuck(1) skip_ws_not_space [OF ci] by (simp add: lex_simps lex_pre_def ci_at_end_def)
      moreover have "recognise (at_token it) = Inr (False, at_token it)"
        using stuck by (simp add: get_next_token_eq lex_pre_def ci_at_end_def lex_simps split: if_splits)
      ultimately show False using recognise_lexable [OF stuck(1)] by blast
    qed
    then show ?thesis
      using stuck wf ws by (auto simp: tok_next_def tok_le_def tok_wf_def ci_wf_def lex_pre_def lex_simps
          intro: order_trans)
  next
    case (error m p)
    then show ?thesis by (simp add: tok_next_def perror_in_def)
  next
    case past_end
    then show ?thesis by (simp add: tok_next_def perror_in_def)
  qed
qed


text \<open>The two-sided reading of the specification.\<close>

lemma tok_next_Inr:
  assumes "tok_wf it" "tok_next it = Inr it'"
  shows "tok_le it it'"
    and "list_all lexable (ci_inp it) \<Longrightarrow> \<not> ti_end it \<Longrightarrow> ci_pos it < ci_pos it' \<or> ti_end it'"
  using tok_next_spec [OF assms(1)] assms(2) by simp_all

lemma tok_next_Inl: "tok_wf it \<Longrightarrow> tok_next it = Inl e \<Longrightarrow> perror_in (ci_inp it) e"
  using tok_next_spec [of it] by simp

lemma tokenizer_start_wf [simp]: "tok_wf (tokenizer_start s)" "ci_inp (tokenizer_start s) = s"
  by (simp_all add: tokenizer_start_def tok_wf_def ci_wf_def empty_token_def)

text \<open>An iterator that is not at the end and yet has no next token never moves again.\<close>

lemma at_token_idem:
  assumes "lex_pre (at_token it)" "ci_wf it"
  shows "at_token (at_token it) = at_token it"
proof -
  have ne: "\<not> ci_at_end (at_token it)" using assms(1) by (simp add: lex_pre_wf)
  have "ci_wf (at_token it)" using assms(1) by (simp add: lex_pre_wf)
  then obtain c cs where r: "ci_rest (at_token it) = c # cs"
    using ne ci_at_end_iff_rest by (metis neq_Nil_conv)
  have "\<not> c_isspace c"
    using get_unit_rest [OF r] skip_ws_not_space [OF assms(2)] ne by (simp add: lex_simps ci_at_end_def)
  with r have "skip_ws (at_token it) = at_token it" by (rule skip_ws_id)
  then show ?thesis
    unfolding at_token_def [of "at_token it"] by (simp add: lex_simps)
qed

lemma stuck_fixpoint:
  assumes "ci_wf it" "lex_pre (at_token it)" "get_next_token it = Inr (False, at_token it)"
  shows "get_next_token (at_token it) = Inr (False, at_token it)"
proof -
  have "get_next_token (at_token it) = recognise (at_token it)"
    using assms at_token_idem [OF assms(2,1)] by (simp add: get_next_token_eq lex_pre_wf lex_pre_def)
  also have "\<dots> = get_next_token it"
    using assms(2) by (simp add: get_next_token_eq lex_pre_wf) (simp add: lex_pre_def lex_simps)
  finally show ?thesis using assms(3) by simp
qed

end
