(* ===== verification/Lexer_Run.thy ===== *)
theory Lexer_Run
  imports Lexer_Laws
begin

text \<open>
  What the tokenizer makes of an input: the sequence of its tokens, how texts are quoted and read
  back, which first tokens words and integers give, and what happens at a character that starts no
  token.
\<close>

section \<open>Running the tokenizer\<close>

fun lex_run :: "nat \<Rightarrow> tok_it \<Rightarrow> (tok_type \<times> string) list outcome" where
  "lex_run 0 it = Inl Out_of_fuel"
| "lex_run (Suc n) it =
    ebind (tok_next it) (\<lambda>it'.
      if ti_end it' then Inr []
      else ebind (lex_run n it') (\<lambda>ts. Inr ((tok_ty (ti_tok it'), tok_bytes it') # ts)))"

lemma lex_run_enough:
  "tok_wf it \<Longrightarrow> list_all lexable (ci_inp it) \<Longrightarrow> \<not> ti_end it
   \<Longrightarrow> length (ci_inp it) - ci_pos it < n \<Longrightarrow> lex_run n it \<noteq> Inl Out_of_fuel"
proof (induction n arbitrary: it)
  case (Suc n)
  show ?case
  proof (cases "tok_next it")
    case (Inl e)
    then show ?thesis using tok_next_Inl [OF Suc.prems(1)] by (auto simp: perror_in_def)
  next
    case (Inr it')
    note le = tok_next_Inr [OF Suc.prems(1) Inr]
    show ?thesis
    proof (cases "ti_end it'")
      case False
      then have "ci_pos it < ci_pos it'" using le(2) Suc.prems by blast
      moreover have "tok_wf it'" "ci_inp it' = ci_inp it" "ci_pos it' \<le> length (ci_inp it')"
        using le(1) by (auto simp: tok_le_def tok_wf_def ci_wf_def)
      ultimately have "lex_run n it' \<noteq> Inl Out_of_fuel"
        using Suc.prems False by (intro Suc.IH) simp_all
      then show ?thesis using Inr False by (simp add: ebind_eq_Inl)
    qed (simp add: Inr)
  qed
qed simp

section \<open>Quoting\<close>

text \<open>Write a code point inside quotes, escaping the quote and the backslash.\<close>

definition quote_cp :: "char \<Rightarrow> nat \<Rightarrow> string" where
  "quote_cp q cp = (if cp = code q \<or> cp = 0x5C then [CHR 0x5C, char_of cp] else utf8_encode cp)"

lemma utf8_encode_not_Nil [simp]: "utf8_encode cp \<noteq> []"
  by (simp add: utf8_encode_def)

lemma utf8_encode_hd:
  assumes "scalar_value cp" "utf8_encode cp = c # cs" "code d < 128" "c = d"
  shows "cp = code d"
proof -
  have "code c < 128" using assms by simp
  moreover have "code c = (if cp \<le> 0x7F then cp else if cp \<le> 0x7FF then 0xC0 + cp div 64
      else if cp \<le> 0xFFFF then 0xE0 + cp div 4096 else 0xF0 + cp div 262144) mod 256"
    using assms(2) by (auto simp: utf8_encode_def split: if_splits)
  moreover have "cp div 262144 < 5" using assms(1) by (auto simp: scalar_value_def)
  ultimately show ?thesis using assms(4)
    by (cases "cp \<le> 0x7F"; cases "cp \<le> 0x7FF"; cases "cp \<le> 0xFFFF") auto
qed

definition text_char :: "nat \<Rightarrow> bool" where
  "text_char cp \<longleftrightarrow> scalar_value cp \<and> cp \<noteq> 0"

lemma utf8_consume_encode: "text_char cp \<Longrightarrow> utf8_consume (utf8_encode cp @ s) = (True, cp, s)"
  by (simp add: text_char_def utf8_consume_def utf8_decode_encode)

lemma quoted_step_cp:
  assumes "text_char cp" "code q < 128" "q \<noteq> CHR 0x5C" "quote_cp q cp = c # cs"
  shows "\<exists>t. quoted_step q c (cs @ s) = Q_char (length (c # cs)) t"
proof (cases "cp = code q \<or> cp = 0x5C")
  case True
  then have "c = CHR 0x5C" "cs = [char_of cp]" "code (char_of cp :: char) = cp" "cp < 128"
    using assms by (auto simp: quote_cp_def)
  then show ?thesis
    using assms(1,3) utf8_consume_encode [OF assms(1), of s]
    by (simp add: quoted_step_def utf8_encode_def text_char_def)
next
  case False
  then have e: "utf8_encode cp = c # cs" using assms(4) by (simp add: quote_cp_def)
  have sv: "scalar_value cp" using assms(1) by (simp add: text_char_def)
  have "c \<noteq> q" using utf8_encode_hd [OF sv e assms(2)] False by blast
  moreover have "c \<noteq> CHR 0x5C" using utf8_encode_hd [OF sv e, of "CHR 0x5C"] False by auto
  ultimately show ?thesis
    using utf8_consume_encode [OF assms(1), of s] e by (simp add: quoted_step_def)
qed

lemma quoted_loop_quote:
  assumes "list_all text_char cps" "code q < 128" "q \<noteq> CHR 0x5C" "s = [] \<or> hd s \<noteq> q"
  shows "quoted_loop q n acc (concat (map (quote_cp q) cps) @ q # s)
    = Inr (n + length (concat (map (quote_cp q) cps)) + 1)"
  using assms(1)
proof (induction cps arbitrary: n acc)
  case Nil
  then show ?case using assms by (simp add: quoted_step_def)
next
  case (Cons cp cps)
  obtain c cs where e: "quote_cp q cp = c # cs" 
    by (cases "quote_cp q cp") (auto simp: quote_cp_def split: if_splits)
  obtain t where "quoted_step q c (cs @ concat (map (quote_cp q) cps) @ q # s) = Q_char (Suc (length cs)) t"
    using quoted_step_cp [OF _ assms(2,3) e] Cons.prems by fastforce
  then show ?case
    using Cons by (simp add: e)
qed

section \<open>First tokens\<close>

definition it_at :: "string \<Rightarrow> nat \<Rightarrow> tok_it" where
  "it_at s p = \<lparr>ci_inp = s, ci_pos = p, ti_pos = p, ti_end = False, ti_tok = empty_token\<rparr>"

lemma it_at_sel [simp]:
  "ci_inp (it_at s p) = s" "ci_pos (it_at s p) = p" "ti_pos (it_at s p) = p" "ti_end (it_at s p) = False"
  "ti_tok (it_at s p) = empty_token"
  by (simp_all add: it_at_def)

lemma it_at_char [simp]:
  "ci_rest (it_at (ws @ s) (length ws)) = s"
  "get_unit (it_at (ws @ c # s) (length ws)) = c"
  "ci_at_end (it_at (ws @ s) (length ws)) = (s = [])"
  by (auto simp: ci_rest_def get_unit_def ci_at_end_def)

lemma tokenizer_begin_eq:
  assumes "list_all c_isspace ws" "\<not> c_isspace c"
  shows "tokenizer_begin (ws @ c # s) =
    ebind (recognise (it_at (ws @ c # s) (length ws))) (\<lambda>(b, it). Inr it)"
proof -
  have "takeWhile c_isspace (ws @ c # s) = ws"
    using assms by (simp add: list_all_iff takeWhile_append2)
  then have "at_token (tokenizer_start (ws @ c # s)) = it_at (ws @ c # s) (length ws)"
    by (simp add: at_token_def skip_ws_def tokenizer_start_def ci_rest_def ci_adv_def it_at_def)
  then show ?thesis
    by (simp add: tokenizer_begin_def tok_next_def get_next_token_eq) (simp add: tokenizer_start_def)
qed

definition tok_is :: "tok_type \<Rightarrow> string \<Rightarrow> nat \<Rightarrow> tok_it outcome \<Rightarrow> bool" where
  "tok_is ty txt p r =
    (case r of
       Inl e \<Rightarrow> False
     | Inr it \<Rightarrow> \<not> ti_end it \<and> tok_ty (ti_tok it) = ty \<and> tok_bytes it = txt \<and> ci_pos it = p)"

lemma code_eq_0: "code d = 0 \<longleftrightarrow> d = CHR 0x00"
  by (simp flip: of_char_eq_iff [where ?'a = nat])

lemma strchr_dec_digits: "strchr_found dec_digits d \<longleftrightarrow> code d = 0 \<or> c_isdigit d"
proof -
  have "c_isdigit d \<longleftrightarrow> code d \<in> {48,49,50,51,52,53,54,55,56,57}"
    unfolding c_isdigit_def insert_iff empty_iff by presburger
  also have "\<dots> \<longleftrightarrow> d \<in> set dec_digits" by (simp flip: of_char_eq_iff [where ?'a = nat])
  finally show ?thesis by (auto simp: strchr_found_def)
qed

lemma slice_mid [simp]: "slice (length a) (length a + length b) (a @ b @ c) = b"
  by (simp add: slice_def)

lemma quoted_first_token:
  assumes "list_all c_isspace ws" "list_all text_char cps" "q = CHR 0x22 \<or> q = CHR 0x27"
    "s = [] \<or> hd s \<noteq> q"
  shows "tok_is (if q = CHR 0x22 then T_QQSTRING else T_QSTRING) (concat (map (quote_cp q) cps))
    (length ws + length (concat (map (quote_cp q) cps)) + 2)
    (tokenizer_begin (ws @ q # concat (map (quote_cp q) cps) @ q # s))"
proof -
  define body where "body = concat (map (quote_cp q) cps)"
  have q: "code q < 128" "q \<noteq> CHR 0x5C" "\<not> c_isspace q"
    using assms(3) by (auto simp: c_isspace_def)
  define it where "it = it_at (ws @ q # body @ q # s) (length ws)"
  have l: "quoted_loop q 0 [] (body @ q # s) = Inr (length body + 1)"
    using quoted_loop_quote [OF assms(2) q(1,2) assms(4), of 0 "[]"] by (simp add: body_def)
  have r: "ci_rest it = q # body @ q # s" "get_unit it = q" "ci_pos it = length ws"
    by (simp_all add: it_def)
  have pq: "parse_quotted_string q it = Inr (True,
      set_tok_pos (Suc (length ws)) (Suc (length ws) + length body) (ci_adv (length body + 1) (next_unit it)))"
    by (simp add: parse_quotted_string_def consume_char_def r l)
  have "parse_string it = Inr (True, set_tok_type (if q = CHR 0x22 then T_QQSTRING else T_QSTRING)
      (set_tok_pos (Suc (length ws)) (Suc (length ws) + length body) (ci_adv (length body + 1) (next_unit it))))"
    using assms(3) by (simp add: parse_string_def r pq)
  moreover have "recognise it = parse_string it"
    using assms(3) calculation by (auto simp: recognise_def parse_by_first_char_def r)
  moreover have "slice (Suc (length ws)) (Suc (length ws) + length body) (ws @ q # body @ q # s) = body"
    using slice_mid [of "ws @ [q]" body "q # s"] by simp
  ultimately show ?thesis
    using tokenizer_begin_eq [OF assms(1) q(3), of "body @ q # s"]
    by (simp add: tok_is_def tok_bytes_def lex_simps flip: it_def body_def) (simp add: it_def)
qed

lemma word_first_token:
  assumes "list_all c_isspace ws" "list_all is_word_char (c # w)" "\<not> c_isdigit c"
    "s = [] \<or> \<not> is_word_char (hd s)" "c \<in> {CHR ''x'', CHR ''X''} \<Longrightarrow> w = [] \<Longrightarrow> s = [] \<or> hd s \<noteq> CHR 0x27"
  shows "tok_is T_WORD (c # w) (length ws + Suc (length w)) (tokenizer_begin (ws @ (c # w) @ s))"
proof -
  define it where "it = it_at (ws @ c # w @ s) (length ws)"
  have wc: "is_word_char c" using assms(2) by simp
  then have c: "\<not> c_isspace c" "code c < 127" "c \<noteq> CHR 0x60" "c \<noteq> CHR 0x22" "c \<noteq> CHR 0x27" "c \<noteq> CHR ''.''"
     "c \<notin> set (map fst symbol_list1)" "c \<notin> hd ` fst ` set symbol_list2" "code c \<noteq> 0"
    by (auto simp: is_word_char_def c_isspace_def c_isalnum_def c_isdigit_def c_isupper_def
      c_islower_def symbol_list1_def symbol_list2_def)
  have u: "get_unit it = c" "ci_rest it = c # w @ s" "\<not> ci_at_end it" "\<not> ti_end it"
    by (simp_all add: it_def)
  have tw: "takeWhile is_word_char (c # w @ s) = c # w"
    using assms(2,4) by (cases s) (simp_all add: list_all_iff)
  have nil: "filter (\<lambda>(s, t). hd s = c) symbol_list2 = []"
    using c(8) by (force simp: filter_empty_conv)
  have sy: "parse_symbol it = (False, it)"
    using c(7) map_of_eq_None_iff [of symbol_list1 c] unfolding parse_symbol_def u Let_def nil by simp
  have nm: "parse_number it = Inr (False, it)"
    using c assms(3) by (auto simp: parse_number_def u cur_char_is_def parse_digits_def strchr_dec_digits)
  have hx: "parse_hex it = Inr (False, it)" if "c = CHR ''x'' \<or> c = CHR ''X''"
  proof -
    have "ci_at_end_off 1 it \<or> \<not> next_char_is (CHR 0x27) it"
    proof (cases "w @ s")
      case Nil
      then show ?thesis by (simp add: ci_at_end_off_def it_def)
    next
      case (Cons d ds)
      then have "d \<noteq> CHR 0x27"
        using assms(2,5) that by (cases w) (auto simp: is_word_char_def c_isalnum_def c_isdigit_def c_isupper_def c_islower_def)
      moreover have "(ws @ c # d # ds) ! Suc (length ws) = d" by (simp add: nth_append)
      ultimately show ?thesis by (simp add: next_char_is_def it_def Cons)
    qed
    then show ?thesis
      using that by (elim disjE) (simp_all add: parse_hex_def u cur_char_is_def cur_char_in_def strchr_found_def)
  qed
  have c0: "c \<noteq> CHR ''0''" using assms(3) by (auto simp: c_isdigit_def)
  have "recognise it = parse_word it"
    using c c0 assms(3) hx nm sy by (auto simp: recognise_def parse_by_first_char_def u)
  then show ?thesis
    using tokenizer_begin_eq [OF assms(1) c(1), of "w @ s"] slice_mid [of ws "c # w" s] c tw
    by (simp add: tok_is_def tok_bytes_def lex_simps parse_word_def u cur_char_is_def Let_def flip: it_def) (simp add: it_def)
qed


lemma integer_first_token:
  assumes "list_all c_isspace ws" "list_all c_isdigit (c # ds)"
    "s = [] \<or> \<not> c_isdigit (hd s) \<and> hd s \<notin> {CHR ''.'', CHR ''e'', CHR ''E'', CHR 0x00}"
    "c = CHR ''0'' \<Longrightarrow> ds = [] \<Longrightarrow> s = [] \<or> hd s \<notin> {CHR ''x'', CHR ''X''}"
  shows "tok_is T_INTEGER (c # ds) (length ws + Suc (length ds)) (tokenizer_begin (ws @ (c # ds) @ s))"
proof -
  define it where "it = it_at (ws @ c # ds @ s) (length ws)"
  have dig: "c_isdigit c" using assms(2) by simp
  then have c: "\<not> c_isspace c" "code c < 127" "c \<noteq> CHR 0x22" "c \<noteq> CHR 0x27" "c \<noteq> CHR ''.''" 
    "c \<noteq> CHR ''x''" "c \<noteq> CHR ''X''"
    by (auto simp: c_isspace_def c_isdigit_def)
  have u: "get_unit it = c" "ci_rest it = c # ds @ s" "\<not> ci_at_end it" "\<not> ti_end it"
    by (simp_all add: it_def)
  have s0: "s = [] \<or> \<not> strchr_found dec_digits (hd s)"
    using assms(3) by (auto simp: strchr_dec_digits code_eq_0)
  have "takeWhile (strchr_found dec_digits) (c # ds @ s) = c # ds"
    using assms(2) s0 by (cases s) (simp_all add: list_all_iff strchr_dec_digits takeWhile_append)
  then have pd: "parse_digits it = (True, ci_adv (Suc (length ds)) it)"
    by (simp add: parse_digits_def u)
  define it1 where "it1 = ci_adv (Suc (length ds)) it"
  have i1: "ci_rest it1 = s" "ci_pos it1 = length ws + Suc (length ds)" "ti_pos it1 = length ws" "ci_inp it1 = ws @ c # ds @ s"
    by (simp_all add: it1_def u) (simp_all add: it_def ci_adv_def)
  have ne: "get_unit it1 = hd s" if "s \<noteq> []"
    using that get_unit_rest [of it1] i1(1) by (metis list.exhaust_sel)
  have e1: "ci_at_end it1 \<longleftrightarrow> s = []"
    by (auto simp: ci_at_end_def i1)
  have "(if ci_at_end it1 then (False, it1) else consume_char (CHR ''.'') it1) = (False, it1)"
    using assms(3) ne by (auto simp: e1 consume_char_def)
  moreover have "(if ci_at_end it1 then (False, it1) else consume_char_in ''Ee'' it1) = (False, it1)"
    using assms(3) ne by (auto simp: e1 consume_char_in_def cur_char_in_def strchr_found_def code_eq_0)
  ultimately have nf: "number_fraction it1 = Inr (True, set_token T_INTEGER (ti_pos it1) (ci_pos it1) it1)"
    by (simp add: number_fraction_def)
  have nm: "parse_number it = number_fraction it1"
    using c by (simp add: parse_number_def u cur_char_is_def pd it1_def)
  have hx: "parse_hex it = Inr (False, it)" if "c = CHR ''0''"
  proof -
    have "ci_at_end_off 1 it \<or> \<not> next_char_in ''Xx'' it"
    proof (cases "ds @ s")
      case Nil
      then show ?thesis by (simp add: ci_at_end_off_def it_def)
    next
      case (Cons d ds')
      then have "d \<notin> {CHR ''x'', CHR ''X''}"
        using assms(2,4) that by (cases ds) (auto simp: c_isdigit_def)
      moreover have "(ws @ c # d # ds') ! Suc (length ws) = d" by (simp add: nth_append)
      ultimately show ?thesis by (simp add: next_char_in_def it_def Cons)
    qed
    then show ?thesis
      using that by (elim disjE) (simp_all add: parse_hex_def u cur_char_is_def cur_char_in_def strchr_found_def)
  qed
  have "recognise it = number_fraction it1"
    using c dig nm hx nf by (auto simp: recognise_def parse_by_first_char_def u)
  then show ?thesis
    using tokenizer_begin_eq [OF assms(1) c(1), of "ds @ s"] slice_mid [of ws "c # ds" s] nf
    by (simp add: tok_is_def tok_bytes_def lex_simps i1 flip: it_def) (simp add: it1_def it_def ci_adv_def)
qed

lemma recognise_not_lexable:
  assumes pre: "lex_pre it" and nl: "\<not> lexable (get_unit it)"
  shows "recognise it = Inr (False, it)"
proof -
  let ?c = "get_unit it"
  have c: "\<not> is_word_char ?c" "?c \<notin> set (map fst symbol_list1)" "?c \<notin> {CHR 0x22, CHR 0x27, CHR 0x60}"
    using nl by (auto simp: lexable_def)
  then have c2: "\<not> c_isdigit ?c" "?c \<notin> {CHR ''x'', CHR ''X'', CHR ''0'', CHR ''.''}"
    by (auto simp: is_word_char_def c_isalnum_def c_isdigit_def c_isupper_def c_islower_def symbol_list1_def)
  have "?c \<notin> hd ` fst ` set symbol_list2"
    using c(2) by (auto simp: symbol_list1_def symbol_list2_def)
  then have nil: "filter (\<lambda>(s, t). hd s = ?c) symbol_list2 = []"
    by (force simp: filter_empty_conv)
  have sy: "parse_symbol it = (False, it)"
    using c(2) map_of_eq_None_iff [of symbol_list1 ?c] unfolding parse_symbol_def Let_def nil by simp
  obtain d ds where r: "ci_rest it = d # ds"
    using lex_pre_wf [OF pre] ci_at_end_iff_rest [of it] by (cases "ci_rest it") auto
  have wd: "parse_word it = Inr (False, it)"
    using c lex_pre_wf [OF pre] get_unit_rest [OF r] by (auto simp: parse_word_def cur_char_is_def r)
  have fc: "parse_by_first_char it = Inr (False, it)"
    using c c2 by (auto simp: parse_by_first_char_def Let_def)
  show ?thesis
    by (simp add: recognise_def fc sy wd)
qed

lemma lex_run_fixpoint: "tok_next it = Inr it \<Longrightarrow> \<not> ti_end it \<Longrightarrow> lex_run n it = Inl Out_of_fuel"
  by (induction n) simp_all

section \<open>Properties\<close>

text \<open>
  C20: when the tokenizer recognises a token it moves strictly forward, stays inside the input, skips
  nothing but white space, and the token lies inside the bytes it has just passed.
\<close>

theorem next_token_tiles:
  assumes "tok_wf it" "get_next_token it = Inr (True, it')"
  shows "tok_wf it' \<and> ci_inp it' = ci_inp it \<and> ci_pos it < ci_pos it'
    \<and> list_all c_isspace (slice (ci_pos it) (ti_pos it') (ci_inp it))
    \<and> ti_pos it' \<le> tok_begin (ti_tok it') \<and> tok_end (ti_tok it') \<le> ci_pos it'"
proof -
  have ci: "ci_wf it" using assms(1) by (simp add: tok_wf_def)
  then obtain st: "lex_step (at_token it) it'" and ne: "\<not> ti_end it"
    using assms(2) by (cases rule: get_next_token_cases) (auto simp: lex_pre_def lex_simps)
  have "slice (ci_pos it) (ti_pos it') (ci_inp it) = takeWhile c_isspace (ci_rest it)"
    using st by (simp add: lex_step_def lex_simps skip_ws_def slice_def ci_rest_def flip: takeWhile_eq_take)
  then have "list_all c_isspace (slice (ci_pos it) (ti_pos it') (ci_inp it))"
    by (auto simp: list_all_iff dest: set_takeWhileD)
  then show ?thesis
    using tok_wf_step [OF st ne] st by (simp add: lex_step_def)
qed

theorem next_token_tiles_witness:
  "ci_pos (tokenizer_start '' a+1'') < 2
   \<and> list_all c_isspace (slice (ci_pos (tokenizer_start '' a+1'')) 1 '' a+1'')"
proof -
  have "get_next_token (tokenizer_start '' a+1'') = Inr (True,
    \<lparr>ci_inp = '' a+1'', ci_pos = 2, ti_pos = 1, ti_end = False,
     ti_tok = \<lparr>tok_ty = T_WORD, tok_begin = 1, tok_end = 2\<rparr>\<rparr>)"
    by code_simp
  from next_token_tiles [OF tokenizer_start_wf(1) this] show ?thesis by simp
qed

text \<open>
  On an input whose characters all start tokens or are white space, reading the tokens one after
  the other ends (at the end of the input or in an error) after at most one step per byte and one
  more.
\<close>

lemma tokenizer_ends:
  assumes "list_all lexable s" "length s < n"
  shows "lex_run n (tokenizer_start s) \<noteq> Inl Out_of_fuel"
  using assms by (intro lex_run_enough) (simp_all, simp_all add: tokenizer_start_def)

lemma tokenizer_ends_example:
  "lex_run 6 (tokenizer_start ''a>=.5'') \<noteq> Inl Out_of_fuel"
  by (rule tokenizer_ends; code_simp)

text \<open>
  At a character that starts no token the iterator reports a false answer that its caller
  ignores; it then stays where it is for ever, so reading on never reaches the end.
\<close>

lemma unrecognised_char_sticks:
  assumes "list_all c_isspace ws" "\<not> lexable c"
  shows "\<exists>it. tokenizer_begin (ws @ c # s) = Inr it \<and> tok_next it = Inr it \<and> \<not> ti_end it
    \<and> ti_tok it = empty_token \<and> (\<forall>n. lex_run n it = Inl Out_of_fuel)"
proof -
  define it where "it = it_at (ws @ c # s) (length ws)"
  have u: "get_unit it = c" "\<not> ti_end it" "ti_tok it = empty_token" by (simp_all add: it_def)
  have pre: "lex_pre it" by (simp add: it_def lex_pre_def)
  have rec: "recognise it = Inr (False, it)"
    using recognise_not_lexable [OF pre] assms(2) u by simp
  have sp: "\<not> c_isspace c" using assms(2) by (simp add: lexable_def)
  have b: "tokenizer_begin (ws @ c # s) = Inr it"
    using tokenizer_begin_eq [OF assms(1) sp, of s] rec by (simp add: it_def)
  have "skip_ws it = it" by (rule skip_ws_id [of _ c s]) (simp_all add: it_def sp)
  then have "at_token it = it" by (simp add: at_token_def) (simp add: it_def)
  then have nx: "tok_next it = Inr it"
    using rec lex_pre_wf [OF pre] u by (simp add: tok_next_def get_next_token_eq)
  show ?thesis
    using b nx u lex_run_fixpoint [OF nx u(2)] by blast
qed

lemma unrecognised_char_sticks_example:
  "\<exists>it. tokenizer_begin '' @x'' = Inr it \<and> tok_next it = Inr it \<and> (\<forall>n. lex_run n it = Inl Out_of_fuel)"
proof -
  have "list_all c_isspace '' ''" "\<not> lexable (CHR ''@'')" by code_simp+
  from unrecognised_char_sticks [OF this, of "''x''"] show ?thesis by auto
qed

text \<open>
  C22: any sequence of code points other than NUL, written between single or double quotes with quotes and
  backslashes escaped, is read back as one string token whose text is what stands between the
  quotes.
\<close>

theorem quoted_string_token:
  assumes "list_all c_isspace ws" "list_all text_char cps" "q = CHR 0x22 \<or> q = CHR 0x27"
    "s = [] \<or> hd s \<noteq> q"
  shows "tok_is (if q = CHR 0x22 then T_QQSTRING else T_QSTRING) (concat (map (quote_cp q) cps))
    (length ws + length (concat (map (quote_cp q) cps)) + 2)
    (tokenizer_begin (ws @ q # concat (map (quote_cp q) cps) @ q # s))"
  using assms by (rule quoted_first_token)

theorem quoted_string_token_witness:
  "tok_is T_QQSTRING (concat (map (quote_cp (CHR 0x22)) [0x61, 0x22, 0x20AC, 0x5C]))
    (length '' '' + length (concat (map (quote_cp (CHR 0x22)) [0x61, 0x22, 0x20AC, 0x5C])) + 2)
    (tokenizer_begin ('' '' @ CHR 0x22 # concat (map (quote_cp (CHR 0x22)) [0x61, 0x22, 0x20AC, 0x5C])
       @ CHR 0x22 # ''=x''))"
proof -
  have "list_all c_isspace '' ''" "list_all text_char [0x61, 0x22, 0x20AC, 0x5C]"
    "''=x'' = [] \<or> hd ''=x'' \<noteq> CHR 0x22" by (simp_all add: text_char_def scalar_value_def c_isspace_def)
  from quoted_string_token [OF this(1,2) disjI1 [OF refl] this(3)] show ?thesis
    by (simp only: refl if_True simp_thms)
qed

text \<open>
  a run of letters, digits and underscores that does not start with a digit is one word token,
  up to the first other character (unless it is the \<^verbatim>\<open>x\<close> of a hexadecimal literal).
\<close>

lemma word_token:
  assumes "list_all c_isspace ws" "list_all is_word_char (c # w)" "\<not> c_isdigit c"
    "s = [] \<or> \<not> is_word_char (hd s)" "c \<in> {CHR ''x'', CHR ''X''} \<Longrightarrow> w = [] \<Longrightarrow> s = [] \<or> hd s \<noteq> CHR 0x27"
  shows "tok_is T_WORD (c # w) (length ws + Suc (length w)) (tokenizer_begin (ws @ (c # w) @ s))"
  using assms by (rule word_first_token)

lemma word_token_example: "tok_is T_WORD ''x1'' 3 (tokenizer_begin '' x1->b'')"
proof -
  have "list_all c_isspace '' ''" "list_all is_word_char ''x1''" "\<not> c_isdigit (CHR ''x'')"
    "''->b'' = [] \<or> \<not> is_word_char (hd ''->b'')" by code_simp+
  from word_token [OF this] show ?thesis by (simp add: numeral_eq_Suc)
qed

text \<open>
  a run of decimal digits that is not continued by a fraction, an exponent or (behind a
  single zero) the \<^verbatim>\<open>x\<close> of a hexadecimal literal is one integer token.
\<close>

lemma integer_token:
  assumes "list_all c_isspace ws" "list_all c_isdigit (c # ds)"
    "s = [] \<or> \<not> c_isdigit (hd s) \<and> hd s \<notin> {CHR ''.'', CHR ''e'', CHR ''E'', CHR 0x00}"
    "c = CHR ''0'' \<Longrightarrow> ds = [] \<Longrightarrow> s = [] \<or> hd s \<notin> {CHR ''x'', CHR ''X''}"
  shows "tok_is T_INTEGER (c # ds) (length ws + Suc (length ds)) (tokenizer_begin (ws @ (c # ds) @ s))"
  using assms by (rule integer_first_token)

lemma integer_token_example: "tok_is T_INTEGER ''007'' 3 (tokenizer_begin ''007abc'')"
proof -
  have "list_all c_isspace ''''" "list_all c_isdigit ''007''"
    "''abc'' = [] \<or> \<not> c_isdigit (hd ''abc'') \<and> hd ''abc'' \<notin> {CHR ''.'', CHR ''e'', CHR ''E'', CHR 0x00}" by code_simp+
  from integer_token [OF this] show ?thesis by (simp add: numeral_eq_Suc)
qed

end
