(* ===== verification/Parser_Laws.thy ===== *)
theory Parser_Laws
  imports Expr_Parser Lexer_Run
begin

text \<open>
  The contract of the recursive-descent parser, as an interface on its dispatcher: a production
  called through a dispatcher that keeps the contract keeps it itself, so the dispatcher of every
  fuel keeps it.  The contract says that parsing only moves forward on the input, that every error
  is positioned inside the input, and that enough fuel for the length of the input is never used up.
\<close>

section \<open>States that only move forward\<close>

definition st_wf :: "pst \<Rightarrow> bool" where
  "st_wf st \<longleftrightarrow> tok_wf (ps_it st)"

definition st_le :: "pst \<Rightarrow> pst \<Rightarrow> bool" where
  "st_le st st' \<longleftrightarrow> tok_le (ps_it st) (ps_it st')"

abbreviation inp :: "pst \<Rightarrow> string" where
  "inp st \<equiv> ci_inp (ps_it st)"

text \<open>How much is left: what termination is measured by.\<close>

definition rem :: "pst \<Rightarrow> nat" where
  "rem st = (if ti_end (ps_it st) then 0 else Suc (length (inp st) - ci_pos (ps_it st)))"

text \<open>
  The contract of a parsing step: it moves forward on the same input or throws an error positioned
  in the input; when \<open>t\<close> holds it has not run out of fuel.
\<close>

definition safe :: "bool \<Rightarrow> pst \<Rightarrow> ('a \<times> pst) outcome \<Rightarrow> bool" where
  "safe t st r =
    (case r of
       Inl e \<Rightarrow> (if e = Out_of_fuel then \<not> t else perror_in (inp st) e)
     | Inr (x, st') \<Rightarrow> st_le st st')"

lemma st_le_refl: "st_wf st \<Longrightarrow> st_le st st"
  by (simp add: st_wf_def st_le_def tok_le_refl)

lemma st_le_trans: "st_le st st' \<Longrightarrow> st_le st' st'' \<Longrightarrow> st_le st st''"
  unfolding st_le_def by (rule tok_le_trans)

lemma st_le_wf: "st_le st st' \<Longrightarrow> st_wf st'"
  by (simp add: st_le_def st_wf_def tok_le_def)

lemma st_le_inp: "st_le st st' \<Longrightarrow> inp st' = inp st"
  by (simp add: st_le_def tok_le_def)

lemma st_le_rem: "st_le st st' \<Longrightarrow> rem st' \<le> rem st"
  by (auto simp: st_le_def rem_def tok_le_def)

lemma safe_Inr: "safe t st (Inr (x, st')) \<longleftrightarrow> st_le st st'"
  by (simp add: safe_def)

lemma safe_bind:
  assumes "safe t st r"
    and "\<And>x st'. r = Inr (x, st') \<Longrightarrow> st_le st st' \<Longrightarrow> safe t st' (f (x, st'))"
  shows "safe t st (ebind r f)"
proof (cases r)
  case (Inl e)
  then show ?thesis using assms(1) by (simp add: safe_def)
next
  case (Inr p)
  obtain x st' where p: "p = (x, st')" by (cases p)
  then have le: "st_le st st'" using assms(1) Inr by (simp add: safe_def)
  have "safe t st' (f (x, st'))" using assms(2) Inr p le by blast
  then show ?thesis
    using Inr p le by (auto simp: safe_def perror_in_def st_le_inp split: sum.splits perror.splits intro: st_le_trans)
qed

lemma safe_mono: "safe t st r \<Longrightarrow> (t' \<Longrightarrow> t) \<Longrightarrow> safe t' st r"
  by (auto simp: safe_def split: sum.splits if_splits)

lemma safe_Inr_refl: "st_wf st \<Longrightarrow> safe t st (Inr (x, st))"
  by (simp add: safe_def st_le_refl)

lemma safe_error: "st_wf st \<Longrightarrow> safe t st (parse_error m st)"
  by (simp add: safe_def parse_error_def throw_error_def perror_in_def st_wf_def tok_wf_def ci_wf_def)

lemma safe_unsupported: "st_wf st \<Longrightarrow> safe t st (unsupported m st)"
  by (simp add: unsupported_def safe_error)

lemma safe_consume: "st_wf st \<Longrightarrow> safe t st (consume_token st)"
  using tok_next_spec [of "ps_it st"]
  by (auto simp: safe_def consume_token_def st_wf_def st_le_def ebind_def perror_in_def split: sum.splits)

lemma consume_rem:
  assumes "st_wf st" "tokens_available st" "list_all lexable (inp st)" "consume_token st = Inr (x, st')"
  shows "rem st' < rem st"
proof -
  have wf: "tok_wf (ps_it st)" and ne: "\<not> ti_end (ps_it st)"
    using assms by (simp_all add: st_wf_def tokens_available_def)
  have nx: "tok_next (ps_it st) = Inr (ps_it st')"
    using assms(4) by (auto simp: consume_token_def)
  have "tok_le (ps_it st) (ps_it st')" "ci_pos (ps_it st) < ci_pos (ps_it st') \<or> ti_end (ps_it st')"
    using tok_next_Inr [OF wf nx] assms(3) ne by auto
  then show ?thesis
    using ne by (auto simp: rem_def tok_le_def tok_wf_def ci_wf_def)
qed

lemma safe_consume_if: "st_wf st \<Longrightarrow> safe t st (consume_if p st)"
  unfolding consume_if_def by (auto intro!: safe_bind safe_consume safe_Inr_refl simp: st_le_wf)

lemma safe_consume_throw: "st_wf st \<Longrightarrow> safe t st (consume_throw p m st)"
  unfolding consume_throw_def by (auto intro: safe_consume safe_error)

lemma safe_col: "safe t (st\<lparr>ps_col := c\<rparr>) r \<longleftrightarrow> safe t st r"
  by (auto simp: safe_def st_le_def split: sum.splits)

named_theorems safe_rules \<open>contracts of the parsing functions\<close>
declare safe_error [safe_rules] safe_unsupported [safe_rules] safe_consume [safe_rules]
  safe_consume_if [safe_rules] safe_consume_throw [safe_rules] safe_Inr_refl [safe_rules]

lemma safe_get_ident [safe_rules]: "st_wf st \<Longrightarrow> safe t st (get_ident st)"
  unfolding get_ident_def by (auto intro!: safe_rules safe_bind simp: st_le_wf)

lemma safe_cast_dim [safe_rules]: "st_wf st \<Longrightarrow> safe t st (cast_data_type_dimension d st)"
  unfolding cast_data_type_dimension_def
  by (auto intro!: safe_rules safe_bind simp: st_le_wf)

lemma safe_cast_type [safe_rules]: "st_wf st \<Longrightarrow> safe t st (parse_cast_type st)"
  unfolding parse_cast_type_def Let_def
  by (auto intro!: safe_rules safe_bind simp: st_le_wf)

lemma safe_member [safe_rules]: "st_wf st \<Longrightarrow> safe t st (parse_docpath_member st)"
  unfolding parse_docpath_member_def by (auto intro!: safe_rules safe_bind simp: st_le_wf)

lemma safe_member_dot [safe_rules]: "st_wf st \<Longrightarrow> safe t st (parse_docpath_member_dot st)"
  unfolding parse_docpath_member_dot_def by (auto intro!: safe_rules safe_bind simp: st_le_wf split: option.splits)

lemma safe_array [safe_rules]: "st_wf st \<Longrightarrow> safe t st (parse_docpath_array st)"
  unfolding parse_docpath_array_def by (auto intro!: safe_rules safe_bind simp: st_le_wf split: sum.splits)

section \<open>Fuel\<close>

text \<open>
  Fuel \<open>n\<close> pays for 16 nested calls per remaining token, \<open>k\<close> further ones and a reserve \<open>r\<close>.  The reserve
  is either nothing or enough for the token sequence of a quoted document path, which is no longer
  than the input.
\<close>

definition budget :: "nat \<Rightarrow> nat \<Rightarrow> nat \<Rightarrow> pst \<Rightarrow> bool" where
  "budget r n k st \<longleftrightarrow> list_all lexable (inp st) \<and> 16 * rem st + k + r < n
     \<and> (r = 0 \<or> 16 * length (inp st) + 16 \<le> r)"

definition funded :: "nat \<Rightarrow> bool \<Rightarrow> nat \<Rightarrow> nat \<Rightarrow> pst \<Rightarrow> bool" where
  "funded r t n k st \<longleftrightarrow> st_wf st \<and> (t \<longrightarrow> budget r n k st)"

lemma funded_wf: "funded r t n k st \<Longrightarrow> st_wf st"
  by (simp add: funded_def)

lemma funded_mono: "funded r t n k st \<Longrightarrow> st_le st st' \<Longrightarrow> k' \<le> k \<Longrightarrow> funded r t n k' st'"
  using st_le_rem [of st st'] by (auto simp: funded_def budget_def st_le_wf st_le_inp)

lemma funded_less: "funded r t n k st \<Longrightarrow> k' \<le> k \<Longrightarrow> funded r t n k' st"
  using funded_mono st_le_refl funded_wf by blast

lemma funded_consume:
  assumes "funded r t n k st" "tokens_available st" "consume_token st = Inr (x, st')"
  shows "funded r t n (k + 16) st'"
proof -
  have wf: "st_wf st" using assms(1) by (rule funded_wf)
  have le: "st_le st st'" using safe_consume [OF wf, of True] assms(3) by (simp add: safe_def)
  show ?thesis
    using assms(1) consume_rem [OF wf assms(2) _ assms(3)] st_le_wf [OF le] st_le_inp [OF le]
    by (auto simp: funded_def budget_def)
qed

lemma bind_consume:
  assumes "funded r t n k st" "tokens_available st"
    "\<And>x st'. funded r t n (k + 16) st' \<Longrightarrow> safe t st' (f (x, st'))"
  shows "safe t st (ebind (consume_token st) f)"
  using assms funded_consume funded_wf by (blast intro: safe_bind safe_consume)

lemma bind_consume_if:
  assumes "funded r t n k st" "p st \<Longrightarrow> tokens_available st"
    "\<And>st'. p st \<Longrightarrow> funded r t n (k + 16) st' \<Longrightarrow> safe t st' (f (True, st'))"
    "\<not> p st \<Longrightarrow> safe t st (f (False, st))"
  shows "safe t st (ebind (consume_if p st) f)"
proof (cases "p st")
  case True
  then have "ebind (consume_if p st) f = ebind (consume_token st) (\<lambda>(x, st'). f (True, st'))"
    by (simp add: consume_if_def ebind_assoc split_def)
  then show ?thesis
    using bind_consume [OF assms(1), of "\<lambda>(x, st'). f (True, st')"] assms(2,3) True by simp
next
  case False
  then show ?thesis using assms(4) by (simp add: consume_if_def)
qed

lemma bind_consume_throw:
  assumes "funded r t n k st" "p st \<Longrightarrow> tokens_available st"
    "\<And>x st'. funded r t n (k + 16) st' \<Longrightarrow> safe t st' (f (x, st'))"
  shows "safe t st (ebind (consume_throw p m st) f)"
proof (cases "p st")
  case True
  then show ?thesis using bind_consume [OF assms(1) assms(2) assms(3)] by (simp add: consume_throw_def)
next
  case False
  then show ?thesis
    using safe_error [OF funded_wf [OF assms(1)]]
    by (simp add: consume_throw_def parse_error_def throw_error_def)
qed

lemma bind_funded:
  assumes "funded r t n k st" "safe t st p"
    "\<And>x st'. p = Inr (x, st') \<Longrightarrow> funded r t n k st' \<Longrightarrow> safe t st' (f (x, st'))"
  shows "safe t st (ebind p f)"
  using assms funded_mono by (blast intro: safe_bind)

lemma available [simp]:
  "cur_token_type_is ty st \<Longrightarrow> tokens_available st"
  "cur_token_type_in tys st \<Longrightarrow> tokens_available st"
  "cur_kw_is kw st \<Longrightarrow> tokens_available st"
  "cur_kw_in kws st \<Longrightarrow> tokens_available st"
  "cur_op_is a st \<Longrightarrow> tokens_available st"
  "cur_op_in ops st \<Longrightarrow> tokens_available st"
  by (simp_all add: cur_token_type_is_def cur_token_type_in_def cur_kw_is_def cur_kw_in_def
      cur_op_is_def cur_op_in_def)

lemma funded_col: "funded r t n k (st\<lparr>ps_col := c\<rparr>) = funded r t n k st"
  by (simp add: funded_def budget_def rem_def st_wf_def)

section \<open>Loops\<close>

lemma funded_fuel: "funded r t (Suc n) (Suc k) st \<Longrightarrow> funded r t n k st"
  by (auto simp: funded_def budget_def)

lemma funded_no_fuel: "funded r t 0 k st \<Longrightarrow> safe t st (Inl Out_of_fuel)"
  by (auto simp: funded_def budget_def safe_def)

text \<open>A step that has consumed a token whenever it answers \<open>Some\<close>.\<close>

lemma member_dot_consumes:
  assumes "funded r t n k st" "parse_docpath_member_dot st = Inr (Some el, st')"
  shows "funded r t n (k + 16) st'"
proof -
  obtain x st1 where c: "cur_token_type_is T_DOT st" "consume_token st = Inr (x, st1)"
    "parse_docpath_member st1 = Inr (Some el, st')"
    using assms(2) by (auto simp: parse_docpath_member_dot_def consume_if_def parse_error_def throw_error_def
        split: if_splits option.splits)
  then have f: "funded r t n (k + 16) st1"
    using funded_consume [OF assms(1)] by auto
  have "st_le st1 st'"
    using safe_member [OF funded_wf [OF f], of True] c(3) by (simp add: safe_def)
  then show ?thesis using funded_mono [OF f] by simp
qed

lemma array_consumes:
  assumes "funded r t n k st" "parse_docpath_array st = Inr (Some el, st')"
  shows "funded r t n (k + 16) st'"
proof -
  have st: "cur_token_type_is T_LSQBRACKET st"
    using assms(2) by (auto simp: parse_docpath_array_def consume_if_def split: if_splits)
  obtain x st1 where c: "consume_token st = Inr (x, st1)"
    using assms(2) st by (auto simp: parse_docpath_array_def consume_if_def)
  then have f: "funded r t n (k + 16) st1"
    using funded_consume [OF assms(1)] st by auto
  have "safe True st1 (parse_docpath_array st)"
    unfolding parse_docpath_array_def using st c funded_wf [OF f]
    by (auto simp: consume_if_def [of _ st] st_le_wf intro!: safe_bind safe_rules split: sum.splits)
  then have "st_le st1 st'" using assms(2) by (simp add: safe_def)
  then show ?thesis using funded_mono [OF f] by simp
qed

lemma document_path_loop_safe: "funded r t n 0 st \<Longrightarrow> safe t st (document_path_loop n b st)"
proof (induction n arbitrary: b st)
  case 0
  then show ?case by (simp add: funded_no_fuel)
next
  case (Suc n)
  have wf: "st_wf st" using Suc.prems by (rule funded_wf)
  have rec: "safe t st' (ebind (document_path_loop n b' st') (\<lambda>(els, st2). Inr (el # els, st2)))"
    if "funded r t (Suc n) (0 + 16) st'" for st' el b'
  proof -
    have "funded r t n 0 st'"
      using that funded_fuel funded_less [of r t "Suc n" 16 st' 1] by simp
    then show ?thesis
      by (auto intro!: safe_bind Suc.IH safe_Inr_refl dest: st_le_wf)
  qed
  show ?case
    unfolding document_path_loop.simps
    apply (cases "cur_token_type_in [T_DOUBLESTAR, T_DOT, T_LSQBRACKET] st")
     apply (simp only: simp_thms if_False)
     apply (rule bind_consume_if [OF Suc.prems])
       apply simp
      apply (simp add: rec)
     apply (simp only: split if_False simp_thms)
     apply (rule bind_funded [OF Suc.prems])
      apply (rule safe_member_dot [OF wf])
    subgoal for x st2
      using rec member_dot_consumes [OF Suc.prems, of _ st2] array_consumes [of r t "Suc n" 0 st2]
      by (auto split: option.splits intro!: bind_funded [of r t "Suc n" 0] safe_array safe_Inr_refl dest: funded_wf)
    using wf by (simp add: safe_error safe_Inr_refl)
qed

lemma path1_safe: "funded r t n 0 st \<Longrightarrow> safe t st (parse_document_path1 n st)"
  by (simp add: parse_document_path1_def document_path_loop_safe)

lemma document_path_safe: "funded r t n 0 st \<Longrightarrow> safe t st (parse_document_path n b st)"
  unfolding parse_document_path_def
  by (auto intro!: bind_funded [of r t n 0] path1_safe safe_rules simp: funded_wf split: option.splits)

lemma document_field_safe: "funded r t n 0 st \<Longrightarrow> safe t st (parse_document_field n b st)"
  unfolding parse_document_field_def
  by (auto intro!: bind_funded [of r t n 0] document_path_safe safe_rules simp: funded_wf split: option.splits)

lemma document_field_from_safe: "funded r t n 0 st \<Longrightarrow> safe t st (parse_document_field_from n fs st)"
  unfolding parse_document_field_from_def
  by (auto intro!: bind_funded [of r t n 0] path1_safe safe_rules simp: funded_wf)

section \<open>Identifiers and lists\<close>

lemma set_table_sel [simp]: "ps_it (set_table f st) = ps_it st"
  by (simp add: set_table_def)

lemma safe_it: "ps_it st = ps_it st' \<Longrightarrow> safe t st r \<longleftrightarrow> safe t st' r"
  by (auto simp: safe_def st_le_def split: sum.splits)

lemma safe_Inl: "safe t st (Inl e) \<longleftrightarrow> (if e = Out_of_fuel then \<not> t else perror_in (inp st) e)"
  by (simp add: safe_def)

lemma safe_set_table: "safe t (set_table f st) r \<longleftrightarrow> safe t st r"
  by (rule safe_it) simp

lemma st_wf_set_table [simp]: "st_wf (set_table f st) = st_wf st"
  by (simp add: st_wf_def)

lemma safe_Inr_it: "st_wf st \<Longrightarrow> ps_it st' = ps_it st \<Longrightarrow> safe t st (Inr (x, st'))"
  by (simp add: safe_def st_le_def st_wf_def tok_le_refl)

lemma safe_schema_ident [safe_rules]:
  assumes "st_wf st"
  shows "safe t st (parse_schema_ident st)"
proof -
  have dot: "safe t st1 (ebind (consume_if (cur_token_type_is T_DOT) (set_table (tref_set name) st1)) f)"
    if "st_wf st1" "\<And>x st2. st_wf st2 \<Longrightarrow> safe t st2 (f (x, st2))" for st1 name f
    using that
    by (subst safe_set_table [symmetric, where f = "tref_set name"])
       (rule safe_bind [OF safe_consume_if], auto dest: st_le_wf)
  show ?thesis
    unfolding parse_schema_ident_def Let_def
    using assms
    by (auto intro!: dot safe_Inr_it safe_rules safe_bind [OF safe_get_ident] simp: st_le_wf split: option.split)
qed

lemma perror_in_mono: "perror_in s e \<Longrightarrow> length s \<le> length s' \<Longrightarrow> perror_in s' e"
  by (cases e) (simp_all add: perror_in_def)

lemma cur_text_bound: "set (cur_text st) \<subseteq> set (inp st)" "length (cur_text st) \<le> length (inp st)"
  by (simp_all add: cur_text_def tok_bytes_def set_slice_subset)

text \<open>A parser on a token sequence of its own, for a text no longer than the input.\<close>

lemma sub_tokens_safe:
  assumes f: "funded r t n 0 st" "r \<noteq> 0" and sub: "set s \<subseteq> set (inp st)" "length s \<le> length (inp st)"
    and p: "\<And>st'. funded 0 t n 0 st' \<Longrightarrow> safe t st' (p st')"
    and k: "\<And>x. safe t st (f x)"
  shows "safe t st (ebind (tokenizer_begin s) (\<lambda>it. ebind (p \<lparr>ps_it = it, ps_col = c\<rparr>) f))"
proof (cases "tokenizer_begin s")
  case (Inl e)
  then have "perror_in s e"
    using tok_next_Inl [OF tokenizer_start_wf(1)] by (simp add: tokenizer_begin_def)
  then show ?thesis
    using Inl perror_in_mono [OF _ sub(2)] by (auto simp: safe_def) (auto simp: perror_in_def)
next
  case (Inr it)
  have le: "tok_le (tokenizer_start s) it"
    using tok_next_Inr(1) [OF tokenizer_start_wf(1)] Inr by (simp add: tokenizer_begin_def)
  then have i: "ci_inp it = s" "tok_wf it" by (simp_all add: tok_le_def)
  define st' where "st' = \<lparr>ps_it = it, ps_col = c\<rparr>"
  have "rem st' \<le> Suc (length s)" by (simp add: rem_def st'_def i)
  then have "funded 0 t n 0 st'"
    using f sub i by (auto simp: funded_def budget_def st_wf_def st'_def list_all_iff)
  then have "safe t st' (p st')" by (rule p)
  then show ?thesis
    using Inr k perror_in_mono [OF _ sub(2)] i
    by (cases "p st'") (auto simp: safe_Inl st'_def split: if_splits)
qed

lemma column_ident1_safe:
  assumes f: "funded r t n 0 st" "r \<noteq> 0"
  shows "safe t st (parse_column_ident1 n st)"
proof -
  have arrow: "safe t st3 (ebind (consume_if (\<lambda>s. cur_token_type_is T_ARROW s \<or> cur_token_type_is T_ARROW2 s) st3)
     (\<lambda>(arrow, st4).
      if \<not> arrow then Inr (Path [], st4)
      else if cur_token_type_in [T_QSTRING, T_QQSTRING] st4 then
        ebind (consume_token st4) (\<lambda>(str, st5).
        ebind (tokenizer_begin str) (\<lambda>it.
        ebind (parse_document_field n True \<lparr>ps_it = it, ps_col = cref_empty\<rparr>) (\<lambda>(p, st6).
          if tokens_available st6
          then parse_error ''Unexpected characters in a quoted path component'' st5
          else Inr (p, st5))))
      else parse_document_field n True st4))"
    if "funded r t n 0 st3" for st3
  proof -
    have "safe t st5 (ebind (tokenizer_begin str) (\<lambda>it.
        ebind (parse_document_field n True \<lparr>ps_it = it, ps_col = cref_empty\<rparr>) (\<lambda>(p, st6).
          if tokens_available st6
          then parse_error ''Unexpected characters in a quoted path component'' st5
          else Inr (p, st5))))" 
      if st: "funded r t n 0 st5" "consume_token st4 = Inr (str, st5)" "st_wf st4" for st4 st5 str
    proof -
      have "st_le st4 st5" using safe_consume [OF st(3), of True] st(2) by (simp add: safe_def)
      then have "inp st5 = inp st4" by (rule st_le_inp)
      moreover have "str = cur_text st4" using st(2) by (auto simp: consume_token_def)
      ultimately show ?thesis
        using cur_text_bound [of st4] funded_wf [OF st(1)]
        by (intro sub_tokens_safe [OF st(1) f(2)]) (auto intro: document_field_safe safe_error safe_Inr_refl)
    qed
    then show ?thesis
      using that by (auto intro!: bind_funded [of r t n 0] safe_rules document_field_safe simp: funded_wf)
  qed
  show ?thesis
    unfolding parse_column_ident1_def
    using f(1)
    by (auto intro!: bind_funded [of r t n 0] safe_rules arrow safe_Inr_it simp: funded_wf Let_def split: option.splits)
qed


lemma column_ident_safe:
  assumes "funded r t n 0 st" "r \<noteq> 0"
  shows "safe t st (parse_column_ident n st)"
  unfolding parse_column_ident_def using assms
  by (auto intro!: bind_funded [of r t n 0] safe_rules column_ident1_safe simp: funded_wf)

lemma fresh_parser_safe:
  assumes "safe t (st\<lparr>ps_col := cref_empty\<rparr>) (p (st\<lparr>ps_col := cref_empty\<rparr>))"
  shows "safe t st (fresh_parser p st)"
  using assms unfolding fresh_parser_def safe_col
  by (auto intro!: safe_bind safe_Inr_it dest: st_le_wf)

lemma consume_if_consumes:
  assumes "funded r t n k st" "consume_if (cur_token_type_is ty) st = Inr (True, st')"
  shows "funded r t n (k + 16) st'"
  using assms funded_consume [OF assms(1)] by (auto simp: consume_if_def split: if_splits)

text \<open>
  One round of a list loop: an element, and another round behind a comma.  The elements are parsed
  with their own fuel \<open>m\<close>.
\<close>

lemma comma_round_safe:
  assumes f: "funded r t m k st" "funded r t (Suc n) 0 st" and el: "safe t st e"
    and more: "\<And>st2. funded r t m k st2 \<Longrightarrow> funded r t n 0 st2 \<Longrightarrow> safe t st2 (next st2)"
  shows "safe t st (ebind e (\<lambda>(x, st1).
    ebind (consume_if (cur_token_type_is T_COMMA) st1) (\<lambda>(comma, st2).
      if \<not> comma then Inr ([x], st2)
      else ebind (next st2) (\<lambda>(xs, st3). Inr (x # xs, st3)))))"
proof (rule safe_bind [OF el])
  fix x st1
  assume "st_le st st1"
  with f have f1: "funded r t m k st1" "funded r t (Suc n) 0 st1"
    by (auto intro: funded_mono)
  have "safe t st1 (ebind (consume_if (cur_token_type_is T_COMMA) st1) (\<lambda>(comma, st2).
      if \<not> comma then Inr ([x], st2) else ebind (next st2) (\<lambda>(xs, st3). Inr (x # xs, st3))))"
  proof (rule safe_bind [OF safe_consume_if [OF funded_wf [OF f1(1)]]])
    fix comma st2
    assume c: "consume_if (cur_token_type_is T_COMMA) st1 = Inr (comma, st2)" "st_le st1 st2"
    have "funded r t n 0 st2" if comma
      using consume_if_consumes [OF f1(2)] c(1) that funded_fuel funded_less [of r t "Suc n" "0 + 16" st2 1]
      by simp
    then have "comma \<Longrightarrow> safe t st2 (next st2)"
      using more funded_mono [OF f1(1) c(2)] by simp
    then show "safe t st2 (case (comma, st2) of (comma, st2) \<Rightarrow>
      if \<not> comma then Inr ([x], st2) else ebind (next st2) (\<lambda>(xs, st3). Inr (x # xs, st3)))"
      using st_le_wf [OF c(2)] by (auto intro!: safe_bind [where st = st2] safe_Inr_refl dest: st_le_wf)
  qed
  then show "safe t st1 (case (x, st1) of (x, st1) \<Rightarrow>
    ebind (consume_if (cur_token_type_is T_COMMA) st1) (\<lambda>(comma, st2).
      if \<not> comma then Inr ([x], st2) else ebind (next st2) (\<lambda>(xs, st3). Inr (x # xs, st3))))"
    by simp
qed

lemma list_loop_safe:
  assumes el: "\<And>st. funded r t m k st \<Longrightarrow> safe t st (el st)"
  shows "funded r t m k st \<Longrightarrow> funded r t n 0 st \<Longrightarrow> safe t st (list_loop n el st)"
proof (induction n arbitrary: st)
  case 0
  then show ?case by (simp add: funded_no_fuel)
next
  case (Suc n)
  then show ?case
    unfolding list_loop.simps by (intro comma_round_safe [of r t m k] el Suc.IH)
qed

end
