(* ===== verification/Parser_Safe.thy ===== *)
theory Parser_Safe
  imports Parser_Laws
begin

text \<open>
  The interface \<open>sound_dispatcher\<close> of the expression parser's productions, each production's proof
  against it, and its interpretation on the dispatcher \<open>parse n\<close>.
\<close>

section \<open>The dispatcher\<close>

fun level :: "start \<Rightarrow> nat" where
  "level S_FULL = 12"
| "level S_OR = 12"
| "level S_AND = 11"
| "level S_ILRI = 10"
| "level S_COMP = 9"
| "level S_BIT = 8"
| "level S_SHIFT = 7"
| "level S_ADD = 6"
| "level S_MUL = 5"
| "level S_ATOMIC = 4"
| "level S_DOC = 3"
| "level S_ARR = 3"

definition guarded :: "start \<Rightarrow> pst \<Rightarrow> bool" where
  "guarded s st \<longleftrightarrow> (s = S_DOC \<or> s = S_ARR \<longrightarrow> tokens_available st)"

locale sound_dispatcher =
  fixes rec :: dispatcher and fuel :: nat and reserve :: nat
  assumes reserve_pos: "reserve \<noteq> 0"
    and rec_safe: "funded reserve t fuel (level s) st \<Longrightarrow> guarded s st \<Longrightarrow> safe t st (rec ctx s st)"
begin

lemma rec_call:
  "funded reserve t fuel k st \<Longrightarrow> level s \<le> k \<Longrightarrow> guarded s st \<Longrightarrow> safe t st (rec ctx s st)"
  using rec_safe funded_less by blast

lemma bind_rec:
  assumes "funded reserve t fuel k st" "level s \<le> k" "guarded s st"
    "\<And>x st'. funded reserve t fuel k st' \<Longrightarrow> safe t st' (f (x, st'))"
  shows "safe t st (ebind (rec ctx s st) f)"
  using assms by (blast intro: bind_funded rec_call)

lemma left_assoc_safe:
  assumes "funded reserve t fuel k st" "level lhs \<le> k" "level rhs \<le> 12" "guarded lhs st" 
    "\<And>st. guarded rhs st"
  shows "safe t st (left_assoc_binary_op rec ctx ops lhs rhs st)"
  unfolding left_assoc_binary_op_def
  apply (rule bind_rec [OF assms(1,2,4)])
  using assms by (auto simp: Let_def intro!: bind_consume bind_rec safe_Inr_refl dest: funded_wf)

lemma guarded_simps [simp]: "s \<noteq> S_DOC \<Longrightarrow> s \<noteq> S_ARR \<Longrightarrow> guarded s st"
  "tokens_available st \<Longrightarrow> guarded s st"
  by (simp_all add: guarded_def)

lemma unary_arg_safe:
  "funded reserve t fuel k st \<Longrightarrow> 12 \<le> k \<Longrightarrow> safe t st (parse_unary_arg rec ctx a st)"
  unfolding parse_unary_arg_def by (auto intro!: bind_rec safe_Inr_refl dest: funded_wf)


lemma bind_cast_type:
  assumes "funded r t n k st" "\<And>x st'. funded r t n k st' \<Longrightarrow> safe t st' (f (x, st'))"
  shows "safe t st (ebind (parse_cast_type st) f)"
  using assms by (auto intro: bind_funded safe_cast_type funded_wf)

lemma cast_safe:
  assumes "funded reserve t fuel k st"
  shows "safe t st (parse_cast rec ctx st)"
  unfolding parse_cast_def using assms
  by (auto intro!: bind_consume_if bind_consume_throw bind_rec bind_cast_type safe_Inr_refl
      intro: funded_wf)

lemma argslist_safe:
  assumes "funded reserve t fuel k st" "12 \<le> k"
  shows "safe t st (parse_argslist fuel rec ctx b st)"
  unfolding parse_argslist_def
  using assms by (intro list_loop_safe [of reserve t fuel 12])
    (auto intro!: fresh_parser_safe rec_call simp: funded_col intro: funded_less)

lemma any_safe:
  assumes "funded reserve t fuel k st" "12 \<le> k"
  shows "safe t st (parse_any rec ctx st)"
  unfolding parse_any_def using assms by (auto intro!: rec_call)

lemma bind_list:
  assumes "funded reserve t fuel k st" "12 \<le> k"
    "\<And>st. funded reserve t fuel k st \<Longrightarrow> safe t st (el st)"
    "\<And>x st'. funded reserve t fuel k st' \<Longrightarrow> safe t st' (f (x, st'))"
  shows "safe t st (ebind (list_loop fuel el st) f)"
  using assms by (auto intro!: bind_funded [of reserve t fuel k] list_loop_safe [of reserve t fuel k]
      intro: funded_less)

lemma arr_safe:
  assumes "funded reserve t fuel k st" "tokens_available st"
  shows "safe t st (parse_arr fuel rec ctx st)"
  unfolding parse_arr_def Let_def
  by (auto intro!: bind_consume [OF assms] bind_list bind_consume_throw safe_Inr_refl fresh_parser_safe
      any_safe funded_wf simp: funded_col)

lemma kv_safe:
  assumes "funded reserve t fuel k st"
  shows "safe t st (parse_kv rec ctx b st)"
  unfolding parse_kv_def
  using assms by (auto intro!: bind_consume bind_consume_throw bind_funded [OF _ any_safe] safe_rules funded_wf)

lemma kv_loop_safe:
  "funded reserve t fuel k st \<Longrightarrow> funded reserve t n 0 st \<Longrightarrow> safe t st (kv_loop n rec ctx b st)"
proof (induction n arbitrary: st b)
  case 0
  then show ?case by (simp add: funded_no_fuel)
next
  case (Suc n)
  then show ?case
    unfolding kv_loop.simps
    by (intro comma_round_safe [of reserve t fuel k] Suc.IH fresh_parser_safe kv_safe) (simp_all add: funded_col)
qed

lemma doc_safe:
  assumes "funded reserve t fuel k st" "tokens_available st"
  shows "safe t st (parse_doc fuel rec ctx st)"
proof -
  have kvs: "safe t st1 (ebind (kv_loop fuel rec ctx' b st1) f)"
    if "funded reserve t fuel (k + 16) st1" "\<And>x st'. funded reserve t fuel (k + 16) st' \<Longrightarrow> safe t st' (f (x, st'))"
    for st1 ctx' b and f :: "_ \<Rightarrow> ('b \<times> pst) outcome"
    using that by (auto intro!: bind_funded [of reserve t fuel "k + 16"] kv_loop_safe [of t "k + 16"] intro: funded_less)
  show ?thesis
    unfolding parse_doc_def Let_def
    by (auto intro!: bind_consume [OF assms] kvs bind_consume_throw safe_Inr_refl funded_wf)
qed

lemma special_args_safe:
  assumes "funded reserve t fuel k st"
  shows "safe t st (parse_special_args rec ctx st)"
  unfolding parse_special_args_def Let_def
  using assms by (auto intro!: bind_consume_throw bind_rec safe_rules funded_wf)

lemma function_call_safe:
  assumes "funded reserve t fuel k st"
  shows "safe t st (parse_function_call fuel rec ctx st)"
proof -
  have args: "safe t st2 (ebind (consume_if (cur_token_type_is T_COMMA) st2) (\<lambda>(comma, st3).
     ebind (if comma then parse_argslist fuel rec ctx False st3 else parse_special_args rec ctx st3)
      (\<lambda>(es, st4). Inr (e # es, st4))))" if "funded reserve t fuel (k + 16) st2" for st2 e
    using that by (auto intro!: bind_consume_if bind_funded [OF _ argslist_safe] bind_funded [OF _ special_args_safe]
       safe_Inr_refl funded_wf)
  have whole: "safe t st1 (ebind (if b then Inr ([], st1) else if c then unsupported m st1
      else ebind (rec ctx (if d then S_COMP else S_FULL) st1) (\<lambda>(e, st2).
        ebind (consume_if (cur_token_type_is T_COMMA) st2) (\<lambda>(comma, st3).
        ebind (if comma then parse_argslist fuel rec ctx False st3 else parse_special_args rec ctx st3)
         (\<lambda>(es, st4). Inr (e # es, st4)))))
      (\<lambda>(args, st5). ebind (consume_throw (cur_token_type_is T_RPAREN) m' st5)
         (\<lambda>(u, st6). Inr (Some (FUNC callee args), st6))))"
    if "funded reserve t fuel (k + 16) st1" for st1 b c d m m' callee
    using that
    by (intro bind_funded [OF that])
       (auto intro!: bind_rec bind_consume_throw args safe_rules funded_wf)
  show ?thesis
    unfolding parse_function_call_def Let_def
    using assms whole by (auto intro!: bind_consume_if safe_Inr_refl funded_wf)
qed

lemma literal_safe:
  assumes "st_wf st"
  shows "safe t st (parse_literal ctx neg st)"
  unfolding parse_literal_def Let_def num_result_def
  using assms by (auto intro!: safe_bind safe_rules simp: st_le_wf split: tok_type.split sum.split)

lemma reference_safe:
  assumes "funded reserve t fuel k st"
  shows "safe t st (parse_reference fuel rec ctx st)"
proof -
  have low: "funded reserve t fuel k st \<Longrightarrow> funded reserve t fuel 0 st" for st
    by (rule funded_less) simp_all
  have tail: "safe t st2 (case fc of
        Some e \<Rightarrow> Inr (e, st2)
      | None \<Rightarrow>
          if px_mode ctx = TABLE then
            (if \<not> ident then parse_error m st2
             else ebind (parse_column_ident1 fuel st2) (\<lambda>(p, st3).
               Inr (COL_REF (ps_col st3) (if path_is_empty p then None else Some p), st3)))
          else if t0 = T_QWORD \<or> t1 = T_QWORD then parse_error m st2
          else
            let c = ps_col st2 in
            ebind (if cref_has_table c \<and> tref_has_schema (cr_table c)
                   then parse_document_field_from fuel [tr_schema (cr_table c), tr_name (cr_table c)] st2
                   else if cref_has_table c
                   then parse_document_field_from fuel [tr_name (cr_table c)] st2
                   else parse_document_field fuel True st2)
             (\<lambda>(p, st3). Inr (PATH p, st3)))"
    if "funded reserve t fuel k st2" for st2 fc ident t0 t1 m
    using that low [OF that] reserve_pos
    by (auto split: option.split simp: Let_def
        intro!: safe_rules funded_wf [OF that] bind_funded [OF that] column_ident1_safe [of reserve]
          document_field_from_safe [of reserve] document_field_safe [of reserve] funded_wf)
  define st0 where "st0 = st\<lparr>ps_col := cref_empty\<rparr>"
  have f0: "funded reserve t fuel k st0"
    using assms by (simp add: st0_def funded_col)
  have fc: "safe t st1 (if ident then parse_function_call fuel rec ctx st1 else Inr (None, st1))"
    if "funded reserve t fuel k st1" for st1 ident
    using function_call_safe [OF that] by (auto intro: safe_Inr_refl funded_wf [OF that])
  have "safe t st0 (parse_reference fuel rec ctx st)"
    unfolding parse_reference_def st0_def [symmetric]
    using tail fc by (auto intro!: bind_funded [OF f0] safe_schema_ident funded_wf [OF f0] bind_funded [OF _ fc])
  then show ?thesis
    by (simp add: st0_def safe_col)
qed

lemma literal_or_reference_safe:
  assumes "funded reserve t fuel k st"
  shows "safe t st (parse_literal_or_reference fuel rec ctx neg st)"
  unfolding parse_literal_or_reference_def
  using reference_safe safe_Inr_refl [OF funded_wf]
  by (intro bind_funded [OF assms]) (auto intro: literal_safe funded_wf [OF assms] split: option.split)

lemma bind_cast:
  assumes "funded reserve t fuel k st"
    "\<And>x st'. parse_cast rec ctx st = Inr (x, st') \<Longrightarrow> funded reserve t fuel k st' \<Longrightarrow> safe t st' (f (x, st'))"
  shows "safe t st (ebind (parse_cast rec ctx st) f)"
  using assms by (intro bind_funded [OF assms(1)] cast_safe [OF assms(1)]) blast

lemma cast_None: "parse_cast rec ctx st = Inr (None, st') \<Longrightarrow> st' = st"
  by (auto simp: parse_cast_def consume_if_def split: if_splits)

lemma atomic_safe:
  assumes f: "funded reserve t fuel k st" "3 \<le> k"
  shows "safe t st (parse_atomic fuel rec ctx st)"
proof (cases "tokens_available st")
  case False
  then show ?thesis using f by (simp add: parse_atomic_def safe_error funded_wf)
next
  case True
  have un: "safe t st (ebind (consume_token st) (\<lambda>(u, st2). parse_unary_arg rec ctx a st2))" for a
    using True by (auto intro!: bind_consume [OF f(1)] unary_arg_safe)
  have lit: "safe t st (ebind (consume_token st) (\<lambda>(u, st2).
     if cur_token_type_in [T_NUMBER, T_INTEGER] st2 then parse_literal_or_reference fuel rec ctx b st2
     else parse_unary_arg rec ctx a st2))" for a b
    using True by (auto intro!: bind_consume [OF f(1)] unary_arg_safe literal_or_reference_safe)
  have tail: "safe t st1 (case c of
      Some e \<Rightarrow> Inr (e, st1)
    | None \<Rightarrow>
        let a = get_unary (ps_it st1) in
        if a = O_PLUS \<or> a = O_MINUS then
          ebind (consume_token st1) (\<lambda>(u, st2).
            if cur_token_type_in [T_NUMBER, T_INTEGER] st2
            then parse_literal_or_reference fuel rec ctx (a = O_MINUS) st2
            else parse_unary_arg rec ctx a st2)
        else if a = O_NEG \<or> a = O_NOT \<or> a = O_BITNEG then
          ebind (consume_token st1) (\<lambda>(u, st2). parse_unary_arg rec ctx a st2)
        else parse_literal_or_reference fuel rec ctx False st1)"
    if "parse_cast rec ctx st = Inr (c, st1)" "funded reserve t fuel k st1" for c st1
  proof (cases c)
    case None
    then have "st1 = st" using that cast_None by blast
    then show ?thesis
      unfolding None Let_def using un lit literal_or_reference_safe [OF f(1)] by auto
  qed (simp add: safe_Inr_refl funded_wf [OF that(2)])
  show ?thesis
    unfolding parse_atomic_def
    using True f(2)
    by (auto intro!: rec_call [OF f(1)] bind_consume [OF f(1)] bind_rec bind_consume_throw bind_cast [OF f(1)] tail
        safe_Inr_refl funded_wf)
qed

lemma bit_safe:
  assumes "funded reserve t fuel k st" "7 \<le> k"
  shows "safe t st (parse_bit rec ctx st)"
  unfolding parse_bit_def
  using assms by (auto intro!: bind_consume unary_arg_safe left_assoc_safe)


lemma comp_safe:
  assumes "funded reserve t fuel k st" "9 \<le> k"
  shows "safe t st (ebind (rec ctx S_COMP st) (\<lambda>(e, s'). Inr ([e], s')))"
  using assms by (auto intro!: bind_rec safe_Inr_refl funded_wf)

lemma bind_comp:
  assumes "funded reserve t fuel k st" "9 \<le> k" "\<And>x st'. funded reserve t fuel k st' \<Longrightarrow> safe t st' (f (x, st'))"
  shows "safe t st (ebind (ebind (rec ctx S_COMP st) (\<lambda>(e, s'). Inr ([e], s'))) f)"
  using assms by (auto intro!: bind_funded [OF assms(1)] comp_safe)

lemma ilri_args_safe:
  assumes f: "funded reserve t fuel k st" and k: "12 \<le> k"
  shows "safe t st (ilri_args fuel rec ctx a st)"
proof -
  have is_op: "safe t st (let kw = (if tokens_available st then cur_kw st else K_NONE) in
      ebind (if tokens_available st then consume_token st else Inr ([], st)) (\<lambda>(u, st1).
          case kw of
            K_L_TRUE \<Rightarrow> Inr ([V_BOOL True], st1)
          | K_L_FALSE \<Rightarrow> Inr ([V_BOOL False], st1)
          | K_L_NULL \<Rightarrow> Inr ([V_NULL], st1)
          | _ \<Rightarrow> parse_error m st1))" for m
  proof -
    have "safe t st1 (case kw of
            K_L_TRUE \<Rightarrow> Inr ([V_BOOL True], st1)
          | K_L_FALSE \<Rightarrow> Inr ([V_BOOL False], st1)
          | K_L_NULL \<Rightarrow> Inr ([V_NULL], st1)
          | _ \<Rightarrow> parse_error m st1)" if "st_wf st1" for st1 kw
      using that by (cases kw) (simp_all add: safe_Inr_refl safe_error)
    then show ?thesis
      using funded_wf [OF f] by (auto simp: Let_def intro!: safe_bind safe_consume safe_error st_le_wf)
  qed
  show ?thesis
    unfolding ilri_args_def Let_def [of "\<lambda>s. ebind (rec ctx S_COMP s) (\<lambda>(e, s'). Inr ([e], s'))"]
    using f k is_op
    by (auto intro!: bind_consume_if bind_funded [OF _ argslist_safe] bind_consume_throw bind_comp comp_safe
        safe_rules funded_wf)
qed

lemma bind_ilri_args:
  assumes "funded reserve t fuel k st" "12 \<le> k" "\<And>x st'. funded reserve t fuel k st' \<Longrightarrow> safe t st' (f (x, st'))"
  shows "safe t st (ebind (ilri_args fuel rec ctx a st) f)"
  using assms by (auto intro: bind_funded [OF assms(1)] ilri_args_safe)

lemma ilri_tail_safe:
  assumes "funded reserve t fuel k st" "12 \<le> k"
  shows "safe t st (ebind (if a = O_IS then consume_if (cur_op_is O_NOT) st else Inr (False, st)) (\<lambda>(isnot, st4).
      if a = O_SOUNDS_LIKE \<and> cur_kw_is K_LIKE st4 then unsupported m st4
      else
        let b = ilri_op a (neg \<or> isnot) (cur_token_type_is T_LPAREN st4) in
        ebind (ilri_args fuel rec ctx b st4) (\<lambda>(es, st5). Inr (OP (op_name b) (first # es), st5))))"
proof (cases "a = O_IS")
  case True
  then show ?thesis
    using assms by (auto simp: Let_def intro!: bind_consume_if [OF assms(1)] bind_ilri_args safe_rules
        funded_wf [where r = reserve and n = fuel and t = t])
next
  case False
  then show ?thesis
    using assms by (auto simp: Let_def intro!: bind_ilri_args [OF assms] safe_rules
        funded_wf [where r = reserve and n = fuel and t = t])
qed

lemma ilri_safe:
  assumes f: "funded reserve t fuel k st" and k: "9 \<le> k"
  shows "safe t st (parse_ilri fuel rec ctx st)"
proof -
  define ops where "ops = [O_IS, O_IN, O_LIKE, O_RLIKE, O_BETWEEN, O_REGEXP, O_SOUNDS_LIKE, O_OVERLAPS]"
  have body: "safe t st2 (if \<not> cur_op_in ops st2
      then if neg then parse_error m st2 else Inr (first, st2)
      else
        let a = get_binary (ps_it st2) in
        ebind (consume_token st2) (\<lambda>(u, st3).
          if neg \<and> a = O_IS then parse_error m' st3
          else ebind (if a = O_IS then consume_if (cur_op_is O_NOT) st3 else Inr (False, st3)) (\<lambda>(isnot, st4).
            if a = O_SOUNDS_LIKE \<and> cur_kw_is K_LIKE st4 then unsupported m'' st4
            else
              let b = ilri_op a (neg \<or> isnot) (cur_token_type_is T_LPAREN st4) in
              ebind (ilri_args fuel rec ctx b st4) (\<lambda>(es, st5). Inr (OP (op_name b) (first # es), st5)))))"
    if f2: "funded reserve t fuel k' st2" for k' st2 first neg m m' m''
  proof (cases "cur_op_in ops st2")
    case True
    show ?thesis
      unfolding Let_def [of "get_binary (ps_it st2)"] eqTrueI [OF True] not_True_eq_False if_False
    proof (rule bind_consume [OF f2], goal_cases)
      case (2 x st3)
      show ?case
        using ilri_tail_safe [OF 2] by (simp add: safe_error [OF funded_wf [OF 2]])
    qed (use True in simp)
  next
    case False
    then show ?thesis
      using funded_wf [OF f2] by (simp add: safe_error safe_Inr_refl)
  qed
  show ?thesis
    unfolding parse_ilri_def ops_def [symmetric]
  proof (rule bind_rec [OF f], goal_cases)
    case (3 first st1)
    show ?case
      unfolding split
    proof (rule bind_consume_if [OF 3], goal_cases)
      case (2 st2)
      then show ?case unfolding split by (intro body)
    next
      case 3
      show ?case unfolding split by (rule body [OF \<open>funded reserve t fuel k st1\<close>])
    qed (rule available(5))
  qed (use k in simp_all)
qed

lemma level_safe:
  "funded reserve t fuel 11 st \<Longrightarrow> safe t st (parse_or rec ctx st)"
  "funded reserve t fuel 10 st \<Longrightarrow> safe t st (parse_and rec ctx st)"
  "funded reserve t fuel 8 st \<Longrightarrow> safe t st (parse_comp rec ctx st)"
  "funded reserve t fuel 6 st \<Longrightarrow> safe t st (parse_shift rec ctx st)"
  "funded reserve t fuel 5 st \<Longrightarrow> safe t st (parse_add rec ctx st)"
  "funded reserve t fuel 4 st \<Longrightarrow> safe t st (parse_mul rec ctx st)"
  unfolding parse_or_def parse_and_def parse_comp_def parse_shift_def parse_add_def parse_mul_def
  by (rule left_assoc_safe, assumption, simp_all)+

lemma parse_start_safe:
  assumes "funded reserve t (Suc fuel) (level s) st" "guarded s st"
  shows "safe t st (parse_start fuel rec ctx s st)"
proof -
  have f: "funded reserve t fuel (level s - 1) st"
    using assms(1) by (cases s) (auto intro: funded_fuel simp: numeral_eq_Suc)
  have d: "safe t st (ebind (parse_doc fuel rec ctx st) (\<lambda>(kvs, st1). Inr (DOC kvs, st1)))"
    if "tokens_available st"
    using that by (auto intro!: bind_funded [OF f] doc_safe [OF f] safe_Inr_refl funded_wf)
  have a: "safe t st (ebind (parse_arr fuel rec ctx st) (\<lambda>(es, st1). Inr (ARR es, st1)))"
    if "tokens_available st"
    using that by (auto intro!: bind_funded [OF f] arr_safe [OF f] safe_Inr_refl funded_wf)
  show ?thesis
    using f assms(2) d a
    by (cases s) (simp_all add: parse_start_def level_safe bit_safe ilri_safe atomic_safe guarded_def)
qed

end

lemma parse_sound: "r \<noteq> 0 \<Longrightarrow> sound_dispatcher (parse n) n r"
proof (induction n)
  case 0
  then show ?case
    by unfold_locales (simp_all add: funded_no_fuel)
next
  case (Suc n)
  then show ?case
    by unfold_locales (simp_all add: sound_dispatcher.parse_start_safe)
qed

interpretation expr_parse: sound_dispatcher "parse n" n "Suc r" for n r
  by (rule parse_sound) simp

end
