(* ===== verification/Parser_Fuel.thy ===== *)
theory Parser_Fuel
  imports Parser_Laws
begin

text \<open>
  Fuel only decides whether an answer is given, never which one: with more fuel, or with a
  dispatcher that answers in more cases, every production gives the same answer or gives one where
  it had run out of fuel before.  The interface \<open>approx_dispatchers\<close> states this for two dispatchers
  and is interpreted on the dispatchers of two fuels.
\<close>

section \<open>Approximation\<close>

definition approx :: "'a outcome \<Rightarrow> 'a outcome \<Rightarrow> bool" where
  "approx a b \<longleftrightarrow> a = Inl Out_of_fuel \<or> a = b"

lemma approx_refl [simp]: "approx a a"
  by (simp add: approx_def)

lemma approx_bot [simp]: "approx (Inl Out_of_fuel) b"
  by (simp add: approx_def)

lemma approx_trans: "approx a b \<Longrightarrow> approx b c \<Longrightarrow> approx a c"
  by (auto simp: approx_def)

named_theorems approx_rules \<open>the parsing functions are monotone in their fuel and dispatcher\<close>

lemma approx_bind [approx_rules]:
  assumes "approx a b" "\<And>x. approx (f x) (g x)"
  shows "approx (ebind a f) (ebind b g)"
proof (cases a)
  case (Inr x)
  then show ?thesis using assms by (cases b) (auto simp: approx_def)
qed (use assms in \<open>auto simp: approx_def\<close>)

lemma approx_prod [approx_rules]:
  "(\<And>x y. approx (f x y) (g x y)) \<Longrightarrow> approx (case z of (x, y) \<Rightarrow> f x y) (case z of (x, y) \<Rightarrow> g x y)"
  by (cases z) simp

lemma approx_prod_app [approx_rules]:
  "(\<And>x y. approx (f x y w) (g x y w)) \<Longrightarrow>
   approx ((case z of (x, y) \<Rightarrow> f x y) w) ((case z of (x, y) \<Rightarrow> g x y) w)"
  by (cases z) simp

lemma approx_Let [approx_rules]: "(\<And>x. approx (f x) (g x)) \<Longrightarrow> approx (Let z f) (Let z g)"
  by simp

lemma approx_if [approx_rules]:
  "(b \<Longrightarrow> approx p p') \<Longrightarrow> (\<not> b \<Longrightarrow> approx q q') \<Longrightarrow> approx (if b then p else q) (if b then p' else q')"
  by simp

lemma approx_option [approx_rules]:
  "approx p p' \<Longrightarrow> (\<And>x. approx (q x) (q' x)) \<Longrightarrow>
   approx (case z of None \<Rightarrow> p | Some x \<Rightarrow> q x) (case z of None \<Rightarrow> p' | Some x \<Rightarrow> q' x)"
  by (cases z) simp_all

lemma document_path_loop_approx [approx_rules]:
  "n \<le> m \<Longrightarrow> approx (document_path_loop n b st) (document_path_loop m b st)"
proof (induction n arbitrary: m b st)
  case (Suc n)
  then obtain m' where m: "m = Suc m'" "n \<le> m'" by (cases m) auto
  show ?case
    unfolding m document_path_loop.simps
    by (intro approx_rules Suc.IH approx_refl m(2))
qed simp

lemma paths_approx [approx_rules]:
  assumes "n \<le> m"
  shows "approx (parse_document_path1 n st) (parse_document_path1 m st)"
    "approx (parse_document_path n b st) (parse_document_path m b st)"
    "approx (parse_document_field n b st) (parse_document_field m b st)"
    "approx (parse_document_field_from n fs st) (parse_document_field_from m fs st)"
  unfolding parse_document_path1_def parse_document_path_def parse_document_field_def parse_document_field_from_def
  by (intro approx_rules approx_refl assms)+

lemma column_ident1_approx [approx_rules]:
  "n \<le> m \<Longrightarrow> approx (parse_column_ident1 n st) (parse_column_ident1 m st)"
  unfolding parse_column_ident1_def by (intro approx_rules approx_refl)

lemma column_ident_approx [approx_rules]:
  "n \<le> m \<Longrightarrow> approx (parse_column_ident n st) (parse_column_ident m st)"
  unfolding parse_column_ident_def by (intro approx_rules approx_refl)

lemma list_loop_approx:
  assumes "\<And>st. approx (el st) (el' st)"
  shows "n \<le> m \<Longrightarrow> approx (list_loop n el st) (list_loop m el' st)"
proof (induction n arbitrary: m st)
  case (Suc n)
  then obtain m' where m: "m = Suc m'" "n \<le> m'" by (cases m) auto
  show ?case
    unfolding m list_loop.simps by (intro approx_rules Suc.IH approx_refl m(2) assms)
qed simp

lemma fresh_parser_approx:
  "(\<And>st. approx (p st) (q st)) \<Longrightarrow> approx (fresh_parser p st) (fresh_parser q st)"
  unfolding fresh_parser_def by (intro approx_rules approx_refl)

locale approx_dispatchers =
  fixes rec rec' :: dispatcher and n m :: nat
  assumes rec_approx: "approx (rec ctx s st) (rec' ctx s st)"
    and fuel_le: "n \<le> m"
begin

lemmas steps = approx_rules rec_approx approx_refl fuel_le

lemma any_approx: "approx (parse_any rec ctx st) (parse_any rec' ctx st)"
  unfolding parse_any_def by (intro steps)

lemma cast_approx: "approx (parse_cast rec ctx st) (parse_cast rec' ctx st)"
  unfolding parse_cast_def by (intro steps)

lemma argslist_approx: "approx (parse_argslist n rec ctx b st) (parse_argslist m rec' ctx b st)"
  unfolding parse_argslist_def by (intro list_loop_approx fresh_parser_approx steps)

lemma kv_loop_approx: "k \<le> l \<Longrightarrow> approx (kv_loop k rec ctx b st) (kv_loop l rec' ctx b st)"
proof (induction k arbitrary: l b st)
  case (Suc k)
  then obtain l' where l: "l = Suc l'" "k \<le> l'" by (cases l) auto
  have kv: "approx (parse_kv rec ctx b st) (parse_kv rec' ctx b st)" for b st
    unfolding parse_kv_def by (intro steps any_approx)
  show ?case
    unfolding l kv_loop.simps by (intro steps Suc.IH l(2) fresh_parser_approx kv)
qed simp

lemma doc_approx: "approx (parse_doc n rec ctx st) (parse_doc m rec' ctx st)"
  unfolding parse_doc_def by (intro steps kv_loop_approx)

lemma arr_approx: "approx (parse_arr n rec ctx st) (parse_arr m rec' ctx st)"
  unfolding parse_arr_def by (intro steps list_loop_approx fresh_parser_approx any_approx)

lemma function_call_approx:
  "approx (parse_function_call n rec ctx st) (parse_function_call m rec' ctx st)"
  unfolding parse_function_call_def parse_special_args_def by (intro steps argslist_approx)

lemma reference_approx: "approx (parse_reference n rec ctx st) (parse_reference m rec' ctx st)"
  unfolding parse_reference_def by (intro steps function_call_approx)

lemma atomic_approx: "approx (parse_atomic n rec ctx st) (parse_atomic m rec' ctx st)"
  unfolding parse_atomic_def parse_literal_or_reference_def parse_unary_arg_def
  by (intro steps cast_approx reference_approx)

lemma left_assoc_approx:
  "approx (left_assoc_binary_op rec ctx ops l r st) (left_assoc_binary_op rec' ctx ops l r st)"
  unfolding left_assoc_binary_op_def by (intro steps)

lemma bit_approx: "approx (parse_bit rec ctx st) (parse_bit rec' ctx st)"
  unfolding parse_bit_def parse_unary_arg_def by (intro steps left_assoc_approx)

lemma ilri_args_approx: "approx (ilri_args n rec ctx a st) (ilri_args m rec' ctx a st)"
  unfolding ilri_args_def Let_def by (intro steps argslist_approx)

lemma ilri_approx: "approx (parse_ilri n rec ctx st) (parse_ilri m rec' ctx st)"
  unfolding parse_ilri_def by (intro steps ilri_args_approx)

lemma parse_start_approx: "approx (parse_start n rec ctx s st) (parse_start m rec' ctx s st)"
  unfolding parse_start_def parse_or_def parse_and_def parse_comp_def parse_shift_def parse_add_def parse_mul_def
  by (cases s) (simp_all add: left_assoc_approx atomic_approx bit_approx ilri_approx
      approx_bind doc_approx arr_approx)

end

lemma parse_approx: "approx_dispatchers (parse n) (parse (n + d)) n (n + d)"
proof (induction n)
  case 0
  show ?case by unfold_locales simp_all
next
  case (Suc n)
  then show ?case
    by unfold_locales (simp_all add: approx_dispatchers.parse_start_approx)
qed

interpretation expr_fuel: approx_dispatchers "parse n" "parse (n + d)" n "n + d" for n d
  by (rule parse_approx)

end
