(* ===== verification/Doc_Map.thy ===== *)
theory Doc_Map
  imports Expr_Model
begin

text \<open>
  Document literals as maps.  \<^verbatim>\<open>Stored_doc\<close> keeps the pairs of a literal in a \<^verbatim>\<open>std::map\<close>; the
  interface \<open>key_map\<close> states what such a map promises, a client lemma says what a sequence of
  insertions leaves, and the interpretation discharges the promises for the sorted association list
  of the model.
\<close>

section \<open>Maps up to an equivalence of keys\<close>

locale key_map =
  fixes empty :: 'm
    and update :: "'k \<Rightarrow> 'v \<Rightarrow> 'm \<Rightarrow> 'm"
    and lookup :: "'k \<Rightarrow> 'm \<Rightarrow> 'v option"
    and inv :: "'m \<Rightarrow> bool"
    and same :: "'k \<Rightarrow> 'k \<Rightarrow> bool"
  assumes inv_empty: "inv empty"
    and inv_update: "inv m \<Longrightarrow> inv (update k v m)"
    and lookup_empty: "lookup k empty = None"
    and lookup_update: "inv m \<Longrightarrow> lookup k (update k' v m) = (if same k k' then Some v else lookup k m)"
begin

definition insert_all :: "('k \<times> 'v) list \<Rightarrow> 'm \<Rightarrow> 'm" where
  "insert_all kvs m = fold (\<lambda>(k, v). update k v) kvs m"

lemma insert_all_snoc: "insert_all (kvs @ [(k, v)]) m = update k v (insert_all kvs m)"
  by (simp add: insert_all_def)

lemma insert_all_inv: "inv m \<Longrightarrow> inv (insert_all kvs m)"
  by (induction kvs rule: rev_induct) (auto simp: insert_all_snoc inv_update insert_all_def [of "[]"])

lemma insert_all_lookup:
  "lookup k (insert_all kvs empty) = map_option snd (find (\<lambda>(k', v). same k k') (rev kvs))"
proof (induction kvs rule: rev_induct)
  case Nil
  then show ?case by (simp add: insert_all_def lookup_empty)
next
  case (snoc kv kvs)
  then show ?case
    by (cases kv) (simp add: insert_all_snoc lookup_update insert_all_inv inv_empty)
qed

end

section \<open>The sorted association list\<close>

definition key_same :: "string \<Rightarrow> string \<Rightarrow> bool" where
  "key_same a b \<longleftrightarrow> utf16_units a = utf16_units b"

definition doc_lookup :: "string \<Rightarrow> (string \<times> 'v) list \<Rightarrow> 'v option" where
  "doc_lookup k kvs = map_option snd (find (\<lambda>(k', v). key_same k k') kvs)"

lemma doc_lookup_Cons:
  "doc_lookup k ((k', v) # kvs) = (if key_same k k' then Some v else doc_lookup k kvs)"
  by (simp add: doc_lookup_def)

lemma key_less_not_same: "key_less a b \<Longrightarrow> \<not> key_same a b"
  by (auto simp: key_less_def key_same_def)

lemma doc_lookup_above:
  "\<forall>(k', v') \<in> set kvs. key_less k k' \<Longrightarrow> doc_lookup k kvs = None"
  by (induction kvs) (auto simp: doc_lookup_Cons doc_lookup_def [of k "[]"] dest: key_less_not_same)

lemma doc_lookup_insert:
  "doc_sorted kvs \<Longrightarrow> doc_lookup k (doc_insert k' v kvs) = (if key_same k k' then Some v else doc_lookup k kvs)"
proof (induction k' v kvs rule: doc_insert.induct)
  case (1 k' v)
  then show ?case by (simp add: doc_lookup_Cons doc_lookup_def [of k "[]"])
next
  case (2 k' v k2 v2 kvs)
  consider "key_less k' k2" | "\<not> key_less k' k2" "key_less k2 k'" | "\<not> key_less k' k2" "\<not> key_less k2 k'"
    by blast
  then show ?case
  proof cases
    case 1
    then show ?thesis by (simp add: doc_lookup_Cons)
  next
    case 2
    moreover have "\<not> key_same k k2" if "key_same k k'"
      using that key_less_not_same [OF 2(2)] by (auto simp: key_same_def)
    ultimately show ?thesis using "2.IH" "2.prems" by (auto simp: doc_lookup_Cons)
  next
    case 3
    then have "key_same k k2 = key_same k k'"
      using key_not_less_units [of k' k2] by (simp add: key_same_def)
    then show ?thesis using 3 by (simp add: doc_lookup_Cons)
  qed
qed

interpretation stored_doc: key_map "[]" doc_insert doc_lookup doc_sorted key_same
  by unfold_locales (simp_all add: doc_sorted_insert doc_lookup_insert doc_lookup_def [of _ "[]"])

lemma doc_of_list_insert_all: "doc_of_list kvs = stored_doc.insert_all kvs []"
  by (simp add: doc_of_list_def stored_doc.insert_all_def)

section \<open>Keys as code units\<close>

lemma utf16_units_encode:
  "scalar_value cp \<Longrightarrow> utf16_units (utf8_encode cp @ s) = utf16_encode cp @ utf16_units s"
  using utf8_decode_encode [of cp s]
  by (cases "utf8_encode cp @ s") (simp_all add: utf16_units.simps [of "_ # _"], simp add: utf8_encode_def split: if_splits)

section \<open>Properties\<close>

text \<open>
  The UTF-8 bytes of a sequence of Unicode scalar values are decoded to exactly their UTF-16
  code units, which is what a \<^verbatim>\<open>cdk::string\<close> holds and what keys are compared by.
\<close>

lemma utf8_text_to_utf16:
  assumes "list_all scalar_value cps"
  shows "utf16_units (concat (map utf8_encode cps)) = concat (map utf16_encode cps)"
  using assms by (induction cps) (simp_all add: utf16_units_encode utf16_units.simps [of "[]"])

lemma utf8_text_to_utf16_example:
  "utf16_units (concat (map utf8_encode [0x41, 0x20AC, 0x1F600])) = [0x41, 0x20AC, 0xD83D, 0xDE00]"
proof -
  have "list_all scalar_value [0x41, 0x20AC, 0x1F600]" by (simp add: scalar_value_def)
  from utf8_text_to_utf16 [OF this] show ?thesis by (simp add: utf16_encode_def)
qed

text \<open>
  C35: the document that a literal stores is sorted by key without repetitions, and looking a key up
  gives the value of its last occurrence in the literal, keys being compared by their UTF-16 code
  units.
\<close>

theorem document_literal_map:
  "doc_sorted (doc_of_list kvs) \<and>
   doc_lookup k (doc_of_list kvs) = map_option snd (find (\<lambda>(k', v). key_same k k') (rev kvs))"
  unfolding doc_of_list_insert_all
  by (simp add: stored_doc.insert_all_inv stored_doc.inv_empty stored_doc.insert_all_lookup)

end
