(* ===== verification/Parser_Entry.thy ===== *)
theory Parser_Entry
  imports Parser_Safe Parser_Fuel Doc_Map
begin

text \<open>
  The entry points of the parser (\<^verbatim>\<open>Expression_parser\<close>, \<^verbatim>\<open>Order_parser\<close>, \<^verbatim>\<open>Projection_parser\<close>,
  \<^verbatim>\<open>Table_field_parser\<close>, \<^verbatim>\<open>Doc_field_parser\<close>): the contract of the dispatcher brought to them, the
  values of number literals and array indices, the shape of document paths, and the inputs on which
  the parser does not return.
\<close>

section \<open>Entry points\<close>

definition enough_fuel :: "string \<Rightarrow> nat" where
  "enough_fuel s = 32 * length s + 45"

lemma start_state_spec:
  "case start_state s of
     Inl e \<Rightarrow> perror_in s e
   | Inr st \<Rightarrow> st_wf st \<and> inp st = s \<and> ps_col st = cref_empty"
proof (cases "tokenizer_begin s")
  case (Inl e)
  then show ?thesis
    using tok_next_Inl [OF tokenizer_start_wf(1)] by (simp add: start_state_def tokenizer_begin_def)
next
  case (Inr it)
  then have "tok_le (tokenizer_start s) it"
    using tok_next_Inr(1) [OF tokenizer_start_wf(1)] by (simp add: tokenizer_begin_def)
  then show ?thesis
    using Inr by (simp add: start_state_def st_wf_def tok_le_def)
qed

lemma start_funded:
  assumes "st_wf st" "inp st = s" "list_all lexable s" "enough_fuel s \<le> n"
  shows "funded (Suc (16 * length s + 15)) True n 12 st"
  using assms by (auto simp: funded_def budget_def enough_fuel_def rem_def)

lemma parse_full_safe:
  assumes "st_wf st" "inp st = s"
  shows "safe (list_all lexable s \<and> enough_fuel s \<le> n) st (parse n ctx S_FULL st)"
proof -
  have "funded (Suc (16 * length s + 15)) (list_all lexable s \<and> enough_fuel s \<le> n) n 12 st"
    using assms start_funded [OF assms] by (auto simp: funded_def)
  then show ?thesis
    by (rule expr_parse.rec_call) (simp_all add: guarded_def)
qed

text \<open>Errors that are either positioned in the input or, without enough fuel, the lack of it.\<close>

definition error_ok :: "bool \<Rightarrow> string \<Rightarrow> 'a outcome \<Rightarrow> bool" where
  "error_ok t s r = (case r of Inr x \<Rightarrow> True | Inl e \<Rightarrow> if e = Out_of_fuel then \<not> t else perror_in s e)"

lemma error_ok_safe:
  assumes "safe t st r" "inp st = s" "\<And>x st'. st_wf st' \<Longrightarrow> inp st' = s \<Longrightarrow> error_ok t s (f (x, st'))"
  shows "error_ok t s (ebind r f)"
proof (cases r)
  case (Inr p)
  then obtain x st' where "p = (x, st')" "st_le st st'"
    using assms(1) by (cases p) (auto simp: safe_def)
  then show ?thesis using Inr assms st_le_wf st_le_inp by auto
qed (use assms in \<open>auto simp: safe_def error_ok_def\<close>)

lemma error_ok_start:
  assumes "\<And>st. st_wf st \<Longrightarrow> inp st = s \<Longrightarrow> error_ok t s (f st)"
  shows "error_ok t s (ebind (start_state s) f)"
  using start_state_spec [of s] assms
  by (cases "start_state s") (auto simp: error_ok_def perror_in_def)

lemma error_ok_throw: "st_wf st \<Longrightarrow> inp st = s \<Longrightarrow> error_ok t s (throw_error m (ps_it st))"
  by (auto simp: error_ok_def throw_error_def perror_in_def st_wf_def tok_wf_def ci_wf_def)

lemma error_ok_Inr [simp]: "error_ok t s (Inr x)"
  by (simp add: error_ok_def)

lemmas entry_rules = error_ok_start error_ok_throw error_ok_Inr
  error_ok_safe [OF parse_full_safe] error_ok_safe [OF safe_consume] error_ok_safe [OF safe_consume_throw]

lemma expression_parser_ok:
  "error_ok (list_all lexable s \<and> enough_fuel s \<le> n) s (expression_parser n mode s)"
  unfolding expression_parser_def by (auto intro!: entry_rules)

lemma order_parser_ok:
  "error_ok (list_all lexable s \<and> enough_fuel s \<le> n) s (order_parser n mode s)"
proof -
  have dir: "safe t st (if \<not> tokens_available st then Inr (ASC, st)
     else case cur_kw st of
       K_ASC \<Rightarrow> ebind (consume_token st) (\<lambda>(u, st2). Inr (ASC, st2))
     | K_DESC \<Rightarrow> ebind (consume_token st) (\<lambda>(u, st2). Inr (DESC, st2))
     | _ \<Rightarrow> throw_error m (ps_it st))" if "st_wf st" for t st m
    using that safe_error [OF that, of t m] by (cases "cur_kw st")
      (auto intro!: safe_bind safe_consume safe_Inr_refl simp: st_le_wf parse_error_def)
  show ?thesis
    unfolding order_parser_def by (auto intro!: entry_rules error_ok_safe [OF dir])
qed

lemma projection_tbl_ok:
  "error_ok (list_all lexable s \<and> enough_fuel s \<le> n) s (projection_tbl_mode n mode s)"
proof -
  have tail: "safe t st (if \<not> tokens_available st then Inr (None, st)
     else ebind (consume_throw p m st) (\<lambda>(u, st2).
       ebind (consume_throw q m' st2) (\<lambda>(a, st3). Inr (Some a, st3))))" if "st_wf st" for t st p q m m'
    using that by (auto intro!: safe_bind safe_consume_throw safe_Inr_refl simp: st_le_wf)
  show ?thesis
    unfolding projection_tbl_mode_def by (auto intro!: entry_rules error_ok_safe [OF tail])
qed

lemma projection_doc_ok:
  "error_ok (list_all lexable s \<and> enough_fuel s \<le> n) s (projection_doc_mode n mode s)"
  unfolding projection_doc_mode_def by (auto intro!: entry_rules)

lemma field_funded:
  assumes "st_wf st" "inp st = s"
  shows "funded (Suc (16 * length s + 15)) (list_all lexable s \<and> enough_fuel s \<le> n) n 0 st"
  using assms start_funded [OF assms] funded_less [of _ True n 12 st 0] by (auto simp: funded_def)

lemma table_field_parser_ok:
  "error_ok (list_all lexable s \<and> enough_fuel s \<le> n) s (table_field_parser n s)"
  unfolding table_field_parser_def
  by (auto intro!: entry_rules error_ok_safe [OF column_ident_safe] field_funded)

lemma doc_field_parser_ok:
  "error_ok (list_all lexable s \<and> enough_fuel s \<le> n) s (doc_field_parser n s)"
  unfolding doc_field_parser_def
  by (auto intro!: entry_rules error_ok_safe [OF document_field_safe] field_funded)

section \<open>Literals\<close>

lemma strtonum_value:
  assumes "strtonum_int b r s = Inr v"
  shows "v = digits_val r s" "s \<noteq> []" "list_all (is_digit_in r) s" "0 \<le> v" "v < b"
proof -
  have tw: "takeWhile (is_digit_in r) s = s"
    using assms unfolding strtonum_int_def Let_def by (metis Inl_Inr_False)
  then show "list_all (is_digit_in r) s"
    by (auto simp: list_all_iff takeWhile_eq_all_conv)
  show "v = digits_val r s" "s \<noteq> []"
    using assms by (auto simp: strtonum_int_def Let_def tw split: if_splits)
  show "0 \<le> v" "v < b"
    using strtonum_int_range [OF assms] by simp_all
qed

lemma uint_of_strtoui: "strtoui r s = Inr v \<Longrightarrow> uint (word_of_int v :: 64 word) = v"
  using strtonum_value [of 18446744073709551616 r s v] by (simp add: strtoui_def uint_word_of_int)

lemma sint_of_strtoi:
  assumes "strtoi r s = Inr v"
  shows "sint (- word_of_int v :: 64 word) = - digits_val r s"
proof -
  have v: "v = digits_val r s" "0 \<le> v" "v < 9223372036854775808"
    using strtonum_value assms by (auto simp: strtoi_def)
  then have "sint (word_of_int (- v) :: 64 word) = - v"
    unfolding sint_sbintrunc' by (intro signed_take_bit_int_eq_self) simp_all
  then show ?thesis
    using v(1) by simp
qed

lemma num_result_Inr: "num_result r f st = Inr (e, st') \<longleftrightarrow> (\<exists>v. r = Inr v \<and> e = f v \<and> st' = st)"
  by (auto simp: num_result_def parse_error_def throw_error_def split: sum.splits)

definition tok_radix :: "pst \<Rightarrow> nat" where
  "tok_radix st = (if cur_type st = T_HEX then 16 else 10)"

lemma parse_literal_int:
  assumes "parse_literal ctx neg st = Inr (Some e, st')"
  shows "e = V_UINT w \<Longrightarrow> cur_type st \<in> {T_INTEGER, T_HEX} \<and> \<not> neg \<and> uint w = digits_val (tok_radix st) (cur_text st)"
    and "e = V_INT w \<Longrightarrow> cur_type st \<in> {T_INTEGER, T_HEX} \<and> neg \<and> sint w = - digits_val (tok_radix st) (cur_text st)"
proof -
  have tx: "x = cur_text st" if "consume_token st = Inr (x, st1)" for x st1
    using that by (auto simp: consume_token_def)
  have v1: "v = digits_val r s" if "strtoui r s = Inr v" for r s v
    using strtonum_value(1) that by (simp add: strtoui_def)
  note rules = parse_literal_def Let_def num_result_Inr tok_radix_def
  show "e = V_UINT w \<Longrightarrow> cur_type st \<in> {T_INTEGER, T_HEX} \<and> \<not> neg \<and> uint w = digits_val (tok_radix st) (cur_text st)"
    using assms
    by (auto simp: rules split: if_splits tok_type.splits prod.splits dest!: tx)
       (auto simp: uint_of_strtoui dest: v1)
  show "e = V_INT w \<Longrightarrow> cur_type st \<in> {T_INTEGER, T_HEX} \<and> neg \<and> sint w = - digits_val (tok_radix st) (cur_text st)"
    using assms
    by (auto simp: rules split: if_splits tok_type.splits prod.splits dest!: tx)
       (auto simp: sint_of_strtoi)
qed

section \<open>Document paths\<close>

lemma consume_text: "consume_token st = Inr (x, st') \<Longrightarrow> x = cur_text st"
  by (auto simp: consume_token_def)

text \<open>The value of an array index is the number written, without loss in its 32 bits.\<close>

lemma consume_if_Inr:
  "consume_if p st = Inr (b, st') \<longleftrightarrow>
    (if p st then b \<and> (\<exists>x. consume_token st = Inr (x, st')) else \<not> b \<and> st' = st)"
  by (auto simp: consume_if_def)

lemma parse_error_Inr [simp]: "parse_error m st \<noteq> Inr x"
  by (simp add: parse_error_def throw_error_def)

lemma num_case_Inr [simp]:
  "(case r of Inl e \<Rightarrow> parse_error (g e) st | Inr v \<Rightarrow> f v) = Inr x \<longleftrightarrow> (\<exists>v. r = Inr v \<and> f v = Inr x)"
  by (cases r) simp_all

lemma array_index_value:
  assumes "parse_docpath_array st = Inr (Some (ARRAY_INDEX w), st')"
  shows "\<exists>x st1. consume_token st = Inr (x, st1) \<and> cur_token_type_is T_INTEGER st1
    \<and> uint w = digits_val 10 (cur_text st1)"
proof -
  obtain x st1 y st2 v where c: "consume_token st = Inr (x, st1)" "cur_token_type_is T_INTEGER st1"
    "consume_token st1 = Inr (y, st2)" "strtoui 10 y = Inr v" "v < 4294967296" "w = word_of_int v"
    using assms by (auto simp: parse_docpath_array_def consume_if_Inr split: if_splits)
  then have "v = digits_val 10 (cur_text st1)" "0 \<le> v"
    using consume_text strtonum_value(1,4) [of 18446744073709551616 10 y v] by (auto simp: strtoui_def)
  then show ?thesis
    using c by (auto simp: uint_word_of_int)
qed

lemma member_not_ds:
  "parse_docpath_member_dot st = Inr (Some el, st') \<Longrightarrow> el \<noteq> DOUBLE_ASTERISK"
  "parse_docpath_member st = Inr (Some el, st') \<Longrightarrow> el \<noteq> DOUBLE_ASTERISK"
  "parse_docpath_array st = Inr (Some el, st') \<Longrightarrow> el \<noteq> DOUBLE_ASTERISK"
  by (auto simp: parse_docpath_member_dot_def parse_docpath_member_def parse_docpath_array_def
      split: if_splits option.splits)

lemma member_dot_None:
  "parse_docpath_member_dot st = Inr (None, st') \<Longrightarrow> \<not> cur_token_type_is T_DOT st \<and> st' = st"
  by (auto simp: parse_docpath_member_dot_def consume_if_Inr split: option.splits if_splits)

lemma array_None:
  "parse_docpath_array st = Inr (None, st') \<Longrightarrow> \<not> cur_token_type_is T_LSQBRACKET st"
  by (auto simp: parse_docpath_array_def consume_if_Inr split: if_splits)

lemma path_loop_end:
  "document_path_loop n b st = Inr (els, st') \<Longrightarrow> if els = [] then \<not> b else last els \<noteq> DOUBLE_ASTERISK"
proof (induction n arbitrary: b st els st')
  case (Suc n)
  show ?case
  proof (cases "cur_token_type_in [T_DOUBLESTAR, T_DOT, T_LSQBRACKET] st")
    case False
    then show ?thesis using Suc.prems by (auto split: if_splits)
  next
    case True
    have ds: "last (DOUBLE_ASTERISK # els1) \<noteq> DOUBLE_ASTERISK"
      if "document_path_loop n True st1 = Inr (els1, st2)" for els1 st1 st2
      using Suc.IH [OF that] by (auto split: if_splits)
    have other: "last (el # els1) \<noteq> DOUBLE_ASTERISK"
      if "document_path_loop n False st1 = Inr (els1, st2)" "el \<noteq> DOUBLE_ASTERISK" for el els1 st1 st2
      using Suc.IH [OF that(1)] that(2) by (auto split: if_splits)
    have none: False if "parse_docpath_member_dot st = Inr (None, st1)" "parse_docpath_array st1 = Inr (None, st2)"
      "\<not> cur_token_type_is T_DOUBLESTAR st" for st1 st2
    proof -
      have "\<not> cur_token_type_is T_DOT st" "\<not> cur_token_type_is T_LSQBRACKET st"
        using member_dot_None [OF that(1)] array_None [OF that(2)] by simp_all
      then show False
        using True that(3) by (simp add: cur_token_type_in_def cur_token_type_is_def del: available)
    qed
    show ?thesis
    proof (cases "cur_token_type_is T_DOUBLESTAR st")
      case True': True
      then show ?thesis
        using Suc.prems True ds by (auto simp: consume_if_Inr)
    next
      case False
      define g where "g = (\<lambda>(m, st2). case m of
             Some el \<Rightarrow> ebind (document_path_loop n False st2) (\<lambda>(els, st3). Inr (el # els, st3))
           | None \<Rightarrow>
               ebind (parse_docpath_array st2) (\<lambda>(a, st3).
                 case a of
                   Some el \<Rightarrow> ebind (document_path_loop n False st3) (\<lambda>(els, st4). Inr (el # els, st4))
                 | None \<Rightarrow> Inr ([], st3)))"
      have "ebind (parse_docpath_member_dot st) g = Inr (els, st')"
        using Suc.prems True False unfolding document_path_loop.simps consume_if_def g_def
        by (simp del: ebind_eq_Inr)
      then obtain m st2 where m: "parse_docpath_member_dot st = Inr (m, st2)" and rest: "g (m, st2) = Inr (els, st')"
        by auto
      show ?thesis
      proof (cases m)
        case None
        then obtain a st3 where a: "parse_docpath_array st2 = Inr (a, st3)" using rest by (auto simp: g_def)
        then obtain el where "a = Some el" using none [OF _ _ False] m None by (cases a) auto
        then show ?thesis using a rest None other member_not_ds(3) by (auto simp: g_def)
      next
        case (Some el)
        then show ?thesis using rest m other member_not_ds(1) by (auto simp: g_def)
      qed
    qed
  qed
qed simp

section \<open>Stuck tokens\<close>

definition stuck_at :: "tok_type \<Rightarrow> pst \<Rightarrow> bool" where
  "stuck_at ty st \<longleftrightarrow> tok_next (ps_it st) = Inr (ps_it st) \<and> tokens_available st \<and> cur_type st = ty"

lemma stuck_consume: "stuck_at ty st \<Longrightarrow> consume_token st = Inr (cur_text st, st)"
  by (simp add: stuck_at_def consume_token_def)

lemma paren_not_op:
  assumes "cur_type st = T_LPAREN"
  shows "\<not> cur_op_is O_BITNEG st"
proof -
  have ty: "tok_ty (ti_tok (ps_it st)) = T_LPAREN"
    using assms by (simp add: cur_type_def)
  then have "keyword_get (ps_it st) = K_NONE" by (simp add: keyword_get_def)
  then have "get_unary (ps_it st) = O_NONE"
    using ty by (simp add: get_unary_def op_get_def op_tok_map_def unary_op_def)
  moreover have "\<not> is_binary_op O_BITNEG"
    by (simp add: is_binary_op_def binary_op_def)
  ultimately show ?thesis
    by (simp add: cur_op_is_def op_is_token_def del: available)
qed

text \<open>Behind an opening parenthesis everything depends on the expression that follows.\<close>

lemma paren_parse:
  assumes st: "tokens_available st" "cur_type st = T_LPAREN"
    and c: "consume_token st = Inr (x, st')"
    and inner: "\<And>k ctx. k < n \<Longrightarrow> parse k ctx S_FULL st' = Inl Out_of_fuel"
  shows "s \<noteq> S_DOC \<Longrightarrow> s \<noteq> S_ARR \<Longrightarrow> parse n ctx s st = Inl Out_of_fuel"
  using inner
proof (induction n arbitrary: s ctx)
  case (Suc n)
  have ih: "s \<noteq> S_DOC \<Longrightarrow> s \<noteq> S_ARR \<Longrightarrow> parse n ctx s st = Inl Out_of_fuel" for s ctx
    using Suc by simp
  have l: "left_assoc_binary_op (parse n) ctx ops lhs rhs st = Inl Out_of_fuel"
    if "lhs \<noteq> S_DOC" "lhs \<noteq> S_ARR" for ops lhs rhs
    using ih that by (simp add: left_assoc_binary_op_def)
  show ?case
    using Suc.prems ih l st paren_not_op [OF st(2)]
    by (cases s) (simp_all add: parse_start_def parse_or_def parse_and_def parse_comp_def parse_shift_def
      parse_add_def parse_mul_def parse_bit_def parse_ilri_def parse_atomic_def c)
qed simp

lemma stuck_paren_parse: "stuck_at T_LPAREN st \<Longrightarrow> parse n ctx S_FULL st = Inl Out_of_fuel"
proof (induction n arbitrary: ctx rule: less_induct)
  case (less n)
  then show ?case
    using paren_parse [of st "cur_text st" st n S_FULL ctx]
    by (simp add: stuck_consume [OF less.prems]) (simp add: stuck_at_def)
qed

lemma paren_token:
  "tokenizer_begin (CHR ''('' # s) =
    Inr \<lparr>ci_inp = CHR ''('' # s, ci_pos = 1, ti_pos = 0, ti_end = False,
         ti_tok = \<lparr>tok_ty = T_LPAREN, tok_begin = 0, tok_end = 1\<rparr>\<rparr>"
proof -
  define it where "it = it_at (CHR ''('' # s) 0"
  have u: "get_unit it = CHR ''(''"
    by (simp add: it_def get_unit_def)
  have "filter (\<lambda>(s, t). hd s = CHR ''('') symbol_list2 = []" "map_of symbol_list1 (CHR ''('') = Some T_LPAREN"
    by code_simp+
  then have "parse_symbol it = (True, set_token T_LPAREN 0 1 (next_unit it))"
    by (simp add: parse_symbol_def u consume_char_def) (simp add: it_def next_unit_def ci_adv_def)
  then have "recognise it = Inr (True, set_token T_LPAREN 0 1 (next_unit it))"
    by (simp add: recognise_def parse_by_first_char_def u c_isdigit_def)
  then show ?thesis
    using tokenizer_begin_eq [of "[]" "CHR ''(''" s]
    by (simp add: c_isspace_def flip: it_def)
       (simp add: it_def it_at_def set_token_def set_tok_pos_def set_tok_type_def next_unit_def ci_adv_def)
qed

lemma stuck_next:
  assumes "ci_pos it \<le> length (ci_inp it)" "\<not> ti_end it" "ci_rest it = ws @ c # s" "list_all c_isspace ws" "\<not> lexable c"
  shows "tok_next it = Inr (at_token it)" "tok_next (at_token it) = Inr (at_token it)"
proof -
  have sp: "\<not> c_isspace c" using assms(5) by (simp add: lexable_def)
  have r: "ci_rest (at_token it) = c # s"
  proof -
    have "ci_rest (at_token it) = ci_rest (skip_ws it)"
      by (simp add: ci_rest_def lex_simps)
    then show ?thesis
      using assms(3,4) sp by (simp add: list_all_iff dropWhile_append2)
  qed
  have wf: "ci_wf it" using assms(1) by (simp add: ci_wf_def)
  have u: "get_unit (at_token it) = c" using r by (rule get_unit_rest)
  have "length (ci_rest (at_token it)) > 0" by (simp only: r) simp
  then have pre: "lex_pre (at_token it)"
    using assms(2) by (simp add: lex_pre_def lex_simps)
  have g: "get_next_token it = Inr (False, at_token it)"
    using assms(2,5) pre u recognise_not_lexable [OF pre] by (simp add: get_next_token_eq lex_pre_wf)
  then show "tok_next it = Inr (at_token it)" by (simp add: tok_next_def)
  show "tok_next (at_token it) = Inr (at_token it)"
    using stuck_fixpoint [OF wf pre g] by (simp add: tok_next_def)
qed

lemma paren_unrecognised:
  assumes "list_all c_isspace ws" "\<not> lexable c"
  shows "expression_parser n mode (CHR ''('' # ws @ c # s) = Inl Out_of_fuel"
proof -
  define it where "it = \<lparr>ci_inp = CHR ''('' # ws @ c # s, ci_pos = 1, ti_pos = 0, ti_end = False,
         ti_tok = \<lparr>tok_ty = T_LPAREN, tok_begin = 0, tok_end = 1\<rparr>\<rparr>"
  define st where "st = \<lparr>ps_it = it, ps_col = cref_empty\<rparr>"
  define st' where "st' = \<lparr>ps_it = at_token it, ps_col = cref_empty\<rparr>"
  have nx: "tok_next it = Inr (at_token it)" "tok_next (at_token it) = Inr (at_token it)"
    by (rule stuck_next [where ws = ws and c = c and s = s]; use assms in \<open>simp add: it_def ci_rest_def\<close>)+
  have stk: "stuck_at T_LPAREN st'"
    by (simp add: stuck_at_def st'_def nx tokens_available_def cur_type_def lex_simps) (simp add: it_def)
  have "consume_token st = Inr (cur_text st, st')"
    by (simp add: consume_token_def nx st_def st'_def)
  then have "parse n ctx S_FULL st = Inl Out_of_fuel" for ctx
    by (rule paren_parse [rotated 2]) (simp_all add: stuck_paren_parse [OF stk], simp_all add: st_def it_def tokens_available_def cur_type_def)
  moreover have "start_state (CHR ''('' # ws @ c # s) = Inr st"
    by (simp add: start_state_def paren_token st_def it_def)
  ultimately show ?thesis
    by (simp add: expression_parser_def tokenizer_empty_def)
qed

end
