(* ===== verification/Parser_Props.thy ===== *)
theory Parser_Props
  imports Parser_Entry
begin

text \<open>
  The properties of the expression parser: it returns, its answers do not depend on the fuel, its
  errors are positioned in the input, its literals have the value that is written; and where it does
  not do what its comments and names say.
\<close>

lemma entry_points_approx:
  assumes "n \<le> m"
  shows "approx (expression_parser n mode s) (expression_parser m mode s)"
    "approx (order_parser n mode s) (order_parser m mode s)"
    "approx (projection_tbl_mode n mode s) (projection_tbl_mode m mode s)"
    "approx (projection_doc_mode n mode s) (projection_doc_mode m mode s)"
proof -
  obtain d where d: "m = n + d" using assms by (metis le_iff_add)
  note rules = approx_rules approx_refl expr_fuel.rec_approx
  show "approx (expression_parser n mode s) (expression_parser m mode s)"
    unfolding expression_parser_def d by (intro rules)
  show "approx (order_parser n mode s) (order_parser m mode s)"
    unfolding order_parser_def d by (intro rules)
  show "approx (projection_tbl_mode n mode s) (projection_tbl_mode m mode s)"
    unfolding projection_tbl_mode_def d by (intro rules)
  show "approx (projection_doc_mode n mode s) (projection_doc_mode m mode s)"
    unfolding projection_doc_mode_def d by (intro rules)
qed

lemma document_path_Some:
  assumes "parse_document_path n d st = Inr (Some els, st')"
  obtains el es st1 st2 where "parse_document_path1 n st1 = Inr (es, st2)" "els = el # es"
    "es = [] \<Longrightarrow> el \<noteq> DOUBLE_ASTERISK"
proof -
  obtain ds st1 where ds: "consume_if (cur_token_type_is T_DOUBLESTAR) st = Inr (ds, st1)"
    using assms by (auto simp: parse_document_path_def)
  show thesis
  proof (cases ds)
    case True
    then show thesis
      using assms ds that [of st1 _ _ DOUBLE_ASTERISK] by (auto simp: parse_document_path_def split: if_splits)
  next
    case False
    then obtain el st2 es where "parse_docpath_member_dot st1 = Inr (Some el, st2) \<or>
        (\<exists>st3. parse_docpath_member st3 = Inr (Some el, st2))"
      "parse_document_path1 n st2 = Inr (es, st')" "els = el # es"
      using assms ds by (auto simp: parse_document_path_def split: if_splits option.splits)
    then show thesis
      using that [of st2 es st' el] member_not_ds(1,2) by blast
  qed
qed

text \<open>
  C1: on an input whose characters all start tokens or are white space, the expression parser
  returns: nested calls are bounded by 32 per byte and 45 more.
\<close>

theorem expression_parser_returns:
  assumes "list_all lexable s" "enough_fuel s \<le> n"
  shows "expression_parser n mode s \<noteq> Inl Out_of_fuel"
  using expression_parser_ok [of s n mode] assms by (auto simp: error_ok_def)

theorem expression_parser_returns_witness:
  "expression_parser 493 TABLE ''a.b->$.c in(1)'' \<noteq> Inl Out_of_fuel"
proof -
  have "list_all lexable ''a.b->$.c in(1)''" "enough_fuel ''a.b->$.c in(1)'' \<le> 493"
    by (code_simp, simp add: enough_fuel_def)
  then show ?thesis by (rule expression_parser_returns)
qed



text \<open>
  C19: every error the expression parser throws carries a position inside the input, also when it
  comes from the token sequence of a quoted document path; and reads past the end can only happen at
  the end of the text that is being tokenized.
\<close>

theorem expression_parser_error_position:
  assumes "expression_parser n mode s = Inl e" "e \<noteq> Out_of_fuel"
  shows "perror_in s e"
  using expression_parser_ok [of s n mode] assms by (auto simp: error_ok_def)

theorem expression_parser_error_position_witness:
  "perror_in ''a+'' (Parse_error ''Expected an expression'' 2)"
proof -
  have "expression_parser 40 TABLE ''a+'' = Inl (Parse_error ''Expected an expression'' 2)"
    by code_simp
  then show ?thesis by (rule expression_parser_error_position) simp
qed

text \<open>
  C38: an opening parenthesis followed by white space and a character that starts no token makes the
  expression parser recurse without end: no fuel is enough.
\<close>

theorem unrecognised_behind_paren_diverges:
  assumes "list_all c_isspace ws" "\<not> lexable c"
  shows "\<forall>n. expression_parser n mode (CHR ''('' # ws @ c # s) = Inl Out_of_fuel"
  using paren_unrecognised [OF assms] by blast

theorem unrecognised_behind_paren_diverges_witness:
  "\<forall>n. expression_parser n TABLE ''( @a)'' = Inl Out_of_fuel"
proof -
  have "list_all c_isspace '' ''" "\<not> lexable (CHR ''@'')" by code_simp+
  from unrecognised_behind_paren_diverges [OF this, of TABLE "''a)''"] show ?thesis by simp
qed



text \<open>
  An integer literal (decimal or hexadecimal) that parses has exactly the value of its digits:
  unsigned in 64 bits without a sign, negated in 64 bits behind a minus; there is no wrap-around.
\<close>

lemma integer_literal_value:
  assumes "parse_literal ctx neg st = Inr (Some e, st')"
  shows "(\<forall>w. e = V_UINT w \<longrightarrow> \<not> neg \<and> uint w = digits_val (tok_radix st) (cur_text st)) \<and>
    (\<forall>w. e = V_INT w \<longrightarrow> neg \<and> sint w = - digits_val (tok_radix st) (cur_text st))"
  using parse_literal_int [OF assms] by blast

lemma integer_literal_value_example:
  "uint (255 :: 64 word) = digits_val 16 ''ff''"
proof -
  define st where "st = \<lparr>ps_it = \<lparr>ci_inp = ''0xff'', ci_pos = 4, ti_pos = 0, ti_end = False,
    ti_tok = \<lparr>tok_ty = T_HEX, tok_begin = 2, tok_end = 4\<rparr>\<rparr>, ps_col = cref_empty\<rparr>"
  have "start_state ''0xff'' = Inr st"
    unfolding st_def by code_simp
  have "parse_literal \<lparr>px_mode = TABLE, px_blobs = False\<rparr> False st
    = Inr (Some (V_UINT 255), st\<lparr>ps_it := (ps_it st)\<lparr>ti_pos := 4, ti_end := True\<rparr>\<rparr>)"
    unfolding st_def by code_simp
  from integer_literal_value [OF this] have "uint (255 :: 64 word) = digits_val (tok_radix st) (cur_text st)"
    by blast
  moreover have "tok_radix st = 16" "cur_text st = ''ff''"
    unfolding st_def by code_simp+
  ultimately show ?thesis by simp
qed

text \<open>
  The smallest 64-bit integer cannot be written: the sign is applied after the digits have been
  converted to a signed number, so \<^verbatim>\<open>-9223372036854775808\<close> is rejected although its successor is
  accepted.
\<close>

lemma smallest_integer_rejected:
  "(\<exists>m. expression_parser 60 TABLE ''-9223372036854775808'' = Inl (Parse_error m 20)) \<and>
   expression_parser 60 TABLE ''-9223372036854775807'' = Inr (V_INT (- 9223372036854775807))"
proof -
  have "expression_parser 60 TABLE ''-9223372036854775808''
      = Inl (Parse_error (num_error_msg (Conv_failed ''9223372036854775808'')) 20)"
    by code_simp
  moreover have "expression_parser 60 TABLE ''-9223372036854775807'' = Inr (V_INT (- 9223372036854775807))"
    by code_simp
  ultimately show ?thesis by blast
qed

text \<open>
  An array index of a document path has the value of its digits, which therefore fit 32 bits.
\<close>

lemma array_index_no_loss:
  assumes "parse_docpath_array st = Inr (Some (ARRAY_INDEX w), st')"
  shows "\<exists>x st1. consume_token st = Inr (x, st1) \<and> cur_token_type_is T_INTEGER st1
    \<and> uint w = digits_val 10 (cur_text st1)"
  using assms by (rule array_index_value)

lemma array_index_no_loss_example:
  "uint (42 :: 32 word) = digits_val 10 ''42''"
proof -
  define st where "st = \<lparr>ps_it = \<lparr>ci_inp = ''[42]'', ci_pos = 1, ti_pos = 0, ti_end = False,
    ti_tok = \<lparr>tok_ty = T_LSQBRACKET, tok_begin = 0, tok_end = 1\<rparr>\<rparr>, ps_col = cref_empty\<rparr>"
  define st1 where "st1 = \<lparr>ps_it = \<lparr>ci_inp = ''[42]'', ci_pos = 3, ti_pos = 1, ti_end = False,
    ti_tok = \<lparr>tok_ty = T_INTEGER, tok_begin = 1, tok_end = 3\<rparr>\<rparr>, ps_col = cref_empty\<rparr>"
  have "parse_docpath_array st = Inr (Some (ARRAY_INDEX 42),
    \<lparr>ps_it = \<lparr>ci_inp = ''[42]'', ci_pos = 4, ti_pos = 4, ti_end = True,
      ti_tok = \<lparr>tok_ty = T_RSQBRACKET, tok_begin = 3, tok_end = 4\<rparr>\<rparr>, ps_col = cref_empty\<rparr>)"
    unfolding st_def by code_simp
  from array_index_no_loss [OF this] obtain x st2 where
    "consume_token st = Inr (x, st2)" "uint (42 :: 32 word) = digits_val 10 (cur_text st2)" by blast
  moreover have "consume_token st = Inr (''['', st1)" "cur_text st1 = ''42''"
    unfolding st_def st1_def by code_simp+
  ultimately show ?thesis by simp
qed

text \<open>
  No document path ends in \<^verbatim>\<open>**\<close>: whatever \<^verbatim>\<open>parse_document_field\<close> reports as a path is not empty
  and its last item is not the double asterisk.
\<close>

lemma document_path_ending:
  assumes "parse_document_field n prefix st = Inr (Path els, st')"
  shows "els \<noteq> [] \<and> last els \<noteq> DOUBLE_ASTERISK"
proof -
  obtain d st1 st2 where "parse_document_path n d st1 = Inr (Some els, st2)"
    using assms by (auto simp: parse_document_field_def split: if_splits option.splits)
  then obtain el es st3 st4 where "parse_document_path1 n st3 = Inr (es, st4)" "els = el # es"
    "es = [] \<Longrightarrow> el \<noteq> DOUBLE_ASTERISK"
    by (rule document_path_Some) blast
  then show ?thesis
    using path_loop_end [of n False st3 es st4] by (auto simp: parse_document_path1_def split: if_splits)
qed


lemma document_path_ending_example:
  "last [MEMBER ''a'', DOUBLE_ASTERISK, ARRAY_INDEX 7] \<noteq> DOUBLE_ASTERISK"
proof -
  define st where "st = \<lparr>ps_it = \<lparr>ci_inp = ''$.a**[7]'', ci_pos = 1, ti_pos = 0, ti_end = False,
    ti_tok = \<lparr>tok_ty = T_DOLLAR, tok_begin = 0, tok_end = 1\<rparr>\<rparr>, ps_col = cref_empty\<rparr>"
  have "parse_document_field 9 True st = Inr (Path [MEMBER ''a'', DOUBLE_ASTERISK, ARRAY_INDEX 7],
    \<lparr>ps_it = \<lparr>ci_inp = ''$.a**[7]'', ci_pos = 8, ti_pos = 8, ti_end = True,
      ti_tok = \<lparr>tok_ty = T_RSQBRACKET, tok_begin = 7, tok_end = 8\<rparr>\<rparr>, ps_col = cref_empty\<rparr>)"
    unfolding st_def by code_simp
  from document_path_ending [OF this] show ?thesis by blast
qed

lemma exponent_at_end:
  assumes "list_all c_isdigit (c # ds)" "c \<noteq> CHR ''0''" "x = CHR ''e'' \<or> x = CHR ''E''"
  shows "tokenizer_begin (c # ds @ [x]) = Inl (Read_past_end (Suc (Suc (length ds))))"
proof -
  define it where "it = it_at (c # ds @ [x]) 0"
  have dig: "c_isdigit c" using assms(1) by simp
  then have c: "\<not> c_isspace c" "code c < 127" "c \<noteq> CHR 0x22" "c \<noteq> CHR 0x27" "c \<noteq> CHR ''.''"
    "c \<noteq> CHR ''x''" "c \<noteq> CHR ''X''"
    by (auto simp: c_isspace_def c_isdigit_def)
  have u: "get_unit it = c" "ci_rest it = c # ds @ [x]" "\<not> ti_end it"
    by (simp_all add: it_def get_unit_def ci_rest_def)
  have "\<not> strchr_found dec_digits x"
    using assms(3) by (auto simp: strchr_dec_digits c_isdigit_def)
  then have "takeWhile (strchr_found dec_digits) (c # ds @ [x]) = c # ds"
    using assms(1) by (simp add: list_all_iff strchr_dec_digits takeWhile_append)
  then have pd: "parse_digits it = (True, ci_adv (Suc (length ds)) it)"
    by (simp add: parse_digits_def u)
  define it1 where "it1 = ci_adv (Suc (length ds)) it"
  have i1: "get_unit it1 = x" "\<not> ci_at_end it1" "ci_pos it1 = Suc (length ds)"
    by (simp_all add: it1_def it_def get_unit_def ci_at_end_def nth_append)
  have "number_fraction it1 = number_exponent (next_unit it1)"
    using assms(3) i1 by (auto simp: number_fraction_def consume_char_def consume_char_in_def cur_char_in_def strchr_found_def)
  also have "\<dots> = Inl (Read_past_end (Suc (Suc (length ds))))"
    by (simp add: number_exponent_def ci_at_end_def i1) (simp add: it1_def it_def)
  finally have "parse_number it = Inl (Read_past_end (Suc (Suc (length ds))))"
    using c by (simp add: parse_number_def u cur_char_is_def pd it1_def)
  then have "recognise it = Inl (Read_past_end (Suc (Suc (length ds))))"
    using c dig assms(2) by (simp add: recognise_def parse_by_first_char_def u)
  then show ?thesis
    using tokenizer_begin_eq [of "[]" c "ds @ [x]"] c by (simp add: it_def)
qed

text \<open>
  A number whose exponent letter ends the input makes the tokenizer look for a sign behind the
  end of its buffer: no digit sequence followed by \<^verbatim>\<open>e\<close> can be tokenized at the end of a text.
\<close>

lemma exponent_read_past_end:
  assumes "list_all c_isdigit (c # ds)" "c \<noteq> CHR ''0''" "x = CHR ''e'' \<or> x = CHR ''E''"
  shows "expression_parser n mode (c # ds @ [x]) = Inl (Read_past_end (length ds + 2))"
  using exponent_at_end [OF assms] by (simp add: expression_parser_def start_state_def)

lemma exponent_read_past_end_example:
  "expression_parser 50 TABLE ''12e'' = Inl (Read_past_end 3)"
proof -
  have "list_all c_isdigit ''12''" "CHR ''1'' \<noteq> CHR ''0''" "CHR ''e'' = CHR ''e'' \<or> CHR ''e'' = CHR ''E''"
    by code_simp+
  from exponent_read_past_end [OF this] show ?thesis by simp
qed

text \<open>
  The name of the called function is read again after its first argument has been parsed, from
  the member that the argument has overwritten: a call of any function whose first argument is a
  field named \<^verbatim>\<open>position\<close> is rejected.
\<close>

lemma function_name_overwritten:
  "expression_parser 60 DOCUMENT ''foo(position)''
    = Inl (Parse_error ''Expected IN inside POSITION(... IN ...)'' 13) \<and>
   expression_parser 60 DOCUMENT ''foo(place)''
    = Inr (FUNC \<lparr>tr_name = ''foo'', tr_schema = ''''\<rparr> [PATH (Path [MEMBER ''place''])])"
proof -
  have "expression_parser 60 DOCUMENT ''foo(position)''
    = Inl (Parse_error ''Expected IN inside POSITION(... IN ...)'' 13)"
    by code_simp
  moreover have "expression_parser 60 DOCUMENT ''foo(place)''
    = Inr (FUNC \<lparr>tr_name = ''foo'', tr_schema = ''''\<rparr> [PATH (Path [MEMBER ''place''])])"
    by code_simp
  ultimately show ?thesis by blast
qed

text \<open>
  Keywords and operators are recognised whatever the case of their letters: two word tokens
  that differ only in case denote the same keyword and the same unary and binary operator.
\<close>

lemma keywords_ignore_case:
  assumes "tok_ty (ti_tok a) = tok_ty (ti_tok b)" "map c_tolower (tok_bytes a) = map c_tolower (tok_bytes b)"
  shows "keyword_get a = keyword_get b \<and> get_unary a = get_unary b \<and> get_binary a = get_binary b"
proof -
  have kw: "keyword_get a = keyword_get b"
    using assms(1) kw_find_cong [OF assms(2)] by (simp add: keyword_get_def)
  show ?thesis
    unfolding get_unary_def get_binary_def op_get_def assms(1) kw by simp
qed

lemma keywords_ignore_case_example:
  "get_binary \<lparr>ci_inp = ''oVeRlApS'', ci_pos = 8, ti_pos = 0, ti_end = False,
     ti_tok = \<lparr>tok_ty = T_WORD, tok_begin = 0, tok_end = 8\<rparr>\<rparr> = O_OVERLAPS"
proof -
  define a where "a = \<lparr>ci_inp = ''oVeRlApS'', ci_pos = 8, ti_pos = 0, ti_end = False,
     ti_tok = \<lparr>tok_ty = T_WORD, tok_begin = 0, tok_end = 8\<rparr>\<rparr>"
  define b where "b = a\<lparr>ci_inp := ''overlaps''\<rparr>"
  have "tok_ty (ti_tok a) = tok_ty (ti_tok b)" "map c_tolower (tok_bytes a) = map c_tolower (tok_bytes b)"
    unfolding a_def b_def by code_simp+
  from keywords_ignore_case [OF this] have "get_binary a = get_binary b" by blast
  moreover have "get_binary b = O_OVERLAPS" unfolding a_def b_def by code_simp
  ultimately show ?thesis by (simp add: a_def)
qed

end
