(* ===== verification/Bytes.thy ===== *)
theory Bytes
  imports Prelude
begin

text \<open>
  Bytes on the wire: little-endian integers as the \<^verbatim>\<open>int4store\<close>/\<^verbatim>\<open>uint4korr\<close> macros and the
  casts of \<^verbatim>\<open>xmysqlnd_compression.cc\<close> read and write them, \<^verbatim>\<open>size_t\<close> subtraction with its
  wrap-around, and the interface of a self-delimiting code (\<open>prefix_code\<close>), which the frame
  codec, the compressed message batch and the varint of the row format all provide.
\<close>

type_synonym byte = "8 word"
type_synonym bytes = "byte list"

section \<open>Unsigned arithmetic\<close>

text \<open>\<open>uint_sub w a b\<close> is \<^verbatim>\<open>a - b\<close> on \<open>w\<close>-bit unsigned operands.\<close>

definition uint_sub :: "nat \<Rightarrow> nat \<Rightarrow> nat \<Rightarrow> nat" where
  "uint_sub w a b = (a + (2 ^ w - b)) mod 2 ^ w"

lemma uint_sub_le: "b \<le> a \<Longrightarrow> a < 2 ^ w \<Longrightarrow> uint_sub w a b = a - b"
proof -
  assume le: "b \<le> a" and lt: "a < 2 ^ w"
  then have "a + (2 ^ w - b) = (a - b) + 2 ^ w" by linarith
  then have "uint_sub w a b = (a - b) mod 2 ^ w" by (simp add: uint_sub_def)
  also have "\<dots> = a - b" using lt by simp
  finally show ?thesis .
qed

section \<open>Little-endian integers\<close>

primrec le_store :: "nat \<Rightarrow> nat \<Rightarrow> bytes" where
  "le_store 0 n = []"
| "le_store (Suc k) n = word_of_nat n # le_store k (n div 256)"

primrec le_load :: "bytes \<Rightarrow> nat" where
  "le_load [] = 0"
| "le_load (b # bs) = unat b + 256 * le_load bs"

lemma length_le_store [simp]: "length (le_store k n) = k"
  by (induction k arbitrary: n) auto

lemma unat_byte_of_nat [simp]: "unat (word_of_nat n :: byte) = n mod 256"
  by (simp add: unat_of_nat)

lemma le_load_store: "le_load (le_store k n) = n mod 256 ^ k"
  by (induction k arbitrary: n) (simp_all add: mod_mult2_eq)

lemma le_load_less: "le_load bs < 256 ^ length bs"
proof (induction bs)
  case (Cons b bs)
  have "unat b < 256" using unsigned_less[of b] by simp
  moreover have "le_load bs + 1 \<le> 256 ^ length bs" using Cons by simp
  then have "256 * le_load bs + 256 \<le> 256 * 256 ^ length bs" by linarith
  ultimately show ?case by simp
qed simp

lemma le_store_4_load: "n < 2 ^ 32 \<Longrightarrow> le_load (le_store 4 n) = n"
  by (simp add: le_load_store)

section \<open>Self-delimiting codes\<close>

text \<open>
  A decoder takes one item off the front of a buffer.  \<open>decode_all d n bs\<close> is the loop
  \<^verbatim>\<open>while (it != end)\<close> over such a decoder, \<open>n\<close> bounding its rounds.
\<close>

type_synonym 'm decoder = "bytes \<Rightarrow> ('m \<times> bytes) outcome"

fun decode_all :: "'m decoder \<Rightarrow> nat \<Rightarrow> bytes \<Rightarrow> 'm list outcome" where
  "decode_all d n [] = Inr []"
| "decode_all d 0 (b # bs) = Inl Out_of_fuel"
| "decode_all d (Suc n) (b # bs) =
     ebind (d (b # bs)) (\<lambda>(m, rest). ebind (decode_all d n rest) (\<lambda>ms. Inr (m # ms)))"

lemma decode_all_step:
  assumes "bs \<noteq> []" "d bs = Inr (m, rest)"
  shows "decode_all d (Suc n) bs = ebind (decode_all d n rest) (\<lambda>ms. Inr (m # ms))"
  using assms by (cases bs) auto

text \<open>A decoder that always takes something off the buffer never exhausts its rounds.\<close>

lemma decode_all_fuel:
  assumes "\<And>bs m rest. d bs = Inr (m, rest) \<Longrightarrow> length rest < length bs"
    and "\<And>bs. d bs \<noteq> Inl Out_of_fuel" and "length bs \<le> n"
  shows "decode_all d n bs \<noteq> Inl Out_of_fuel"
  using assms(3)
proof (induction n arbitrary: bs)
  case (Suc n)
  show ?case
  proof (cases bs)
    case (Cons b bs')
    show ?thesis
    proof (cases "d bs")
      case (Inl e)
      then show ?thesis using assms(2)[of bs] Cons by auto
    next
      case (Inr mr)
      then obtain m rest where mr: "d bs = Inr (m, rest)" by (cases mr) auto
      from assms(1)[OF mr] Suc have "decode_all d n rest \<noteq> Inl Out_of_fuel" by simp
      then show ?thesis using mr Cons by (auto simp: ebind_eq_Inl)
    qed
  qed simp
qed simp

locale prefix_code =
  fixes enc :: "'m \<Rightarrow> bytes" and dec :: "'m decoder" and ok :: "'m \<Rightarrow> bool"
  assumes dec_enc: "ok m \<Longrightarrow> dec (enc m @ rest) = Inr (m, rest)"
    and enc_nonempty: "ok m \<Longrightarrow> enc m \<noteq> []"
begin

lemma decode_all_encode:
  assumes "\<forall>m\<in>set ms. ok m" "length ms \<le> n"
  shows "decode_all dec n (concat (map enc ms)) = Inr ms"
  using assms
proof (induction ms arbitrary: n)
  case (Cons m ms)
  then obtain n' where n: "n = Suc n'" by (cases n) auto
  have "dec (enc m @ concat (map enc ms)) = Inr (m, concat (map enc ms))"
    using Cons.prems by (intro dec_enc) simp
  then show ?case
    using Cons n enc_nonempty by (simp add: decode_all_step)
qed simp

lemma length_encoded:
  assumes "\<forall>m\<in>set ms. ok m"
  shows "length ms \<le> length (concat (map enc ms))"
  using assms
proof (induction ms)
  case (Cons m ms)
  then have "1 \<le> length (enc m)" using enc_nonempty by (simp add: Suc_le_eq)
  then show ?case using Cons by simp
qed simp

lemma encode_cancel:
  assumes "ok m" "ok m'" "enc m @ r = enc m' @ r'"
  shows "m = m' \<and> r = r'"
proof -
  have "Inr (m, r) = dec (enc m' @ r')" using dec_enc[OF assms(1), of r] assms(3) by metis
  also have "\<dots> = Inr (m', r')" by (rule dec_enc[OF assms(2)])
  finally show ?thesis by simp
qed

end

end
