(* ===== verification/Frames.thy ===== *)
theory Frames
  imports Bytes
begin

text \<open>
  The frame codec of \<^verbatim>\<open>src/xmysqlnd/xmysqlnd_protocol_frame_codec.cc\<close>.  A frame is a four byte
  little-endian length, one byte of message type and the payload; the length counts the type
  byte.  The network stream (\<^verbatim>\<open>MYSQLND_VIO\<close> of the PHP core) is a parameter: its operations are
  the fields of \<open>vio\<close>, its state any type.  Sizes are \<^verbatim>\<open>size_t\<close> values with the
  wrap-around written out; a buffer pointer is the list of the bytes behind it.
\<close>

datatype func_status = PASS | FAIL

record 'v vio =
  has_valid_stream :: "'v \<Rightarrow> bool"
  network_write :: "'v \<Rightarrow> bytes \<Rightarrow> 'v \<times> nat"
  network_read :: "'v \<Rightarrow> nat \<Rightarrow> 'v \<times> bytes option"

definition max_packet_size :: nat where
  "max_packet_size = 1024 * 1024"

definition header :: "nat \<Rightarrow> byte \<Rightarrow> bytes" where
  "header len ty = le_store 4 len @ [ty]"

section \<open>Sending\<close>

text \<open>
  The locals of \<open>send\<close>.  The parameter \<^verbatim>\<open>bytes_sent\<close> is a \<^verbatim>\<open>size_t *\<close> that the loop itself
  advances (\<^verbatim>\<open>bytes_sent += n\<close> moves the pointer by \<open>n\<close> elements of eight bytes), so its
  address is part of the state; the cell it pointed to at entry keeps the 0 stored there.
\<close>

record 'v send_state =
  ss_vio :: 'v
  ss_p :: bytes
  ss_left :: nat
  ss_bytes_sent :: nat
  ss_packets :: nat

definition advance_bytes_sent :: "nat \<Rightarrow> nat \<Rightarrow> nat" where
  "advance_bytes_sent addr n = (addr + 8 * n) mod 2 ^ 64"

definition write_counted :: "'v vio \<Rightarrow> bytes \<Rightarrow> 'v send_state \<Rightarrow> 'v send_state" where
  "write_counted io bs s =
     (let (v, n) = network_write io (ss_vio s) bs
      in s\<lparr>ss_vio := v, ss_bytes_sent := advance_bytes_sent (ss_bytes_sent s) n\<rparr>)"

definition to_be_sent :: "nat \<Rightarrow> 'v send_state \<Rightarrow> nat" where
  "to_be_sent mps s = min (ss_left s) (uint_sub 64 mps 1)"

definition send_round :: "'v vio \<Rightarrow> nat \<Rightarrow> byte \<Rightarrow> 'v send_state \<Rightarrow> 'v send_state" where
  "send_round io mps ty s =
     (let n = to_be_sent mps s;
          s1 = write_counted io (header ((n + 1) mod 2 ^ 64) ty) s;
          s2 = (if n \<noteq> 0 then write_counted io (take n (ss_p s1)) s1 else s1)
      in s2\<lparr>ss_p := drop n (ss_p s2), ss_left := uint_sub 64 (ss_left s2) n,
            ss_packets := ss_packets s2 + 1\<rparr>)"

fun send_loop :: "nat \<Rightarrow> 'v vio \<Rightarrow> nat \<Rightarrow> byte \<Rightarrow> 'v send_state \<Rightarrow> 'v send_state option" where
  "send_loop 0 io mps ty s = None"
| "send_loop (Suc fuel) io mps ty s =
     (let n = to_be_sent mps s; s' = send_round io mps ty s
      in if ss_bytes_sent s' \<noteq> 0 \<and> (0 < ss_left s' \<or> n = mps)
         then send_loop fuel io mps ty s' else Some s')"

record 'v send_result =
  sr_status :: func_status
  sr_vio :: 'v
  sr_bytes_sent :: "nat option"
  sr_stats :: "(nat \<times> nat \<times> nat) option"

definition pfc_send ::
  "nat \<Rightarrow> 'v vio \<Rightarrow> nat \<Rightarrow> byte \<Rightarrow> bytes option \<Rightarrow> nat \<Rightarrow> nat \<Rightarrow> 'v \<Rightarrow> 'v send_result option" where
  "pfc_send fuel io mps ty buffer count bytes_sent v =
     (if \<not> has_valid_stream io v
      then Some \<lparr>sr_status = FAIL, sr_vio = v, sr_bytes_sent = None, sr_stats = None\<rparr>
      else
        let start = \<lparr>ss_vio = v,
                     ss_p = (case buffer of None \<Rightarrow> [] | Some b \<Rightarrow> b),
                     ss_left = (case buffer of None \<Rightarrow> 0 | Some b \<Rightarrow> count),
                     ss_bytes_sent = bytes_sent, ss_packets = 1\<rparr>
        in map_option
             (\<lambda>s. \<lparr>sr_status = (if ss_bytes_sent s = 0 then FAIL else PASS),
                   sr_vio = ss_vio s, sr_bytes_sent = Some 0,
                   sr_stats = Some (count + ss_packets s * 5, ss_packets s * 5, ss_packets s)\<rparr>)
             (send_loop fuel io mps ty start))"

section \<open>Receiving\<close>

text \<open>
  \<open>uint4korr\<close> yields a 32-bit value, so the payload length of a frame that announces length 0
  wraps to \<open>2\<^sup>32 - 1\<close>.  The caller's buffer is used when it is there and large enough.
\<close>

record 'v receive_result =
  rr_status :: func_status
  rr_vio :: 'v
  rr_packet :: "(byte \<times> bytes \<times> bool) option"

definition payload_count :: "bytes \<Rightarrow> nat" where
  "payload_count hdr = uint_sub 32 (le_load (take 4 hdr)) 1"

definition pfc_receive :: "'v vio \<Rightarrow> nat option \<Rightarrow> 'v \<Rightarrow> 'v receive_result" where
  "pfc_receive io prealloc v =
     (if \<not> has_valid_stream io v
      then \<lparr>rr_status = FAIL, rr_vio = v, rr_packet = None\<rparr>
      else case network_read io v 5 of
        (v1, None) \<Rightarrow> \<lparr>rr_status = FAIL, rr_vio = v1, rr_packet = None\<rparr>
      | (v1, Some hdr) \<Rightarrow>
          (let ty = hdr ! 4;
               count = payload_count hdr;
               uses_prealloc = (case prealloc of None \<Rightarrow> False | Some n \<Rightarrow> \<not> n < count)
           in case network_read io v1 count of
                (v2, None) \<Rightarrow> \<lparr>rr_status = FAIL, rr_vio = v2, rr_packet = None\<rparr>
              | (v2, Some payload) \<Rightarrow>
                  \<lparr>rr_status = PASS, rr_vio = v2, rr_packet = Some (ty, payload, uses_prealloc)\<rparr>))"

section \<open>Frames as a code\<close>

definition frame :: "byte \<times> bytes \<Rightarrow> bytes" where
  "frame m = header (length (snd m) + 1) (fst m) @ snd m"

definition unframe :: "(byte \<times> bytes) decoder" where
  "unframe bs =
     (if length bs < 5 then Inl (Read_past_end (length bs))
      else let n = payload_count (take 5 bs) in
           if length bs < 5 + n then Inl (Read_past_end (length bs))
           else Inr ((bs ! 4, take n (drop 5 bs)), drop (5 + n) bs))"

definition frame_ok :: "byte \<times> bytes \<Rightarrow> bool" where
  "frame_ok m \<longleftrightarrow> length (snd m) < 2 ^ 32 - 1"

lemma length_header [simp]: "length (header n ty) = 5"
  by (simp add: header_def)

lemma nth_header [simp]: "header n ty ! 4 = ty"
  by (simp add: header_def nth_append)

lemma payload_count_header:
  "Suc n < 2 ^ 32 \<Longrightarrow> payload_count (header (Suc n) ty) = n"
  by (simp add: payload_count_def header_def le_store_4_load uint_sub_le)

lemma length_frame [simp]: "length (frame m) = 5 + length (snd m)"
  by (simp add: frame_def)

lemma take_frame: "take 5 (frame (ty, p) @ bs) = header (Suc (length p)) ty"
  and drop_frame: "drop 5 (frame (ty, p) @ bs) = p @ bs"
  by (simp_all add: frame_def)

interpretation frames: prefix_code frame unframe frame_ok
proof
  fix m rest assume ok: "frame_ok m"
  obtain ty p where m: "m = (ty, p)" by (cases m)
  have "payload_count (take 5 (frame m @ rest)) = length p"
    using ok by (simp only: m take_frame, simp add: m payload_count_header frame_ok_def)
  moreover have "(frame m @ rest) ! 4 = ty"
    by (simp add: m frame_def nth_append)
  moreover have "drop 5 (frame m @ rest) = p @ rest" by (simp only: m drop_frame)
  moreover have "drop (5 + length p) (frame m @ rest) = drop (length p) (drop 5 (frame m @ rest))"
    by (simp add: add.commute)
  ultimately show "unframe (frame m @ rest) = Inr (m, rest)"
    by (simp add: unframe_def m)
next
  fix m assume "frame_ok m"
  then show "frame m \<noteq> []" by (simp add: frame_def header_def)
qed

section \<open>A stream that keeps what is written\<close>

text \<open>
  What the codec relies on: a write appends its bytes and reports at most as many as it was
  given, a read of no more bytes than are pending returns them.  \<open>pending\<close> maps the stream's
  state to the bytes written and not yet read.
\<close>

definition keeps_bytes :: "'v vio \<Rightarrow> ('v \<Rightarrow> bytes) \<Rightarrow> bool" where
  "keeps_bytes io pending \<longleftrightarrow>
     (\<forall>v bs. has_valid_stream io v \<longrightarrow>
        has_valid_stream io (fst (network_write io v bs)) \<and>
        pending (fst (network_write io v bs)) = pending v @ bs \<and>
        snd (network_write io v bs) \<le> length bs) \<and>
     (\<forall>v n. has_valid_stream io v \<longrightarrow> n \<le> length (pending v) \<longrightarrow>
        has_valid_stream io (fst (network_read io v n)) \<and>
        pending (fst (network_read io v n)) = drop n (pending v) \<and>
        snd (network_read io v n) = Some (take n (pending v)))"

lemma keeps_bytes_write:
  assumes "keeps_bytes io pending" "has_valid_stream io v" "network_write io v bs = (v', n)"
  shows "has_valid_stream io v'" "pending v' = pending v @ bs" "n \<le> length bs"
proof -
  have "has_valid_stream io (fst (network_write io v bs)) \<and>
        pending (fst (network_write io v bs)) = pending v @ bs \<and>
        snd (network_write io v bs) \<le> length bs"
    using assms(1,2) unfolding keeps_bytes_def by blast
  then show "has_valid_stream io v'" "pending v' = pending v @ bs" "n \<le> length bs"
    by (simp_all add: assms(3))
qed

lemma keeps_bytes_read:
  assumes "keeps_bytes io pending" "has_valid_stream io v" "n \<le> length (pending v)"
  obtains v' where "network_read io v n = (v', Some (take n (pending v)))"
    "has_valid_stream io v'" "pending v' = drop n (pending v)"
  using assms unfolding keeps_bytes_def by (metis prod.collapse)

text \<open>One \<open>receive\<close> takes exactly one frame off such a stream.\<close>

lemma pfc_receive_frame:
  assumes io: "keeps_bytes io pending" "has_valid_stream io v"
    and pend: "pending v = frame (ty, p) @ rest" and ok: "frame_ok (ty, p)"
  obtains v' where
    "pfc_receive io pre v =
       \<lparr>rr_status = PASS, rr_vio = v',
        rr_packet = Some (ty, p, case pre of None \<Rightarrow> False | Some n \<Rightarrow> \<not> n < length p)\<rparr>"
    "has_valid_stream io v'" "pending v' = rest"
proof -
  have "5 \<le> length (pending v)" by (simp add: pend)
  with io obtain v1 where v1: "network_read io v 5 = (v1, Some (take 5 (pending v)))"
    "has_valid_stream io v1" "pending v1 = drop 5 (pending v)" by (rule keeps_bytes_read)
  have hdr: "take 5 (pending v) = header (Suc (length p)) ty" by (simp only: pend take_frame)
  have pend1: "pending v1 = p @ rest" by (simp only: v1 pend drop_frame)
  then have "length p \<le> length (pending v1)" by simp
  with io(1) v1(2) obtain v2 where v2: "network_read io v1 (length p) = (v2, Some (take (length p) (pending v1)))"
    "has_valid_stream io v2" "pending v2 = drop (length p) (pending v1)" by (rule keeps_bytes_read)
  have "payload_count (header (Suc (length p)) ty) = length p"
    using ok by (intro payload_count_header) (simp add: frame_ok_def)
  then show ?thesis
    using that[of v2] io v1(1,2) v2 unfolding hdr pend1 by (simp add: pfc_receive_def Let_def cong: option.case_cong)
qed

text \<open>The pieces \<open>send\<close> cuts a payload into.\<close>

fun chunks :: "nat \<Rightarrow> 'a list \<Rightarrow> 'a list list" where
  "chunks k xs = (if k = 0 \<or> length xs \<le> k then [xs] else take k xs # chunks k (drop k xs))"

declare chunks.simps [simp del]

lemma concat_chunks [simp]: "concat (chunks k xs) = xs"
  by (induction k xs rule: chunks.induct) (subst chunks.simps, auto)

lemma chunks_short: "0 < k \<Longrightarrow> c \<in> set (chunks k xs) \<Longrightarrow> length c \<le> k"
proof (induction k xs rule: chunks.induct)
  case (1 k xs)
  then show ?case
    by (cases "length xs \<le> k") (auto simp: chunks.simps[of k xs])
qed

lemma write_counted_keeps:
  assumes io: "keeps_bytes io pending" "has_valid_stream io (ss_vio s)"
    and room: "0 < ss_bytes_sent s" "ss_bytes_sent s + 8 * (length bs + r) < 2 ^ 64"
  shows "has_valid_stream io (ss_vio (write_counted io bs s))"
    "pending (ss_vio (write_counted io bs s)) = pending (ss_vio s) @ bs"
    "0 < ss_bytes_sent (write_counted io bs s)"
    "ss_bytes_sent (write_counted io bs s) + 8 * r < 2 ^ 64"
    "ss_p (write_counted io bs s) = ss_p s" "ss_left (write_counted io bs s) = ss_left s"
    "ss_packets (write_counted io bs s) = ss_packets s"
proof -
  obtain v n where w: "network_write io (ss_vio s) bs = (v, n)" by fastforce
  note k = keeps_bytes_write[OF io w]
  have "ss_bytes_sent s + 8 * n < 2 ^ 64" using k(3) room(2) by (simp add: algebra_simps)
  then have "advance_bytes_sent (ss_bytes_sent s) n = ss_bytes_sent s + 8 * n"
    by (simp add: advance_bytes_sent_def)
  then show "has_valid_stream io (ss_vio (write_counted io bs s))"
    "pending (ss_vio (write_counted io bs s)) = pending (ss_vio s) @ bs"
    "0 < ss_bytes_sent (write_counted io bs s)"
    "ss_bytes_sent (write_counted io bs s) + 8 * r < 2 ^ 64"
    "ss_p (write_counted io bs s) = ss_p s" "ss_left (write_counted io bs s) = ss_left s"
    "ss_packets (write_counted io bs s) = ss_packets s"
    using k room by (simp_all add: write_counted_def w)
qed

text \<open>One round sends one frame with the next piece of the payload.\<close>

lemma to_be_sent_min:
  assumes "2 \<le> mps" "mps < 2 ^ 32"
  shows "to_be_sent mps s = min (ss_left s) (mps - 1)"
  using assms by (simp add: to_be_sent_def uint_sub_le)

lemma send_round_keeps:
  fixes s :: "'v send_state"
  assumes io: "keeps_bytes io pending" "has_valid_stream io (ss_vio s)"
    and mps: "2 \<le> mps" "mps < 2 ^ 32" and left: "ss_left s = length (ss_p s)" "ss_left s < 2 ^ 64"
    and n: "n = min (ss_left s) (mps - 1)"
    and room: "0 < ss_bytes_sent s" "ss_bytes_sent s + 8 * (5 + (n + r)) < 2 ^ 64"
  shows "has_valid_stream io (ss_vio (send_round io mps ty s))"
    "pending (ss_vio (send_round io mps ty s)) = pending (ss_vio s) @ frame (ty, take n (ss_p s))"
    "0 < ss_bytes_sent (send_round io mps ty s)"
    "ss_bytes_sent (send_round io mps ty s) + 8 * r < 2 ^ 64"
    "ss_p (send_round io mps ty s) = drop n (ss_p s)"
    "ss_left (send_round io mps ty s) = length (drop n (ss_p s))"
    "ss_packets (send_round io mps ty s) = ss_packets s + 1"
proof -
  have tbs: "to_be_sent mps s = n" using mps by (simp add: to_be_sent_min n)
  have n_le: "n \<le> length (ss_p s)" and n_small: "n + 1 < 2 ^ 32" using n left mps by auto
  let ?h = "header (n + 1) ty"
  define s1 where "s1 = write_counted io ?h s"
  define s2 where "s2 = (if n \<noteq> 0 then write_counted io (take n (ss_p s1)) s1 else s1)"
  have "ss_bytes_sent s + 8 * (length ?h + (n + r)) < 2 ^ 64" using room(2) by simp
  note k1 = write_counted_keeps[OF io room(1) this, folded s1_def]
  have room1: "ss_bytes_sent s1 + 8 * (length (take n (ss_p s1)) + r) < 2 ^ 64"
    using k1(4,5) n_le by simp
  note k2 = write_counted_keeps[OF io(1) k1(1,3) room1]
  have all2: "has_valid_stream io (ss_vio s2)"
    "pending (ss_vio s2) = pending (ss_vio s1) @ take n (ss_p s)"
    "0 < ss_bytes_sent s2" "ss_bytes_sent s2 + 8 * r < 2 ^ 64" "ss_p s2 = ss_p s"
    "ss_left s2 = ss_left s" "ss_packets s2 = ss_packets s"
    using k1 k2 by (auto simp: s2_def)
  have round: "send_round io mps ty s =
      s2\<lparr>ss_p := drop n (ss_p s2), ss_left := uint_sub 64 (ss_left s2) n,
         ss_packets := ss_packets s2 + 1\<rparr>"
    using n_small by (simp add: send_round_def tbs s2_def s1_def Let_def)
  have frm: "frame (ty, take n (ss_p s)) = ?h @ take n (ss_p s)"
    using n_le by (simp add: frame_def min_def)
  have len: "uint_sub 64 (ss_left s) n = length (drop n (ss_p s))"
    using n_le left by (simp add: uint_sub_le)
  show "has_valid_stream io (ss_vio (send_round io mps ty s))"
    "pending (ss_vio (send_round io mps ty s)) = pending (ss_vio s) @ frame (ty, take n (ss_p s))"
    "0 < ss_bytes_sent (send_round io mps ty s)"
    "ss_bytes_sent (send_round io mps ty s) + 8 * r < 2 ^ 64"
    "ss_p (send_round io mps ty s) = drop n (ss_p s)"
    "ss_left (send_round io mps ty s) = length (drop n (ss_p s))"
    "ss_packets (send_round io mps ty s) = ss_packets s + 1"
    using all2 k1(2) len frm unfolding round by simp_all
qed

lemma send_loop_keeps:
  assumes io: "keeps_bytes io pending" and mps: "2 \<le> mps" "mps < 2 ^ 32"
    and "has_valid_stream io (ss_vio s)" "ss_left s = length (ss_p s)" "ss_left s < 2 ^ 64"
    and "0 < ss_bytes_sent s" "ss_bytes_sent s + 8 * (6 * length (ss_p s) + 5) < 2 ^ 64"
    and "length (ss_p s) < fuel"
  shows "\<exists>s'. send_loop fuel io mps ty s = Some s' \<and> has_valid_stream io (ss_vio s') \<and>
     pending (ss_vio s') =
       pending (ss_vio s) @ concat (map (\<lambda>c. frame (ty, c)) (chunks (mps - 1) (ss_p s))) \<and>
     0 < ss_bytes_sent s' \<and>
     ss_packets s' = ss_packets s + length (chunks (mps - 1) (ss_p s))"
  using assms(4-)
proof (induction fuel arbitrary: s)
  case (Suc fuel)
  let ?p = "ss_p s" and ?s' = "send_round io mps ty s"
  define n where "n = min (ss_left s) (mps - 1)"
  define r where "r = (if length ?p \<le> mps - 1 then 0 else 6 * (length ?p - n) + 5)"
  have "5 + (n + r) \<le> 6 * length ?p + 5"
    using mps Suc.prems by (auto simp: r_def n_def)
  then have "ss_bytes_sent s + 8 * (5 + (n + r)) < 2 ^ 64" using Suc.prems(5) by simp
  note rnd = send_round_keeps[OF io Suc.prems(1) mps Suc.prems(2,3) n_def Suc.prems(4) this, of ty]
  have ne: "to_be_sent mps s \<noteq> mps" using mps by (simp add: to_be_sent_min)
  show ?case
  proof (cases "length ?p \<le> mps - 1")
    case True
    then have "n = length ?p" using Suc.prems by (simp add: n_def)
    then have "send_loop (Suc fuel) io mps ty s = Some ?s'"
      using rnd ne by (simp add: Let_def)
    moreover have "chunks (mps - 1) ?p = [?p]" using True by (simp add: chunks.simps)
    ultimately show ?thesis using rnd \<open>n = length ?p\<close> by simp
  next
    case False
    then have n: "n = mps - 1" "0 < n" "n < length ?p" using Suc.prems mps by (auto simp: n_def)
    then have "0 < ss_left ?s'" using rnd(6) by simp
    then have loop: "send_loop (Suc fuel) io mps ty s = send_loop fuel io mps ty ?s'"
      using rnd(3) by (simp add: Let_def)
    have "ss_bytes_sent ?s' + 8 * (6 * length (ss_p ?s') + 5) < 2 ^ 64"
      using rnd(4,5) False by (simp add: r_def)
    then have "\<exists>s'. send_loop fuel io mps ty ?s' = Some s' \<and> has_valid_stream io (ss_vio s') \<and>
       pending (ss_vio s') =
         pending (ss_vio ?s') @ concat (map (\<lambda>c. frame (ty, c)) (chunks (mps - 1) (ss_p ?s'))) \<and>
       0 < ss_bytes_sent s' \<and>
       ss_packets s' = ss_packets ?s' + length (chunks (mps - 1) (ss_p ?s'))"
      using rnd Suc.prems n by (intro Suc.IH) simp_all
    moreover have "chunks (mps - 1) ?p = take n ?p # chunks (mps - 1) (drop n ?p)"
      using False n mps by (subst chunks.simps) simp
    ultimately show ?thesis using loop rnd by simp
  qed
qed simp

text \<open>The same without any assumption on the stream but that every write fails.\<close>

lemma send_round_failing:
  assumes fails: "\<And>v bs. snd (network_write io v bs) = 0"
    and mps: "2 \<le> mps" "mps < 2 ^ 32" and left: "ss_left s < 2 ^ 64"
    and ptr: "ss_bytes_sent s < 2 ^ 64"
  shows "ss_bytes_sent (send_round io mps ty s) = ss_bytes_sent s"
    "ss_left (send_round io mps ty s) = ss_left s - min (ss_left s) (mps - 1)"
proof -
  have w: "ss_bytes_sent (write_counted io bs t) = ss_bytes_sent t"
    if "ss_bytes_sent t < 2 ^ 64" for bs t
    using that fails[of "ss_vio t" bs]
    by (cases "network_write io (ss_vio t) bs") (simp add: write_counted_def advance_bytes_sent_def)
  have l: "ss_left (write_counted io bs t) = ss_left t" for bs t
    by (simp add: write_counted_def split: prod.splits)
  show "ss_bytes_sent (send_round io mps ty s) = ss_bytes_sent s"
    using ptr by (simp add: send_round_def Let_def w)
  show "ss_left (send_round io mps ty s) = ss_left s - min (ss_left s) (mps - 1)"
    using left mps by (simp add: send_round_def Let_def l to_be_sent_min uint_sub_le)
qed

lemma send_loop_failing:
  assumes fails: "\<And>v bs. snd (network_write io v bs) = 0"
    and mps: "2 \<le> mps" "mps < 2 ^ 32"
    and "ss_left s < 2 ^ 64" "ss_bytes_sent s < 2 ^ 64" "ss_left s < fuel"
  shows "\<exists>s'. send_loop fuel io mps ty s = Some s' \<and> ss_bytes_sent s' = ss_bytes_sent s"
  using assms(4-)
proof (induction fuel arbitrary: s)
  case (Suc fuel)
  let ?s' = "send_round io mps ty s"
  have ne: "to_be_sent mps s \<noteq> mps" using mps by (simp add: to_be_sent_min)
  note rnd = send_round_failing[OF fails mps Suc.prems(1,2), of ty]
  show ?case
  proof (cases "ss_left s \<le> mps - 1")
    case True
    then show ?thesis using rnd ne by (simp add: Let_def)
  next
    case False
    then have "ss_left ?s' < fuel" "ss_left ?s' < 2 ^ 64" using rnd(2) Suc.prems mps by auto
    then show ?thesis
      using Suc.IH[of ?s'] rnd ne Suc.prems(2) by (simp add: Let_def)
  qed
qed simp

section \<open>Properties\<close>

fun receive_frames ::
  "nat \<Rightarrow> 'v vio \<Rightarrow> nat option \<Rightarrow> 'v \<Rightarrow> (byte \<times> bytes) list option \<times> 'v" where
  "receive_frames 0 io pre v = (Some [], v)"
| "receive_frames (Suc n) io pre v =
     (let r = pfc_receive io pre v in
      case rr_packet r of
        None \<Rightarrow> (None, rr_vio r)
      | Some (ty, p, _) \<Rightarrow>
          (case receive_frames n io pre (rr_vio r) of (fs, v') \<Rightarrow> (map_option ((#) (ty, p)) fs, v')))"

lemma receive_frames_pending:
  assumes "keeps_bytes io pending" "has_valid_stream io v"
    and "pending v = concat (map frame fs) @ rest" "\<forall>f\<in>set fs. frame_ok f"
  shows "\<exists>v'. receive_frames (length fs) io pre v = (Some fs, v') \<and>
     has_valid_stream io v' \<and> pending v' = rest"
  using assms(2-)
proof (induction fs arbitrary: v)
  case (Cons f fs)
  obtain ty p where f: "f = (ty, p)" by (cases f)
  have "pending v = frame (ty, p) @ (concat (map frame fs) @ rest)" "frame_ok (ty, p)"
    using Cons.prems f by auto
  with assms(1) Cons.prems(1) obtain v1 where v1:
    "rr_packet (pfc_receive io pre v) =
       Some (ty, p, case pre of None \<Rightarrow> False | Some n \<Rightarrow> \<not> n < length p)"
    "rr_vio (pfc_receive io pre v) = v1" "has_valid_stream io v1"
    "pending v1 = concat (map frame fs) @ rest"
    using pfc_receive_frame[where pre = pre]
    by (metis receive_result.select_convs(2,3))
  from Cons.IH[OF v1(3,4)] Cons.prems show ?case
    using v1 f by (auto simp: Let_def)
qed simp

text \<open>
  C7: a payload of any length survives the frame codec.  On a stream that keeps what is
  written, \<open>send\<close> returns \<open>PASS\<close> and cuts the payload into frames shorter than the packet
  limit; that many calls of \<open>receive\<close> return frames of the sent type whose payloads join to
  the original, and leave nothing on the stream.
\<close>

theorem frame_round_trip:
  assumes "keeps_bytes io pending" "has_valid_stream io v" "pending v = []"
    and "2 \<le> mps" "mps < 2 ^ 32"
    and "0 < addr" "addr + 8 * (6 * length buf + 5) < 2 ^ 64"
  shows "\<exists>r fs v'. pfc_send (Suc (length buf)) io mps ty (Some buf) (length buf) addr v = Some r \<and>
     sr_status r = PASS \<and>
     receive_frames (length (chunks (mps - 1) buf)) io pre (sr_vio r) = (Some fs, v') \<and>
     (\<forall>f\<in>set fs. fst f = ty \<and> length (snd f) < mps) \<and>
     concat (map snd fs) = buf \<and> pending v' = []"
proof -
  let ?cs = "chunks (mps - 1) buf" and ?s = "\<lparr>ss_vio = v, ss_p = buf, ss_left = length buf,
     ss_bytes_sent = addr, ss_packets = 1\<rparr>"
  have "length buf < 2 ^ 64" using assms(7) by simp
  with assms obtain s' where s': "send_loop (Suc (length buf)) io mps ty ?s = Some s'"
    "has_valid_stream io (ss_vio s')" "0 < ss_bytes_sent s'"
    "pending (ss_vio s') = concat (map frame (map (Pair ty) ?cs)) @ []"
    using send_loop_keeps[of io pending mps ?s "Suc (length buf)" ty]
    by (auto simp: comp_def)
  have short: "length c < mps" if "c \<in> set ?cs" for c
    using chunks_short[of "mps - 1" c buf] that assms(4) by simp
  then have ok: "\<forall>f\<in>set (map (Pair ty) ?cs). frame_ok f"
    using assms(5) by (fastforce simp: frame_ok_def)
  obtain v' where "receive_frames (length ?cs) io pre (ss_vio s') = (Some (map (Pair ty) ?cs), v')"
    "pending v' = []"
    using receive_frames_pending[OF assms(1) s'(2,4) ok, of pre] by auto
  then show ?thesis
    using assms(2) s' short by (auto simp: pfc_send_def comp_def)
qed

text \<open>A stream in memory: its state is the bytes written and not yet read.\<close>

definition memory_vio :: "bytes vio" where
  "memory_vio = \<lparr>has_valid_stream = (\<lambda>v. True),
     network_write = (\<lambda>v bs. (v @ bs, length bs)),
     network_read = (\<lambda>v n. if n \<le> length v then (drop n v, Some (take n v)) else (v, None))\<rparr>"

lemma memory_vio_keeps: "keeps_bytes memory_vio (\<lambda>v. v)"
  by (simp add: keeps_bytes_def memory_vio_def)

theorem frame_round_trip_witness:
  "\<exists>r fs v'. pfc_send (Suc (length [1, 2, 3, 4, 5 :: byte])) memory_vio 3 12
       (Some [1, 2, 3, 4, 5]) (length [1, 2, 3, 4, 5 :: byte]) 4096 [] = Some r \<and>
     sr_status r = PASS \<and>
     receive_frames (length (chunks (3 - 1) [1, 2, 3, 4, 5 :: byte])) memory_vio None (sr_vio r) =
       (Some fs, v') \<and>
     (\<forall>f\<in>set fs. fst f = 12 \<and> length (snd f) < 3) \<and>
     concat (map snd fs) = [1, 2, 3, 4, 5] \<and> v' = []"
  by (rule frame_round_trip[OF memory_vio_keeps]) (simp_all add: memory_vio_def)

text \<open>
  A failing write is not noticed.  On a stream every write to which writes nothing,
  \<open>send\<close> still returns \<open>PASS\<close> and leaves 0 in the caller's byte counter: the loop advances the
  pointer \<^verbatim>\<open>bytes_sent\<close> instead of the counter behind it and then tests the pointer.
\<close>

lemma failed_write_unnoticed:
  assumes "has_valid_stream io v" "\<And>v bs. snd (network_write io v bs) = 0"
    and "2 \<le> mps" "mps < 2 ^ 32" "0 < addr" "addr < 2 ^ 64" "length buf < 2 ^ 64"
  shows "\<exists>r. pfc_send (Suc (length buf)) io mps ty (Some buf) (length buf) addr v = Some r \<and>
     sr_status r = PASS \<and> sr_bytes_sent r = Some 0"
  using send_loop_failing[of io mps "\<lparr>ss_vio = v, ss_p = buf, ss_left = length buf,
     ss_bytes_sent = addr, ss_packets = 1\<rparr>" "Suc (length buf)" ty] assms
  by (auto simp: pfc_send_def)

lemma failed_write_unnoticed_example:
  "\<exists>r. pfc_send (Suc (length [1, 2 :: byte])) \<lparr>has_valid_stream = (\<lambda>v :: unit. True), network_write = (\<lambda>v bs. (v, 0)),
       network_read = (\<lambda>v n. (v, None))\<rparr> max_packet_size 12 (Some [1, 2])
       (length [1, 2 :: byte]) 4096 () = Some r \<and>
     sr_status r = PASS \<and> sr_bytes_sent r = Some 0"
  by (rule failed_write_unnoticed) (simp_all add: max_packet_size_def)

text \<open>
  the length of a received frame is not checked.  A frame that announces length 0, which
  the encoding never produces, makes \<open>receive\<close> ask the stream for \<open>2\<^sup>32 - 1\<close> payload bytes;
  every other length asks for one byte less than it says.
\<close>

lemma frame_payload_length:
  assumes "length hdr = 5"
  shows "payload_count hdr =
     (if le_load (take 4 hdr) = 0 then 2 ^ 32 - 1 else le_load (take 4 hdr) - 1)"
proof -
  have "le_load (take 4 hdr) < 2 ^ 32"
    using le_load_less[of "take 4 hdr"] assms by simp
  then show ?thesis by (auto simp: payload_count_def uint_sub_le) (simp add: uint_sub_def)
qed

lemma frame_payload_length_example:
  "payload_count [0, 0, 0, 0, 11] = 4294967295 \<and> payload_count [3, 1, 0, 0, 11] = 258"
  using frame_payload_length[of "[0, 0, 0, 0, 11]"] frame_payload_length[of "[3, 1, 0, 0, 11]"]
  by simp

end
