(* ===== verification/Zvalue.thy ===== *)
theory Zvalue
  imports Bytes
begin

text \<open>
  The PHP values the driver inspects, after \<^verbatim>\<open>src/util/value.cc\<close> and \<^verbatim>\<open>src/util/value.inl\<close>: the
  constructors are the types of \<^verbatim>\<open>zvalue::Type\<close> that the modelled code tells apart.  A long is
  the 64-bit \<^verbatim>\<open>zend_long\<close>, a double its 64 bits, an array an ordered list of keyed elements and
  an object the ordered list of its properties.
\<close>

datatype zkey = Key_index int | Key_name string

datatype zvalue =
    Undefined
  | Null
  | Bool bool
  | Long "64 word"
  | Double "64 word"
  | String string
  | Array "(zkey \<times> zvalue) list"
  | Object "(string \<times> zvalue) list"

definition is_array :: "zvalue \<Rightarrow> bool" where
  "is_array z = (case z of Array es \<Rightarrow> True | _ \<Rightarrow> False)"

definition is_object :: "zvalue \<Rightarrow> bool" where
  "is_object z = (case z of Object ps \<Rightarrow> True | _ \<Rightarrow> False)"

definition has_value :: "zvalue \<Rightarrow> bool" where
  "has_value z = (case z of Undefined \<Rightarrow> False | Null \<Rightarrow> False | _ \<Rightarrow> True)"

text \<open>A missing array element is an undefined value, a missing property is null.\<close>

definition zfind :: "zvalue \<Rightarrow> string \<Rightarrow> zvalue" where
  "zfind z k = (case z of
     Array es \<Rightarrow> (case map_of es (Key_name k) of None \<Rightarrow> Undefined | Some v \<Rightarrow> v)
   | _ \<Rightarrow> Undefined)"

definition zcontains :: "zvalue \<Rightarrow> string \<Rightarrow> bool" where
  "zcontains z k = (case z of Array es \<Rightarrow> map_of es (Key_name k) \<noteq> None | _ \<Rightarrow> False)"

definition get_property :: "zvalue \<Rightarrow> string \<Rightarrow> zvalue" where
  "get_property z k = (case z of
     Object ps \<Rightarrow> (case map_of ps k of None \<Rightarrow> Null | Some v \<Rightarrow> v)
   | _ \<Rightarrow> Null)"

definition zvalues :: "zvalue \<Rightarrow> zvalue list" where
  "zvalues z = (case z of Array es \<Rightarrow> map snd es | Object ps \<Rightarrow> map snd ps | _ \<Rightarrow> [])"

text \<open>\<open>to_int32\<close> is a cast of the 64-bit long, so it keeps the low 32 bits.\<close>

definition to_int32 :: "64 word \<Rightarrow> int" where
  "to_int32 w = sint (ucast w :: 32 word)"

definition optional_int32 :: "zvalue \<Rightarrow> int option" where
  "optional_int32 z = (case z of Long w \<Rightarrow> Some (to_int32 w) | _ \<Rightarrow> None)"

definition optional_bool :: "zvalue \<Rightarrow> bool option" where
  "optional_bool z = (case z of Bool b \<Rightarrow> Some b | _ \<Rightarrow> None)"

text \<open>
  The exceptions (\<^verbatim>\<open>util::xdevapi_exception\<close>) the modelled code throws, by their codes; a
  \<open>Server_error\<close> carries the code, SQL state and text the server sent, \<open>Stoi_failure\<close> and
  \<open>Map_at_failure\<close> are what \<^verbatim>\<open>std::stoi\<close> and \<^verbatim>\<open>std::map::at\<close> throw.  The last four stand for undefined behaviour: an access outside a buffer, a
  call through a null compressor, a null pointer followed and an end iterator dereferenced.
\<close>

datatype xdevapi_error =
    Server_error nat string string
  | Compression_not_supported
  | Compressor_not_available
  | Compression_negotiation_failure
  | Json_object_expected
  | Invalid_argument string
  | Connection_failure
  | Runtime_error
  | Session_reset_failure
  | Session_closed
  | Connection_closed_io_read_error
  | Connection_closed_server_shutdown
  | Connection_closed_session_was_killed
  | Unknown_client_conn_option string
  | Unknown_ssl_mode string
  | Unknown_tls_version string
  | Invalid_auth_mechanism string
  | Invalid_timeout
  | Compression_invalid_algorithm_name string
  | No_valid_cipher_in_list
  | No_valid_ciphersuite_in_list
  | Conn_attrib_wrong_type
  | Conn_attrib_dup_key
  | Openssl_unavailable
  | Provided_invalid_uri
  | Port_nbr_not_allowed_with_srv_uri
  | Unix_socket_not_allowed_with_srv
  | Url_list_not_allowed
  | Stoi_failure
  | Map_at_failure
  | Payload_overrun
  | No_compressor
  | Null_dereference
  | End_dereference

text \<open>The character of a byte and the byte of a character.\<close>

definition byte_char :: "byte \<Rightarrow> char" where
  "byte_char b = char_of (unat b)"

definition text_of :: "bytes \<Rightarrow> string" where
  "text_of bs = map byte_char bs"

lemma length_text_of [simp]: "length (text_of bs) = length bs"
  by (simp add: text_of_def)

lemma to_int32_small:
  assumes "- (2 ^ 31) \<le> i" "i < 2 ^ 31"
  shows "to_int32 (word_of_int i) = i"
proof -
  have "(ucast (word_of_int i :: 64 word) :: 32 word) = word_of_int i"
    by (rule bit_word_eqI) (simp add: bit_simps)
  moreover have "signed_take_bit 31 i = i" using assms by (intro signed_take_bit_int_eq_self) auto
  ultimately show ?thesis by (simp add: to_int32_def signed_of_int)
qed

lemma to_int32_range: "- (2 ^ 31) \<le> to_int32 w \<and> to_int32 w < 2 ^ 31"
  using sint_greater_eq[of "ucast w :: 32 word"] sint_less[of "ucast w :: 32 word"]
  by (simp add: to_int32_def)

end
