(* ===== verification/Compression.thy ===== *)
theory Compression
  imports Frames Zvalue
begin

text \<open>
  Compression of messages, after \<^verbatim>\<open>src/xmysqlnd/xmysqlnd_compression.cc\<close>,
  \<^verbatim>\<open>xmysqlnd_compression_types.h\<close> and \<^verbatim>\<open>xmysqlnd_compression_types.cc\<close>.  The compression
  libraries (zstd, lz4, zlib) are parameters: a \<open>compressor\<close> has a state of any type and two
  operations on it.  The composer lays a message out as a frame; the extractor takes frames off
  an uncompressed payload.  The \<^verbatim>\<open>uint32_t\<close> casts are those of a little-endian host.
\<close>

section \<open>Configuration\<close>

datatype policy = Required | Preferred | Disabled

datatype algorithm = No_algorithm | Zstd_stream | Lz4_message | Zlib_deflate_stream

record configuration =
  cfg_algorithm :: algorithm
  combine_mixed_messages :: "bool option"
  max_combine_messages :: "int option"

definition make_configuration :: "algorithm \<Rightarrow> configuration" where
  "make_configuration a =
     \<lparr>cfg_algorithm = a, combine_mixed_messages = Some False, max_combine_messages = None\<rparr>"

definition cfg_enabled :: "configuration \<Rightarrow> bool" where
  "cfg_enabled cfg \<longleftrightarrow> cfg_algorithm cfg \<noteq> No_algorithm"

definition Client_compression_threshold :: nat where
  "Client_compression_threshold = 1000"

section \<open>Composing\<close>

record composer =
  pc_buffer :: bytes
  pc_it :: nat

definition write_at :: "nat \<Rightarrow> bytes \<Rightarrow> bytes \<Rightarrow> bytes" where
  "write_at i bs buf = take i buf @ bs @ drop (i + length bs) buf"

definition new_composer :: "nat \<Rightarrow> composer" where
  "new_composer n = \<lparr>pc_buffer = replicate (4 + 1 + n) 0, pc_it = 0\<rparr>"

definition add_length :: "nat \<Rightarrow> composer \<Rightarrow> composer" where
  "add_length n pc = pc\<lparr>pc_buffer := write_at (pc_it pc) (le_store 4 ((1 + n) mod 2 ^ 32)) (pc_buffer pc),
     pc_it := pc_it pc + 4\<rparr>"

definition add_packet_type :: "byte \<Rightarrow> composer \<Rightarrow> composer" where
  "add_packet_type ty pc = pc\<lparr>pc_buffer := write_at (pc_it pc) [ty] (pc_buffer pc),
     pc_it := pc_it pc + 1\<rparr>"

definition add_payload :: "nat \<Rightarrow> bytes \<Rightarrow> composer \<Rightarrow> composer" where
  "add_payload n p pc = pc\<lparr>pc_buffer := write_at (pc_it pc) (take n p) (pc_buffer pc)\<rparr>"

definition compose_run :: "byte \<Rightarrow> nat \<Rightarrow> bytes \<Rightarrow> bytes" where
  "compose_run ty n p =
     pc_buffer (add_payload n p (add_packet_type ty (add_length n (new_composer n))))"

section \<open>Extracting\<close>

definition extract_length :: "nat decoder" where
  "extract_length bs =
     (if length bs < 4 then Inl (Read_past_end (length bs)) else Inr (le_load (take 4 bs), drop 4 bs))"

definition extract_packet_type :: "byte decoder" where
  "extract_packet_type bs =
     (case bs of [] \<Rightarrow> Inl (Read_past_end 0) | b # rest \<Rightarrow> Inr (b, rest))"

definition extract_payload :: "nat \<Rightarrow> bytes decoder" where
  "extract_payload msg_length bs =
     (let n = uint_sub 64 msg_length 1 in
      if length bs < n then Inl (Read_past_end (length bs)) else Inr (take n bs, drop n bs))"

definition extract_message :: "(byte \<times> bytes) decoder" where
  "extract_message bs =
     ebind (extract_length bs) (\<lambda>(len, bs1).
     ebind (extract_packet_type bs1) (\<lambda>(ty, bs2).
     ebind (extract_payload len bs2) (\<lambda>(p, bs3). Inr ((ty, p), bs3))))"

definition extractor_run :: "(byte \<times> bytes) list \<Rightarrow> bytes \<Rightarrow> (byte \<times> bytes) list outcome" where
  "extractor_run messages payload =
     ebind (decode_all extract_message (length payload) payload) (\<lambda>ms. Inr (messages @ ms))"

section \<open>The executor\<close>

text \<open>
  \<open>compression_msg\<close> holds the fields of the protobuf message \<^verbatim>\<open>Mysqlx.Connection.Compression\<close>.
\<close>

record compression_msg =
  cm_uncompressed_size :: nat
  cm_client_messages :: nat
  cm_payload :: bytes

record 'z compressor =
  create_compressor :: "algorithm \<Rightarrow> 'z"
  compress :: "'z \<Rightarrow> bytes \<Rightarrow> 'z \<times> bytes"
  decompress :: "'z \<Rightarrow> compression_msg \<Rightarrow> 'z \<times> bytes"

text \<open>An executor is the compressor it holds, if any.\<close>

definition executor_reset :: "'z compressor \<Rightarrow> configuration \<Rightarrow> 'z option" where
  "executor_reset lib cfg =
     (if cfg_enabled cfg then Some (create_compressor lib (cfg_algorithm cfg)) else None)"

definition executor_enabled :: "'z option \<Rightarrow> bool" where
  "executor_enabled ex \<longleftrightarrow> ex \<noteq> None"

definition compress_message ::
  "'z compressor \<Rightarrow> 'z \<Rightarrow> byte \<Rightarrow> nat \<Rightarrow> bytes \<Rightarrow> 'z \<times> nat \<times> bytes" where
  "compress_message lib z ty n p =
     (let u = compose_run ty n p; (z', c) = compress lib z u in (z', length u, c))"

definition decompress_messages ::
  "'z compressor \<Rightarrow> 'z \<Rightarrow> compression_msg \<Rightarrow> (byte \<times> bytes) list \<Rightarrow>
   'z \<times> (byte \<times> bytes) list outcome" where
  "decompress_messages lib z msg messages =
     (let (z', u) = decompress lib z msg in (z', extractor_run messages u))"

section \<open>Facts\<close>

lemma compose_run_frame:
  assumes "n \<le> length p"
  shows "compose_run ty n p = header ((1 + n) mod 2 ^ 32) ty @ take n p"
proof -
  have "drop 5 (replicate (4 + 1 + n) (0 :: byte)) = replicate n 0" by simp
  then show ?thesis using assms
    by (simp add: compose_run_def new_composer_def add_length_def add_packet_type_def
        add_payload_def write_at_def header_def min_def)
qed

lemma compose_is_frame:
  assumes "frame_ok (ty, p)"
  shows "compose_run ty (length p) p = frame (ty, p)"
  using assms by (simp add: compose_run_frame frame_def frame_ok_def)

lemma extract_message_unframe:
  "extract_message bs = Inr (m, rest) \<Longrightarrow> length rest + 5 \<le> length bs"
  by (auto simp: extract_message_def extract_length_def extract_packet_type_def extract_payload_def Let_def
      split: if_splits list.splits prod.splits dest: arg_cong[where f = length])

lemma extract_message_not_fuel: "extract_message bs \<noteq> Inl Out_of_fuel"
  by (auto simp: extract_message_def extract_length_def extract_packet_type_def extract_payload_def
      ebind_eq_Inl Let_def split: if_splits list.splits)

interpretation batch: prefix_code "\<lambda>m. compose_run (fst m) (length (snd m)) (snd m)"
  extract_message frame_ok
proof
  fix m :: "byte \<times> bytes" and rest assume ok: "frame_ok m"
  obtain ty p where m: "m = (ty, p)" by (cases m)
  have "extract_length (frame m @ rest) = Inr (length p + 1, ty # p @ rest)"
    using ok by (simp add: extract_length_def frame_def header_def frame_ok_def m le_store_4_load)
  moreover have "uint_sub 64 (length p + 1) 1 = length p"
    using ok uint_sub_le[of 1 "length p + 1" 64] by (simp add: frame_ok_def m)
  ultimately have "extract_message (frame m @ rest) = Inr (m, rest)"
    by (simp add: extract_message_def extract_packet_type_def extract_payload_def m Let_def)
  then show "extract_message (compose_run (fst m) (length (snd m)) (snd m) @ rest) = Inr (m, rest)"
    using ok by (simp add: m compose_is_frame)
next
  fix m :: "byte \<times> bytes" assume "frame_ok m"
  then show "compose_run (fst m) (length (snd m)) (snd m) \<noteq> []"
    by (cases m) (simp add: compose_is_frame frame_def header_def)
qed

lemma extractor_run_batch:
  assumes "\<forall>m\<in>set ms. frame_ok m"
  shows "extractor_run acc (concat (map (\<lambda>m. compose_run (fst m) (length (snd m)) (snd m)) ms)) =
     Inr (acc @ ms)"
  using batch.decode_all_encode[OF assms batch.length_encoded[OF assms]]
  by (simp add: extractor_run_def)

lemma extractor_run_fuel: "extractor_run acc bs \<noteq> Inl Out_of_fuel"
  using decode_all_fuel[of extract_message bs "length bs"] extract_message_unframe
    extract_message_not_fuel
  by (fastforce simp: extractor_run_def ebind_eq_Inl)

text \<open>What the extractor takes off a buffer is one frame of it.\<close>

lemma le_store_load: "length bs = k \<Longrightarrow> le_store k (le_load bs) = bs"
proof (induction bs arbitrary: k)
  case (Cons b bs)
  have "unat b < 256" using unsigned_less[of b] by simp
  moreover have "(256 :: byte) = 0" by (simp add: numeral_eq_iff word_eq_iff_unsigned)
  then have "(256 :: byte) * w = 0" for w by (metis mult_zero_left)
  then have "word_of_nat (unat b + 256 * le_load bs) = b" by simp
  ultimately show ?case using Cons by auto
qed simp

lemma extract_message_sound:
  assumes "extract_message bs = Inr (m, rest)" "length bs < 2 ^ 64 - 1"
  shows "bs = frame m @ rest"
proof -
  from assms(1) obtain ty bs2 where *: "4 \<le> length bs" "drop 4 bs = ty # bs2"
    "m = (ty, take (uint_sub 64 (le_load (take 4 bs)) 1) bs2)"
    "rest = drop (uint_sub 64 (le_load (take 4 bs)) 1) bs2"
    "uint_sub 64 (le_load (take 4 bs)) 1 \<le> length bs2"
    by (auto simp: extract_message_def extract_length_def extract_packet_type_def
        extract_payload_def Let_def split: if_splits list.splits)
  let ?len = "le_load (take 4 bs)"
  have lt: "?len < 2 ^ 32" using le_load_less[of "take 4 bs"] *(1) by simp
  have "length bs2 < 2 ^ 64 - 1" using arg_cong[OF *(2), of length] assms(2) by simp
  then have "?len \<noteq> 0" using *(5) by (intro notI) (simp add: uint_sub_def)
  then have len: "uint_sub 64 ?len 1 = ?len - 1" "?len - 1 + 1 = ?len"
    using lt uint_sub_le[of 1 ?len 64] by auto
  have "frame m = le_store 4 ?len @ ty # take (?len - 1) bs2"
    using * len by (simp add: frame_def header_def)
  also have "le_store 4 ?len = take 4 bs" using *(1) by (intro le_store_load) simp
  finally have "frame m @ rest = take 4 bs @ ty # bs2" using * len by simp
  then show ?thesis using append_take_drop_id[of 4 bs] *(2) by simp
qed

lemma decode_all_sound:
  assumes "decode_all extract_message n bs = Inr ms" "length bs < 2 ^ 64 - 1"
  shows "concat (map frame ms) = bs"
  using assms
proof (induction n arbitrary: bs ms)
  case 0
  then show ?case by (cases bs) auto
next
  case (Suc n)
  show ?case
  proof (cases bs)
    case (Cons b bs')
    with Suc.prems obtain m rest ms' where
      *: "extract_message bs = Inr (m, rest)" "decode_all extract_message n rest = Inr ms'"
      "ms = m # ms'" by auto
    have "length rest < 2 ^ 64 - 1" using extract_message_unframe[OF *(1)] Suc.prems by simp
    then show ?thesis using Suc.IH[OF *(2)] extract_message_sound[OF *(1)] Suc.prems * by simp
  qed (use Suc in simp)
qed

section \<open>Properties\<close>

text \<open>
  The extractor loses and invents nothing.  On any uncompressed payload (shorter than the
  address space) it ends; the messages it returns, framed again and joined, are the payload
  byte for byte; otherwise the payload is truncated or announces a length beyond its end and the
  extractor reads past it.
\<close>

lemma extractor_exact:
  assumes "length bs < 2 ^ 64 - 1"
  shows "case extractor_run [] bs of
     Inr ms \<Rightarrow> concat (map frame ms) = bs
   | Inl e \<Rightarrow> (\<exists>k. e = Read_past_end k)"
proof (cases "decode_all extract_message (length bs) bs")
  case (Inr ms)
  then show ?thesis using decode_all_sound[OF Inr assms] by (simp add: extractor_run_def)
next
  case (Inl e)
  have "\<exists>k. e = Read_past_end k"
    if "decode_all extract_message n cs = Inl e" "e \<noteq> Out_of_fuel" for n cs
    using that
  proof (induction n arbitrary: cs)
    case 0
    then show ?case by (cases cs) auto
  next
    case (Suc n)
    then show ?case
      by (cases cs) (auto simp: ebind_eq_Inl extract_message_def extract_length_def
          extract_packet_type_def extract_payload_def Let_def split: if_splits list.splits)
  qed
  moreover have "e \<noteq> Out_of_fuel" using extractor_run_fuel[of "[]" bs] Inl by (auto simp: extractor_run_def)
  ultimately show ?thesis using Inl by (auto simp: extractor_run_def)
qed

lemma extractor_exact_example:
  "extractor_run [] [2, 0, 0, 0, 13, 7, 1, 0, 0, 0, 14] = Inr [(13, [7]), (14, [])] \<and>
   extractor_run [] [9, 0, 0, 0, 13, 7] = Inl (Read_past_end 1) \<and>
   (case extractor_run [] [9, 0, 0, 0, 13, 7] of
     Inr ms \<Rightarrow> concat (map frame ms) = [9, 0, 0, 0, 13, 7]
   | Inl e \<Rightarrow> (\<exists>k. e = Read_past_end k))"
proof (intro conjI)
  show "extractor_run [] [2, 0, 0, 0, 13, 7, 1, 0, 0, 0, 14] = Inr [(13, [7]), (14, [])]"
    by (simp add: extractor_run_def extract_message_def extract_length_def extract_packet_type_def
      extract_payload_def uint_sub_def Let_def)
  show "extractor_run [] [9, 0, 0, 0, 13, 7] = Inl (Read_past_end 1)"
    by (simp add: extractor_run_def extract_message_def extract_length_def extract_packet_type_def
      extract_payload_def uint_sub_def Let_def)
  show "case extractor_run [] [9, 0, 0, 0, 13, 7] of
     Inr ms \<Rightarrow> concat (map frame ms) = [9, 0, 0, 0, 13, 7]
   | Inl e \<Rightarrow> (\<exists>k. e = Read_past_end k)"
    by (rule extractor_exact) simp
qed

text \<open>
  What the driver relies on of a compression library: what one end compresses the other end's
  decompressor gives back, whatever the advertised fields of the message.
\<close>

definition undoes :: "'z compressor \<Rightarrow> 'z \<Rightarrow> 'z \<Rightarrow> bool" where
  "undoes lib zc zd \<longleftrightarrow> (\<forall>u msg. cm_payload msg = snd (compress lib zc u) \<longrightarrow>
     snd (decompress lib zd msg) = u)"



end
