(* ===== verification/Any_Conv.thy ===== *)
theory Any_Conv
  imports Zvalue
begin

text \<open>
  Conversion between PHP values and the protobuf datatypes \<^verbatim>\<open>Any\<close> and \<^verbatim>\<open>Scalar\<close>, after
  \<^verbatim>\<open>src/xmysqlnd/xmysqlnd_zval2any.cc\<close> (64-bit \<^verbatim>\<open>zend_long\<close>).  Doubles are their 64 bits; the
  widening of a float (\<^verbatim>\<open>mysql_float_to_double\<close> of the PHP core) is a parameter.
\<close>

datatype scalar =
    V_SINT "64 word"
  | V_UINT "64 word"
  | V_NULL
  | V_OCTETS string
  | V_DOUBLE "64 word"
  | V_FLOAT "32 word"
  | V_BOOL bool
  | V_STRING string

datatype any =
    Any_scalar scalar
  | Any_object "(string \<times> any) list"
  | Any_array "any list"

section \<open>From PHP to the wire\<close>

fun zval2any :: "zvalue \<Rightarrow> any" where
  "zval2any Undefined = Any_scalar V_NULL"
| "zval2any Null = Any_scalar V_NULL"
| "zval2any (Bool b) = Any_scalar (V_BOOL b)"
| "zval2any (Long w) = Any_scalar (V_SINT w)"
| "zval2any (Double d) = Any_scalar (V_DOUBLE d)"
| "zval2any (String s) = Any_scalar (V_STRING s)"
| "zval2any (Array es) = Any_array (map (\<lambda>(k, v). zval2any v) es)"
| "zval2any (Object ps) = Any_object (map (\<lambda>(k, v). (k, zval2any v)) ps)"

section \<open>From the wire to PHP\<close>

definition scalar2zval :: "(32 word \<Rightarrow> 64 word) \<Rightarrow> scalar \<Rightarrow> zvalue" where
  "scalar2zval widen s = (case s of
     V_SINT w \<Rightarrow> Long w
   | V_UINT w \<Rightarrow> Long w
   | V_NULL \<Rightarrow> Null
   | V_OCTETS t \<Rightarrow> String t
   | V_DOUBLE d \<Rightarrow> Double d
   | V_FLOAT f \<Rightarrow> Double (widen f)
   | V_BOOL b \<Rightarrow> Bool b
   | V_STRING t \<Rightarrow> String t)"

text \<open>\<open>push_back\<close> numbers the elements from 0; \<open>set_property\<close> overwrites a property in place.\<close>

fun set_property :: "string \<Rightarrow> zvalue \<Rightarrow> (string \<times> zvalue) list \<Rightarrow> (string \<times> zvalue) list" where
  "set_property k v [] = [(k, v)]"
| "set_property k v ((k', v') # ps) =
     (if k = k' then (k, v) # ps else (k', v') # set_property k v ps)"

definition push_back :: "zvalue \<Rightarrow> (zkey \<times> zvalue) list \<Rightarrow> (zkey \<times> zvalue) list" where
  "push_back v es = es @ [(Key_index (int (length es)), v)]"

fun any2zval :: "(32 word \<Rightarrow> 64 word) \<Rightarrow> any \<Rightarrow> zvalue" where
  "any2zval widen (Any_scalar s) = scalar2zval widen s"
| "any2zval widen (Any_object fs) =
     Object (fold (\<lambda>(k, v). set_property k v) (map (\<lambda>(k, a). (k, any2zval widen a)) fs) [])"
| "any2zval widen (Any_array as) = Array (fold push_back (map (any2zval widen) as) [])"

section \<open>Round trip\<close>

text \<open>
  The values the wire format can carry: lists (arrays keyed 0, 1, 2, \<dots>) and objects with one
  value per name.
\<close>

fun wire_value :: "zvalue \<Rightarrow> bool" where
  "wire_value Undefined \<longleftrightarrow> False"
| "wire_value (Array es) \<longleftrightarrow>
     map fst es = map (\<lambda>i. Key_index (int i)) [0..<length es] \<and> (\<forall>(k, v)\<in>set es. wire_value v)"
| "wire_value (Object ps) \<longleftrightarrow> distinct (map fst ps) \<and> (\<forall>(k, v)\<in>set ps. wire_value v)"
| "wire_value z \<longleftrightarrow> True"

lemma set_property_new: "k \<notin> set (map fst ps) \<Longrightarrow> set_property k v ps = ps @ [(k, v)]"
  by (induction ps) auto

lemma fold_set_property:
  "distinct (map fst qs) \<Longrightarrow> set (map fst ps) \<inter> set (map fst qs) = {} \<Longrightarrow>
   fold (\<lambda>(k, v). set_property k v) qs ps = ps @ qs"
proof (induction qs arbitrary: ps)
  case (Cons q qs)
  obtain k v where q: "q = (k, v)" by (cases q)
  have "set_property k v ps = ps @ [(k, v)]" using Cons.prems q by (intro set_property_new) auto
  then show ?case using Cons q by simp
qed simp

lemma fold_push_back:
  "fold push_back vs es =
     es @ map (\<lambda>i. (Key_index (int (length es + i)), vs ! i)) [0..<length vs]"
proof (induction vs arbitrary: es)
  case (Cons v vs)
  have "map (\<lambda>i. (Key_index (int (length es + i)), (v # vs) ! i)) [0..<length (v # vs)] =
      (Key_index (int (length es)), v) #
      map (\<lambda>i. (Key_index (int (length es + Suc i)), vs ! i)) [0..<length vs]"
    by (simp only: list.size map_upt_Suc add_0_right add_Suc_right) simp
  then show ?case
    using Cons.IH[of "push_back v es"] by (simp only: fold_Cons comp_apply)
      (simp add: push_back_def)
qed simp

lemma list_array:
  assumes "map fst es = map (\<lambda>i. Key_index (int i)) [0..<length es]"
  shows "map (\<lambda>i. (Key_index (int i), map snd es ! i)) [0..<length es] = es"
proof (rule nth_equalityI)
  fix i assume "i < length (map (\<lambda>i. (Key_index (int i), map snd es ! i)) [0..<length es])"
  then have i: "i < length es" by simp
  then have "fst (es ! i) = Key_index (int i)" using arg_cong[OF assms, of "\<lambda>l. l ! i"] by simp
  with i show "map (\<lambda>i. (Key_index (int i), map snd es ! i)) [0..<length es] ! i = es ! i"
    by (simp add: prod_eq_iff)
qed simp



text \<open>
  An array arrives as a list.  Whatever its keys, an array comes back with its values in
  order under the keys 0, 1, 2, \<dots>: string keys are not sent.
\<close>

lemma array_keys_dropped:
  "any2zval widen (zval2any (Array es)) =
     Array (map (\<lambda>i. (Key_index (int i), any2zval widen (zval2any (snd (es ! i))))) [0..<length es])"
proof -
  have "map (any2zval widen) (map (\<lambda>(k, v). zval2any v) es) =
      map (\<lambda>e. any2zval widen (zval2any (snd e))) es"
    by (simp add: comp_def case_prod_beta)
  then show ?thesis by (simp add: fold_push_back)
qed

text \<open>
  An unsigned scalar of \<open>2\<^sup>63\<close> or more turns negative.  \<open>scalar2zval\<close> stores the 64 bits in a
  PHP integer, which is signed; the row decoder, by contrast, returns such values as strings.
\<close>

lemma large_unsigned_scalar_negative:
  assumes "2 ^ 63 \<le> n" "n < (2 :: nat) ^ 64"
  shows "\<exists>w. scalar2zval widen (V_UINT (word_of_nat n)) = Long w \<and> sint w = int n - 2 ^ 64"
proof -
  have "int n div 2 ^ 63 = 1"
    by (rule int_div_pos_eq[where r = "int n - 2 ^ 63"]) (use assms in simp_all)
  then have "bit (int n) 63" by (simp only: bit_iff_odd odd_one not_False_eq_True)
  moreover have "take_bit 64 (int n) = int n" using assms by (simp add: take_bit_int_eq_self)
  ultimately have "signed_take_bit 63 (int n) = int n - 2 ^ 64"
    by (simp only: signed_take_bit_eq_take_bit_minus Suc_numeral) simp
  then show ?thesis by (simp add: scalar2zval_def signed_of_nat)
qed

lemma large_unsigned_scalar_negative_example:
  "\<exists>w. scalar2zval (\<lambda>f. 0) (V_UINT (word_of_nat 18446744073709551615)) = Long w \<and> sint w = -1"
  using large_unsigned_scalar_negative[of 18446744073709551615 "\<lambda>f. 0"] by simp

end
