(* ===== verification/Decimal.thy ===== *)
theory Decimal
  imports Zvalue
begin

text \<open>
  Numbers as text: the decimal digits of an unsigned value as a C++ stream prints them, the
  \<^verbatim>\<open>%0<w>u\<close> padding of the formatter, the reading of digits back (\<^verbatim>\<open>std::stoull\<close>), and the
  serialisation of PHP values (\<^verbatim>\<open>src/util/value.cc\<close>, class \<^verbatim>\<open>Serializer\<close>).
\<close>

definition digit :: "nat \<Rightarrow> char" where
  "digit d = char_of (48 + d)"

definition digit_value :: "char \<Rightarrow> nat" where
  "digit_value c = code c - 48"

fun dec_string :: "nat \<Rightarrow> string" where
  "dec_string n = (if n < 10 then [digit n] else dec_string (n div 10) @ [digit (n mod 10)])"

declare dec_string.simps [simp del]

definition dec_value :: "string \<Rightarrow> nat" where
  "dec_value cs = foldl (\<lambda>v c. 10 * v + digit_value c) 0 cs"

definition dec_int :: "int \<Rightarrow> string" where
  "dec_int i = (if i < 0 then CHR ''-'' # dec_string (nat (- i)) else dec_string (nat i))"

definition pad0 :: "nat \<Rightarrow> nat \<Rightarrow> string" where
  "pad0 w n = replicate (w - length (dec_string n)) CHR ''0'' @ dec_string n"

lemma code_digit: "d < 10 \<Longrightarrow> code (digit d) = 48 + d"
  by (simp add: digit_def)

lemma digit_value_digit [simp]: "d < 10 \<Longrightarrow> digit_value (digit d) = d"
  by (simp add: digit_value_def code_digit)

lemma c_isdigit_digit [simp]: "d < 10 \<Longrightarrow> c_isdigit (digit d)"
  by (simp add: c_isdigit_def code_digit)

lemma dec_value_snoc: "dec_value (cs @ [c]) = 10 * dec_value cs + digit_value c"
  by (simp add: dec_value_def)

lemma dec_value_string [simp]: "dec_value (dec_string n) = n"
proof (induction n rule: dec_string.induct)
  case (1 n)
  show ?case
  proof (cases "n < 10")
    case True
    then show ?thesis by (simp add: dec_string.simps[of n] dec_value_def)
  next
    case False
    then show ?thesis using 1 by (simp add: dec_string.simps[of n] dec_value_snoc)
  qed
qed

lemma dec_string_digits: "c \<in> set (dec_string n) \<Longrightarrow> c_isdigit c"
proof (induction n rule: dec_string.induct)
  case (1 n)
  then show ?case by (cases "n < 10") (auto simp: dec_string.simps[of n])
qed

lemma dec_string_nonempty [simp]: "dec_string n \<noteq> []"
  by (subst dec_string.simps) simp

lemma dec_value_zeros: "dec_value (replicate k CHR ''0'' @ cs) = dec_value cs"
proof -
  have "foldl (\<lambda>v c. 10 * v + digit_value c) 0 (replicate k CHR ''0'') = 0"
    by (induction k) (simp_all add: digit_value_def)
  then show ?thesis by (simp add: dec_value_def)
qed

lemma dec_value_pad0 [simp]: "dec_value (pad0 w n) = n"
  by (simp add: pad0_def dec_value_zeros)

lemma pad0_digits: "c \<in> set (pad0 w n) \<Longrightarrow> c_isdigit c"
  by (auto simp: pad0_def c_isdigit_def dest: dec_string_digits)

lemma length_dec_string_le: "n < 10 ^ w \<Longrightarrow> 0 < w \<Longrightarrow> length (dec_string n) \<le> w"
proof (induction n arbitrary: w rule: dec_string.induct)
  case (1 n)
  show ?case
  proof (cases "n < 10")
    case True
    then show ?thesis using 1 by (simp add: dec_string.simps[of n])
  next
    case False
    then obtain w' where w: "w = Suc w'" "0 < w'" using 1(2) by (cases w; cases "w - 1") auto
    have "n div 10 < 10 ^ w'" using 1(2) w by (simp add: less_mult_imp_div_less)
    then show ?thesis using 1(1)[OF False] w False by (simp add: dec_string.simps[of n])
  qed
qed

lemma length_pad0: "n < 10 ^ w \<Longrightarrow> 0 < w \<Longrightarrow> length (pad0 w n) = w"
  using length_dec_string_le[of n w] by (simp add: pad0_def)

section \<open>Reading digits\<close>

text \<open>
  \<^verbatim>\<open>std::stoull (s)\<close>, base 10: white space, an optional sign, digits.  No digits throw, a value
  beyond 64 bits throws, a minus sign negates modulo \<open>2\<^sup>64\<close>.  \<open>None\<close> is either exception.
\<close>

definition stoull :: "string \<Rightarrow> 64 word option" where
  "stoull s =
     (let t = dropWhile c_isspace s;
          neg = (t \<noteq> [] \<and> hd t = CHR ''-'');
          u = (if t \<noteq> [] \<and> (hd t = CHR ''-'' \<or> hd t = CHR ''+'') then tl t else t);
          ds = takeWhile c_isdigit u; v = dec_value ds
      in if ds = [] \<or> 2 ^ 64 \<le> v then None
         else Some (if neg then - word_of_nat v else word_of_nat v))"

lemma stoull_dec_string:
  assumes "n < 2 ^ 64"
  shows "stoull (dec_string n) = Some (word_of_nat n)"
proof -
  obtain c cs where ds: "dec_string n = c # cs" by (cases "dec_string n") auto
  then have "c_isdigit c" using dec_string_digits[of c n] by simp
  then have c: "\<not> c_isspace c" "c \<noteq> CHR ''-''" "c \<noteq> CHR ''+''"
    by (auto simp: c_isdigit_def c_isspace_def)
  have "dropWhile c_isspace (dec_string n) = dec_string n" using ds c by simp
  moreover have "takeWhile c_isdigit (dec_string n) = dec_string n"
    using dec_string_digits by (auto simp: takeWhile_eq_all_conv)
  ultimately show ?thesis using assms c ds dec_value_string[of n] by (simp add: stoull_def Let_def)
qed

section \<open>Serialisation of values\<close>

text \<open>
  The text of a double is what \<^verbatim>\<open>operator<<\<close> prints for it and stays a parameter.
\<close>

definition quote_if :: "bool \<Rightarrow> string \<Rightarrow> string" where
  "quote_if decorate s = (if decorate then CHR 0x27 # s @ [CHR 0x27] else s)"

definition join_fields :: "string list \<Rightarrow> string" where
  "join_fields fs = concat (case fs of [] \<Rightarrow> [] | f # fs' \<Rightarrow> f # map (\<lambda>g. '', '' @ g) fs')"

definition store_key :: "bool \<Rightarrow> zkey \<Rightarrow> string" where
  "store_key decorate k = (case k of Key_index i \<Rightarrow> dec_int i | Key_name s \<Rightarrow> quote_if decorate s)"

fun store :: "(64 word \<Rightarrow> string) \<Rightarrow> bool \<Rightarrow> zvalue \<Rightarrow> string" where
  "store dbl decorate Undefined = ''undefined''"
| "store dbl decorate Null = ''null''"
| "store dbl decorate (Bool b) = (if b then ''true'' else ''false'')"
| "store dbl decorate (Long w) = dec_int (sint w)"
| "store dbl decorate (Double d) = dbl d"
| "store dbl decorate (String s) = quote_if decorate s"
| "store dbl decorate (Array es) =
     ''['' @ join_fields (map (\<lambda>(k, v). store_key decorate k @ '': '' @ store dbl decorate v) es) @ '']''"
| "store dbl decorate (Object ps) =
     ''{'' @ join_fields (map (\<lambda>(k, v). quote_if decorate k @ '': '' @ store dbl decorate v) ps) @ ''}''"

end
