(* ===== verification/Messages.thy ===== *)
theory Messages
  imports Compression Any_Conv Decimal
begin

text \<open>
  The message layer of \<^verbatim>\<open>src/xmysqlnd/xmysqlnd_wireprotocol.cc\<close>: sending a message, the dispatch
  of a received message to the handler of its type, and the loop that receives messages until a
  handler has had enough.  The protobuf library is a parameter: \<open>pb\<close> holds the parsers of the
  message types (\<^verbatim>\<open>ParseFromArray\<close>) and the serialiser of the compression message, on payloads
  below \<open>2\<^sup>31\<close> bytes.  A handler gets the parsed message and the state: the caller's context
  and the message context, whose fields are the stream, the compression executor and the last
  client error.
\<close>

section \<open>Message types\<close>

datatype hnd_status =
    HND_PASS | HND_FAIL | HND_PASS_RETURN_FAIL | HND_AGAIN | HND_AGAIN_ASYNC | HND_DEFAULT_ACTION

definition XMSG_OK :: byte where "XMSG_OK = 0"
definition XMSG_ERROR :: byte where "XMSG_ERROR = 1"
definition XMSG_CAPABILITIES :: byte where "XMSG_CAPABILITIES = 2"
definition XMSG_AUTH_CONTINUE :: byte where "XMSG_AUTH_CONTINUE = 3"
definition XMSG_AUTH_OK :: byte where "XMSG_AUTH_OK = 4"
definition XMSG_NOTICE :: byte where "XMSG_NOTICE = 11"
definition XMSG_COLUMN_METADATA :: byte where "XMSG_COLUMN_METADATA = 12"
definition XMSG_RSET_ROW :: byte where "XMSG_RSET_ROW = 13"
definition XMSG_RSET_FETCH_DONE :: byte where "XMSG_RSET_FETCH_DONE = 14"
definition XMGS_RSET_FETCH_SUSPENDED :: byte where "XMGS_RSET_FETCH_SUSPENDED = 15"
definition XMSG_RSET_FETCH_DONE_MORE_RSETS :: byte where "XMSG_RSET_FETCH_DONE_MORE_RSETS = 16"
definition XMSG_STMT_EXECUTE_OK :: byte where "XMSG_STMT_EXECUTE_OK = 17"
definition XMSG_RSET_FETCH_DONE_MORE_OUT :: byte where "XMSG_RSET_FETCH_DONE_MORE_OUT = 18"
definition XMSG_COMPRESSION :: byte where "XMSG_COMPRESSION = 19"
definition COM_COMPRESSION :: byte where "COM_COMPRESSION = 46"

named_theorems xmsg_defs

lemmas xmsg_values [xmsg_defs] = XMSG_OK_def XMSG_ERROR_def XMSG_CAPABILITIES_def
  XMSG_AUTH_CONTINUE_def XMSG_AUTH_OK_def XMSG_NOTICE_def XMSG_COLUMN_METADATA_def
  XMSG_RSET_ROW_def XMSG_RSET_FETCH_DONE_def XMGS_RSET_FETCH_SUSPENDED_def
  XMSG_RSET_FETCH_DONE_MORE_RSETS_def XMSG_STMT_EXECUTE_OK_def XMSG_RSET_FETCH_DONE_MORE_OUT_def
  XMSG_COMPRESSION_def

definition server_message_type_is_valid :: "byte \<Rightarrow> bool" where
  "server_message_type_is_valid ty \<longleftrightarrow>
     ty \<in> {XMSG_OK, XMSG_ERROR, XMSG_CAPABILITIES, XMSG_AUTH_CONTINUE, XMSG_AUTH_OK, XMSG_NOTICE,
       XMSG_COLUMN_METADATA, XMSG_RSET_ROW, XMSG_RSET_FETCH_DONE, XMGS_RSET_FETCH_SUSPENDED,
       XMSG_RSET_FETCH_DONE_MORE_RSETS, XMSG_STMT_EXECUTE_OK, XMSG_RSET_FETCH_DONE_MORE_OUT,
       XMSG_COMPRESSION}"

section \<open>Parsed messages\<close>

record pb_error =
  err_code :: "nat option"
  err_sql_state :: "string option"
  err_msg :: "string option"

record pb_notice =
  nf_type :: "nat option"
  nf_scope :: "nat option"
  nf_payload :: "bytes option"

record pb_column =
  col_type :: "nat option"
  col_name :: "string option"
  col_original_name :: "string option"
  col_table :: "string option"
  col_original_table :: "string option"
  col_schema :: "string option"
  col_catalog :: "string option"
  col_collation :: "nat option"
  col_fractional_digits :: "nat option"
  col_length :: "nat option"
  col_flags :: "nat option"
  col_content_type :: "nat option"

record pb_warning =
  wn_level :: "nat option"
  wn_code :: "nat option"
  wn_msg :: "string option"

record pb_variable =
  vr_param :: "string option"
  vr_value :: "scalar option"

record pb_state_changed =
  sc_param :: "nat option"
  sc_value :: "scalar list"

record pb =
  parse_error :: "bytes \<Rightarrow> pb_error"
  parse_capabilities :: "bytes \<Rightarrow> (string \<times> any) list"
  parse_auth_continue :: "bytes \<Rightarrow> bytes"
  parse_notice :: "bytes \<Rightarrow> pb_notice"
  parse_warning :: "bytes \<Rightarrow> pb_warning"
  parse_variable :: "bytes \<Rightarrow> pb_variable"
  parse_state_changed :: "bytes \<Rightarrow> pb_state_changed"
  parse_column :: "bytes \<Rightarrow> pb_column"
  parse_row :: "bytes \<Rightarrow> bytes list"
  parse_compression :: "bytes \<Rightarrow> compression_msg"
  serialize_compression :: "compression_msg \<Rightarrow> bytes"

section \<open>The message context and the handlers\<close>

type_synonym messages = "(byte \<times> bytes) list"

record ('v, 'z) msg_ctx =
  mc_vio :: 'v
  mc_executor :: "'z option"
  mc_error :: "string option"

type_synonym 's handling = "'s \<Rightarrow> (xdevapi_error + hnd_status) \<times> 's"

type_synonym ('v, 'z, 'c) hstate = "'c \<times> ('v, 'z) msg_ctx"

record 's handlers =
  on_OK :: "'s handling option"
  on_ERROR :: "(pb_error \<Rightarrow> 's handling) option"
  on_CAPABILITIES :: "((string \<times> any) list \<Rightarrow> 's handling) option"
  on_AUTHENTICATE_CONTINUE :: "(bytes \<Rightarrow> 's handling) option"
  on_AUTHENTICATE_OK :: "'s handling option"
  on_NOTICE :: "(pb_notice \<Rightarrow> 's handling) option"
  on_COLUMN_META :: "(pb_column \<Rightarrow> 's handling) option"
  on_RSET_ROW :: "(bytes list \<Rightarrow> 's handling) option"
  on_RSET_FETCH_DONE :: "'s handling option"
  on_RSET_FETCH_SUSPENDED :: "'s handling option"
  on_RSET_FETCH_DONE_MORE_RSETS :: "'s handling option"
  on_STMT_EXECUTE_OK :: "'s handling option"
  on_RSET_FETCH_DONE_MORE_OUT_PARAMS :: "'s handling option"
  on_COMPRESSED :: "(compression_msg \<Rightarrow> ('s \<times> messages) handling) option"
  on_UNEXPECTED :: "(byte \<Rightarrow> bytes \<Rightarrow> 's handling) option"
  on_UNKNOWN :: "(byte \<Rightarrow> bytes \<Rightarrow> 's handling) option"

definition no_handlers :: "'s handlers" where
  "no_handlers = \<lparr>on_OK = None, on_ERROR = None, on_CAPABILITIES = None,
     on_AUTHENTICATE_CONTINUE = None, on_AUTHENTICATE_OK = None, on_NOTICE = None,
     on_COLUMN_META = None, on_RSET_ROW = None, on_RSET_FETCH_DONE = None,
     on_RSET_FETCH_SUSPENDED = None, on_RSET_FETCH_DONE_MORE_RSETS = None,
     on_STMT_EXECUTE_OK = None, on_RSET_FETCH_DONE_MORE_OUT_PARAMS = None, on_COMPRESSED = None,
     on_UNEXPECTED = None, on_UNKNOWN = None\<rparr>"

definition set_client_error :: "string \<Rightarrow> ('v, 'z, 'c) hstate \<Rightarrow> ('v, 'z, 'c) hstate" where
  "set_client_error msg s = (fst s, (snd s)\<lparr>mc_error := Some msg\<rparr>)"

section \<open>Dispatch\<close>

text \<open>A handler that leaves the list of decompressed messages alone.\<close>

definition keeping :: "'s handling \<Rightarrow> ('s \<times> messages) handling" where
  "keeping h sm = (case h (fst sm) of (r, s') \<Rightarrow> (r, (s', snd sm)))"

text \<open>
  The switch over the message type: \<open>None\<close> is the \<^verbatim>\<open>default\<close> branch, \<open>Some None\<close> a type for
  which the handler set has no function.
\<close>

definition handler_of ::
  "pb \<Rightarrow> 's handlers \<Rightarrow> byte \<Rightarrow> bytes \<Rightarrow> ('s \<times> messages) handling option option" where
  "handler_of P H ty payload =
     (if ty = XMSG_OK then Some (map_option keeping (on_OK H))
      else if ty = XMSG_ERROR then Some (map_option (\<lambda>h. keeping (h (parse_error P payload))) (on_ERROR H))
      else if ty = XMSG_CAPABILITIES then
        Some (map_option (\<lambda>h. keeping (h (parse_capabilities P payload))) (on_CAPABILITIES H))
      else if ty = XMSG_AUTH_CONTINUE then
        Some (map_option (\<lambda>h. keeping (h (parse_auth_continue P payload))) (on_AUTHENTICATE_CONTINUE H))
      else if ty = XMSG_AUTH_OK then Some (map_option keeping (on_AUTHENTICATE_OK H))
      else if ty = XMSG_NOTICE then Some (map_option (\<lambda>h. keeping (h (parse_notice P payload))) (on_NOTICE H))
      else if ty = XMSG_COLUMN_METADATA then
        Some (map_option (\<lambda>h. keeping (h (parse_column P payload))) (on_COLUMN_META H))
      else if ty = XMSG_RSET_ROW then Some (map_option (\<lambda>h. keeping (h (parse_row P payload))) (on_RSET_ROW H))
      else if ty = XMSG_RSET_FETCH_DONE then Some (map_option keeping (on_RSET_FETCH_DONE H))
      else if ty = XMGS_RSET_FETCH_SUSPENDED then Some (map_option keeping (on_RSET_FETCH_SUSPENDED H))
      else if ty = XMSG_RSET_FETCH_DONE_MORE_RSETS then
        Some (map_option keeping (on_RSET_FETCH_DONE_MORE_RSETS H))
      else if ty = XMSG_STMT_EXECUTE_OK then Some (map_option keeping (on_STMT_EXECUTE_OK H))
      else if ty = XMSG_RSET_FETCH_DONE_MORE_OUT then
        Some (map_option keeping (on_RSET_FETCH_DONE_MORE_OUT_PARAMS H))
      else if ty = XMSG_COMPRESSION then
        Some (map_option (\<lambda>h. h (parse_compression P payload)) (on_COMPRESSED H))
      else None)"

definition process_received_message ::
  "pb \<Rightarrow> ('v, 'z, 'c) hstate handlers \<Rightarrow> byte \<times> bytes \<Rightarrow> (('v, 'z, 'c) hstate \<times> messages) handling" where
  "process_received_message P H msg sm =
     (let ty = fst msg; payload = snd msg in
      if \<not> server_message_type_is_valid ty
      then (Inr HND_FAIL, (set_client_error ''The server sent invalid packet type'' (fst sm), snd sm))
      else case handler_of P H ty payload of
        Some (Some h) \<Rightarrow> h sm
      | Some None \<Rightarrow>
          (case on_UNEXPECTED H of
             None \<Rightarrow> (Inr HND_PASS, sm)
           | Some h \<Rightarrow> keeping (h ty payload) sm)
      | None \<Rightarrow>
          (case (case on_UNKNOWN H of None \<Rightarrow> (Inr HND_PASS, sm) | Some h \<Rightarrow> keeping (h ty payload) sm) of
             (Inl e, sm') \<Rightarrow> (Inl e, sm')
           | (Inr r, sm') \<Rightarrow> (Inr r, (set_client_error ''Unknown type'' (fst sm'), snd sm'))))"

section \<open>Receiving\<close>

definition SIZE_OF_STACK_BUFFER :: nat where "SIZE_OF_STACK_BUFFER = 1024"

definition receive_frame ::
  "'v vio \<Rightarrow> ('v, 'z, 'c) hstate \<Rightarrow> (byte \<times> bytes) option \<times> ('v, 'z, 'c) hstate" where
  "receive_frame io s =
     (let r = pfc_receive io (Some SIZE_OF_STACK_BUFFER) (mc_vio (snd s));
          s' = (fst s, (snd s)\<lparr>mc_vio := rr_vio r\<rparr>)
      in case (rr_status r, rr_packet r) of
           (PASS, Some (ty, payload, _)) \<Rightarrow> (Some (ty, payload), s')
         | _ \<Rightarrow> (None, s'))"

text \<open>
  The inner loop over decompressed messages: every message is processed, the status of the
  last one counts, and messages that a nested compressed message would add are dropped.
\<close>

fun process_batch ::
  "('s \<times> messages \<Rightarrow> (xdevapi_error + hnd_status) \<times> ('s \<times> messages)) list \<Rightarrow> hnd_status \<Rightarrow> 's handling" where
  "process_batch [] r s = (Inr r, s)"
| "process_batch (h # hs) r s =
     (case h (s, []) of
        (Inl e, (s', _)) \<Rightarrow> (Inl e, s')
      | (Inr r', (s', _)) \<Rightarrow> process_batch hs r' s')"

definition final_status :: "hnd_status \<Rightarrow> func_status" where
  "final_status r = (if r = HND_PASS \<or> r = HND_AGAIN_ASYNC then PASS else FAIL)"

definition receive_round ::
  "'v vio \<Rightarrow> pb \<Rightarrow> ('v, 'z, 'c) hstate handlers \<Rightarrow>
   ('v, 'z, 'c) hstate \<times> messages \<Rightarrow> (xdevapi_error + hnd_status option) \<times> (('v, 'z, 'c) hstate \<times> messages)" where
  "receive_round io P H sm =
     (if snd sm = [] then
        case receive_frame io (fst sm) of
          (None, s') \<Rightarrow> (Inr None, (s', []))
        | (Some msg, s') \<Rightarrow>
            (case process_received_message P H msg (s', []) of
               (Inl e, sm') \<Rightarrow> (Inl e, sm')
             | (Inr r, sm') \<Rightarrow> (Inr (Some r), sm'))
      else
        case process_batch (map (process_received_message P H) (snd sm)) HND_AGAIN (fst sm) of
          (Inl e, s') \<Rightarrow> (Inl e, (s', []))
        | (Inr r, s') \<Rightarrow> (Inr (Some r), (s', [])))"

fun receive_loop ::
  "nat \<Rightarrow> 'v vio \<Rightarrow> pb \<Rightarrow> ('v, 'z, 'c) hstate handlers \<Rightarrow> ('v, 'z, 'c) hstate \<times> messages \<Rightarrow>
   ((xdevapi_error + func_status) \<times> ('v, 'z, 'c) hstate) option" where
  "receive_loop 0 io P H sm = None"
| "receive_loop (Suc fuel) io P H sm =
     (case receive_round io P H sm of
        (Inl e, (s', _)) \<Rightarrow> Some (Inl e, s')
      | (Inr None, (s', _)) \<Rightarrow> Some (Inr FAIL, s')
      | (Inr (Some r), sm') \<Rightarrow>
          if r = HND_AGAIN then receive_loop fuel io P H sm'
          else Some (Inr (final_status r), fst sm'))"

definition receive_message ::
  "nat \<Rightarrow> 'v vio \<Rightarrow> pb \<Rightarrow> ('v, 'z, 'c) hstate handlers \<Rightarrow> ('v, 'z, 'c) hstate \<Rightarrow>
   ((xdevapi_error + func_status) \<times> ('v, 'z, 'c) hstate) option" where
  "receive_message fuel io P H s = receive_loop fuel io P H (s, [])"

section \<open>Sending\<close>

definition prepare_compression_message_payload :: "pb \<Rightarrow> byte \<Rightarrow> nat \<times> bytes \<Rightarrow> bytes" where
  "prepare_compression_message_payload P ty res =
     serialize_compression P \<lparr>cm_uncompressed_size = fst res, cm_client_messages = unat ty,
       cm_payload = snd res\<rparr>"

text \<open>
  \<open>payload\<close> is the serialised message.  The fuel handed to the frame codec is one more than the
  payload's length, which is enough for every packet limit of at least 2.
\<close>

definition send_frames ::
  "'v vio \<Rightarrow> nat \<Rightarrow> nat \<Rightarrow> byte \<Rightarrow> bytes \<Rightarrow> ('v, 'z) msg_ctx \<Rightarrow> (func_status \<times> ('v, 'z) msg_ctx) option" where
  "send_frames io mps addr ty p ctx =
     map_option (\<lambda>r. (sr_status r, ctx\<lparr>mc_vio := sr_vio r\<rparr>))
       (pfc_send (Suc (length p)) io mps ty (Some p) (length p) addr (mc_vio ctx))"

definition send_message ::
  "'v vio \<Rightarrow> 'z compressor \<Rightarrow> pb \<Rightarrow> nat \<Rightarrow> nat \<Rightarrow> byte \<Rightarrow> bytes \<Rightarrow> ('v, 'z) msg_ctx \<Rightarrow>
   (func_status \<times> ('v, 'z) msg_ctx) option" where
  "send_message io lib P mps addr ty payload ctx =
     (case mc_executor ctx of
        None \<Rightarrow> send_frames io mps addr ty payload ctx
      | Some z \<Rightarrow>
          if length payload < Client_compression_threshold
          then send_frames io mps addr ty payload ctx
          else
            let (z', res) = compress_message lib z ty (length payload) payload
            in send_frames io mps addr COM_COMPRESSION (prepare_compression_message_payload P ty res)
                 (ctx\<lparr>mc_executor := Some z'\<rparr>))"

end
