(* ===== verification/Handlers.thy ===== *)
theory Handlers
  imports Messages
begin

text \<open>
  The handler sets of \<^verbatim>\<open>src/xmysqlnd/xmysqlnd_wireprotocol.cc\<close>: the inspection of notices, the
  shared error handler, and one \<open>handlers\<close> value per static table of the source.  The
  callbacks the caller binds (\<^verbatim>\<open>st_xmysqlnd_on_..._bind\<close>) are the fields of \<open>binds\<close>: functions on
  the caller's state \<open>'a\<close>, absent where the source stores a null handler.
\<close>

section \<open>Bound callbacks\<close>

record 'a binds =
  bd_error :: "(nat \<Rightarrow> string \<Rightarrow> string \<Rightarrow> 'a handling) option"
  bd_warning :: "(nat \<Rightarrow> nat \<Rightarrow> string \<Rightarrow> 'a handling) option"
  bd_session_var_change :: "(string \<Rightarrow> zvalue \<Rightarrow> 'a handling) option"
  bd_execution_state_change :: "(nat \<Rightarrow> 64 word \<Rightarrow> 'a handling) option"
  bd_trx_state_change :: "(nat \<Rightarrow> 'a handling) option"
  bd_generated_doc_ids :: "(string \<Rightarrow> 'a handling) option"
  bd_client_id :: "(64 word \<Rightarrow> 'a \<Rightarrow> (xdevapi_error + func_status) \<times> 'a) option"
  bd_auth_continue :: "(bytes \<Rightarrow> 'a \<Rightarrow> (xdevapi_error + hnd_status \<times> bytes) \<times> 'a) option"
  bd_io_read_error :: "'a \<Rightarrow> (xdevapi_error + unit) \<times> 'a"
  bd_server_shutdown :: "'a \<Rightarrow> (xdevapi_error + unit) \<times> 'a"
  bd_session_was_killed :: "'a \<Rightarrow> (xdevapi_error + unit) \<times> 'a"

definition no_binds :: "'a binds" where
  "no_binds = \<lparr>bd_error = None, bd_warning = None, bd_session_var_change = None,
     bd_execution_state_change = None, bd_trx_state_change = None, bd_generated_doc_ids = None,
     bd_client_id = None, bd_auth_continue = None, bd_io_read_error = Pair (Inr ()),
     bd_server_shutdown = Pair (Inr ()), bd_session_was_killed = Pair (Inr ())\<rparr>"

text \<open>Conversions that rest on floating point: the parameters of \<open>scalar2uint\<close> and \<open>scalar2zval\<close>.\<close>

record floats =
  fl_widen :: "32 word \<Rightarrow> 64 word"
  fl_truncate :: "64 word \<Rightarrow> 64 word"
  fl_print :: "64 word \<Rightarrow> string"

definition scalar2uint :: "floats \<Rightarrow> scalar \<Rightarrow> 64 word option" where
  "scalar2uint F s = (case s of
     V_SINT w \<Rightarrow> Some w
   | V_UINT w \<Rightarrow> Some w
   | V_NULL \<Rightarrow> Some 0
   | V_OCTETS t \<Rightarrow> stoull t
   | V_DOUBLE d \<Rightarrow> Some (fl_truncate F d)
   | V_FLOAT f \<Rightarrow> Some (fl_truncate F (fl_widen F f))
   | V_BOOL b \<Rightarrow> Some (if b then 1 else 0)
   | V_STRING t \<Rightarrow> stoull t)"

definition scalar2string :: "floats \<Rightarrow> scalar \<Rightarrow> string" where
  "scalar2string F s = store (fl_print F) False (scalar2zval (fl_widen F) s)"

section \<open>Notices\<close>

definition process_server_notifications ::
  "'a binds \<Rightarrow> nat \<Rightarrow> 'a \<Rightarrow> (xdevapi_error + unit) \<times> 'a" where
  "process_server_notifications B event_code a =
     (if event_code = 1810 then bd_io_read_error B a
      else if event_code = 1053 then bd_server_shutdown B a
      else if event_code = 3169 then bd_session_was_killed B a
      else (Inr (), a))"

definition inspect_warning :: "'a binds \<Rightarrow> pb_warning \<Rightarrow> 'a handling" where
  "inspect_warning B w a = (case bd_warning B of
     None \<Rightarrow> (Inr HND_PASS, a)
   | Some h \<Rightarrow>
       (let wcode = (case wn_code w of None \<Rightarrow> 1000 | Some c \<Rightarrow> c);
            level = (case wn_level w of None \<Rightarrow> 2 | Some l \<Rightarrow> l);
            msg = (case wn_msg w of None \<Rightarrow> [] | Some m \<Rightarrow> m)
        in case process_server_notifications B wcode a of
             (Inl e, a') \<Rightarrow> (Inl e, a')
           | (Inr _, a') \<Rightarrow> h level wcode msg a'))"

definition inspect_changed_variable :: "floats \<Rightarrow> 'a binds \<Rightarrow> pb_variable \<Rightarrow> 'a handling" where
  "inspect_changed_variable F B v a = (case (vr_param v, vr_value v, bd_session_var_change B) of
     (Some name, Some s, Some h) \<Rightarrow> h name (scalar2zval (fl_widen F) s) a
   | _ \<Rightarrow> (Inr HND_AGAIN, a))"

text \<open>
  The state parameters by their numbers in \<^verbatim>\<open>mysqlx_notice.proto\<close>: 3 generated insert id, 4 rows
  affected, 5 rows found, 6 rows matched.  A value that is not a number makes \<^verbatim>\<open>std::stoull\<close>
  throw.
\<close>

definition exec_state_type :: "nat \<Rightarrow> nat option" where
  "exec_state_type p =
     (if p = 3 then Some 1 else if p = 4 then Some 2 else if p = 5 then Some 3
      else if p = 6 then Some 4 else None)"

definition inspect_changed_exec_state ::
  "floats \<Rightarrow> (nat \<Rightarrow> 64 word \<Rightarrow> 'a handling) \<Rightarrow> nat \<Rightarrow> scalar \<Rightarrow> 'a handling" where
  "inspect_changed_exec_state F h p v a = (case exec_state_type p of
     None \<Rightarrow> (Inr HND_AGAIN, a)
   | Some t \<Rightarrow> (case scalar2uint F v of None \<Rightarrow> (Inl Runtime_error, a) | Some n \<Rightarrow> h t n a))"

fun inspect_generated_doc_ids ::
  "floats \<Rightarrow> (string \<Rightarrow> 'a handling) \<Rightarrow> scalar list \<Rightarrow> hnd_status \<Rightarrow> 'a handling" where
  "inspect_generated_doc_ids F h [] r a = (Inr r, a)"
| "inspect_generated_doc_ids F h (v # vs) r a = (case h (scalar2string F v) a of
     (Inl e, a') \<Rightarrow> (Inl e, a')
   | (Inr r', a') \<Rightarrow> inspect_generated_doc_ids F h vs r' a')"

definition inspect_client_id :: "floats \<Rightarrow> 'a binds \<Rightarrow> scalar \<Rightarrow> 'a handling" where
  "inspect_client_id F B v a = (case bd_client_id B of
     None \<Rightarrow> (Inr HND_AGAIN, a)
   | Some h \<Rightarrow> (case scalar2uint F v of
       None \<Rightarrow> (Inl Runtime_error, a)
     | Some n \<Rightarrow> (case h n a of
         (Inl e, a') \<Rightarrow> (Inl e, a')
       | (Inr st, a') \<Rightarrow> (Inr (if st = PASS then HND_AGAIN else HND_FAIL), a'))))"

definition inspect_changed_state :: "floats \<Rightarrow> 'a binds \<Rightarrow> pb_state_changed \<Rightarrow> 'a handling" where
  "inspect_changed_state F B m a = (case (sc_param m, sc_value m) of
     (Some p, v # vs) \<Rightarrow>
       if p = 12 then
         (case bd_generated_doc_ids B of
            None \<Rightarrow> (Inr HND_AGAIN, a)
          | Some h \<Rightarrow> inspect_generated_doc_ids F h (v # vs) HND_AGAIN a)
       else if p = 3 \<or> p = 4 \<or> p = 5 \<or> p = 6 then
         (case bd_execution_state_change B of
            None \<Rightarrow> (Inr HND_AGAIN, a)
          | Some h \<Rightarrow> inspect_changed_exec_state F h p v a)
       else if p = 7 then
         (case bd_trx_state_change B of None \<Rightarrow> (Inr HND_AGAIN, a) | Some h \<Rightarrow> h 1 a)
       else if p = 9 then
         (case bd_trx_state_change B of None \<Rightarrow> (Inr HND_AGAIN, a) | Some h \<Rightarrow> h 2 a)
       else if p = 11 then inspect_client_id F B v a
       else (Inr HND_AGAIN, a)
   | _ \<Rightarrow> (Inr HND_AGAIN, a))"

definition inspect_notice_frame :: "floats \<Rightarrow> pb \<Rightarrow> 'a binds \<Rightarrow> pb_notice \<Rightarrow> 'a handling" where
  "inspect_notice_frame F P B f a = (case (nf_scope f, nf_type f, nf_payload f) of
     (Some sc, Some ty, Some p) \<Rightarrow>
       if sc \<noteq> 2 then (Inr HND_AGAIN, a)
       else if ty = 1 then
         (case bd_warning B of None \<Rightarrow> (Inr HND_AGAIN, a) | Some _ \<Rightarrow> inspect_warning B (parse_warning P p) a)
       else if ty = 2 then
         (case bd_session_var_change B of
            None \<Rightarrow> (Inr HND_AGAIN, a)
          | Some _ \<Rightarrow> inspect_changed_variable F B (parse_variable P p) a)
       else if ty = 3 then inspect_changed_state F B (parse_state_changed P p) a
       else (Inr HND_AGAIN, a)
   | _ \<Rightarrow> (Inr HND_AGAIN, a))"

section \<open>Errors\<close>

definition report_error :: "'a binds \<Rightarrow> pb_error \<Rightarrow> 'a handling" where
  "report_error B e a = (case bd_error B of
     None \<Rightarrow> (Inr HND_PASS_RETURN_FAIL, a)
   | Some h \<Rightarrow>
       h (case err_code e of None \<Rightarrow> 2000 | Some c \<Rightarrow> c)
         (case err_sql_state e of None \<Rightarrow> ''HY000'' | Some s \<Rightarrow> s)
         (case err_msg e of None \<Rightarrow> ''Unknown server error'' | Some m \<Rightarrow> m) a)"

text \<open>Most tables report the error and return \<open>HND_PASS_RETURN_FAIL\<close> whatever the callback says.\<close>

definition error_then_fail :: "'a binds \<Rightarrow> pb_error \<Rightarrow> 'a handling" where
  "error_then_fail B e a = (case report_error B e a of
     (Inl x, a') \<Rightarrow> (Inl x, a')
   | (Inr _, a') \<Rightarrow> (Inr HND_PASS_RETURN_FAIL, a'))"

section \<open>The handler tables\<close>

definition on_app :: "'a handling \<Rightarrow> ('v, 'z, 'a) hstate handling" where
  "on_app h s = (case h (fst s) of (r, a) \<Rightarrow> (r, (a, snd s)))"

definition returning :: "hnd_status \<Rightarrow> 's handling" where
  "returning r s = (Inr r, s)"

text \<open>Ok ends the exchange, an error fails it, notices are skipped.\<close>

definition ack_handlers :: "'a binds \<Rightarrow> ('v, 'z, 'a) hstate handlers" where
  "ack_handlers B = no_handlers\<lparr>on_OK := Some (returning HND_PASS),
     on_ERROR := Some (\<lambda>e. on_app (error_then_fail B e)),
     on_NOTICE := Some (\<lambda>n. returning HND_AGAIN)\<rparr>"

definition capabilities_set_handlers :: "'a binds \<Rightarrow> ('v, 'z, 'a) hstate handlers" where
  "capabilities_set_handlers = ack_handlers"

definition sess_reset_handlers :: "'a binds \<Rightarrow> ('v, 'z, 'a) hstate handlers" where
  "sess_reset_handlers = ack_handlers"

definition sess_close_handlers :: "'a binds \<Rightarrow> ('v, 'z, 'a) hstate handlers" where
  "sess_close_handlers = ack_handlers"

definition con_close_handlers :: "'a binds \<Rightarrow> ('v, 'z, 'a) hstate handlers" where
  "con_close_handlers = ack_handlers"

definition expectations_close_handlers :: "'a binds \<Rightarrow> ('v, 'z, 'a) hstate handlers" where
  "expectations_close_handlers = ack_handlers"

definition collection_add_handlers :: "'a binds \<Rightarrow> ('v, 'z, 'a) hstate handlers" where
  "collection_add_handlers = ack_handlers"

definition collection_ud_handlers :: "'a binds \<Rightarrow> ('v, 'z, 'a) hstate handlers" where
  "collection_ud_handlers = ack_handlers"

definition prepare_prepare_handlers :: "'a binds \<Rightarrow> ('v, 'z, 'a) hstate handlers" where
  "prepare_prepare_handlers = ack_handlers"

definition prepare_execute_handlers :: "'a binds \<Rightarrow> ('v, 'z, 'a) hstate handlers" where
  "prepare_execute_handlers = ack_handlers"

text \<open>Inserts and view commands look into the notices, without document or client ids.\<close>

definition table_insert_handlers ::
  "floats \<Rightarrow> pb \<Rightarrow> 'a binds \<Rightarrow> ('v, 'z, 'a) hstate handlers" where
  "table_insert_handlers F P B = (ack_handlers B)\<lparr>on_NOTICE := Some (\<lambda>n. on_app
     (inspect_notice_frame F P (B\<lparr>bd_generated_doc_ids := None, bd_client_id := None\<rparr>) n))\<rparr>"

definition view_cmd_handlers ::
  "floats \<Rightarrow> pb \<Rightarrow> 'a binds \<Rightarrow> ('v, 'z, 'a) hstate handlers" where
  "view_cmd_handlers F P B = (ack_handlers B)\<lparr>on_NOTICE := Some (\<lambda>n. on_app
     (inspect_notice_frame F P (B\<lparr>bd_generated_doc_ids := None, bd_client_id := None\<rparr>) n))\<rparr>"

text \<open>
  The reply to a capabilities request is stored as an array keyed by the capability names; a
  name that occurs again overwrites the earlier value.
\<close>

fun array_insert :: "zkey \<Rightarrow> zvalue \<Rightarrow> (zkey \<times> zvalue) list \<Rightarrow> (zkey \<times> zvalue) list" where
  "array_insert k v [] = [(k, v)]"
| "array_insert k v ((k', v') # es) =
     (if k' = k then (k', v) # es else (k', v') # array_insert k v es)"

definition capabilities_to_zval :: "floats \<Rightarrow> (string \<times> any) list \<Rightarrow> zvalue" where
  "capabilities_to_zval F caps =
     Array (fold (\<lambda>(k, a). array_insert (Key_name k) (any2zval (fl_widen F) a)) caps [])"

definition capabilities_get_handlers ::
  "floats \<Rightarrow> 'a binds \<Rightarrow> ('v, 'z, 'a \<times> zvalue) hstate handlers" where
  "capabilities_get_handlers F B = no_handlers\<lparr>
     on_ERROR := Some (\<lambda>e. on_app (\<lambda>(a, z). case error_then_fail B e a of (r, a') \<Rightarrow> (r, (a', z)))),
     on_CAPABILITIES := Some (\<lambda>caps. on_app (\<lambda>(a, z). (Inr HND_PASS, (a, capabilities_to_zval F caps)))),
     on_NOTICE := Some (\<lambda>n. returning HND_AGAIN)\<rparr>"

datatype expect_result = Expect_unknown | Expect_ok | Expect_error

definition expectations_open_handlers ::
  "'a binds \<Rightarrow> ('v, 'z, 'a \<times> expect_result) hstate handlers" where
  "expectations_open_handlers B = no_handlers\<lparr>
     on_OK := Some (on_app (\<lambda>(a, x). (Inr HND_PASS, (a, Expect_ok)))),
     on_ERROR := Some (\<lambda>e. on_app (\<lambda>(a, x).
       case error_then_fail B e a of (r, a') \<Rightarrow> (r, (a', Expect_error)))),
     on_NOTICE := Some (\<lambda>n. returning HND_AGAIN)\<rparr>"

text \<open>
  Authentication: a challenge goes to the plugin's callback, whose answer is sent back at once.
  \<open>send\<close> serialises the answer as \<^verbatim>\<open>Mysqlx.Session.AuthenticateContinue\<close> and hands it to the
  message layer.
\<close>

definition auth_start_on_AUTHENTICATE_CONTINUE ::
  "(bytes \<Rightarrow> ('v, 'z) msg_ctx \<Rightarrow> func_status \<times> ('v, 'z) msg_ctx) \<Rightarrow> 'a binds \<Rightarrow> bytes \<Rightarrow>
   ('v, 'z, 'a) hstate handling" where
  "auth_start_on_AUTHENTICATE_CONTINUE send B auth_data s = (case bd_auth_continue B of
     None \<Rightarrow> (Inr HND_PASS, s)
   | Some h \<Rightarrow> (case h auth_data (fst s) of
       (Inl e, a) \<Rightarrow> (Inl e, (a, snd s))
     | (Inr (r, []), a) \<Rightarrow> (Inr r, (a, snd s))
     | (Inr (r, out), a) \<Rightarrow>
         (case send out (snd s) of (st, ctx) \<Rightarrow> (Inr (if st = FAIL then HND_FAIL else r), (a, ctx)))))"

definition auth_start_handlers ::
  "(bytes \<Rightarrow> ('v, 'z) msg_ctx \<Rightarrow> func_status \<times> ('v, 'z) msg_ctx) \<Rightarrow> floats \<Rightarrow> pb \<Rightarrow> 'a binds \<Rightarrow>
   ('v, 'z, 'a) hstate handlers" where
  "auth_start_handlers send F P B = no_handlers\<lparr>
     on_ERROR := Some (\<lambda>e. on_app (error_then_fail B e)),
     on_AUTHENTICATE_CONTINUE := Some (auth_start_on_AUTHENTICATE_CONTINUE send B),
     on_AUTHENTICATE_OK := Some (returning HND_PASS),
     on_NOTICE := Some (\<lambda>n. on_app (inspect_notice_frame F P
       (no_binds\<lparr>bd_client_id := bd_client_id B\<rparr>) n))\<rparr>"

end
