(* ===== verification/Result_Meta.thy ===== *)
theory Result_Meta
  imports Messages
begin

text \<open>
  Column metadata, after \<^verbatim>\<open>src/xmysqlnd/xmysqlnd_stmt_result_meta.cc\<close>: the setters of a field,
  its \<open>clone\<close>, and the growing array of fields of a result.  Allocation failure is not modelled
  (the PHP allocator aborts).  Of the PHP hash key of a column name only its numeric flag is
  kept.
\<close>

record field_meta =
  fm_type :: nat
  fm_name :: string
  fm_original_name :: string
  fm_table :: string
  fm_original_table :: string
  fm_schema :: string
  fm_catalog :: string
  fm_collation :: nat
  fm_fractional_digits :: nat
  fm_length :: nat
  fm_flags :: nat
  fm_content_type :: nat
  fm_key_is_numeric :: bool
  fm_type_set :: bool
  fm_collation_set :: bool
  fm_fractional_digits_set :: bool
  fm_length_set :: bool
  fm_flags_set :: bool
  fm_content_type_set :: bool

definition new_field :: field_meta where
  "new_field = \<lparr>fm_type = 0, fm_name = [], fm_original_name = [], fm_table = [],
     fm_original_table = [], fm_schema = [], fm_catalog = [], fm_collation = 0,
     fm_fractional_digits = 0, fm_length = 0, fm_flags = 0, fm_content_type = 0,
     fm_key_is_numeric = False, fm_type_set = False, fm_collation_set = False,
     fm_fractional_digits_set = False, fm_length_set = False, fm_flags_set = False,
     fm_content_type_set = False\<rparr>"

text \<open>A string stored through a C string ends at its first NUL.\<close>

definition c_string :: "string \<Rightarrow> string" where
  "c_string s = takeWhile (\<lambda>c. code c \<noteq> 0) s"

definition set_type :: "nat \<Rightarrow> field_meta \<Rightarrow> field_meta" where
  "set_type t f = f\<lparr>fm_type := t, fm_type_set := True\<rparr>"

text \<open>
  The comparison \<^verbatim>\<open>is_numeric == ZEND_HANDLE_NUMERIC (...)\<close> leaves \<open>is_numeric\<close> as it was.
\<close>

definition set_name :: "string \<Rightarrow> field_meta \<Rightarrow> field_meta" where
  "set_name s f = f\<lparr>fm_name := s\<rparr>"

definition set_original_name :: "string \<Rightarrow> field_meta \<Rightarrow> field_meta" where
  "set_original_name s f = f\<lparr>fm_original_name := c_string s\<rparr>"

definition set_table :: "string \<Rightarrow> field_meta \<Rightarrow> field_meta" where
  "set_table s f = f\<lparr>fm_table := c_string s\<rparr>"

definition set_original_table :: "string \<Rightarrow> field_meta \<Rightarrow> field_meta" where
  "set_original_table s f = f\<lparr>fm_original_table := c_string s\<rparr>"

definition set_schema :: "string \<Rightarrow> field_meta \<Rightarrow> field_meta" where
  "set_schema s f = f\<lparr>fm_schema := c_string s\<rparr>"

definition set_catalog :: "string \<Rightarrow> field_meta \<Rightarrow> field_meta" where
  "set_catalog s f = f\<lparr>fm_catalog := c_string s\<rparr>"

definition set_collation :: "nat \<Rightarrow> field_meta \<Rightarrow> field_meta" where
  "set_collation n f = f\<lparr>fm_collation := n, fm_collation_set := True\<rparr>"

definition set_fractional_digits :: "nat \<Rightarrow> field_meta \<Rightarrow> field_meta" where
  "set_fractional_digits n f = f\<lparr>fm_fractional_digits := n, fm_fractional_digits_set := True\<rparr>"

definition set_length :: "nat \<Rightarrow> field_meta \<Rightarrow> field_meta" where
  "set_length n f = f\<lparr>fm_length := n, fm_length_set := True\<rparr>"

definition set_flags :: "nat \<Rightarrow> field_meta \<Rightarrow> field_meta" where
  "set_flags n f = f\<lparr>fm_flags := n, fm_flags_set := True\<rparr>"

definition set_content_type :: "nat \<Rightarrow> field_meta \<Rightarrow> field_meta" where
  "set_content_type n f = f\<lparr>fm_content_type := n, fm_content_type_set := True\<rparr>"

lemmas field_setters = set_type_def set_name_def set_original_name_def set_table_def
  set_original_table_def set_schema_def set_catalog_def set_collation_def
  set_fractional_digits_def set_length_def set_flags_def set_content_type_def

definition clone :: "field_meta \<Rightarrow> field_meta" where
  "clone f = set_content_type (fm_content_type f) (set_flags (fm_flags f)
     (set_length (fm_length f) (set_fractional_digits (fm_fractional_digits f)
     (set_collation (fm_collation f) (set_catalog (fm_catalog f) (set_schema (fm_schema f)
     (set_original_table (fm_original_table f) (set_table (fm_table f)
     (set_original_name (fm_original_name f) (set_name (fm_name f)
     (set_type (fm_type f) new_field)))))))))))"

text \<open>What \<open>stmt_execute_on_COLUMN_META\<close> copies from the message: only the fields it has.\<close>

definition when_set :: "('b \<Rightarrow> field_meta \<Rightarrow> field_meta) \<Rightarrow> 'b option \<Rightarrow> field_meta \<Rightarrow> field_meta" where
  "when_set f v m = (case v of None \<Rightarrow> m | Some x \<Rightarrow> f x m)"

definition fill_field :: "pb_column \<Rightarrow> field_meta \<Rightarrow> field_meta" where
  "fill_field c m =
     when_set set_content_type (col_content_type c) (when_set set_flags (col_flags c)
     (when_set set_length (col_length c) (when_set set_fractional_digits (col_fractional_digits c)
     (when_set set_collation (col_collation c) (when_set set_catalog (col_catalog c)
     (when_set set_schema (col_schema c) (when_set set_original_table (col_original_table c)
     (when_set set_table (col_table c) (when_set set_original_name (col_original_name c)
     (when_set set_name (col_name c) (when_set set_type (col_type c) m)))))))))))"

section \<open>The fields of a result\<close>

record result_meta =
  rm_fields :: "field_meta list"
  rm_fields_size :: nat

definition new_result_meta :: result_meta where
  "new_result_meta = \<lparr>rm_fields = [], rm_fields_size = 0\<rparr>"

definition rm_count :: "result_meta \<Rightarrow> nat" where
  "rm_count m = length (rm_fields m)"

definition add_field :: "field_meta \<Rightarrow> result_meta \<Rightarrow> result_meta" where
  "add_field f m =
     (let m' = (if rm_fields_size m = 0 \<or> rm_count m = rm_fields_size m
                then m\<lparr>rm_fields_size := rm_fields_size m + 8\<rparr> else m)
      in m'\<lparr>rm_fields := rm_fields m' @ [f]\<rparr>)"

definition get_field :: "result_meta \<Rightarrow> nat \<Rightarrow> field_meta option" where
  "get_field m i = (if 0 < rm_count m \<and> i < rm_count m then Some (rm_fields m ! i) else None)"

text \<open>The slots in use never exceed the slots allocated.\<close>

definition meta_inv :: "result_meta \<Rightarrow> bool" where
  "meta_inv m \<longleftrightarrow> rm_count m \<le> rm_fields_size m"

text \<open>
  An append-only store with a bound on its use: what clients of a result's metadata rely on.
\<close>

locale append_store =
  fixes empty :: 's and add :: "'e \<Rightarrow> 's \<Rightarrow> 's" and count :: "'s \<Rightarrow> nat"
    and get :: "'s \<Rightarrow> nat \<Rightarrow> 'e option" and inv :: "'s \<Rightarrow> bool"
  assumes count_empty: "count empty = 0"
    and count_add: "count (add e s) = Suc (count s)"
    and get_add: "get (add e s) i = (if i = count s then Some e else get s i)"
    and get_bound: "get s i = None \<longleftrightarrow> count s \<le> i"
    and inv_empty: "inv empty" and inv_add: "inv s \<Longrightarrow> inv (add e s)"
begin

lemma count_fold: "count (fold add es s) = count s + length es"
  by (induction es arbitrary: s) (simp_all add: count_add)

lemma get_fold:
  "get (fold add es s) i =
     (if count s \<le> i \<and> i < count s + length es then Some (es ! (i - count s)) else get s i)"
proof (induction es arbitrary: s)
  case (Cons e es)
  show ?case
    by (auto simp: Cons count_add get_add nth_Cons' Suc_le_eq)
qed auto

lemma inv_fold: "inv s \<Longrightarrow> inv (fold add es s)"
  by (induction es arbitrary: s) (simp_all add: inv_add)

end

interpretation meta_store: append_store new_result_meta add_field rm_count get_field meta_inv
proof
  show "rm_count new_result_meta = 0" by (simp add: rm_count_def new_result_meta_def)
  show "rm_count (add_field e s) = Suc (rm_count s)" for e s
    by (simp add: rm_count_def add_field_def Let_def)
  show "get_field (add_field e s) i = (if i = rm_count s then Some e else get_field s i)" for e s i
    by (auto simp: get_field_def rm_count_def add_field_def Let_def nth_append)
  show "get_field s i = None \<longleftrightarrow> rm_count s \<le> i" for s i
    by (auto simp: get_field_def)
  show "meta_inv new_result_meta" by (simp add: meta_inv_def rm_count_def new_result_meta_def)
  show "meta_inv (add_field e s)" if "meta_inv s" for e s
    using that by (auto simp: meta_inv_def rm_count_def add_field_def Let_def)
qed

text \<open>
  the fields of a result are kept in the order they were added.  After adding any fields to
  an empty result, position \<open>i\<close> holds the \<open>i\<close>-th of them, positions past the end hold nothing,
  and no write went past the allocated slots.
\<close>

lemma result_fields_in_order:
  "get_field (fold add_field fs new_result_meta) i = (if i < length fs then Some (fs ! i) else None) \<and>
   rm_count (fold add_field fs new_result_meta) = length fs \<and>
   meta_inv (fold add_field fs new_result_meta)"
  using meta_store.get_fold[of fs new_result_meta i] meta_store.count_fold[of fs new_result_meta]
    meta_store.inv_fold[OF meta_store.inv_empty, of fs] meta_store.count_empty
    meta_store.get_bound[of new_result_meta i] by simp

text \<open>A clone has the values of its origin, but every \<open>_set\<close> flag raised.\<close>

lemma clone_values:
  assumes "c_string (fm_original_name f) = fm_original_name f" "c_string (fm_table f) = fm_table f"
    "c_string (fm_original_table f) = fm_original_table f" "c_string (fm_schema f) = fm_schema f"
    "c_string (fm_catalog f) = fm_catalog f"
  shows "clone f = f\<lparr>fm_key_is_numeric := False, fm_type_set := True, fm_collation_set := True,
     fm_fractional_digits_set := True, fm_length_set := True, fm_flags_set := True,
     fm_content_type_set := True\<rparr>"
  using assms by (simp add: clone_def field_setters new_field_def)

end
