(* ===== verification/Result_Reader.thy ===== *)
theory Result_Reader
  imports Handlers Result_Meta
begin

text \<open>
  Reading the reply to a statement: the \<open>stmt_execute\<close> handlers of
  \<^verbatim>\<open>src/xmysqlnd/xmysqlnd_wireprotocol.cc\<close> on the reader context (\<^verbatim>\<open>st_xmysqlnd_result_set_reader_ctx\<close>),
  and what the receive loop does with them on whole sequences of messages.
\<close>

record 'a reader =
  rd_app :: 'a
  rd_field_count :: nat
  rd_has_more_results :: bool
  rd_has_more_rows_in_set :: bool

record 'a reader_binds =
  rb_binds :: "'a binds"
  rb_create_meta_field :: "('a \<Rightarrow> field_meta option \<times> 'a) option"
  rb_meta_field :: "(field_meta \<Rightarrow> 'a handling) option"
  rb_row_field :: "(bytes \<Rightarrow> nat \<Rightarrow> 'a handling) option"
  rb_resultset_end :: "(bool \<Rightarrow> 'a \<Rightarrow> 'a) option"
  rb_stmt_execute_ok :: "('a \<Rightarrow> 'a) option"

definition new_reader :: "'a \<Rightarrow> 'a reader" where
  "new_reader a = \<lparr>rd_app = a, rd_field_count = 0, rd_has_more_results = False,
     rd_has_more_rows_in_set = False\<rparr>"

section \<open>The handlers\<close>

definition on_reader_app :: "'a handling \<Rightarrow> 'a reader handling" where
  "on_reader_app h rd = (case h (rd_app rd) of (r, a) \<Rightarrow> (r, rd\<lparr>rd_app := a\<rparr>))"

definition stmt_execute_on_COLUMN_META :: "'a reader_binds \<Rightarrow> pb_column \<Rightarrow> 'a reader handling" where
  "stmt_execute_on_COLUMN_META RB c rd =
     (let rd1 = rd\<lparr>rd_has_more_results := True, rd_has_more_rows_in_set := True,
                   rd_field_count := rd_field_count rd + 1\<rparr>
      in case (rb_create_meta_field RB, rb_meta_field RB) of
           (Some create, Some h) \<Rightarrow>
             (case create (rd_app rd1) of
                (None, a) \<Rightarrow> (Inr HND_FAIL, rd1\<lparr>rd_app := a\<rparr>)
              | (Some f, a) \<Rightarrow> on_reader_app (h (fill_field c f)) (rd1\<lparr>rd_app := a\<rparr>))
         | _ \<Rightarrow> (Inr HND_AGAIN, rd1))"

text \<open>
  The loop over the fields of a row: \<open>todo\<close> counts the fields left, \<open>i\<close> is the next one.  A row
  with fewer fields than columns makes the source read outside the message.
\<close>

fun row_fields ::
  "(bytes \<Rightarrow> nat \<Rightarrow> 'a handling) \<Rightarrow> bytes list \<Rightarrow> nat \<Rightarrow> nat \<Rightarrow> hnd_status \<Rightarrow> 'a handling" where
  "row_fields h fs 0 i r a = (Inr r, a)"
| "row_fields h fs (Suc todo) i r a =
     (if length fs \<le> i then (Inl Payload_overrun, a)
      else case h (fs ! i) i a of
        (Inl e, a') \<Rightarrow> (Inl e, a')
      | (Inr r', a') \<Rightarrow>
          if r' \<noteq> HND_PASS \<and> r' \<noteq> HND_AGAIN then (Inr r', a') else row_fields h fs todo (i + 1) r' a')"

definition stmt_execute_on_RSET_ROW :: "'a reader_binds \<Rightarrow> bytes list \<Rightarrow> 'a reader handling" where
  "stmt_execute_on_RSET_ROW RB fs rd =
     (let rd1 = rd\<lparr>rd_has_more_results := True\<rparr> in
      case rb_row_field RB of
        None \<Rightarrow> (Inr HND_AGAIN, rd1)
      | Some h \<Rightarrow> on_reader_app (row_fields h fs (rd_field_count rd1) 0 HND_AGAIN) rd1)"

definition end_resultset :: "'a reader_binds \<Rightarrow> bool \<Rightarrow> 'a reader \<Rightarrow> 'a reader" where
  "end_resultset RB has_more rd =
     (case rb_resultset_end RB of None \<Rightarrow> rd | Some h \<Rightarrow> rd\<lparr>rd_app := h has_more (rd_app rd)\<rparr>)"

definition stmt_execute_on_RSET_FETCH_DONE :: "'a reader_binds \<Rightarrow> 'a reader handling" where
  "stmt_execute_on_RSET_FETCH_DONE RB rd =
     (Inr HND_AGAIN, end_resultset RB False
        (rd\<lparr>rd_has_more_results := False, rd_has_more_rows_in_set := False\<rparr>))"

definition stmt_execute_on_RSET_FETCH_SUSPENDED :: "'a reader handling" where
  "stmt_execute_on_RSET_FETCH_SUSPENDED rd = (Inr HND_PASS, rd\<lparr>rd_has_more_results := True\<rparr>)"

definition stmt_execute_on_RSET_FETCH_DONE_MORE_RSETS :: "'a reader_binds \<Rightarrow> 'a reader handling" where
  "stmt_execute_on_RSET_FETCH_DONE_MORE_RSETS RB rd =
     (Inr HND_PASS, end_resultset RB True
        (rd\<lparr>rd_has_more_results := True, rd_has_more_rows_in_set := False\<rparr>))"

definition stmt_execute_on_STMT_EXECUTE_OK :: "'a reader_binds \<Rightarrow> 'a reader handling" where
  "stmt_execute_on_STMT_EXECUTE_OK RB rd =
     (let rd1 = rd\<lparr>rd_has_more_results := False\<rparr> in
      (Inr HND_PASS,
       case rb_stmt_execute_ok RB of None \<Rightarrow> rd1 | Some h \<Rightarrow> rd1\<lparr>rd_app := h (rd_app rd1)\<rparr>))"

definition stmt_execute_on_RSET_FETCH_DONE_MORE_OUT_PARAMS :: "'a reader handling" where
  "stmt_execute_on_RSET_FETCH_DONE_MORE_OUT_PARAMS rd = (Inr HND_PASS, rd\<lparr>rd_has_more_results := True\<rparr>)"

definition stmt_execute_on_COMPRESSED ::
  "'z compressor \<Rightarrow> compression_msg \<Rightarrow> (('v, 'z, 'c) hstate \<times> messages) handling" where
  "stmt_execute_on_COMPRESSED lib msg sm = (case mc_executor (snd (fst sm)) of
     None \<Rightarrow> (Inl No_compressor, sm)
   | Some z \<Rightarrow> (case decompress_messages lib z msg (snd sm) of (z', res) \<Rightarrow>
       let s' = (fst (fst sm), (snd (fst sm))\<lparr>mc_executor := Some z'\<rparr>) in
       case res of
         Inl e \<Rightarrow> (Inl Payload_overrun, (s', snd sm))
       | Inr ms \<Rightarrow> (Inr HND_AGAIN, (s', ms))))"

definition stmt_execute_handlers ::
  "'z compressor \<Rightarrow> floats \<Rightarrow> pb \<Rightarrow> 'a reader_binds \<Rightarrow> ('v, 'z, 'a reader) hstate handlers" where
  "stmt_execute_handlers lib F P RB = no_handlers\<lparr>
     on_ERROR := Some (\<lambda>e. on_app (on_reader_app (report_error (rb_binds RB) e))),
     on_NOTICE := Some (\<lambda>n. on_app (on_reader_app
       (inspect_notice_frame F P ((rb_binds RB)\<lparr>bd_client_id := None\<rparr>) n))),
     on_COLUMN_META := Some (\<lambda>c. on_app (stmt_execute_on_COLUMN_META RB c)),
     on_RSET_ROW := Some (\<lambda>fs. on_app (stmt_execute_on_RSET_ROW RB fs)),
     on_RSET_FETCH_DONE := Some (on_app (stmt_execute_on_RSET_FETCH_DONE RB)),
     on_RSET_FETCH_SUSPENDED := Some (on_app stmt_execute_on_RSET_FETCH_SUSPENDED),
     on_RSET_FETCH_DONE_MORE_RSETS := Some (on_app (stmt_execute_on_RSET_FETCH_DONE_MORE_RSETS RB)),
     on_STMT_EXECUTE_OK := Some (on_app (stmt_execute_on_STMT_EXECUTE_OK RB)),
     on_RSET_FETCH_DONE_MORE_OUT_PARAMS :=
       Some (on_app stmt_execute_on_RSET_FETCH_DONE_MORE_OUT_PARAMS),
     on_COMPRESSED := Some (stmt_execute_on_COMPRESSED lib)\<rparr>"

end
