(* ===== verification/Reader_Laws.thy ===== *)
theory Reader_Laws
  imports Result_Reader
begin

text \<open>
  What the receive loop does with a sequence of messages.  A handler set whose reaction to a
  message depends only on the caller's context is a \<open>handler_machine\<close>: a step function on that
  context.  For such a set receiving is running the step function over the messages on the
  stream until a step asks for something else than the next message.
\<close>

section \<open>Running a step function\<close>

type_synonym 'c step = "byte \<times> bytes \<Rightarrow> 'c handling"

fun run_steps ::
  "'c step \<Rightarrow> messages \<Rightarrow> 'c \<Rightarrow> ((xdevapi_error + func_status) \<times> 'c \<times> messages) option" where
  "run_steps step [] c = None"
| "run_steps step (m # ms) c =
     (case step m c of
        (Inl e, c') \<Rightarrow> Some (Inl e, c', ms)
      | (Inr r, c') \<Rightarrow>
          if r = HND_AGAIN then run_steps step ms c' else Some (Inr (final_status r), c', ms))"

fun batch_steps :: "'c step \<Rightarrow> messages \<Rightarrow> hnd_status \<Rightarrow> 'c handling" where
  "batch_steps step [] r c = (Inr r, c)"
| "batch_steps step (m # ms) r c =
     (case step m c of (Inl e, c') \<Rightarrow> (Inl e, c') | (Inr r', c') \<Rightarrow> batch_steps step ms r' c')"

text \<open>All messages but the last are answered with \<open>HND_AGAIN\<close>.\<close>

fun again_until_last :: "'c step \<Rightarrow> messages \<Rightarrow> 'c \<Rightarrow> bool" where
  "again_until_last step [] c \<longleftrightarrow> False"
| "again_until_last step [m] c \<longleftrightarrow> fst (step m c) \<noteq> Inr HND_AGAIN"
| "again_until_last step (m # ms) c \<longleftrightarrow>
     fst (step m c) = Inr HND_AGAIN \<and> again_until_last step ms (snd (step m c))"

lemma run_steps_append:
  assumes "run_steps step ms c = Some (r, c', rest)"
  shows "run_steps step (ms @ ns) c = Some (r, c', rest @ ns)"
  using assms
proof (induction ms arbitrary: c)
  case (Cons m ms)
  then show ?case by (auto split: prod.splits sum.splits if_splits)
qed simp

lemma batch_is_run:
  assumes "again_until_last step ms c"
  shows "run_steps step ms c = Some (map_sum id final_status (fst (batch_steps step ms r c)),
     snd (batch_steps step ms r c), []) \<and>
     fst (batch_steps step ms r c) \<noteq> Inr HND_AGAIN"
  using assms
proof (induction step ms c arbitrary: r rule: again_until_last.induct)
  case (2 step m c)
  then show ?case by (cases "step m c"; cases "fst (step m c)") auto
next
  case (3 step m m' ms c)
  obtain c' where c': "step m c = (Inr HND_AGAIN, c')" using 3(2) by (cases "step m c") auto
  then show ?case using 3(1)[of HND_AGAIN] 3(2) by simp
qed simp

section \<open>Handler sets as machines\<close>

locale handler_machine =
  fixes P :: pb and H :: "('v, 'z, 'c) hstate handlers" and step :: "'c step"
    and covers :: "byte \<times> bytes \<Rightarrow> bool"
  assumes acts: "covers m \<Longrightarrow>
     process_received_message P H m ((c, ctx), ms) = (fst (step m c), ((snd (step m c), ctx), ms))"
begin

lemma receive_frame_pending:
  assumes "keeps_bytes io pending" "has_valid_stream io (mc_vio ctx)"
    and "pending (mc_vio ctx) = frame m @ bs" "frame_ok m"
  obtains v where "receive_frame io (c, ctx) = (Some m, (c, ctx\<lparr>mc_vio := v\<rparr>))"
    "has_valid_stream io v" "pending v = bs"
proof -
  obtain ty p where m: "m = (ty, p)" by (cases m)
  from assms obtain v where
    "pfc_receive io (Some SIZE_OF_STACK_BUFFER) (mc_vio ctx) =
       \<lparr>rr_status = PASS, rr_vio = v, rr_packet = Some (ty, p, \<not> SIZE_OF_STACK_BUFFER < length p)\<rparr>"
    "has_valid_stream io v" "pending v = bs"
    using pfc_receive_frame[where pre = "Some SIZE_OF_STACK_BUFFER" and v = "mc_vio ctx"]
    unfolding m by (metis option.simps(5))
  then show ?thesis using that[of v] by (simp add: receive_frame_def m)
qed

lemma receive_loop_run:
  assumes "keeps_bytes io pending" "has_valid_stream io (mc_vio ctx)"
    and "pending (mc_vio ctx) = concat (map frame ms) @ bs"
    and "\<forall>m\<in>set ms. covers m \<and> frame_ok m"
    and "run_steps step ms c = Some (r, c', ms')" "length ms \<le> fuel"
  shows "\<exists>v. receive_loop fuel io P H ((c, ctx), []) = Some (r, (c', ctx\<lparr>mc_vio := v\<rparr>)) \<and>
     has_valid_stream io v \<and> pending v = concat (map frame ms') @ bs"
  using assms(2-)
proof (induction ms arbitrary: c ctx fuel)
  case (Cons m ms)
  then obtain fuel' where fuel: "fuel = Suc fuel'" by (cases fuel) auto
  have "pending (mc_vio ctx) = frame m @ (concat (map frame ms) @ bs)" "frame_ok m"
    using Cons.prems by auto
  from receive_frame_pending[OF assms(1) Cons.prems(1) this, where c = c] obtain v where
    v: "receive_frame io (c, ctx) = (Some m, (c, ctx\<lparr>mc_vio := v\<rparr>))"
    "has_valid_stream io v" "pending v = concat (map frame ms) @ bs" .
  obtain o1 c1 where st: "step m c = (o1, c1)" by fastforce
  have rnd: "process_received_message P H m ((c, ctx\<lparr>mc_vio := v\<rparr>), []) =
      (o1, ((c1, ctx\<lparr>mc_vio := v\<rparr>), []))"
    using acts[of m] Cons.prems(3) st by simp
  show ?case
  proof (cases "o1 = Inr HND_AGAIN")
    case True
    have "\<exists>w. receive_loop fuel' io P H ((c1, ctx\<lparr>mc_vio := v\<rparr>), []) =
        Some (r, (c', (ctx\<lparr>mc_vio := v\<rparr>)\<lparr>mc_vio := w\<rparr>)) \<and>
        has_valid_stream io w \<and> pending w = concat (map frame ms') @ bs"
      using Cons.prems v st True fuel by (intro Cons.IH) simp_all
    then show ?thesis using v rnd True by (simp add: fuel receive_round_def)
  next
    case False
    then show ?thesis using Cons.prems v rnd st
      by (cases o1) (auto simp: fuel receive_round_def)
  qed
qed simp

lemma process_batch_steps:
  assumes "\<forall>m\<in>set ms. covers m"
  shows "process_batch (map (process_received_message P H) ms) r (c, ctx) =
     (fst (batch_steps step ms r c), (snd (batch_steps step ms r c), ctx))"
  using assms
proof (induction ms arbitrary: r c)
  case (Cons m ms)
  obtain o1 c1 where st: "step m c = (o1, c1)" by fastforce
  then have "process_received_message P H m ((c, ctx), []) = (o1, ((c1, ctx), []))"
    using acts[of m] Cons.prems by simp
  then show ?case using st Cons by (cases o1) auto
qed simp

end

section \<open>The tables are machines\<close>

named_theorems table_defs

lemmas table_facts [table_defs] = process_received_message_def handler_of_def keeping_def on_app_def
  returning_def no_handlers_def server_message_type_is_valid_def Let_def

definition ack_step :: "pb \<Rightarrow> 'a binds \<Rightarrow> 'a step" where
  "ack_step P B m a =
     (if fst m = XMSG_OK then (Inr HND_PASS, a)
      else if fst m = XMSG_ERROR then error_then_fail B (parse_error P (snd m)) a
      else if fst m = XMSG_NOTICE then (Inr HND_AGAIN, a)
      else (Inr HND_PASS, a))"

interpretation ack: handler_machine P "ack_handlers B" "ack_step P B"
  "\<lambda>m. server_message_type_is_valid (fst m)" for P B
  by unfold_locales
    (auto simp: table_defs ack_handlers_def ack_step_def xmsg_defs split: prod.splits)

definition stmt_step :: "floats \<Rightarrow> pb \<Rightarrow> 'a reader_binds \<Rightarrow> 'a reader step" where
  "stmt_step F P RB m rd =
     (let ty = fst m; p = snd m in
      if ty = XMSG_ERROR then on_reader_app (report_error (rb_binds RB) (parse_error P p)) rd
      else if ty = XMSG_NOTICE then
        on_reader_app (inspect_notice_frame F P ((rb_binds RB)\<lparr>bd_client_id := None\<rparr>) (parse_notice P p)) rd
      else if ty = XMSG_COLUMN_METADATA then stmt_execute_on_COLUMN_META RB (parse_column P p) rd
      else if ty = XMSG_RSET_ROW then stmt_execute_on_RSET_ROW RB (parse_row P p) rd
      else if ty = XMSG_RSET_FETCH_DONE then stmt_execute_on_RSET_FETCH_DONE RB rd
      else if ty = XMGS_RSET_FETCH_SUSPENDED then stmt_execute_on_RSET_FETCH_SUSPENDED rd
      else if ty = XMSG_RSET_FETCH_DONE_MORE_RSETS then stmt_execute_on_RSET_FETCH_DONE_MORE_RSETS RB rd
      else if ty = XMSG_STMT_EXECUTE_OK then stmt_execute_on_STMT_EXECUTE_OK RB rd
      else if ty = XMSG_RSET_FETCH_DONE_MORE_OUT then
        stmt_execute_on_RSET_FETCH_DONE_MORE_OUT_PARAMS rd
      else (Inr HND_PASS, rd))"

definition stmt_covers :: "byte \<times> bytes \<Rightarrow> bool" where
  "stmt_covers m \<longleftrightarrow> server_message_type_is_valid (fst m) \<and> fst m \<noteq> XMSG_COMPRESSION"

interpretation stmt: handler_machine P "stmt_execute_handlers lib F P RB" "stmt_step F P RB"
  stmt_covers for lib F P RB
  by unfold_locales
    (auto simp: table_defs stmt_execute_handlers_def stmt_step_def stmt_covers_def xmsg_defs
      split: prod.splits)

end
