(* ===== verification/Reader_Props.thy ===== *)
theory Reader_Props
  imports Reader_Laws
begin

text \<open>
  Properties of the message layer that span the frame codec, the compression executor, the
  dispatch and the handler tables.
\<close>

section \<open>Result sets\<close>

text \<open>
  A statement's reply is read by running the handlers over it.  With the reply's frames on
  the stream, the receive loop has the outcome, the final reader state and the unread messages of
  the step function run message by message until a step does not ask for the next one.
\<close>

lemma statement_reply_runs:
  assumes "keeps_bytes io pending" "has_valid_stream io (mc_vio ctx)"
    and "pending (mc_vio ctx) = concat (map frame ms) @ bs"
    and "\<forall>m\<in>set ms. stmt_covers m \<and> frame_ok m"
    and "run_steps (stmt_step F P RB) ms rd = Some (r, rd', ms')"
  shows "\<exists>v. receive_message (length ms) io P (stmt_execute_handlers lib F P RB) (rd, ctx) =
       Some (r, (rd', ctx\<lparr>mc_vio := v\<rparr>)) \<and>
     has_valid_stream io v \<and> pending v = concat (map frame ms') @ bs"
  unfolding receive_message_def by (rule stmt.receive_loop_run[OF assms order_refl])

definition quiet_binds :: "(bytes \<Rightarrow> nat \<Rightarrow> 'a \<Rightarrow> 'a) \<Rightarrow> 'a reader_binds" where
  "quiet_binds f = \<lparr>rb_binds = no_binds, rb_create_meta_field = None, rb_meta_field = None,
     rb_row_field = Some (\<lambda>b i a. (Inr HND_AGAIN, f b i a)), rb_resultset_end = None,
     rb_stmt_execute_ok = None\<rparr>"

definition some_pb :: pb where
  "some_pb = \<lparr>parse_error = \<lambda>b. \<lparr>err_code = None, err_sql_state = None, err_msg = None\<rparr>,
     parse_capabilities = \<lambda>b. [], parse_auth_continue = \<lambda>b. b,
     parse_notice = \<lambda>b. \<lparr>nf_type = None, nf_scope = None, nf_payload = None\<rparr>,
     parse_warning = \<lambda>b. \<lparr>wn_level = None, wn_code = None, wn_msg = None\<rparr>,
     parse_variable = \<lambda>b. \<lparr>vr_param = None, vr_value = None\<rparr>,
     parse_state_changed = \<lambda>b. \<lparr>sc_param = None, sc_value = []\<rparr>,
     parse_column = \<lambda>b. \<lparr>col_type = None, col_name = None, col_original_name = None,
       col_table = None, col_original_table = None, col_schema = None, col_catalog = None,
       col_collation = None, col_fractional_digits = None, col_length = None, col_flags = None,
       col_content_type = None\<rparr>,
     parse_row = \<lambda>b. map (\<lambda>x. [x]) b,
     parse_compression = \<lambda>b. \<lparr>cm_uncompressed_size = 0, cm_client_messages = 0, cm_payload = b\<rparr>,
     serialize_compression = cm_payload\<rparr>"

definition some_floats :: floats where
  "some_floats = \<lparr>fl_widen = \<lambda>x. 0, fl_truncate = \<lambda>x. 0, fl_print = \<lambda>x. []\<rparr>"

definition plain_compressor :: "unit compressor" where
  "plain_compressor = \<lparr>create_compressor = \<lambda>a. (), compress = \<lambda>z u. (z, u),
     decompress = \<lambda>z m. (z, cm_payload m)\<rparr>"

lemma statement_reply_runs_example:
  "\<exists>v. receive_message (length [(17, []), (11, []) :: byte \<times> bytes]) memory_vio some_pb
       (stmt_execute_handlers plain_compressor some_floats some_pb (quiet_binds (\<lambda>b i a. a)))
       (new_reader (), \<lparr>mc_vio = concat (map frame [(17, []), (11, [])]) @ [7], mc_executor = None,
          mc_error = None\<rparr>) =
     Some (Inr PASS, (new_reader (), \<lparr>mc_vio = concat (map frame [(17, []), (11, [])]) @ [7],
          mc_executor = None, mc_error = None\<rparr>\<lparr>mc_vio := v\<rparr>)) \<and>
     has_valid_stream memory_vio v \<and> v = concat (map frame [(11, [])]) @ [7]"
  by (rule statement_reply_runs[OF memory_vio_keeps])
    (simp_all add: memory_vio_def stmt_covers_def server_message_type_is_valid_def xmsg_defs frame_ok_def
      stmt_step_def stmt_execute_on_STMT_EXECUTE_OK_def final_status_def quiet_binds_def new_reader_def)

lemma run_columns:
  assumes "rb_create_meta_field RB = None"
  shows "run_steps (stmt_step F P RB) (map (Pair XMSG_COLUMN_METADATA) cols @ ms) rd =
     run_steps (stmt_step F P RB) ms
       (if cols = [] then rd
        else rd\<lparr>rd_has_more_results := True, rd_has_more_rows_in_set := True,
                rd_field_count := rd_field_count rd + length cols\<rparr>)"
proof (induction cols arbitrary: rd)
  case (Cons c cols)
  have "stmt_step F P RB (XMSG_COLUMN_METADATA, c) rd =
      (Inr HND_AGAIN, rd\<lparr>rd_has_more_results := True, rd_has_more_rows_in_set := True,
         rd_field_count := rd_field_count rd + 1\<rparr>)"
    using assms by (simp add: stmt_step_def xmsg_defs stmt_execute_on_COLUMN_META_def)
  then show ?case by (simp add: Cons)
qed simp

definition deliver_row :: "(bytes \<Rightarrow> nat \<Rightarrow> 'a \<Rightarrow> 'a) \<Rightarrow> nat \<Rightarrow> bytes list \<Rightarrow> 'a \<Rightarrow> 'a" where
  "deliver_row f n fs a = fold (\<lambda>i. f (fs ! i) i) [0..<n] a"

lemma row_fields_quiet:
  assumes "i + todo \<le> length fs"
  shows "row_fields (\<lambda>b i a. (Inr HND_AGAIN, f b i a)) fs todo i HND_AGAIN a =
     (Inr HND_AGAIN, fold (\<lambda>i. f (fs ! i) i) [i..<i + todo] a)"
  using assms
proof (induction todo arbitrary: i a)
  case (Suc todo)
  have "[i..<i + Suc todo] = i # [Suc i..<Suc i + todo]" by (simp add: upt_conv_Cons)
  then show ?case using Suc by simp
qed simp

lemma run_rows:
  assumes "rb_row_field RB = Some (\<lambda>b i a. (Inr HND_AGAIN, f b i a))"
    and "\<forall>r\<in>set rows. rd_field_count rd \<le> length (parse_row P r)"
  shows "run_steps (stmt_step F P RB) (map (Pair XMSG_RSET_ROW) rows @ ms) rd =
     run_steps (stmt_step F P RB) ms
       (if rows = [] then rd
        else rd\<lparr>rd_has_more_results := True, rd_app :=
               fold (\<lambda>r. deliver_row f (rd_field_count rd) (parse_row P r)) rows (rd_app rd)\<rparr>)"
  using assms(2)
proof (induction rows arbitrary: rd)
  case (Cons r rows)
  have "stmt_step F P RB (XMSG_RSET_ROW, r) rd =
      (Inr HND_AGAIN, rd\<lparr>rd_has_more_results := True,
         rd_app := deliver_row f (rd_field_count rd) (parse_row P r) (rd_app rd)\<rparr>)"
    using assms(1) Cons.prems
    by (simp add: stmt_step_def xmsg_defs stmt_execute_on_RSET_ROW_def on_reader_app_def
        row_fields_quiet deliver_row_def)
  then show ?case using Cons by simp
qed simp



section \<open>Compressed replies\<close>

lemma receive_compressed:
  assumes "keeps_bytes io pending" "has_valid_stream io (mc_vio ctx)"
    and "pending (mc_vio ctx) = frame (XMSG_COMPRESSION, p) @ bs" "frame_ok (XMSG_COMPRESSION, p)"
    and "mc_executor ctx = Some z" "decompress_messages lib z (parse_compression P p) [] = (z', Inr ms)"
    and "ms \<noteq> []" "\<forall>m\<in>set ms. stmt_covers m"
    and "fst (batch_steps (stmt_step F P RB) ms HND_AGAIN rd) \<noteq> Inr HND_AGAIN"
  shows "\<exists>v. receive_message 2 io P (stmt_execute_handlers lib F P RB) (rd, ctx) =
       Some (map_sum id final_status (fst (batch_steps (stmt_step F P RB) ms HND_AGAIN rd)),
         (snd (batch_steps (stmt_step F P RB) ms HND_AGAIN rd), ctx\<lparr>mc_vio := v, mc_executor := Some z'\<rparr>)) \<and>
     has_valid_stream io v \<and> pending v = bs"
proof -
  let ?H = "stmt_execute_handlers lib F P RB" and ?b = "batch_steps (stmt_step F P RB) ms HND_AGAIN rd"
  obtain v where v: "receive_frame io (rd, ctx) = (Some (XMSG_COMPRESSION, p), (rd, ctx\<lparr>mc_vio := v\<rparr>))"
    "has_valid_stream io v" "pending v = bs"
    using stmt.receive_frame_pending[OF assms(1-4), where c = rd] by metis
  let ?ctx = "ctx\<lparr>mc_vio := v, mc_executor := Some z'\<rparr>"
  have "process_received_message P ?H (XMSG_COMPRESSION, p) ((rd, ctx\<lparr>mc_vio := v\<rparr>), []) =
      (Inr HND_AGAIN, ((rd, ?ctx), ms))"
    using assms(5,6)
    by (simp add: table_defs stmt_execute_handlers_def xmsg_defs stmt_execute_on_COMPRESSED_def)
  then have r1: "receive_round io P ?H ((rd, ctx), []) = (Inr (Some HND_AGAIN), ((rd, ?ctx), ms))"
    using v(1) by (simp add: receive_round_def)
  have r2: "receive_round io P ?H ((rd, ?ctx), ms) =
      (map_sum id Some (fst ?b), ((snd ?b, ?ctx), []))"
    using assms(7) stmt.process_batch_steps[OF assms(8), where lib = lib and F = F and P = P and RB = RB
        and r = HND_AGAIN and c = rd and ctx = ?ctx]
    by (cases "fst ?b") (simp_all add: receive_round_def)
  show ?thesis
    using assms(9) v r1 r2 by (cases "fst ?b") (auto simp: receive_message_def numeral_2_eq_2)
qed



text \<open>
  A compressed batch is not cut at the end of a result set.  Of a batch in which one result
  set ends and the next begins, all messages are processed in one read and the last status alone
  counts: where separate frames stop at the boundary with more results announced, the batch runs
  on and the columns of the next result set are counted onto those of the first.
\<close>

lemma compressed_batch_runs_on:
  assumes "keeps_bytes io pending" "has_valid_stream io (mc_vio ctx)"
    and "pending (mc_vio ctx) = frame (XMSG_COMPRESSION, p) @ bs" "frame_ok (XMSG_COMPRESSION, p)"
    and "mc_executor ctx = Some z" "decompress_messages lib z (parse_compression P p) [] = (z', Inr ms)"
    and "ms = [(XMSG_RSET_FETCH_DONE_MORE_RSETS, d), (XMSG_COLUMN_METADATA, c), (XMSG_STMT_EXECUTE_OK, k)]"
  shows "(\<exists>rd1. run_steps (stmt_step F P (quiet_binds f)) ms rd = Some (Inr PASS, rd1, tl ms) \<and>
        rd_has_more_results rd1 \<and> rd_field_count rd1 = rd_field_count rd) \<and>
     (\<exists>rd2 ctx2. receive_message 2 io P (stmt_execute_handlers lib F P (quiet_binds f)) (rd, ctx) =
          Some (Inr PASS, (rd2, ctx2)) \<and>
        \<not> rd_has_more_results rd2 \<and> rd_field_count rd2 = rd_field_count rd + 1)"
proof -
  let ?st = "stmt_step F P (quiet_binds f)"
  have run: "run_steps ?st ms rd = Some (Inr PASS,
      rd\<lparr>rd_has_more_results := True, rd_has_more_rows_in_set := False\<rparr>, tl ms)"
    by (simp add: assms(7) stmt_step_def xmsg_defs stmt_execute_on_RSET_FETCH_DONE_MORE_RSETS_def
        end_resultset_def quiet_binds_def final_status_def)
  have batch: "batch_steps ?st ms HND_AGAIN rd = (Inr HND_PASS, rd\<lparr>rd_has_more_results := False,
      rd_has_more_rows_in_set := True, rd_field_count := rd_field_count rd + 1\<rparr>)"
    by (simp add: assms(7) stmt_step_def xmsg_defs stmt_execute_on_RSET_FETCH_DONE_MORE_RSETS_def
        end_resultset_def quiet_binds_def stmt_execute_on_COLUMN_META_def
        stmt_execute_on_STMT_EXECUTE_OK_def)
  have "ms \<noteq> []" "\<forall>m\<in>set ms. stmt_covers m"
    by (auto simp: assms(7) stmt_covers_def server_message_type_is_valid_def xmsg_defs)
  then show ?thesis
    using run receive_compressed[OF assms(1-6), where F = F and RB = "quiet_binds f" and rd = rd]
    by (auto simp: batch final_status_def)
qed

lemma compressed_batch_runs_on_example:
  "\<exists>rd2 ctx2. receive_message 2 memory_vio some_pb
       (stmt_execute_handlers plain_compressor some_floats some_pb (quiet_binds (\<lambda>b i a. a)))
       (new_reader (), \<lparr>mc_vio = frame (XMSG_COMPRESSION,
          [1, 0, 0, 0, 16, 1, 0, 0, 0, 12, 1, 0, 0, 0, 17]) @ [],
          mc_executor = Some (), mc_error = None\<rparr>) = Some (Inr PASS, (rd2, ctx2)) \<and>
     \<not> rd_has_more_results rd2 \<and> rd_field_count rd2 = rd_field_count (new_reader ()) + 1"
  by (rule compressed_batch_runs_on[OF memory_vio_keeps, where d = "[]" and c = "[]" and k = "[]"
          and p = "[1, 0, 0, 0, 16, 1, 0, 0, 0, 12, 1, 0, 0, 0, 17]" and bs = "[]",
        THEN conjunct2])
    (simp_all add: memory_vio_def frame_ok_def some_pb_def plain_compressor_def decompress_messages_def
      extractor_run_def extract_message_def extract_length_def extract_packet_type_def
      extract_payload_def uint_sub_def Let_def xmsg_defs)

section \<open>Messages nobody asked for\<close>

text \<open>
  An unexpected reply counts as success.  While the client waits for the outcome of its
  authentication, a server message of any valid type other than the four it handles (an \<open>Ok\<close>, a
  result row, a compressed message) ends the exchange with \<open>PASS\<close>, just as \<open>AuthenticateOk\<close> does:
  there is no handler for unexpected messages and the status starts out as \<open>HND_PASS\<close>.
\<close>

lemma unexpected_message_authenticates:
  assumes "keeps_bytes io pending" "has_valid_stream io (mc_vio ctx)"
    and "pending (mc_vio ctx) = frame (ty, p) @ bs" "frame_ok (ty, p)"
    and "server_message_type_is_valid ty"
    and "ty \<notin> {XMSG_ERROR, XMSG_AUTH_CONTINUE, XMSG_AUTH_OK, XMSG_NOTICE}"
  shows "\<exists>v. receive_message 1 io P (auth_start_handlers send F P B) (a, ctx) =
       Some (Inr PASS, (a, ctx\<lparr>mc_vio := v\<rparr>)) \<and> pending v = bs"
proof -
  let ?H = "auth_start_handlers send F P B"
  obtain v where v: "pfc_receive io (Some SIZE_OF_STACK_BUFFER) (mc_vio ctx) =
       \<lparr>rr_status = PASS, rr_vio = v,
        rr_packet = Some (ty, p, case Some SIZE_OF_STACK_BUFFER of None \<Rightarrow> False | Some n \<Rightarrow> \<not> n < length p)\<rparr>"
    "pending v = bs"
    using pfc_receive_frame[OF assms(1-4)] by metis
  have "process_received_message P ?H (ty, p) (s, []) = (Inr HND_PASS, (s, []))" for s
    using assms(5,6) by (auto simp: table_defs auth_start_handlers_def xmsg_defs)
  then show ?thesis
    using v by (auto simp: receive_message_def receive_round_def receive_frame_def final_status_def Let_def)
qed

lemma unexpected_message_authenticates_example:
  "\<exists>v. receive_message 1 memory_vio some_pb
       (auth_start_handlers (\<lambda>b c. (FAIL, c)) some_floats some_pb no_binds)
       ((), \<lparr>mc_vio = frame (XMSG_COMPRESSION, [9]) @ [], mc_executor = (None :: unit option),
          mc_error = None\<rparr>) =
     Some (Inr PASS, ((), \<lparr>mc_vio = frame (XMSG_COMPRESSION, [9]) @ [], mc_executor = None,
          mc_error = None\<rparr>\<lparr>mc_vio := v\<rparr>)) \<and> v = []"
  by (rule unexpected_message_authenticates[OF memory_vio_keeps, where ty = XMSG_COMPRESSION and p = "[9]"])
    (simp_all add: memory_vio_def frame_ok_def server_message_type_is_valid_def xmsg_defs)

end
