(* ===== verification/Compress_Setup.thy ===== *)
theory Compress_Setup
  imports Handlers
begin

text \<open>
  Negotiation of the compression algorithm, after
  \<^verbatim>\<open>src/xmysqlnd/xmysqlnd_compression_setup.cc\<close>.  The exchange of capabilities with the server is
  \<open>caps_set_exchange\<close> over the message layer; the negotiation itself is defined over any exchange.
  Which compressors the build has is the parameter \<open>avail\<close>.
\<close>

section \<open>Algorithm names\<close>

text \<open>\<^verbatim>\<open>util::iless\<close> orders by upper-cased characters, so equal names are equal up to case.\<close>

definition iequal :: "string \<Rightarrow> string \<Rightarrow> bool" where
  "iequal a b \<longleftrightarrow> map c_toupper a = map c_toupper b"

definition algorithm_mapping :: "(string \<times> algorithm) list" where
  "algorithm_mapping =
     [(''zstd_stream'', Zstd_stream), (''lz4_message'', Lz4_message),
      (''deflate_stream'', Zlib_deflate_stream), (''zlib_stream'', Zlib_deflate_stream),
      (''zstd'', Zstd_stream), (''lz4'', Lz4_message), (''zlib'', Zlib_deflate_stream),
      (''deflate'', Zlib_deflate_stream)]"

definition to_algorithm :: "string \<Rightarrow> algorithm" where
  "to_algorithm name =
     (case find (\<lambda>(n, a). iequal n name) algorithm_mapping of
        None \<Rightarrow> No_algorithm | Some (_, a) \<Rightarrow> a)"

definition to_algorithms :: "string list \<Rightarrow> algorithm list" where
  "to_algorithms names = filter (\<lambda>a. a \<noteq> No_algorithm) (map to_algorithm names)"

definition algorithm_name :: "algorithm \<Rightarrow> string" where
  "algorithm_name a = (case a of
     Zstd_stream \<Rightarrow> ''zstd_stream'' | Lz4_message \<Rightarrow> ''lz4_message''
   | Zlib_deflate_stream \<Rightarrow> ''deflate_stream'' | No_algorithm \<Rightarrow> [])"

section \<open>What the server supports\<close>

definition add_supported_algorithm :: "zvalue \<Rightarrow> algorithm list \<Rightarrow> algorithm list" where
  "add_supported_algorithm z supported = (case z of
     String name \<Rightarrow>
       (let a = to_algorithm name in if a \<noteq> No_algorithm then supported @ [a] else supported)
   | _ \<Rightarrow> supported)"

definition add_supported_algorithms :: "zvalue \<Rightarrow> algorithm list \<Rightarrow> bool \<times> algorithm list" where
  "add_supported_algorithms caps supported =
     (let algs = get_property caps ''algorithm'' in
      if \<not> is_array algs then (False, supported)
      else let sup = fold add_supported_algorithm (zvalues algs) supported in (sup \<noteq> [], sup))"

definition gather_capabilities :: "zvalue \<Rightarrow> bool \<times> algorithm list" where
  "gather_capabilities raw =
     (if \<not> is_array raw then (False, [])
      else let caps = zfind raw ''compression'' in
           if \<not> is_object caps then (False, []) else add_supported_algorithms caps [])"

section \<open>Negotiating one algorithm\<close>

type_synonym 'n exchange = "zvalue \<Rightarrow> 'n \<Rightarrow> (xdevapi_error + bool) \<times> 'n"

definition compression_capability :: "configuration \<Rightarrow> zvalue" where
  "compression_capability cfg =
     (let p1 = set_property ''algorithm'' (String (algorithm_name (cfg_algorithm cfg))) [];
          p2 = (case combine_mixed_messages cfg of None \<Rightarrow> p1
                | Some b \<Rightarrow> set_property ''server_combine_mixed_messages'' (Bool b) p1);
          p3 = (case max_combine_messages cfg of None \<Rightarrow> p2
                | Some i \<Rightarrow> set_property ''server_max_combine_messages'' (Long (word_of_int i)) p2)
      in Array [(Key_name ''compression'', Object p3)])"

definition negotiate_run :: "'n exchange \<Rightarrow> configuration \<Rightarrow> 'n \<Rightarrow> (xdevapi_error + bool) \<times> 'n" where
  "negotiate_run exch cfg n = exch (compression_capability cfg) n"

text \<open>
  The exchange itself: the capabilities are sent, then the reply is read with the handlers of
  \<open>CapabilitiesSet\<close>, whose error callback throws what the server reported.  \<open>serialize\<close> is the
  protobuf form of the request, 2 its message type.
\<close>

definition throwing_binds :: "unit binds" where
  "throwing_binds = no_binds\<lparr>bd_error := Some (\<lambda>ecode st msg a. (Inl (Server_error ecode st msg), a))\<rparr>"

definition caps_set_exchange ::
  "nat \<Rightarrow> 'v vio \<Rightarrow> 'z compressor \<Rightarrow> pb \<Rightarrow> (zvalue \<Rightarrow> bytes) \<Rightarrow> nat \<Rightarrow> nat \<Rightarrow>
   ('v, 'z) msg_ctx exchange" where
  "caps_set_exchange fuel io lib P serialize mps addr caps ctx =
     (case send_message io lib P mps addr 2 (serialize caps) ctx of
        None \<Rightarrow> (Inr False, ctx)
      | Some (FAIL, ctx1) \<Rightarrow> (Inr False, ctx1)
      | Some (PASS, ctx1) \<Rightarrow>
          (case receive_message fuel io P (capabilities_set_handlers throwing_binds) ((), ctx1) of
             None \<Rightarrow> (Inr False, ctx1)
           | Some (Inl e, s) \<Rightarrow> (Inl e, snd s)
           | Some (Inr st, s) \<Rightarrow> (Inr (st = PASS), snd s)))"

section \<open>The setup\<close>

definition prepare_algorithms_to_negotiate :: "string list option \<Rightarrow> algorithm list" where
  "prepare_algorithms_to_negotiate custom = (case custom of
     Some names \<Rightarrow> to_algorithms names
   | None \<Rightarrow> [Zstd_stream, Lz4_message, Zlib_deflate_stream])"

definition is_compressor_available :: "(algorithm \<Rightarrow> bool) \<Rightarrow> algorithm \<Rightarrow> bool" where
  "is_compressor_available avail a \<longleftrightarrow> a \<noteq> No_algorithm \<and> avail a"

definition is_any_compressor_available :: "(algorithm \<Rightarrow> bool) \<Rightarrow> algorithm list \<Rightarrow> bool" where
  "is_any_compressor_available avail algs \<longleftrightarrow> (\<exists>a\<in>set algs. is_compressor_available avail a)"

definition is_algorithm_supported ::
  "(algorithm \<Rightarrow> bool) \<Rightarrow> algorithm list \<Rightarrow> algorithm \<Rightarrow> bool" where
  "is_algorithm_supported avail supported a \<longleftrightarrow>
     a \<in> set supported \<and> is_compressor_available avail a"

fun negotiate ::
  "(algorithm \<Rightarrow> bool) \<Rightarrow> algorithm list \<Rightarrow> 'n exchange \<Rightarrow> algorithm list \<Rightarrow> 'n \<Rightarrow>
   (xdevapi_error + configuration option) \<times> 'n" where
  "negotiate avail supported exch [] n = (Inr None, n)"
| "negotiate avail supported exch (a # algs) n =
     (if \<not> is_algorithm_supported avail supported a then negotiate avail supported exch algs n
      else case negotiate_run exch (make_configuration a) n of
        (Inl e, n') \<Rightarrow> (Inl e, n')
      | (Inr True, n') \<Rightarrow> (Inr (Some (make_configuration a)), n')
      | (Inr False, n') \<Rightarrow> negotiate avail supported exch algs n')"

definition setup_run ::
  "(algorithm \<Rightarrow> bool) \<Rightarrow> policy \<Rightarrow> string list option \<Rightarrow> 'n exchange \<Rightarrow> zvalue \<Rightarrow> 'n \<Rightarrow>
   (xdevapi_error + configuration) \<times> 'n" where
  "setup_run avail pol custom exch raw n =
     (let none = make_configuration No_algorithm;
          algs = prepare_algorithms_to_negotiate custom;
          (gathered, supported) = gather_capabilities raw
      in if pol = Disabled then (Inr none, n)
         else if \<not> gathered \<and> pol = Required then (Inl Compression_not_supported, n)
         else if pol = Required \<and> \<not> is_any_compressor_available avail algs
         then (Inl Compressor_not_available, n)
         else case negotiate avail supported exch algs n of
                (Inl e, n') \<Rightarrow> (Inl e, n')
              | (Inr None, n') \<Rightarrow>
                  if pol = Required then (Inl Compression_negotiation_failure, n') else (Inr none, n')
              | (Inr (Some cfg), n') \<Rightarrow> (Inr cfg, n'))"

section \<open>Facts\<close>

lemma set_to_algorithms: "No_algorithm \<notin> set (to_algorithms names)"
  by (simp add: to_algorithms_def)

lemma negotiate_Some:
  assumes "negotiate avail supported exch algs n = (Inr (Some cfg), n')"
  shows "\<exists>a pre suf. cfg = make_configuration a \<and> algs = pre @ a # suf \<and>
     is_algorithm_supported avail supported a"
  using assms
proof (induction algs arbitrary: n)
  case (Cons a algs)
  show ?case
  proof (cases "is_algorithm_supported avail supported a \<and>
      fst (negotiate_run exch (make_configuration a) n) = Inr True")
    case True
    then have "cfg = make_configuration a"
      using Cons.prems by (auto split: prod.splits)
    then show ?thesis using True by (intro exI[of _ a] exI[of _ "[]"] exI[of _ algs]) simp
  next
    case False
    then obtain n1 where "negotiate avail supported exch algs n1 = (Inr (Some cfg), n')"
      using Cons.prems by (auto split: prod.splits sum.splits bool.splits if_splits)
    then obtain b pre suf where "cfg = make_configuration b" "algs = pre @ b # suf"
      "is_algorithm_supported avail supported b" using Cons.IH by blast
    then show ?thesis by (intro exI[of _ b] exI[of _ "a # pre"] exI[of _ suf]) simp
  qed
qed simp

lemma negotiate_accepting:
  assumes "\<And>z m. exch z m = (Inr True, m)"
  shows "negotiate avail supported exch algs n =
     (Inr (map_option make_configuration (find (is_algorithm_supported avail supported) algs)), n)"
  by (induction algs) (simp_all add: negotiate_run_def assms)

section \<open>Properties\<close>

text \<open>
  C17: the outcome of the negotiation respects the policy.  Whatever the server's answers, an
  algorithm is only agreed on that the client listed (or that is in the default list), the server
  announced and the build has; with \<open>required\<close> the setup never returns an uncompressed connection,
  it throws instead; with \<open>disabled\<close> it returns none without any exchange.
\<close>

theorem compression_policy_respected:
  assumes "setup_run avail pol custom exch raw n = (Inr cfg, n')"
  shows "(cfg_enabled cfg \<longrightarrow>
        cfg_algorithm cfg \<in> set (prepare_algorithms_to_negotiate custom) \<and>
        cfg_algorithm cfg \<in> set (snd (gather_capabilities raw)) \<and> avail (cfg_algorithm cfg)) \<and>
     (pol = Required \<longrightarrow> cfg_enabled cfg) \<and>
     (pol = Disabled \<longrightarrow> \<not> cfg_enabled cfg \<and> n' = n)"
proof -
  obtain gathered supported where g: "gather_capabilities raw = (gathered, supported)" by fastforce
  consider (none) "cfg = make_configuration No_algorithm" "pol \<noteq> Required" "pol = Disabled \<longrightarrow> n' = n"
    | (some) "pol \<noteq> Disabled" "negotiate avail supported exch (prepare_algorithms_to_negotiate custom) n =
        (Inr (Some cfg), n')"
    using assms by (auto simp: setup_run_def g Let_def split: if_splits prod.splits sum.splits option.splits)
  then show ?thesis
  proof cases
    case none
    then show ?thesis by (simp add: cfg_enabled_def make_configuration_def)
  next
    case some
    from negotiate_Some[OF some(2)] obtain a pre suf where
      "cfg = make_configuration a" "prepare_algorithms_to_negotiate custom = pre @ a # suf"
      "is_algorithm_supported avail supported a" by blast
    then show ?thesis using some(1)
      by (simp add: g cfg_enabled_def make_configuration_def is_algorithm_supported_def
          is_compressor_available_def)
  qed
qed

definition some_capabilities :: zvalue where
  "some_capabilities = Array [(Key_name ''compression'', Object [(''algorithm'',
     Array [(Key_index 0, String ''deflate_stream''), (Key_index 1, String ''LZ4_message'')])])]"

theorem compression_policy_respected_witness:
  "cfg_enabled (make_configuration Lz4_message) \<and>
   cfg_algorithm (make_configuration Lz4_message) \<in> set (snd (gather_capabilities some_capabilities))"
proof -
  have "setup_run (\<lambda>a. True) Required (Some [''ZSTD'', ''lz4'']) (\<lambda>z n. (Inr True, n)) some_capabilities () =
      (Inr (make_configuration Lz4_message), ())"
    by code_simp
  from compression_policy_respected[OF this] show ?thesis by simp
qed

text \<open>
  The client's order decides.  When the server accepts what it announced, the agreed algorithm
  is the first one of the client's list that the server announced and the build has, and
  compression is off (or the setup throws, if required) when there is none.
\<close>

lemma client_order_decides:
  assumes "\<And>z m. exch z m = (Inr True, m)"
  shows "setup_run avail Preferred custom exch raw n =
     (Inr (case find (is_algorithm_supported avail (snd (gather_capabilities raw)))
             (prepare_algorithms_to_negotiate custom) of
             None \<Rightarrow> make_configuration No_algorithm
           | Some a \<Rightarrow> make_configuration a), n)"
  by (cases "find (is_algorithm_supported avail (snd (gather_capabilities raw)))
        (prepare_algorithms_to_negotiate custom)")
    (simp_all add: setup_run_def Let_def negotiate_accepting[OF assms] case_prod_beta)

lemma client_order_decides_example:
  "setup_run (\<lambda>a. True) Preferred (Some [''zstd'', ''LZ4'', ''deflate'']) (\<lambda>z m. (Inr True, m))
     some_capabilities () = (Inr (make_configuration Lz4_message), ())"
proof -
  have "find (is_algorithm_supported (\<lambda>a. True) (snd (gather_capabilities some_capabilities)))
      (prepare_algorithms_to_negotiate (Some [''zstd'', ''LZ4'', ''deflate''])) = Some Lz4_message"
    by code_simp
  then show ?thesis
    using client_order_decides[of "\<lambda>z m. (Inr True, m)" "\<lambda>a. True" "Some [''zstd'', ''LZ4'', ''deflate'']"
        some_capabilities "()"] by simp
qed

text \<open>
  A refusal by the server is not survived, even if compression is only preferred.  When the
  server answers the first supported algorithm with an error, the setup throws that error: the
  remaining algorithms are not tried and no uncompressed connection is returned.
\<close>

lemma preferred_refusal_throws:
  assumes "is_algorithm_supported avail (snd (gather_capabilities raw)) a"
    and "prepare_algorithms_to_negotiate custom = a # algs"
    and "exch (compression_capability (make_configuration a)) n = (Inl e, n')"
  shows "setup_run avail Preferred custom exch raw n = (Inl e, n')"
  using assms by (simp add: setup_run_def Let_def negotiate_run_def case_prod_beta)

lemma preferred_refusal_throws_example:
  "setup_run (\<lambda>a. True) Preferred (Some [''deflate'', ''lz4''])
     (\<lambda>z n. if z = compression_capability (make_configuration Zlib_deflate_stream)
            then (Inl (Server_error 5175 ''HY000'' ''no''), n) else (Inr True, n)) some_capabilities () =
     (Inl (Server_error 5175 ''HY000'' ''no''), ())"
proof (rule preferred_refusal_throws)
  show "is_algorithm_supported (\<lambda>a. True) (snd (gather_capabilities some_capabilities)) Zlib_deflate_stream"
    by code_simp
  show "prepare_algorithms_to_negotiate (Some [''deflate'', ''lz4'']) = Zlib_deflate_stream # [Lz4_message]"
    by code_simp
qed simp

end
