(* ===== verification/Row_Decode.thy ===== *)
theory Row_Decode
  imports Result_Meta
begin

unbundle bit_operations_syntax

text \<open>
  Decoding of the fields of a row into PHP values, after the
  \<^verbatim>\<open>xmysqlnd_row_..._field_to_zval\<close> functions of \<^verbatim>\<open>src/xmysqlnd/xmysqlnd_wireprotocol.cc\<close>.  The
  protobuf input stream is a parameter (\<open>coded_input\<close>): reading a varint or a fixed-width value
  off the front of the buffer, the unread rest as a direct buffer, skipping, and the zigzag and
  float conversions.  Each decoder returns the status and the value left in the caller's \<^verbatim>\<open>zval\<close>,
  which starts as null; a value of 64-bit PHP.
\<close>

record coded_input =
  read_varint64 :: "bytes \<Rightarrow> (64 word \<times> bytes) option"
  read_little_endian64 :: "bytes \<Rightarrow> 64 word option"
  read_little_endian32 :: "bytes \<Rightarrow> 32 word option"
  zigzag_decode64 :: "64 word \<Rightarrow> 64 word"
  direct_buffer :: "bytes \<Rightarrow> bytes option"
  skip_bytes :: "nat \<Rightarrow> bytes \<Rightarrow> bytes option"
  float_to_double :: "32 word \<Rightarrow> int \<Rightarrow> 64 word"

section \<open>Numbers\<close>

definition read_variant_64 :: "coded_input \<Rightarrow> bytes \<Rightarrow> (64 word \<times> bytes) option" where
  "read_variant_64 ci bs = read_varint64 ci bs"

definition row_sint :: "coded_input \<Rightarrow> bytes \<Rightarrow> func_status \<times> zvalue" where
  "row_sint ci buf = (case read_variant_64 ci buf of
     Some (w, _) \<Rightarrow> (PASS, Long (zigzag_decode64 ci w))
   | None \<Rightarrow> (FAIL, Null))"

definition row_uint :: "coded_input \<Rightarrow> bytes \<Rightarrow> func_status \<times> zvalue" where
  "row_uint ci buf = (case read_variant_64 ci buf of
     Some (w, _) \<Rightarrow>
       if 9223372036854775807 < w then (PASS, String (dec_string (unat w))) else (PASS, Long w)
   | None \<Rightarrow> (FAIL, Null))"

definition row_double :: "coded_input \<Rightarrow> bytes \<Rightarrow> func_status \<times> zvalue" where
  "row_double ci buf = (case read_little_endian64 ci buf of
     Some w \<Rightarrow> (PASS, Double w) | None \<Rightarrow> (FAIL, Null))"

definition row_float :: "coded_input \<Rightarrow> field_meta \<Rightarrow> bytes \<Rightarrow> func_status \<times> zvalue" where
  "row_float ci f buf = (case read_little_endian32 ci buf of
     Some w \<Rightarrow>
       (PASS, Double (float_to_double ci w
          (if 31 \<le> fm_fractional_digits f then -1 else int (fm_fractional_digits f))))
   | None \<Rightarrow> (FAIL, Null))"

section \<open>Dates and times\<close>

text \<open>
  The chain of reads with a \<^verbatim>\<open>break\<close> at the first failure: what was not read stays 0.
\<close>

fun read_values :: "coded_input \<Rightarrow> nat \<Rightarrow> bytes \<Rightarrow> nat list" where
  "read_values ci 0 bs = []"
| "read_values ci (Suc k) bs = (case read_variant_64 ci bs of
     None \<Rightarrow> replicate (Suc k) 0
   | Some (w, rest) \<Rightarrow> unat w # read_values ci k rest)"

definition row_time :: "coded_input \<Rightarrow> bytes \<Rightarrow> func_status \<times> zvalue" where
  "row_time ci buf = (case buf of
     [] \<Rightarrow> (PASS, Null)
   | [b] \<Rightarrow> if b = 0 then (PASS, String ''00:00:00.00'') else (FAIL, Null)
   | _ \<Rightarrow> (case read_values ci 5 buf of
       [neg, h, m, s, us] \<Rightarrow>
         (PASS, String ((if neg \<noteq> 0 then ''-'' else []) @ pad0 2 h @ '':'' @ pad0 2 m @ '':'' @
            pad0 2 s @ ''.'' @ pad0 8 us))
     | _ \<Rightarrow> (FAIL, Null)))"

definition row_datetime :: "coded_input \<Rightarrow> bytes \<Rightarrow> func_status \<times> zvalue" where
  "row_datetime ci buf = (case buf of
     [] \<Rightarrow> (PASS, Null)
   | [b] \<Rightarrow> if b = 0 then (PASS, String ''0000-00-00 00:00:00.00'') else (FAIL, Null)
   | _ \<Rightarrow> (case read_values ci 7 buf of
       [y, mo, d, h, m, s, us] \<Rightarrow>
         (PASS, String (pad0 4 y @ ''-'' @ pad0 2 mo @ ''-'' @ pad0 2 d @ '' '' @ pad0 2 h @ '':'' @
            pad0 2 m @ '':'' @ pad0 2 s))
     | _ \<Rightarrow> (FAIL, Null)))"

definition row_date :: "coded_input \<Rightarrow> bytes \<Rightarrow> func_status \<times> zvalue" where
  "row_date ci buf = (case buf of
     [] \<Rightarrow> (FAIL, Null)
   | [b] \<Rightarrow> if b = 0 then (PASS, String ''0000-00-00'') else (FAIL, Null)
   | _ \<Rightarrow> (case read_values ci 3 buf of
       [y, mo, d] \<Rightarrow> (PASS, String (pad0 4 y @ ''-'' @ pad0 2 mo @ ''-'' @ pad0 2 d))
     | _ \<Rightarrow> (FAIL, Null)))"

section \<open>Sets\<close>

definition set_array :: "bytes list \<Rightarrow> zvalue" where
  "set_array vs = Array (fold push_back (map (\<lambda>v. String (text_of v)) vs) [])"

fun set_loop :: "coded_input \<Rightarrow> nat \<Rightarrow> bytes \<Rightarrow> bytes list \<Rightarrow> (func_status \<times> bytes list) option" where
  "set_loop ci 0 bs acc = None"
| "set_loop ci (Suc fuel) bs acc = (case read_variant_64 ci bs of
     None \<Rightarrow> Some (PASS, acc)
   | Some (w, bs1) \<Rightarrow> (case direct_buffer ci bs1 of
       None \<Rightarrow> set_loop ci fuel bs1 acc
     | Some rest \<Rightarrow>
         if length rest < unat w then Some (FAIL, acc)
         else (case skip_bytes ci (unat w) bs1 of
                 None \<Rightarrow> Some (PASS, acc @ [take (unat w) rest])
               | Some bs2 \<Rightarrow> set_loop ci fuel bs2 (acc @ [take (unat w) rest]))))"

definition row_set :: "coded_input \<Rightarrow> nat \<Rightarrow> bytes \<Rightarrow> (func_status \<times> zvalue) option" where
  "row_set ci fuel buf =
     (if buf = [1] then Some (PASS, Array [])
      else map_option (\<lambda>(st, vs). (st, set_array vs)) (set_loop ci fuel buf []))"

section \<open>Decimals\<close>

text \<open>
  \<open>digits\<close> and \<open>dot_position\<close> are \<^verbatim>\<open>size_t\<close> values.  A buffer of one byte passes the check that
  only warns, and the digit count wraps around: the loop would read far outside the buffer, the
  outcome \<open>None\<close>.
\<close>

definition decimal_sign :: "byte \<Rightarrow> byte" where
  "decimal_sign lastb = (if lastb AND 15 \<noteq> 0 then lastb else drop_bit 4 lastb) AND 15"

definition decimal_digits :: "nat \<Rightarrow> byte \<Rightarrow> nat" where
  "decimal_digits buf_size lastb =
     (uint_sub 64 buf_size 2 * 2 + (if 9 < lastb AND 15 then 1 else 0)) mod 2 ^ 64"

definition nibble :: "bytes \<Rightarrow> nat \<Rightarrow> nat" where
  "nibble buf pos =
     (let b = buf ! (1 + pos div 2) in unat ((if odd pos then b else drop_bit 4 b) AND 15))"

definition decimal_text :: "bytes \<Rightarrow> nat \<Rightarrow> nat \<Rightarrow> bool \<Rightarrow> string" where
  "decimal_text buf scale digits neg =
     (let dot_position = uint_sub 64 (uint_sub 64 digits scale) 1
      in (if neg then ''-'' else []) @
         concat (map (\<lambda>pos. char_of (48 + nibble buf pos) # (if pos = dot_position then ''.'' else []))
           [0..<digits]))"

definition d_val_len :: "nat \<Rightarrow> nat \<Rightarrow> bool \<Rightarrow> nat" where
  "d_val_len scale digits neg = digits + (if neg then 1 else 0) + (if scale < digits then 1 else 0)"

definition row_decimal :: "bytes \<Rightarrow> (func_status \<times> zvalue) option" where
  "row_decimal buf =
     (if buf = [] then Some (PASS, Null)
      else
        let scale = unat (hd buf); lastb = last buf;
            neg = (decimal_sign lastb = 13);
            digits = decimal_digits (length buf) lastb
        in if digits = 0 then Some (FAIL, Null)
           else if 2 * (length buf - 1) < digits then None
           else Some (PASS, String (decimal_text buf scale digits neg)))"

section \<open>Strings and the dispatch on the column type\<close>

definition row_string :: "bytes \<Rightarrow> func_status \<times> zvalue" where
  "row_string buf =
     (if buf \<noteq> [] then (PASS, String (text_of (take (length buf - 1) buf))) else (FAIL, Null))"

datatype datetime_type = FIELD_TYPE_DATE | FIELD_TYPE_DATETIME

definition get_datetime_type :: "field_meta \<Rightarrow> datetime_type" where
  "get_datetime_type f =
     (if fm_content_type_set f \<and> fm_content_type f = 1 then FIELD_TYPE_DATE else FIELD_TYPE_DATETIME)"

definition row_field_to_zval ::
  "coded_input \<Rightarrow> nat \<Rightarrow> field_meta \<Rightarrow> bytes \<Rightarrow> (func_status \<times> zvalue) option" where
  "row_field_to_zval ci fuel f buf =
     (let t = fm_type f in
      if buf = [] then Some (PASS, Null)
      else if t = 1 then Some (row_sint ci buf)
      else if t = 17 \<or> t = 2 then Some (row_uint ci buf)
      else if t = 5 then Some (row_double ci buf)
      else if t = 6 then Some (row_float ci f buf)
      else if t = 16 \<or> t = 7 then Some (row_string buf)
      else if t = 10 then Some (row_time ci buf)
      else if t = 12 then
        Some (case get_datetime_type f of
                FIELD_TYPE_DATETIME \<Rightarrow> row_datetime ci buf | FIELD_TYPE_DATE \<Rightarrow> row_date ci buf)
      else if t = 15 then row_set ci fuel buf
      else if t = 18 then row_decimal buf
      else Some (PASS, Null))"

end
