(* ===== verification/Row_Props.thy ===== *)
theory Row_Props
  imports Row_Decode
begin

unbundle bit_operations_syntax

text \<open>
  Properties of the row decoders: decimals, unsigned integers, dates and times, sets.
\<close>

section \<open>Decimals: the encoding\<close>

text \<open>
  The wire format of a decimal as \<^verbatim>\<open>proto_def/mysqlx_resultset.proto\<close> describes it: the scale, the
  digits packed two to a byte, a sign nibble, and a zero nibble where needed to fill the byte.
\<close>

fun pack_digits :: "nat list \<Rightarrow> bytes" where
  "pack_digits [] = []"
| "pack_digits [a] = [word_of_nat (16 * a)]"
| "pack_digits (a # b # ns) = word_of_nat (16 * a + b) # pack_digits ns"

definition decimal_encode :: "nat \<Rightarrow> bool \<Rightarrow> nat list \<Rightarrow> bytes" where
  "decimal_encode scale neg ds = word_of_nat scale # pack_digits (ds @ [if neg then 13 else 12])"

definition decimal_print :: "nat \<Rightarrow> bool \<Rightarrow> nat list \<Rightarrow> string" where
  "decimal_print scale neg ds =
     (let cs = map digit ds; k = length ds - scale
      in (if neg then ''-'' else []) @ (if scale < length ds then take k cs @ ''.'' @ drop k cs else cs))"

lemma and_15: "unat (w AND 15 :: byte) = unat w mod 16"
proof -
  have "w AND 15 = take_bit 4 w" by (simp add: take_bit_eq_mask mask_eq_exp_minus_1)
  then have "unat (w AND 15) = take_bit 4 (unat w)" by (simp only: unsigned_take_bit_eq)
  then show ?thesis by (simp add: take_bit_eq_mod)
qed

lemma unat_high: "unat (drop_bit 4 (w :: byte)) = unat w div 16"
proof -
  have "unat (drop_bit 4 w) = drop_bit 4 (take_bit 8 (unat w))"
    by (simp only: unsigned_drop_bit_eq) simp
  moreover have "take_bit 8 (unat w) = unat w" using unsigned_less[where 'a = nat, of w] by (simp add: take_bit_nat_eq_self)
  ultimately show ?thesis by (simp add: drop_bit_eq_div)
qed

lemma low_nibble: "b < 16 \<Longrightarrow> a < 16 \<Longrightarrow> unat ((word_of_nat (16 * a + b) :: byte) AND 15) = b"
  by (simp add: and_15 del: of_nat_add of_nat_mult)

lemma high_nibble: "b < 16 \<Longrightarrow> a < 16 \<Longrightarrow> unat (drop_bit 4 (word_of_nat (16 * a + b) :: byte) AND 15) = a"
  by (simp add: and_15 unat_high del: of_nat_add of_nat_mult)

lemma length_pack: "length (pack_digits ns) = (length ns + 1) div 2"
  by (induction ns rule: pack_digits.induct) auto

lemma nibble_pack:
  "i < length ns \<Longrightarrow> \<forall>n\<in>set ns. n < 16 \<Longrightarrow> nibble (s # pack_digits ns) i = ns ! i"
proof (induction ns arbitrary: i s rule: pack_digits.induct)
  case (2 a)
  then show ?case using high_nibble[of 0 a] by (simp add: nibble_def Let_def)
next
  case (3 a b ns)
  show ?case
  proof (cases "i < 2")
    case True
    then have "i = 0 \<or> i = 1" by auto
    then show ?thesis
      using 3(3) high_nibble[of b a] low_nibble[of b a]
      by (auto simp: nibble_def Let_def simp del: of_nat_add of_nat_mult)
  next
    case False
    then obtain j where j: "i = Suc (Suc j)" by (metis One_nat_def Suc_1 add_2_eq_Suc' le_Suc_ex not_less add.commute)
    have "nibble (s # pack_digits (a # b # ns)) i = nibble (s # pack_digits ns) j"
      by (simp add: nibble_def Let_def j)
    then show ?thesis using 3 j by simp
  qed
qed simp

lemma pack_ne: "pack_digits (ns @ [m]) \<noteq> []"
  by (cases ns rule: pack_digits.cases) auto

lemma last_pack_even:
  "even (length ns) \<Longrightarrow> last (pack_digits (ns @ [m])) = word_of_nat (16 * m)"
  by (induction ns rule: pack_digits.induct) (auto simp: pack_ne simp del: of_nat_mult)

lemma last_pack_odd:
  "odd (length ns) \<Longrightarrow> last (pack_digits (ns @ [m])) = word_of_nat (16 * last ns + m)"
proof (induction ns rule: pack_digits.induct)
  case (3 a b ns)
  then have "ns \<noteq> []" by auto
  then show ?case using 3 by (simp add: pack_ne del: of_nat_add of_nat_mult)
qed (simp_all del: of_nat_add of_nat_mult)

lemma dot_text:
  assumes "k < n"
  shows "concat (map (\<lambda>i. d i # (if i = k then ''.'' else [])) [0..<n]) =
     map d [0..<Suc k] @ ''.'' @ map d [Suc k..<n]"
proof -
  have a: "concat (map (\<lambda>i. d i # (if i = k then ''.'' else [])) [a..<b]) = map d [a..<b]"
    if "b \<le> k \<or> k < a" for a b
    using that by (induction b) auto
  have "[0..<n] = [0..<k] @ k # [Suc k..<n]" using assms by (metis le_eq_less_or_eq less_imp_le_nat upt_add_eq_append upt_conv_Cons le_add_diff_inverse zero_le)
  then show ?thesis using a[of k 0] a[of n "Suc k"] by simp
qed

lemma no_dot_text:
  assumes "n \<le> k"
  shows "concat (map (\<lambda>i. d i # (if i = k then ''.'' else [])) [0..<n]) = map d [0..<n]"
  using assms by (induction n) auto
section \<open>Decimals: facts\<close>

lemma uint_sub_neg: "a < b \<Longrightarrow> b \<le> 2 ^ w \<Longrightarrow> uint_sub w a b = a + 2 ^ w - b"
  by (simp add: uint_sub_def)

lemma dot_position:
  assumes "scale < 256" "0 < n" "n < 2 ^ 32"
  shows "uint_sub 64 (uint_sub 64 n scale) (Suc 0) =
     (if scale < n then n - scale - 1 else 2 ^ 64 + n - scale - 1)"
  using assms by (cases "scale < n"; cases "scale = n") (simp_all add: uint_sub_le uint_sub_neg)

lemma decimal_text_dot:
  assumes "scale < 256" "0 < n" "n < 2 ^ 32"
  shows "decimal_text buf scale n neg =
     (let cs = map (\<lambda>pos. char_of (48 + nibble buf pos)) [0..<n]; k = n - scale
      in (if neg then ''-'' else []) @ (if scale < n then take k cs @ ''.'' @ drop k cs else cs))"
proof (cases "scale < n")
  case True
  then have "n - scale - 1 < n" "Suc (n - scale - 1) = n - scale" using assms by auto
  moreover have "take (n - scale) (map f [0..<n]) = map f [0..<n - scale]"
    "drop (n - scale) (map f [0..<n]) = map f [n - scale..<n]" for f :: "nat \<Rightarrow> char"
    by (simp_all add: take_map drop_map)
  ultimately show ?thesis
    using True dot_text[of "n - scale - 1" n "\<lambda>pos. char_of (48 + nibble buf pos)"]
    by (simp add: decimal_text_def dot_position[OF assms] Let_def)
next
  case False
  then have "n \<le> 2 ^ 64 + n - scale - 1" using assms(1) by simp
  then show ?thesis
    using False no_dot_text[of n "2 ^ 64 + n - scale - 1" "\<lambda>pos. char_of (48 + nibble buf pos)"]
    by (simp add: decimal_text_def dot_position[OF assms] Let_def)
qed

lemma decimal_last:
  assumes "\<forall>d\<in>set ds. d < 10" "m = 12 \<or> m = 13"
  shows "decimal_sign (last (pack_digits (ds @ [m]))) = word_of_nat m"
    "9 < (last (pack_digits (ds @ [m])) AND 15) \<longleftrightarrow> odd (length ds)"
proof -
  let ?l = "last (pack_digits (ds @ [m]))"
  have m: "m < 16" "9 < m" using assms(2) by auto
  have "unat (?l AND 15) = (if odd (length ds) then m else 0)"
  proof (cases "odd (length ds)")
    case True
    then have "last ds < 16" using assms(1) last_in_set[of ds] by fastforce
    then show ?thesis using True m low_nibble[of m "last ds"] by (simp add: last_pack_odd del: of_nat_add of_nat_mult)
  next
    case False
    then show ?thesis using m low_nibble[of 0 m] by (simp add: last_pack_even del: of_nat_mult)
  qed
  moreover have "even (length ds) \<Longrightarrow> unat (drop_bit 4 ?l AND 15) = m"
    using m high_nibble[of 0 m] by (simp add: last_pack_even del: of_nat_mult)
  moreover have "(?l AND 15 = 0) \<longleftrightarrow> unat (?l AND 15) = 0" by (metis unat_eq_zero)
  ultimately have "unat (decimal_sign ?l) = m" using m by (auto simp: decimal_sign_def)
  moreover have "unat (word_of_nat m :: byte) = m" using m by simp
  ultimately show "decimal_sign ?l = word_of_nat m" by (metis word_unat_eq_iff)
  show "9 < (?l AND 15) \<longleftrightarrow> odd (length ds)"
    using \<open>unat (?l AND 15) = _\<close> m by (auto simp: word_less_nat_alt)
qed

text \<open>
  C32: decimals are decoded exactly.  The text of an encoded decimal is its sign and its digits
  with a point before the last \<open>scale\<close> of them, for any number of digits; when there are no
  more digits than \<open>scale\<close> the point is missing, and when \<open>scale\<close> is 0 the text ends in a point.
\<close>

theorem decimal_round_trip:
  assumes "ds \<noteq> []" "\<forall>d\<in>set ds. d < 10" "scale < 256" "length ds < 2 ^ 32"
  shows "row_decimal (decimal_encode scale neg ds) = Some (PASS, String (decimal_print scale neg ds))"
proof -
  define m where "m = (if neg then 13 else 12 :: nat)"
  let ?p = "pack_digits (ds @ [m])" and ?buf = "decimal_encode scale neg ds"
  have m: "m = 12 \<or> m = 13" by (simp add: m_def)
  have buf: "?buf = word_of_nat scale # ?p" by (simp add: decimal_encode_def m_def)
  have len: "length ?buf = 1 + (length ds + 2) div 2" by (simp add: buf length_pack)
  have lst: "last ?buf = last ?p" by (simp add: buf pack_ne)
  note dl = decimal_last[OF assms(2) m]
  have neg: "(decimal_sign (last ?buf) = 13) = neg"
    using dl(1) lst by (cases neg) (simp_all add: m_def)
  have "uint_sub 64 (length ?buf) 2 = length ds div 2"
    using assms(4) by (subst uint_sub_le) (simp_all add: len)
  then have digits: "decimal_digits (length ?buf) (last ?buf) = length ds"
    using assms(4) by (simp add: decimal_digits_def lst dl) presburger
  have nib: "map (\<lambda>pos. char_of (48 + nibble ?buf pos)) [0..<length ds] = map digit ds"
  proof (rule nth_equalityI)
    fix i assume "i < length (map (\<lambda>pos. char_of (48 + nibble ?buf pos) :: char) [0..<length ds])"
    then have i: "i < length ds" by simp
    moreover have "\<forall>n\<in>set (ds @ [m]). n < 16" using assms(2) m by auto
    ultimately have "nibble ?buf i = ds ! i"
      using nibble_pack[of i "ds @ [m]"] by (simp add: buf nth_append)
    then show "map (\<lambda>pos. char_of (48 + nibble ?buf pos)) [0..<length ds] ! i = map digit ds ! i"
      using i by (simp add: digit_def)
  qed simp
  have "unat (hd ?buf) = scale" using assms(3) by (simp add: buf)
  moreover have "\<not> 2 * (length ?buf - 1) < length ds" by (simp add: len)
  moreover have "?buf \<noteq> []" by (simp add: buf)
  ultimately show ?thesis
    using assms(1) decimal_text_dot[OF assms(3) _ assms(4), of ?buf neg]
    by (simp add: row_decimal_def Let_def digits neg nib decimal_print_def)
qed

theorem decimal_round_trip_witness:
  "row_decimal (decimal_encode 4 True [1, 2, 3, 4, 0, 1]) =
     Some (PASS, String (decimal_print 4 True [1, 2, 3, 4, 0, 1])) \<and>
   decimal_print 4 True [1, 2, 3, 4, 0, 1] = ''-12.3401'' \<and>
   decimal_encode 4 True [1, 2, 3, 4, 0, 1] = [4, 18, 52, 1, 208] \<and>
   decimal_print 0 False [4, 2] = ''42.''"
  using decimal_round_trip[of "[1, 2, 3, 4, 0, 1]" 4 True]
  by (simp add: decimal_print_def digit_def decimal_encode_def Let_def char_of_def bit_0)

text \<open>
  The decimal buffer has the right size.  Whatever the bytes of the field, the characters the
  loop writes are exactly as many as were allocated for them, so it neither overruns the buffer
  nor leaves part of it unset.
\<close>

lemma decimal_buffer_exact:
  assumes "scale < 256" "0 < digits" "digits < 2 ^ 32"
  shows "length (decimal_text buf scale digits neg) = d_val_len scale digits neg"
  using assms by (auto simp: decimal_text_dot d_val_len_def Let_def)

lemma decimal_buffer_exact_example:
  "length (decimal_text [2, 255, 77] 2 3 True) = d_val_len 2 3 True"
  by (rule decimal_buffer_exact) simp_all

text \<open>
  A field of one byte is only warned about: the digit count wraps and the digits would be read
  from beyond the field.
\<close>

lemma one_byte_decimal_overrun:
  "row_decimal [b] = None"
proof -
  have "uint_sub 64 1 2 = 2 ^ 64 - 1" by (simp add: uint_sub_def)
  then show ?thesis by (simp add: row_decimal_def decimal_digits_def Let_def)
qed

section \<open>The other types\<close>

text \<open>
  What the decoders rely on of the protobuf stream: the varint reader takes back what the encoder
  \<open>enc\<close> put at the front, the direct buffer is the non-empty rest or nothing, and skipping stays
  within the buffer.
\<close>

definition stream_of :: "coded_input \<Rightarrow> (64 word \<Rightarrow> bytes) \<Rightarrow> bool" where
  "stream_of ci enc \<longleftrightarrow>
     (\<forall>w rest. read_varint64 ci (enc w @ rest) = Some (w, rest)) \<and> (\<forall>w. enc w \<noteq> []) \<and>
     read_varint64 ci [] = None \<and>
     (\<forall>bs. direct_buffer ci bs = (if bs = [] then None else Some bs)) \<and>
     (\<forall>n bs. skip_bytes ci n bs = (if n \<le> length bs then Some (drop n bs) else None))"

lemma stream_ofD:
  assumes "stream_of ci enc"
  shows "read_variant_64 ci (enc w @ rest) = Some (w, rest)" "read_variant_64 ci (enc w) = Some (w, [])"
    "enc w \<noteq> []" "read_variant_64 ci [] = None"
    "direct_buffer ci bs = (if bs = [] then None else Some bs)"
    "n \<le> length bs \<Longrightarrow> skip_bytes ci n bs = Some (drop n bs)"
  using assms unfolding stream_of_def read_variant_64_def by (auto, metis append_Nil2)

text \<open>The protobuf base-128 encoding, for concrete instances.\<close>

fun base128 :: "nat \<Rightarrow> nat \<Rightarrow> bytes" where
  "base128 0 n = [word_of_nat n]"
| "base128 (Suc k) n =
     (if n < 128 then [word_of_nat n] else word_of_nat (n mod 128 + 128) # base128 k (n div 128))"

fun unbase128 :: "nat \<Rightarrow> bytes \<Rightarrow> (nat \<times> bytes) option" where
  "unbase128 k [] = None"
| "unbase128 k (b # bs) =
     (if unat b < 128 then Some (unat b, bs)
      else case k of 0 \<Rightarrow> None
           | Suc k' \<Rightarrow> map_option (\<lambda>(n, r). (unat b - 128 + 128 * n, r)) (unbase128 k' bs))"

definition protobuf_input :: coded_input where
  "protobuf_input = \<lparr>
     read_varint64 = \<lambda>bs. map_option (\<lambda>(n, r). (word_of_nat n, r)) (unbase128 9 bs),
     read_little_endian64 = \<lambda>bs. if length bs < 8 then None else Some (word_of_nat (le_load (take 8 bs))),
     read_little_endian32 = \<lambda>bs. if length bs < 4 then None else Some (word_of_nat (le_load (take 4 bs))),
     zigzag_decode64 = \<lambda>w. if even w then w div 2 else - (w div 2) - 1,
     direct_buffer = \<lambda>bs. if bs = [] then None else Some bs,
     skip_bytes = \<lambda>n bs. if n \<le> length bs then Some (drop n bs) else None,
     float_to_double = \<lambda>w d. 0\<rparr>"

lemma unbase128_base128: "n < 128 ^ Suc k \<Longrightarrow> unbase128 k (base128 k n @ rest) = Some (n, rest)"
proof (induction k arbitrary: n)
  case (Suc k)
  show ?case
  proof (cases "n < 128")
    case False
    have "n div 128 < 128 ^ Suc k" using Suc.prems by (simp add: less_mult_imp_div_less)
    then show ?thesis using False Suc.IH[of "n div 128"] by (simp del: of_nat_add)
  qed simp
qed simp

lemma base128_ne [simp]: "base128 k n \<noteq> []"
  by (cases k) auto

lemma base128_small: "n < 128 \<Longrightarrow> base128 k n = [word_of_nat n]"
  by (cases k) auto

lemma protobuf_input_stream: "stream_of protobuf_input (\<lambda>w. base128 9 (unat w))"
proof -
  have "unat w < 128 ^ Suc 9" for w :: "64 word"
    using unsigned_less[where 'a = nat, of w] by simp
  then show ?thesis
    by (simp add: stream_of_def protobuf_input_def unbase128_base128)
qed

text \<open>
  No unsigned value is lost.  A value that fits a PHP integer is returned as that integer, a
  larger one as the string of its decimal digits, so the number can always be recovered.
\<close>

lemma unsigned_value_kept:
  assumes "read_varint64 ci buf = Some (w, rest)"
  shows "case row_uint ci buf of
     (PASS, Long v) \<Rightarrow> sint v = int (unat w)
   | (PASS, String s) \<Rightarrow> stoull s = Some w \<and> 2 ^ 63 \<le> unat w
   | _ \<Rightarrow> False"
proof -
  have lt: "unat w < 2 ^ 64" using unsigned_less[where 'a = nat, of w] by simp
  show ?thesis
  proof (cases "9223372036854775807 < w")
    case True
    then have "2 ^ 63 \<le> unat w" by (simp add: word_less_nat_alt)
    then show ?thesis using True assms lt stoull_dec_string[OF lt]
      by (simp add: row_uint_def read_variant_64_def)
  next
    case False
    then have "unat w < 2 ^ 63" by (simp add: word_less_nat_alt)
    then have "int (unat w) < int (2 ^ 63)" by (simp only: of_nat_less_iff)
    then have "uint w < 2 ^ 63" by (simp only: uint_nat of_nat_power of_nat_numeral)
    then have "sint w = uint w"
      by (simp add: sint_uint signed_take_bit_int_eq_self order.trans[of _ 0])
    then have "sint w = int (unat w)" by (simp only: uint_nat)
    then show ?thesis using False assms by (simp add: row_uint_def read_variant_64_def)
  qed
qed

lemma unsigned_value_kept_example:
  "case row_uint protobuf_input (base128 9 18446744073709551615) of
     (PASS, Long v) \<Rightarrow> sint v = int (unat (18446744073709551615 :: 64 word))
   | (PASS, String s) \<Rightarrow> stoull s = Some 18446744073709551615 \<and>
       2 ^ 63 \<le> unat (18446744073709551615 :: 64 word)
   | _ \<Rightarrow> False"
  by (rule unsigned_value_kept[where rest = "[]"])
    (use unbase128_base128[of 18446744073709551615 9 "[]"] in \<open>simp add: protobuf_input_def\<close>)

text \<open>
  A date and time is printed field by field, and its fraction is dropped.  For every year,
  month, day, hour, minute and second the text is the zero-padded date and time, whatever the
  microseconds; every field but the microseconds can be read back from it.
\<close>

lemma datetime_text:
  assumes "stream_of ci enc"
  shows "row_datetime ci (enc y @ enc mo @ enc d @ enc h @ enc m @ enc s @ enc us) =
     (PASS, String (pad0 4 (unat y) @ ''-'' @ pad0 2 (unat mo) @ ''-'' @ pad0 2 (unat d) @ '' '' @
        pad0 2 (unat h) @ '':'' @ pad0 2 (unat m) @ '':'' @ pad0 2 (unat s)))"
proof -
  note st = stream_ofD[OF assms]
  obtain b1 b2 bs where "enc y @ enc mo @ enc d @ enc h @ enc m @ enc s @ enc us = b1 # b2 # bs"
    using st(3)[of y] st(3)[of mo] by (cases "enc y"; cases "enc mo"; cases "tl (enc y)") auto
  then have "row_datetime ci (enc y @ enc mo @ enc d @ enc h @ enc m @ enc s @ enc us) =
      (case read_values ci 7 (enc y @ enc mo @ enc d @ enc h @ enc m @ enc s @ enc us) of
       [y, mo, d, h, m, s, us] \<Rightarrow>
         (PASS, String (pad0 4 y @ ''-'' @ pad0 2 mo @ ''-'' @ pad0 2 d @ '' '' @ pad0 2 h @ '':'' @
            pad0 2 m @ '':'' @ pad0 2 s))
     | _ \<Rightarrow> (FAIL, Null))"
    by (simp add: row_datetime_def)
  then show ?thesis by (simp add: eval_nat_numeral st)
qed

lemma datetime_text_example:
  "row_datetime protobuf_input (base128 9 (unat (2024 :: 64 word)) @ base128 9 (unat (2 :: 64 word)) @
     base128 9 (unat (29 :: 64 word)) @ base128 9 (unat (7 :: 64 word)) @ base128 9 (unat (5 :: 64 word)) @
     base128 9 (unat (9 :: 64 word)) @ base128 9 (unat (123456 :: 64 word))) =
   (PASS, String (pad0 4 (unat (2024 :: 64 word)) @ ''-'' @ pad0 2 (unat (2 :: 64 word)) @ ''-'' @
     pad0 2 (unat (29 :: 64 word)) @ '' '' @ pad0 2 (unat (7 :: 64 word)) @ '':'' @
     pad0 2 (unat (5 :: 64 word)) @ '':'' @ pad0 2 (unat (9 :: 64 word))))"
  by (rule datetime_text[OF protobuf_input_stream])

lemma pad0_8: "n < 10 ^ 6 \<Longrightarrow> pad0 8 n = ''00'' @ pad0 6 n"
proof -
  assume "n < 10 ^ 6"
  then have "8 - length (dec_string n) = Suc (Suc (6 - length (dec_string n)))"
    using length_dec_string_le[of n 6] by linarith
  then show ?thesis by (simp add: pad0_def)
qed

text \<open>
  The fraction of a time is printed a hundred times too small.  The microseconds, six digits
  of a second, are padded to eight digits after the point, so the first two digits of the
  printed fraction are always zero.
\<close>

lemma time_fraction_scaled:
  assumes "stream_of ci enc" "unat us < 10 ^ 6"
  shows "row_time ci (enc neg @ enc h @ enc m @ enc s @ enc us) =
     (PASS, String ((if neg \<noteq> 0 then ''-'' else []) @ pad0 2 (unat h) @ '':'' @ pad0 2 (unat m) @ '':'' @
        pad0 2 (unat s) @ ''.00'' @ pad0 6 (unat us)))"
proof -
  note st = stream_ofD[OF assms(1)]
  obtain b1 b2 bs where "enc neg @ enc h @ enc m @ enc s @ enc us = b1 # b2 # bs"
    using st(3)[of neg] st(3)[of h] by (cases "enc neg"; cases "enc h"; cases "tl (enc neg)") auto
  then have "row_time ci (enc neg @ enc h @ enc m @ enc s @ enc us) =
      (case read_values ci 5 (enc neg @ enc h @ enc m @ enc s @ enc us) of
       [neg, h, m, s, us] \<Rightarrow>
         (PASS, String ((if neg \<noteq> 0 then ''-'' else []) @ pad0 2 h @ '':'' @ pad0 2 m @ '':'' @
            pad0 2 s @ ''.'' @ pad0 8 us))
     | _ \<Rightarrow> (FAIL, Null))"
    by (simp add: row_time_def)
  moreover have "read_values ci 5 (enc neg @ enc h @ enc m @ enc s @ enc us) =
      [unat neg, unat h, unat m, unat s, unat us]"
    by (simp add: eval_nat_numeral st)
  ultimately show ?thesis using pad0_8[OF assms(2)] by (simp add: unat_eq_zero)
qed

lemma time_fraction_scaled_example:
  "row_time protobuf_input (base128 9 (unat (0 :: 64 word)) @ base128 9 (unat (1 :: 64 word)) @
     base128 9 (unat (2 :: 64 word)) @ base128 9 (unat (3 :: 64 word)) @ base128 9 (unat (500000 :: 64 word))) =
   (PASS, String ((if (0 :: 64 word) \<noteq> 0 then ''-'' else []) @ pad0 2 (unat (1 :: 64 word)) @ '':'' @
     pad0 2 (unat (2 :: 64 word)) @ '':'' @ pad0 2 (unat (3 :: 64 word)) @ ''.00'' @
     pad0 6 (unat (500000 :: 64 word))))"
  by (rule time_fraction_scaled[OF protobuf_input_stream]) simp

section \<open>Sets\<close>

definition set_item :: "(64 word \<Rightarrow> bytes) \<Rightarrow> bytes \<Rightarrow> bytes" where
  "set_item enc v = enc (word_of_nat (length v)) @ v"

definition without_last_blank :: "bytes list \<Rightarrow> bytes list" where
  "without_last_blank vs = (if vs \<noteq> [] \<and> last vs = [] then butlast vs else vs)"

lemma set_loop_items:
  assumes st: "stream_of ci enc" and "\<forall>v\<in>set vs. length v < 2 ^ 64" "length vs < fuel"
  shows "set_loop ci fuel (concat (map (set_item enc) vs)) acc =
     Some (PASS, acc @ without_last_blank vs)"
  using assms(2-)
proof (induction vs arbitrary: fuel acc)
  case Nil
  then show ?case using stream_ofD(4)[OF st] by (cases fuel) (auto simp: without_last_blank_def)
next
  case (Cons v vs)
  then obtain fuel' where fuel: "fuel = Suc fuel'" by (cases fuel) auto
  let ?rest = "concat (map (set_item enc) vs)"
  have n: "unat (word_of_nat (length v) :: 64 word) = length v"
    using Cons.prems(1) by (simp add: unat_of_nat)
  have rest: "(?rest = []) = (vs = [])"
    using stream_ofD(3)[OF st] by (cases vs) (auto simp: set_item_def)
  have IH: "set_loop ci fuel' ?rest acc' = Some (PASS, acc' @ without_last_blank vs)" for acc'
    using Cons.prems fuel by (intro Cons.IH) auto
  show ?case
  proof (cases "v = [] \<and> vs = []")
    case True
    then show ?thesis using IH[of acc] stream_ofD[OF st]
      by (simp add: fuel set_item_def without_last_blank_def)
  next
    case False
    then have "v @ ?rest \<noteq> []" using rest by simp
    then have "direct_buffer ci (v @ ?rest) = Some (v @ ?rest)"
      using stream_ofD(5)[OF st] by presburger
    then have "set_loop ci fuel (concat (map (set_item enc) (v # vs))) acc =
        set_loop ci fuel' ?rest (acc @ [v])"
      using stream_ofD(1)[OF st] stream_ofD(6)[OF st, of "length v" "v @ ?rest"]
      by (simp add: fuel set_item_def n)
    then show ?thesis using False IH by (auto simp: without_last_blank_def)
  qed
qed

text \<open>
  A set is decoded to its members.  For every list of strings whose last one is not blank,
  the encoded set is decoded to the list of those strings in order, and the loop ends within one
  round more than there are members.
\<close>

lemma set_round_trip:
  assumes "stream_of ci enc" "vs \<noteq> []" "last vs \<noteq> []" "\<forall>v\<in>set vs. length v < 2 ^ 64"
    and "concat (map (set_item enc) vs) \<noteq> [1]"
  shows "row_set ci (Suc (length vs)) (concat (map (set_item enc) vs)) = Some (PASS, set_array vs)"
  using assms set_loop_items[OF assms(1,4), of "Suc (length vs)" "[]"]
  by (simp add: row_set_def without_last_blank_def)

lemma set_round_trip_example:
  "row_set protobuf_input (Suc (length [[70, 79, 79], [66 :: byte]]))
     (concat (map (set_item (\<lambda>w. base128 9 (unat w))) [[70, 79, 79], [66]])) =
     Some (PASS, set_array [[70, 79, 79], [66]])"
  by (rule set_round_trip[OF protobuf_input_stream]) (simp_all add: set_item_def base128_small)

text \<open>
  A blank member at the end of a set is lost.  In particular the set whose only member is
  the blank string, encoded as a single zero byte, is decoded to the empty set: the member is only
  added when bytes are left behind its length.
\<close>

lemma trailing_blank_member_lost:
  assumes "stream_of ci enc" "\<forall>v\<in>set vs. length v < 2 ^ 64"
    and "concat (map (set_item enc) (vs @ [[]])) \<noteq> [1]"
  shows "row_set ci (Suc (length (vs @ [[]]))) (concat (map (set_item enc) (vs @ [[]]))) =
     Some (PASS, set_array vs)"
  using assms set_loop_items[of ci enc "vs @ [[]]" "Suc (length (vs @ [[]]))" "[]"]
  by (simp add: row_set_def without_last_blank_def)

lemma trailing_blank_member_lost_example:
  "row_set protobuf_input (Suc (length ([] @ [[] :: bytes])))
     (concat (map (set_item (\<lambda>w. base128 9 (unat w))) ([] @ [[]]))) = Some (PASS, set_array []) \<and>
   concat (map (set_item (\<lambda>w. base128 9 (unat w))) [[]]) = [0]"
proof
  show "row_set protobuf_input (Suc (length ([] @ [[] :: bytes])))
     (concat (map (set_item (\<lambda>w. base128 9 (unat w))) ([] @ [[]]))) = Some (PASS, set_array [])"
    by (rule trailing_blank_member_lost[OF protobuf_input_stream])
      (simp_all add: set_item_def base128_small)
qed (simp add: set_item_def base128_small)

end
