(* ===== verification/Session_State.thy ===== *)
theory Session_State
  imports Zvalue
begin

text \<open>
  The life of a session, after \<^verbatim>\<open>src/xmysqlnd/xmysqlnd_session.cc\<close>: its state and close reason
  (\<^verbatim>\<open>st_xmysqlnd_session_state\<close>), closing, resetting, and the callbacks by which the server's
  notices close it.  What the server answers is an argument: whether it supports keeping a
  session open, whether the reset was acknowledged, whether a new authentication passed.  The
  messages the session sends are recorded.
\<close>

datatype session_state =
    SESSION_ALLOCATED | SESSION_CONNECTING | SESSION_NON_AUTHENTICATED
  | SESSION_READY | SESSION_CLOSE_SENT | SESSION_CLOSED

datatype close_reason =
    Reason_none | Explicit | Implicit | Disconnect
  | Connection_io_read_error | Connection_server_shutdown | Connection_session_was_killed

datatype client_request =
    Req_expect_open | Req_expect_close | Req_session_close | Req_connection_close
  | Req_session_reset bool | Req_authenticate

record session =
  sn_state :: session_state
  sn_close_reason :: close_reason
  sn_supported :: "bool option"
  sn_pooled :: bool
  sn_callback :: "nat option"
  sn_stream_open :: bool
  sn_sent :: "client_request list"

definition new_session :: "nat \<Rightarrow> session" where
  "new_session self = \<lparr>sn_state = SESSION_ALLOCATED, sn_close_reason = Reason_none,
     sn_supported = None, sn_pooled = False, sn_callback = Some self, sn_stream_open = False,
     sn_sent = []\<rparr>"

section \<open>The state object\<close>

definition state_set :: "session_state \<Rightarrow> session \<Rightarrow> session" where
  "state_set st s = s\<lparr>sn_state := st, sn_close_reason := Reason_none\<rparr>"

definition set_closed :: "close_reason \<Rightarrow> session \<Rightarrow> session" where
  "set_closed r s = s\<lparr>sn_state := SESSION_CLOSED, sn_close_reason := r\<rparr>"

definition is_closed :: "session \<Rightarrow> bool" where
  "is_closed s \<longleftrightarrow> sn_state s = SESSION_CLOSED"

definition error_reason :: "close_reason \<Rightarrow> bool" where
  "error_reason r = (case r of
     Reason_none \<Rightarrow> False | Explicit \<Rightarrow> False | Implicit \<Rightarrow> False | Disconnect \<Rightarrow> False
   | Connection_io_read_error \<Rightarrow> True | Connection_server_shutdown \<Rightarrow> True
   | Connection_session_was_killed \<Rightarrow> True)"

definition has_closed_with_error :: "session \<Rightarrow> bool" where
  "has_closed_with_error s = error_reason (sn_close_reason s)"

definition get_close_exception_code :: "session \<Rightarrow> xdevapi_error" where
  "get_close_exception_code s = (case sn_close_reason s of
     Connection_io_read_error \<Rightarrow> Connection_closed_io_read_error
   | Connection_server_shutdown \<Rightarrow> Connection_closed_server_shutdown
   | Connection_session_was_killed \<Rightarrow> Connection_closed_session_was_killed
   | _ \<Rightarrow> Session_closed)"

section \<open>Closing\<close>

definition send :: "client_request \<Rightarrow> session \<Rightarrow> session" where
  "send req s = s\<lparr>sn_sent := sn_sent s @ [req]\<rparr>"

definition is_session_properly_supported :: "bool \<Rightarrow> session \<Rightarrow> bool \<times> session" where
  "is_session_properly_supported answer s = (case sn_supported s of
     Some b \<Rightarrow> (b, s)
   | None \<Rightarrow> (answer, (send Req_expect_close (send Req_expect_open s))\<lparr>sn_supported := Some answer\<rparr>))"

definition finish_close :: "close_reason \<Rightarrow> session \<Rightarrow> xdevapi_error option \<times> session" where
  "finish_close r s =
     (let s' = set_closed r (s\<lparr>sn_stream_open := False\<rparr>)
      in (if has_closed_with_error s' then Some (get_close_exception_code s') else None, s'))"

definition send_close :: "bool \<Rightarrow> close_reason \<Rightarrow> session \<Rightarrow> xdevapi_error option \<times> session" where
  "send_close answer r s = (case sn_state s of
     SESSION_READY \<Rightarrow>
       (case is_session_properly_supported answer s of (ok, s1) \<Rightarrow>
          finish_close r (send Req_connection_close (if ok then send Req_session_close s1 else s1)))
   | SESSION_NON_AUTHENTICATED \<Rightarrow> finish_close r (send Req_connection_close s)
   | SESSION_CLOSED \<Rightarrow> (None, s)
   | _ \<Rightarrow> finish_close r s)"

definition on_io_read_error :: "bool \<Rightarrow> session \<Rightarrow> xdevapi_error option \<times> session" where
  "on_io_read_error answer s = send_close answer Connection_io_read_error s"

definition on_server_shutdown :: "bool \<Rightarrow> session \<Rightarrow> xdevapi_error option \<times> session" where
  "on_server_shutdown answer s = send_close answer Connection_server_shutdown s"

definition on_session_was_killed :: "bool \<Rightarrow> session \<Rightarrow> xdevapi_error option \<times> session" where
  "on_session_was_killed answer s = send_close answer Connection_session_was_killed s"

section \<open>Resetting\<close>

definition send_reset :: "bool \<Rightarrow> bool \<Rightarrow> session \<Rightarrow> xdevapi_error option \<times> session" where
  "send_reset acknowledged keep_open s = (case sn_state s of
     SESSION_ALLOCATED \<Rightarrow> (Some Connection_failure, s)
   | SESSION_CONNECTING \<Rightarrow> (Some Connection_failure, s)
   | SESSION_CLOSED \<Rightarrow> (Some (get_close_exception_code s), s)
   | st \<Rightarrow>
       (let s1 = send (Req_session_reset keep_open) s in
        if \<not> acknowledged then (Some Session_reset_failure, s1)
        else (None, state_set (if st = SESSION_READY \<and> keep_open then SESSION_READY
                               else SESSION_NON_AUTHENTICATED) s1)))"

text \<open>
  The answers a reset depends on.  A new authentication that passes makes the session ready
  again.
\<close>

record answers =
  an_supported :: bool
  an_reset :: bool
  an_auth :: bool

definition authenticate :: "bool \<Rightarrow> session \<Rightarrow> bool \<times> session" where
  "authenticate passes s =
     (let s1 = send Req_authenticate s in (passes, if passes then state_set SESSION_READY s1 else s1))"

definition session_reset :: "answers \<Rightarrow> session \<Rightarrow> (xdevapi_error + bool) \<times> session" where
  "session_reset an s =
     (case is_session_properly_supported (an_supported an) s of (keep, s1) \<Rightarrow>
      case send_reset (an_reset an) keep s1 of
        (Some e, s2) \<Rightarrow> (Inl e, s2)
      | (None, s2) \<Rightarrow>
          if keep then (Inr True, s2)
          else case authenticate (an_auth an) s2 of (ok, s3) \<Rightarrow> (Inr ok, s3))"

section \<open>Facts\<close>

lemmas session_defs = send_close_def finish_close_def set_closed_def state_set_def is_closed_def
  has_closed_with_error_def send_def is_session_properly_supported_def

definition session_inv :: "session \<Rightarrow> bool" where
  "session_inv s \<longleftrightarrow> (sn_close_reason s \<noteq> Reason_none \<longrightarrow> is_closed s)"

lemma session_inv_ops:
  "session_inv (new_session i)"
  "session_inv s \<Longrightarrow> session_inv (snd (send_close answer r s))"
  "session_inv s \<Longrightarrow> session_inv (snd (session_reset an s))"
  by (auto simp: session_inv_def new_session_def session_defs session_reset_def send_reset_def
      authenticate_def Let_def split: session_state.splits option.splits if_splits prod.splits)

text \<open>
  C36: closing is final and the first reason counts.  After \<open>send_close\<close> the session is closed; one
  that was open carries the given reason, has its stream shut, and an exception is thrown exactly
  for the reasons that are errors; one that was closed already is left as it was, nothing is sent
  and nothing thrown, so a later close or server notice cannot change the reason.
\<close>

theorem close_is_final:
  "case send_close answer r s of (e, s') \<Rightarrow>
     is_closed s' \<and>
     (if is_closed s then s' = s \<and> e = None
      else sn_close_reason s' = r \<and> \<not> sn_stream_open s' \<and>
        e = (if error_reason r then Some (get_close_exception_code s') else None)) \<and>
     send_close answer' r' s' = (None, s')"
  by (cases "sn_state s")
    (simp_all add: session_defs error_reason_def Let_def split: option.split close_reason.split)

end
