(* ===== verification/Pool.thy ===== *)
theory Pool
  imports Session_State
begin

text \<open>
  The connection pool and the client options of \<^verbatim>\<open>src/mysqlx_client.cc\<close>.  Sessions are objects
  with an identity (the shared pointers of the source) kept in a store, because putting a session
  back into the pool moves its contents into a new object.  Each operation of the pool runs under
  its mutex and is one function; a thread that has to wait for a connection is \<open>Blocked\<close> and tries
  again with \<open>wake\<close>.  Times are milliseconds; the answers of the server are arguments.
\<close>

type_synonym sid = nat

section \<open>Client options\<close>

record pool_options =
  po_enabled :: bool
  po_max_size :: int
  po_max_idle_time :: int
  po_queue_timeout :: int

definition default_options :: pool_options where
  "default_options = \<lparr>po_enabled = True, po_max_size = 25, po_max_idle_time = 0, po_queue_timeout = 0\<rparr>"

definition allowed_options :: "string list" where
  "allowed_options = [''enabled'', ''maxSize'', ''maxIdleTime'', ''queueTimeOut'']"

definition verify_option :: "string \<Rightarrow> xdevapi_error + unit" where
  "verify_option name = (if name \<in> set allowed_options then Inr () else Inl (Invalid_argument name))"

fun verify_options :: "string list \<Rightarrow> xdevapi_error + unit" where
  "verify_options [] = Inr ()"
| "verify_options (k # ks) = ebind (verify_option k) (\<lambda>_. verify_options ks)"

definition assign_option ::
  "zvalue \<Rightarrow> string \<Rightarrow> (zvalue \<Rightarrow> 'b option) \<Rightarrow> ('b \<Rightarrow> bool) \<Rightarrow> 'b \<Rightarrow> xdevapi_error + 'b" where
  "assign_option desc name conv check old =
     (let z = get_property desc name in
      if \<not> has_value z then Inr old
      else case conv z of
             None \<Rightarrow> Inl (Invalid_argument name)
           | Some v \<Rightarrow> if check v then Inr v else Inl (Invalid_argument name))"

definition assign_options :: "zvalue \<Rightarrow> xdevapi_error + pool_options" where
  "assign_options desc =
     ebind (assign_option desc ''enabled'' optional_bool (\<lambda>_. True) (po_enabled default_options)) (\<lambda>en.
     ebind (assign_option desc ''maxSize'' optional_int32 (\<lambda>v. 0 < v) (po_max_size default_options)) (\<lambda>ms.
     ebind (assign_option desc ''maxIdleTime'' optional_int32 (\<lambda>v. 0 \<le> v) (po_max_idle_time default_options)) (\<lambda>mi.
     ebind (assign_option desc ''queueTimeOut'' optional_int32 (\<lambda>v. 0 \<le> v) (po_queue_timeout default_options)) (\<lambda>qt.
     Inr \<lparr>po_enabled = en, po_max_size = ms, po_max_idle_time = mi, po_queue_timeout = qt\<rparr>))))"

text \<open>\<open>parse\<close> is the JSON parser.  An empty description means the defaults.\<close>

definition parse_client_options ::
  "(string \<Rightarrow> xdevapi_error + zvalue) \<Rightarrow> string \<Rightarrow> xdevapi_error + pool_options" where
  "parse_client_options parse desc =
     (if desc = [] then Inr default_options
      else ebind (parse desc) (\<lambda>z.
        case z of
          Object ps \<Rightarrow> ebind (verify_options (map fst ps)) (\<lambda>_. assign_options z)
        | _ \<Rightarrow> Inl Json_object_expected))"

section \<open>The pool\<close>

record pool =
  pl_disabled :: bool
  pl_max_size :: nat
  pl_max_idle_time :: nat
  pl_queue_timeout :: nat
  pl_active :: "sid set"
  pl_idle :: "(sid \<times> nat) list"
  pl_next_prune :: nat

record world =
  wd_sessions :: "sid \<Rightarrow> session"
  wd_next :: sid

type_synonym pstate = "world \<times> pool"

definition new_pool :: "pool_options \<Rightarrow> pool" where
  "new_pool opts = \<lparr>pl_disabled = (\<not> po_enabled opts), pl_max_size = nat (po_max_size opts),
     pl_max_idle_time = nat (po_max_idle_time opts), pl_queue_timeout = nat (po_queue_timeout opts),
     pl_active = {}, pl_idle = [], pl_next_prune = 0\<rparr>"

datatype get_result = Got sid | Threw xdevapi_error | Blocked

definition is_full :: "pool \<Rightarrow> bool" where
  "is_full p \<longleftrightarrow> card (pl_active p) + length (pl_idle p) = pl_max_size p"

definition has_idle_connection :: "pool \<Rightarrow> bool" where
  "has_idle_connection p \<longleftrightarrow> pl_idle p \<noteq> []"

definition can_pool_connection :: "session \<Rightarrow> bool" where
  "can_pool_connection s \<longleftrightarrow> \<not> has_closed_with_error s"

definition update_session :: "sid \<Rightarrow> session \<Rightarrow> world \<Rightarrow> world" where
  "update_session i s w = w\<lparr>wd_sessions := (wd_sessions w)(i := s)\<rparr>"

definition create_new_connection :: "bool \<Rightarrow> world \<Rightarrow> (xdevapi_error + sid) \<times> world" where
  "create_new_connection connects w =
     (let i = wd_next w; s = new_session i; w1 = w\<lparr>wd_next := i + 1\<rparr> in
      if connects
      then (Inr i, update_session i (state_set SESSION_READY (s\<lparr>sn_stream_open := True\<rparr>)) w1)
      else (Inl Connection_failure, update_session i s w1))"

definition add_new_connection :: "bool \<Rightarrow> pstate \<Rightarrow> get_result \<times> pstate" where
  "add_new_connection connects wp =
     (case create_new_connection connects (fst wp) of
        (Inl e, w) \<Rightarrow> (Threw e, (w, snd wp))
      | (Inr i, w) \<Rightarrow>
          (Got i, (update_session i ((wd_sessions w i)\<lparr>sn_pooled := True\<rparr>) w,
                   (snd wp)\<lparr>pl_active := insert i (pl_active (snd wp))\<rparr>)))"

text \<open>The status that \<open>reset\<close> returns is ignored; an exception leaves the pool as already changed.\<close>

definition pop_idle_connection :: "answers \<Rightarrow> pstate \<Rightarrow> get_result \<times> pstate" where
  "pop_idle_connection an wp = (case pl_idle (snd wp) of
     [] \<Rightarrow> (Blocked, wp)
   | (i, _) # rest \<Rightarrow>
       (let p1 = (snd wp)\<lparr>pl_idle := rest, pl_active := insert i (pl_active (snd wp))\<rparr>
        in case session_reset an (wd_sessions (fst wp) i) of
             (Inl e, s) \<Rightarrow> (Threw e, (update_session i s (fst wp), p1))
           | (Inr _, s) \<Rightarrow> (Got i, (update_session i s (fst wp), p1))))"

text \<open>
  \<open>wake an timed_out\<close> is a waiting thread's next look at the pool: it goes on once an idle
  connection is there, and gives up when its timeout has passed.
\<close>

definition wake :: "answers \<Rightarrow> bool \<Rightarrow> pstate \<Rightarrow> get_result \<times> pstate" where
  "wake an timed_out wp =
     (if has_idle_connection (snd wp) then pop_idle_connection an wp
      else if pl_queue_timeout (snd wp) \<noteq> 0 \<and> timed_out then (Threw Runtime_error, wp)
      else (Blocked, wp))"

definition get_connection :: "bool \<Rightarrow> answers \<Rightarrow> pstate \<Rightarrow> get_result \<times> pstate" where
  "get_connection connects an wp =
     (if pl_disabled (snd wp) then
        case create_new_connection connects (fst wp) of
          (Inl e, w) \<Rightarrow> (Threw e, (w, snd wp))
        | (Inr i, w) \<Rightarrow> (Got i, (w, snd wp))
      else if has_idle_connection (snd wp) then pop_idle_connection an wp
      else if is_full (snd wp) then wake an False wp
      else add_new_connection connects wp)"

text \<open>
  Moving a session into a new object: the contents go over, with the pool callback; the old
  object stays behind closed.  The session callback, the object that server notices are sent to,
  is copied as it is.
\<close>

definition create_idle_connection :: "sid \<Rightarrow> world \<Rightarrow> sid \<times> world" where
  "create_idle_connection i w =
     (let s = wd_sessions w i; j = wd_next w;
          old = set_closed Reason_none (s\<lparr>sn_pooled := False, sn_callback := None\<rparr>)
      in (j, update_session i old (update_session j s (w\<lparr>wd_next := j + 1\<rparr>))))"

definition push_idle_connection :: "nat \<Rightarrow> sid \<Rightarrow> pstate \<Rightarrow> pstate" where
  "push_idle_connection now i wp =
     (case create_idle_connection i (fst wp) of
        (j, w) \<Rightarrow> (w, (snd wp)\<lparr>pl_idle := pl_idle (snd wp) @ [(j, now + pl_max_idle_time (snd wp))]\<rparr>))"

definition on_close :: "nat \<Rightarrow> sid \<Rightarrow> pstate \<Rightarrow> pstate" where
  "on_close now i wp =
     (if i \<notin> pl_active (snd wp) then wp
      else
        let wp1 = (fst wp, (snd wp)\<lparr>pl_active := pl_active (snd wp) - {i}\<rparr>)
        in if can_pool_connection (wd_sessions (fst wp) i) then push_idle_connection now i wp1 else wp1)"

text \<open>A connection dropped from the pool is destroyed, which closes it.\<close>

definition close_session :: "bool \<Rightarrow> close_reason \<Rightarrow> sid \<Rightarrow> world \<Rightarrow> world" where
  "close_session answer r i w = update_session i (snd (send_close answer r (wd_sessions w i))) w"

definition prune_expired_connections :: "bool \<Rightarrow> nat \<Rightarrow> pstate \<Rightarrow> pstate" where
  "prune_expired_connections answer now wp =
     (let p = snd wp in
      if pl_max_idle_time p = 0 then wp
      else if now \<le> pl_next_prune p then wp
      else
        let expired = takeWhile (\<lambda>(i, t). \<not> now < t) (pl_idle p)
        in (fold (\<lambda>(i, t). close_session answer Implicit i) expired (fst wp),
            p\<lparr>pl_idle := drop (length expired) (pl_idle p), pl_next_prune := now + pl_max_idle_time p\<rparr>))"

definition pool_close :: "bool \<Rightarrow> pstate \<Rightarrow> pstate" where
  "pool_close answer wp =
     (let p = snd wp; close = (\<lambda>i s. snd (send_close answer Explicit s));
          w = fst wp;
          w1 = w\<lparr>wd_sessions := (\<lambda>i. if i \<in> pl_active p \<or> i \<in> fst ` set (pl_idle p)
                                  then close i (wd_sessions w i) else wd_sessions w i)\<rparr>
      in (w1, p\<lparr>pl_active := {}, pl_idle := []\<rparr>))"

section \<open>Clients\<close>

text \<open>One pool per connection string; the options of a known one are not looked at again.\<close>

definition get_client_state ::
  "(string \<Rightarrow> xdevapi_error + zvalue) \<Rightarrow> string \<Rightarrow> string \<Rightarrow> (string \<rightharpoonup> pool) \<Rightarrow>
   (xdevapi_error + pool) \<times> (string \<rightharpoonup> pool)" where
  "get_client_state parse uri desc m = (case m uri of
     Some p \<Rightarrow> (Inr p, m)
   | None \<Rightarrow>
       (case parse_client_options parse desc of
          Inl e \<Rightarrow> (Inl e, m)
        | Inr opts \<Rightarrow> (Inr (new_pool opts), m(uri \<mapsto> new_pool opts))))"

end
