(* ===== verification/Pool_Props.thy ===== *)
theory Pool_Props
  imports Pool
begin

text \<open>
  The pool as a state machine: its steps, the invariant that every reachable state has, and what
  follows for clients of the pool.
\<close>

section \<open>Steps\<close>

text \<open>
  A server notice that arrives on session \<open>i\<close> closes the session its callback names.
\<close>

definition server_notice :: "bool \<Rightarrow> close_reason \<Rightarrow> sid \<Rightarrow> pstate \<Rightarrow> pstate" where
  "server_notice answer r i wp = (case sn_callback (wd_sessions (fst wp) i) of
     None \<Rightarrow> wp
   | Some j \<Rightarrow> (close_session answer r j (fst wp), snd wp))"

inductive pool_step :: "pstate \<Rightarrow> pstate \<Rightarrow> bool" where
  get: "pool_step wp (snd (get_connection connects an wp))"
| wake: "pool_step wp (snd (wake an timed_out wp))"
| close: "pool_step wp (on_close now i wp)"
| prune: "pool_step wp (prune_expired_connections answer now wp)"
| close_all: "pool_step wp (pool_close answer wp)"
| notice: "i \<in> pl_active (snd wp) \<Longrightarrow> pool_step wp (server_notice answer r i wp)"

inductive_cases pool_stepE: "pool_step wp wp'"

inductive pool_reachable :: "pool_options \<Rightarrow> pstate \<Rightarrow> bool" for opts where
  start: "pool_reachable opts (w, new_pool opts)"
| step: "pool_reachable opts wp \<Longrightarrow> pool_step wp wp' \<Longrightarrow> pool_reachable opts wp'"

section \<open>The invariant\<close>

definition idle_ids :: "pool \<Rightarrow> sid set" where
  "idle_ids p = fst ` set (pl_idle p)"

definition members :: "pool \<Rightarrow> sid set" where
  "members p = pl_active p \<union> idle_ids p"

lemma idle_ids_active [simp]: "idle_ids (p\<lparr>pl_active := A\<rparr>) = idle_ids p"
  by (simp add: idle_ids_def)

lemma idle_ids_idle: "idle_ids (p\<lparr>pl_idle := xs\<rparr>) = fst ` set xs"
  "idle_ids (p\<lparr>pl_active := A, pl_idle := xs\<rparr>) = fst ` set xs"
  "idle_ids (p\<lparr>pl_idle := xs, pl_next_prune := t\<rparr>) = fst ` set xs"
  by (simp_all add: idle_ids_def)

text \<open>
  The callback of a pooled session is the session itself while it has never been put back, and
  afterwards an object that has left the pool and is closed.
\<close>

definition callback_ok :: "world \<Rightarrow> pool \<Rightarrow> sid \<Rightarrow> bool" where
  "callback_ok w p i \<longleftrightarrow> (\<forall>j. sn_callback (wd_sessions w i) = Some j \<longrightarrow>
     (j = i \<and> i \<in> pl_active p) \<or>
     (j \<notin> members p \<and> j < wd_next w \<and> is_closed (wd_sessions w j)))"

definition pool_inv :: "pstate \<Rightarrow> bool" where
  "pool_inv wp \<longleftrightarrow> (case wp of (w, p) \<Rightarrow>
     finite (pl_active p) \<and> card (pl_active p) + length (pl_idle p) \<le> pl_max_size p \<and>
     distinct (map fst (pl_idle p)) \<and> pl_active p \<inter> idle_ids p = {} \<and>
     (\<forall>i\<in>members p. i < wd_next w \<and> callback_ok w p i) \<and>
     (\<forall>i\<in>idle_ids p. \<not> has_closed_with_error (wd_sessions w i)))"

lemma pool_invI:
  assumes "finite (pl_active p)" "card (pl_active p) + length (pl_idle p) \<le> pl_max_size p"
    "distinct (map fst (pl_idle p))" "pl_active p \<inter> idle_ids p = {}"
    "\<And>i. i \<in> members p \<Longrightarrow> i < wd_next w" "\<And>i. i \<in> members p \<Longrightarrow> callback_ok w p i"
    "\<And>i. i \<in> idle_ids p \<Longrightarrow> \<not> has_closed_with_error (wd_sessions w i)"
  shows "pool_inv (w, p)"
  using assms by (auto simp: pool_inv_def)

lemma pool_invD:
  assumes "pool_inv (w, p)"
  shows "finite (pl_active p)" "card (pl_active p) + length (pl_idle p) \<le> pl_max_size p"
    "distinct (map fst (pl_idle p))" "pl_active p \<inter> idle_ids p = {}"
    "i \<in> members p \<Longrightarrow> i < wd_next w" "i \<in> members p \<Longrightarrow> callback_ok w p i"
    "i \<in> idle_ids p \<Longrightarrow> \<not> has_closed_with_error (wd_sessions w i)"
  using assms by (auto simp: pool_inv_def)

lemma wd_update [simp]:
  "wd_sessions (update_session i s w) j = (if j = i then s else wd_sessions w j)"
  "wd_next (update_session i s w) = wd_next w"
  by (simp_all add: update_session_def)

lemma session_reset_callback:
  "sn_callback (snd (session_reset an s)) = sn_callback s"
  by (auto simp: session_reset_def send_reset_def authenticate_def state_set_def send_def
      is_session_properly_supported_def Let_def
      split: session_state.splits option.splits if_splits prod.splits)

lemma send_close_callback:
  "sn_callback (snd (send_close answer r s)) = sn_callback s"
  by (auto simp: session_defs Let_def split: session_state.splits option.splits if_splits prod.splits)

lemma send_close_closed: "is_closed s \<Longrightarrow> snd (send_close answer r s) = s"
  by (simp add: send_close_def is_closed_def)

lemma is_closed_send_close: "is_closed (snd (send_close answer r s))"
  by (auto simp: session_defs Let_def split: session_state.splits option.splits if_splits prod.splits)

lemma pop_idle_inv:
  assumes inv: "pool_inv (w, p)"
  shows "pool_inv (snd (pop_idle_connection an (w, p)))"
proof (cases "pl_idle p")
  case Nil
  then show ?thesis using inv by (simp add: pop_idle_connection_def)
next
  case (Cons it rest)
  obtain i t where it: "it = (i, t)" by (cases it)
  note D = pool_invD[OF inv]
  let ?s = "snd (session_reset an (wd_sessions w i))"
  let ?p = "p\<lparr>pl_idle := rest, pl_active := insert i (pl_active p)\<rparr>"
  have res: "snd (pop_idle_connection an (w, p)) = (update_session i ?s w, ?p)"
    by (auto simp: pop_idle_connection_def Cons it Let_def split: prod.split sum.split)
  have ids: "idle_ids p = insert i (fst ` set rest)" "idle_ids ?p = fst ` set rest"
    by (simp_all add: idle_ids_def Cons it)
  have i: "i \<notin> pl_active p" "i \<notin> fst ` set rest" "i \<in> members p"
    using D(3,4) Cons it ids by (auto simp: members_def)
  have mem: "members ?p = members p" by (auto simp: members_def ids(1) idle_ids_idle)
  have cb: "callback_ok (update_session i ?s w) ?p k" if "k \<in> members p" for k
    using D(6)[OF that] i mem by (auto simp: callback_ok_def session_reset_callback)
  show ?thesis unfolding res
  proof (rule pool_invI)
    show "card (pl_active ?p) + length (pl_idle ?p) \<le> pl_max_size ?p"
      using D(1,2) i Cons by simp
    show "distinct (map fst (pl_idle ?p))" using D(3) Cons by simp
    show "pl_active ?p \<inter> idle_ids ?p = {}" using D(4) i ids(1) by (auto simp: idle_ids_idle)
    show "\<not> has_closed_with_error (wd_sessions (update_session i ?s w) k)"
      if "k \<in> idle_ids ?p" for k
      using that D(7)[of k] i ids(1) by (auto simp: idle_ids_idle)
  qed (use D(1) D(5) cb mem in auto)
qed

lemma wake_inv: "pool_inv (w, p) \<Longrightarrow> pool_inv (snd (wake an timed_out (w, p)))"
  by (simp add: wake_def pop_idle_inv)

lemma fresh_member:
  assumes inv: "pool_inv (w, p)" and s: "sn_callback s = Some (wd_next w)"
    and room: "card (pl_active p) + length (pl_idle p) < pl_max_size p"
  shows "pool_inv (update_session (wd_next w) s (w\<lparr>wd_next := Suc (wd_next w)\<rparr>),
     p\<lparr>pl_active := insert (wd_next w) (pl_active p)\<rparr>)"
proof -
  note D = pool_invD[OF inv]
  let ?i = "wd_next w" and ?p = "p\<lparr>pl_active := insert (wd_next w) (pl_active p)\<rparr>"
  have new: "?i \<notin> members p" using D(5) by blast
  show ?thesis
  proof (rule pool_invI)
    show "callback_ok (update_session ?i s (w\<lparr>wd_next := Suc ?i\<rparr>)) ?p k" if "k \<in> members ?p" for k
    proof (cases "k = ?i")
      case True
      then show ?thesis using s by (simp add: callback_ok_def)
    next
      case False
      then have "k \<in> members p" using that by (auto simp: members_def)
      from D(6)[OF this] show ?thesis using False new
        by (auto simp: callback_ok_def members_def)
    qed
    show "pl_active ?p \<inter> idle_ids ?p = {}" using D(4) new by (auto simp: members_def)
    show "\<not> has_closed_with_error (wd_sessions (update_session ?i s (w\<lparr>wd_next := Suc ?i\<rparr>)) k)"
      if k: "k \<in> idle_ids ?p" for k
    proof -
      have "k \<noteq> ?i" using k new by (auto simp: members_def)
      then show ?thesis using k D(7)[of k] by simp
    qed
  qed (use D new room in \<open>auto simp: members_def less_Suc_eq card_insert_if\<close>)
qed

text \<open>A session outside the pool may change or appear without touching the invariant.\<close>

lemma fresh_outsider:
  assumes inv: "pool_inv (w, p)"
  shows "pool_inv (update_session (wd_next w) s (w\<lparr>wd_next := Suc (wd_next w)\<rparr>), p)"
proof -
  note D = pool_invD[OF inv]
  have new: "wd_next w \<notin> members p" using D(5) by blast
  show ?thesis
  proof (rule pool_invI)
    fix k assume k: "k \<in> members p"
    then show "callback_ok (update_session (wd_next w) s (w\<lparr>wd_next := Suc (wd_next w)\<rparr>)) p k"
      using D(6)[OF k] new by (auto simp: callback_ok_def)
  next
    fix k assume k: "k \<in> idle_ids p"
    then have "k \<noteq> wd_next w" using new by (auto simp: members_def)
    then show "\<not> has_closed_with_error (wd_sessions (update_session (wd_next w) s (w\<lparr>wd_next := Suc (wd_next w)\<rparr>)) k)"
      using k D(7)[of k] by simp
  qed (use D in \<open>auto simp: less_Suc_eq\<close>)
qed

lemma get_inv:
  assumes inv: "pool_inv (w, p)"
  shows "pool_inv (snd (get_connection connects an (w, p)))"
proof -
  have create: "pool_inv (snd (create_new_connection connects w), p)"
    using fresh_outsider[OF inv] by (auto simp: create_new_connection_def Let_def)
  have add: "pool_inv (snd (add_new_connection connects (w, p)))" if "\<not> is_full p"
  proof (cases connects)
    case True
    have "card (pl_active p) + length (pl_idle p) < pl_max_size p"
      using pool_invD(2)[OF inv] that by (simp add: is_full_def)
    from fresh_member[OF inv _ this] show ?thesis using True
      by (simp add: add_new_connection_def create_new_connection_def Let_def new_session_def
          state_set_def update_session_def)
  next
    case False
    then show ?thesis using create by (simp add: add_new_connection_def create_new_connection_def Let_def)
  qed
  show ?thesis
    using create add pop_idle_inv[OF inv] wake_inv[OF inv]
    by (auto simp: get_connection_def split: prod.split sum.split)
qed

lemma remove_member_inv:
  assumes inv: "pool_inv (w, p)" and i: "i \<in> pl_active p"
  shows "pool_inv (w, p\<lparr>pl_active := pl_active p - {i}\<rparr>)"
proof -
  note D = pool_invD[OF inv]
  have cb: "callback_ok w (p\<lparr>pl_active := pl_active p - {i}\<rparr>) k"
    if "k \<in> members (p\<lparr>pl_active := pl_active p - {i}\<rparr>)" for k
  proof -
    have "k \<in> members p" "k \<noteq> i" using that D(4) i by (auto simp: members_def)
    then show ?thesis using D(6)[of k] by (auto simp: callback_ok_def members_def)
  qed
  have "card (pl_active p - {i}) \<le> card (pl_active p)" by (rule card_Diff1_le)
  then show ?thesis
    by (intro pool_invI[OF _ _ _ _ _ cb]) (use D in \<open>auto simp: members_def\<close>)
qed

lemma push_idle_inv:
  assumes inv: "pool_inv (w, p)" and i: "i \<in> pl_active p"
    and ok: "\<not> has_closed_with_error (wd_sessions w i)"
  shows "pool_inv (push_idle_connection now i (w, p\<lparr>pl_active := pl_active p - {i}\<rparr>))"
proof -
  note D = pool_invD[OF inv]
  let ?j = "wd_next w" and ?s = "wd_sessions w i"
  let ?p = "p\<lparr>pl_active := pl_active p - {i}, pl_idle := pl_idle p @ [(wd_next w, now + pl_max_idle_time p)]\<rparr>"
  let ?old = "set_closed Reason_none (?s\<lparr>sn_pooled := False, sn_callback := None\<rparr>)"
  let ?w = "update_session i ?old (update_session ?j ?s (w\<lparr>wd_next := Suc ?j\<rparr>))"
  have im: "i \<in> members p" "i < ?j" using i D(5) by (auto simp: members_def)
  have new: "?j \<notin> members p" using D(5) by blast
  have res: "push_idle_connection now i (w, p\<lparr>pl_active := pl_active p - {i}\<rparr>) = (?w, ?p)"
    by (simp add: push_idle_connection_def create_idle_connection_def Let_def)
  have ids: "idle_ids ?p = insert ?j (idle_ids p)" by (simp add: idle_ids_def)
  have mem: "members ?p = insert ?j (members p - {i})"
    using i D(4) ids by (auto simp: members_def)
  have closed: "is_closed ?old" by (simp add: set_closed_def is_closed_def)
  have cb: "callback_ok ?w ?p k" if "k \<in> members ?p" for k
  proof (cases "k = ?j")
    case True
    then show ?thesis
      using D(6)[OF im(1)] im new closed by (auto simp: callback_ok_def mem)
  next
    case False
    then have "k \<in> members p" "k \<noteq> i" using that mem by auto
    then show ?thesis
      using D(6)[of k] False im new closed by (auto simp: callback_ok_def mem)
  qed
  show ?thesis unfolding res
  proof (rule pool_invI[OF _ _ _ _ _ cb])
    have "card (pl_active p - {i}) = card (pl_active p) - 1" "0 < card (pl_active p)"
      using i D(1) by (auto simp: card_gt_0_iff)
    then show "card (pl_active ?p) + length (pl_idle ?p) \<le> pl_max_size ?p" using D(2) by simp
    show "\<not> has_closed_with_error (wd_sessions ?w k)" if "k \<in> idle_ids ?p" for k
      using that D(4) D(7)[of k] i ok im new ids by (auto simp: members_def)
    show "k < wd_next ?w" if "k \<in> members ?p" for k
      using that D(5) by (auto simp: mem less_Suc_eq)
    show "distinct (map fst (pl_idle ?p))" using D(3) new by (simp add: members_def idle_ids_def)
  qed (use D new ids in \<open>auto simp: members_def\<close>)
qed

lemma on_close_inv: "pool_inv (w, p) \<Longrightarrow> pool_inv (on_close now i (w, p))"
  by (auto simp: on_close_def Let_def can_pool_connection_def remove_member_inv push_idle_inv)

text \<open>Closing a set of sessions outside what remains in the pool keeps the invariant.\<close>

lemma close_others_inv:
  assumes inv: "pool_inv (w, p)" and C: "C \<inter> idle_ids p = {}"
  shows "pool_inv (w\<lparr>wd_sessions := (\<lambda>i. if i \<in> C then snd (send_close answer r (wd_sessions w i))
     else wd_sessions w i)\<rparr>, p)"
proof -
  note D = pool_invD[OF inv]
  show ?thesis
  proof (rule pool_invI)
    fix k assume k: "k \<in> members p"
    then show "callback_ok (w\<lparr>wd_sessions := (\<lambda>i. if i \<in> C
        then snd (send_close answer r (wd_sessions w i)) else wd_sessions w i)\<rparr>) p k"
      using D(6)[OF k] by (auto simp: callback_ok_def send_close_callback is_closed_send_close)
  qed (use D C in auto)
qed

lemma close_session_inv:
  assumes "pool_inv (w, p)" "j \<notin> idle_ids p"
  shows "pool_inv (close_session answer r j w, p)"
proof -
  have "(wd_sessions w)(j := snd (send_close answer r (wd_sessions w j))) =
      (\<lambda>i. if i \<in> {j} then snd (send_close answer r (wd_sessions w i)) else wd_sessions w i)"
    by auto
  then have "close_session answer r j w = w\<lparr>wd_sessions := (\<lambda>i. if i \<in> {j}
      then snd (send_close answer r (wd_sessions w i)) else wd_sessions w i)\<rparr>"
    by (simp only: close_session_def update_session_def)
  then show ?thesis using close_others_inv[OF assms(1), of "{j}"] assms(2) by simp
qed

lemma fold_close_inv:
  assumes "pool_inv (w, p)" "fst ` set es \<inter> idle_ids p = {}"
  shows "pool_inv (fold (\<lambda>(i, t). close_session answer r i) es w, p)"
  using assms
proof (induction es arbitrary: w)
  case (Cons e es)
  obtain i t where e: "e = (i, t)" by (cases e)
  have "pool_inv (close_session answer r i w, p)" using Cons.prems e by (intro close_session_inv) auto
  then show ?case using Cons e by auto
qed simp

lemma drop_idle_inv:
  assumes inv: "pool_inv (w, p)"
  shows "pool_inv (w, p\<lparr>pl_idle := drop n (pl_idle p), pl_next_prune := t\<rparr>)"
proof -
  note D = pool_invD[OF inv]
  let ?p = "p\<lparr>pl_idle := drop n (pl_idle p), pl_next_prune := t\<rparr>"
  have sub: "idle_ids ?p \<subseteq> idle_ids p"
    unfolding idle_ids_def by (simp add: image_mono set_drop_subset)
  have cb: "callback_ok w ?p k" if "k \<in> members ?p" for k
  proof -
    have "k \<in> members p" using that sub by (auto simp: members_def)
    then show ?thesis using D(6)[of k] sub by (auto simp: callback_ok_def members_def)
  qed
  show ?thesis
    by (rule pool_invI[OF _ _ _ _ _ cb])
      (use D sub in \<open>auto simp: members_def distinct_drop simp flip: drop_map\<close>)
qed

lemma prune_inv:
  assumes inv: "pool_inv (w, p)"
  shows "pool_inv (prune_expired_connections answer now (w, p))"
proof -
  let ?e = "takeWhile (\<lambda>(i, t). \<not> now < t) (pl_idle p)"
  have split: "pl_idle p = ?e @ drop (length ?e) (pl_idle p)" by (metis takeWhile_eq_take append_take_drop_id)
  have "distinct (map fst (?e @ drop (length ?e) (pl_idle p)))"
    using pool_invD(3)[OF inv] split by simp
  then have dis: "fst ` set ?e \<inter> fst ` set (drop (length ?e) (pl_idle p)) = {}"
    by (simp only: map_append distinct_append set_map)
  have "pool_inv (fold (\<lambda>(i, t). close_session answer Implicit i) ?e w,
      p\<lparr>pl_idle := drop (length ?e) (pl_idle p), pl_next_prune := now + pl_max_idle_time p\<rparr>)"
    by (rule fold_close_inv[OF drop_idle_inv[OF inv]]) (use dis in \<open>simp add: idle_ids_idle\<close>)
  then show ?thesis using inv by (simp add: prune_expired_connections_def Let_def)
qed

lemma pool_close_inv: "pool_inv (w, p) \<Longrightarrow> pool_inv (pool_close answer (w, p))"
  by (auto simp: pool_close_def Let_def pool_inv_def members_def idle_ids_def)

lemma notice_inv:
  assumes inv: "pool_inv (w, p)" and i: "i \<in> pl_active p"
  shows "pool_inv (server_notice answer r i (w, p))"
proof (cases "sn_callback (wd_sessions w i)")
  case (Some j)
  have "i \<in> members p" using i by (simp add: members_def)
  from pool_invD(6)[OF inv this] have "j \<notin> idle_ids p"
    using Some pool_invD(4)[OF inv] i by (auto simp: callback_ok_def members_def)
  then show ?thesis using close_session_inv[OF inv] Some by (simp add: server_notice_def)
qed (use inv in \<open>simp add: server_notice_def\<close>)

lemma pool_step_inv: "pool_step wp wp' \<Longrightarrow> pool_inv wp \<Longrightarrow> pool_inv wp'"
  by (induction rule: pool_step.induct; case_tac wp)
    (auto simp: get_inv wake_inv on_close_inv prune_inv pool_close_inv notice_inv)

lemma reachable_inv: "pool_reachable opts wp \<Longrightarrow> pool_inv wp"
proof (induction rule: pool_reachable.induct)
  case (start w)
  then show ?case by (simp add: pool_inv_def new_pool_def members_def idle_ids_def)
qed (rule pool_step_inv)

lemma pool_step_config:
  "pool_step wp wp' \<Longrightarrow> pl_max_size (snd wp') = pl_max_size (snd wp)"
  by (induction rule: pool_step.induct)
    (auto simp: get_connection_def wake_def pop_idle_connection_def add_new_connection_def on_close_def
      push_idle_connection_def prune_expired_connections_def pool_close_def server_notice_def Let_def
      split: prod.splits sum.splits list.splits option.splits)

lemma reachable_max_size:
  "pool_reachable opts wp \<Longrightarrow> pl_max_size (snd wp) = nat (po_max_size opts)"
  by (induction rule: pool_reachable.induct) (simp_all add: new_pool_def pool_step_config)

section \<open>Properties\<close>

text \<open>
  C8: the pool never holds more connections than its size.  In every state reachable by getting,
  waiting for, closing and pruning connections, closing the pool and server notices, the
  connections in use and the idle ones together are at most \<open>maxSize\<close>, no connection is both or
  idle twice, and no idle connection was closed by an error.
\<close>

theorem pool_size_bound:
  assumes "pool_reachable opts (w, p)"
  shows "card (pl_active p) + length (pl_idle p) \<le> nat (po_max_size opts) \<and>
     distinct (map fst (pl_idle p)) \<and> pl_active p \<inter> fst ` set (pl_idle p) = {} \<and>
     (\<forall>i\<in>fst ` set (pl_idle p). \<not> has_closed_with_error (wd_sessions w i))"
  using pool_invD[OF reachable_inv[OF assms]] reachable_max_size[OF assms]
  by (auto simp: idle_ids_def)

definition empty_world :: world where
  "empty_world = \<lparr>wd_sessions = new_session, wd_next = 0\<rparr>"

definition good_answers :: answers where
  "good_answers = \<lparr>an_supported = True, an_reset = True, an_auth = True\<rparr>"

lemma one_got:
  "snd (get_connection True good_answers (empty_world, new_pool default_options)) =
     (update_session 0 ((state_set SESSION_READY ((new_session 0)\<lparr>sn_stream_open := True\<rparr>))\<lparr>sn_pooled := True\<rparr>)
        (empty_world\<lparr>wd_next := 1\<rparr>), (new_pool default_options)\<lparr>pl_active := {0}\<rparr>)"
  by (simp add: get_connection_def new_pool_def default_options_def has_idle_connection_def is_full_def
      add_new_connection_def create_new_connection_def empty_world_def update_session_def)

lemma one_got_reachable:
  "pool_reachable default_options
     (update_session 0 ((state_set SESSION_READY ((new_session 0)\<lparr>sn_stream_open := True\<rparr>))\<lparr>sn_pooled := True\<rparr>)
        (empty_world\<lparr>wd_next := 1\<rparr>), (new_pool default_options)\<lparr>pl_active := {0}\<rparr>)"
  using pool_reachable.step[OF pool_reachable.start pool_step.get[of "(empty_world, new_pool default_options)" True good_answers]]
  unfolding one_got .

theorem pool_size_bound_witness:
  "card (pl_active ((new_pool default_options)\<lparr>pl_active := {0}\<rparr>)) +
     length (pl_idle ((new_pool default_options)\<lparr>pl_active := {0}\<rparr>)) \<le> nat (po_max_size default_options)"
  using pool_size_bound[OF one_got_reachable] by blast

text \<open>
  Pruning removes exactly the expired connections.  When the idle connections stand in the
  order of their expiry, a pruning that is due keeps those that expire after now and no others,
  in their order.
\<close>

lemma prune_removes_expired:
  assumes "sorted (map snd (pl_idle p))" "pl_max_idle_time p \<noteq> 0" "pl_next_prune p < now"
  shows "pl_idle (snd (prune_expired_connections answer now (w, p))) =
     filter (\<lambda>(i, t). now < t) (pl_idle p)"
proof -
  have "drop (length (takeWhile (\<lambda>(i, t). \<not> now < t) xs)) xs = filter (\<lambda>(i, t). now < t) xs"
    if "sorted (map snd xs)" for xs :: "(sid \<times> nat) list"
    using that
  proof (induction xs)
    case (Cons x xs)
    show ?case
    proof (cases "now < snd x")
      case True
      then have "filter (\<lambda>(i, t). now < t) xs = xs"
        using Cons.prems by (fastforce intro: filter_True)
      then show ?thesis using True by (auto split: prod.splits)
    next
      case False
      then show ?thesis using Cons by (auto split: prod.splits)
    qed
  qed simp
  then show ?thesis using assms by (simp add: prune_expired_connections_def Let_def)
qed

lemma prune_removes_expired_example:
  "pl_idle (snd (prune_expired_connections True 10 (empty_world,
     (new_pool default_options)\<lparr>pl_max_idle_time := 5, pl_idle := [(1, 7), (2, 12)]\<rparr>))) =
     filter (\<lambda>(i, t). 10 < t) (pl_idle ((new_pool default_options)\<lparr>pl_max_idle_time := 5,
       pl_idle := [(1, 7), (2, 12)]\<rparr>))"
  by (rule prune_removes_expired) (simp_all add: new_pool_def)

text \<open>
  A reused connection ignores the server's notices.  Putting a connection back into the pool
  moves it into a new object, but its callback keeps naming the old one, which is closed: when
  the connection has been taken out again, a notice that the server shuts down or has killed
  the session changes nothing.
\<close>

lemma reused_connection_misses_notices:
  assumes "pool_reachable opts (w, p)" "\<not> pl_disabled p" "pl_idle p = (i, t) # rest"
    and "get_connection connects an (w, p) = (Got i, wp')"
  shows "i \<in> pl_active (snd wp') \<and> server_notice answer r i wp' = wp'"
proof -
  note D = pool_invD[OF reachable_inv[OF assms(1)]]
  let ?s = "snd (session_reset an (wd_sessions w i))"
  have pop: "pop_idle_connection an (w, p) = (Got i, wp')"
    using assms by (simp add: get_connection_def has_idle_connection_def)
  then have wp': "wp' = (update_session i ?s w, p\<lparr>pl_idle := rest, pl_active := insert i (pl_active p)\<rparr>)"
    by (auto simp: pop_idle_connection_def assms(3) Let_def split: prod.splits sum.splits)
  have idle: "i \<in> idle_ids p" by (simp add: idle_ids_def assms(3))
  then have mem: "i \<in> members p" "i \<notin> pl_active p" using D(4) by (auto simp: members_def)
  have "server_notice answer r i wp' = wp'"
  proof (cases "sn_callback (wd_sessions w i)")
    case (Some j)
    then have j: "j \<notin> members p" "is_closed (wd_sessions w j)"
      using D(6)[OF mem(1)] mem(2) by (auto simp: callback_ok_def)
    then have "j \<noteq> i" using mem by auto
    then show ?thesis using Some j
      by (simp add: server_notice_def wp' session_reset_callback close_session_def send_close_closed)
        (simp add: update_session_def fun_upd_idem)
  qed (simp add: server_notice_def wp' session_reset_callback)
  then show ?thesis by (simp add: wp')
qed

definition ready_session :: session where
  "ready_session = (state_set SESSION_READY ((new_session 0)\<lparr>sn_stream_open := True\<rparr>))\<lparr>sn_pooled := True\<rparr>"

definition returned_state :: pstate where
  "returned_state = on_close 100 0 (update_session 0 ready_session (empty_world\<lparr>wd_next := 1\<rparr>),
     (new_pool default_options)\<lparr>pl_active := {0}\<rparr>)"

lemma returned_reachable: "pool_reachable default_options returned_state"
  using pool_reachable.step[OF one_got_reachable pool_step.close[of _ 100 0]]
  by (simp add: returned_state_def ready_session_def)

lemma returned_facts:
  "pl_idle (snd returned_state) = [(1, 100)]" "\<not> pl_disabled (snd returned_state)"
  "wd_sessions (fst returned_state) 1 = ready_session"
  by (simp_all add: returned_state_def on_close_def can_pool_connection_def has_closed_with_error_def
      error_reason_def ready_session_def state_set_def new_session_def push_idle_connection_def
      create_idle_connection_def Let_def new_pool_def default_options_def)

lemma reused_connection_misses_notices_example:
  "server_notice True Connection_server_shutdown 1
     (snd (get_connection True good_answers returned_state)) =
   snd (get_connection True good_answers returned_state)"
proof -
  obtain w p where wp: "returned_state = (w, p)" by fastforce
  have "get_connection True good_answers (w, p) = (Got 1, snd (get_connection True good_answers (w, p)))"
    using returned_facts unfolding wp
    by (simp add: get_connection_def has_idle_connection_def pop_idle_connection_def session_reset_def
        is_session_properly_supported_def ready_session_def state_set_def new_session_def send_def
        good_answers_def send_reset_def Let_def)
  from reused_connection_misses_notices[OF returned_reachable[unfolded wp] _ _ this] returned_facts
  show ?thesis unfolding wp by auto
qed

text \<open>
  A connection that cannot be reset is lost to the pool.  The exception leaves it among the
  connections in use although no one has received it; with it the pool is full, so the next
  request waits, and goes on waiting however often it is woken, for a connection that no one can
  return.
\<close>

lemma failed_reset_leaks_slot:
  assumes "\<not> pl_disabled p" "pl_idle p = [(i, t)]" "pl_active p = {}" "pl_max_size p = 1"
    and "fst (session_reset an (wd_sessions w i)) = Inl e" "pl_queue_timeout p = 0"
  shows "\<exists>wp'. get_connection connects an (w, p) = (Threw e, wp') \<and> pl_active (snd wp') = {i} \<and>
     get_connection connects' an' wp' = (Blocked, wp') \<and> wake an' timed_out wp' = (Blocked, wp')"
  using assms
  by (cases "session_reset an (wd_sessions w i)")
    (simp add: get_connection_def has_idle_connection_def pop_idle_connection_def is_full_def wake_def Let_def)

lemma failed_reset_leaks_slot_example:
  "\<exists>wp'. get_connection True (good_answers\<lparr>an_reset := False\<rparr>)
       (update_session 1 ready_session empty_world,
        (new_pool default_options)\<lparr>pl_idle := [(1, 9)], pl_max_size := 1\<rparr>) =
       (Threw Session_reset_failure, wp') \<and> pl_active (snd wp') = {1} \<and>
     get_connection True good_answers wp' = (Blocked, wp') \<and> wake good_answers True wp' = (Blocked, wp')"
  by (rule failed_reset_leaks_slot)
    (simp_all add: new_pool_def default_options_def session_reset_def good_answers_def ready_session_def
      is_session_properly_supported_def state_set_def new_session_def send_def send_reset_def Let_def)

text \<open>
  A waiting thread is not served when capacity returns by an error.  If the only connection
  of a full pool is closed after an error, the pool has room and a new request gets a
  connection, but a thread that already waits finds no idle connection and goes on waiting.
\<close>

lemma waiter_misses_freed_slot:
  assumes "\<not> pl_disabled p" "pl_idle p = []" "pl_active p = {i}" "pl_max_size p = 1"
    and "has_closed_with_error (wd_sessions w i)"
  shows "get_connection connects an (w, p) = (Blocked, (w, p)) \<and>
     wake an False (on_close now i (w, p)) = (Blocked, on_close now i (w, p)) \<and>
     fst (get_connection True an (on_close now i (w, p))) = Got (wd_next w)"
  using assms
  by (simp add: get_connection_def has_idle_connection_def is_full_def wake_def on_close_def
      can_pool_connection_def add_new_connection_def create_new_connection_def Let_def)

lemma waiter_misses_freed_slot_example:
  "wake good_answers False (on_close 5 0 (update_session 0 (set_closed Connection_server_shutdown (new_session 0))
       empty_world, (new_pool default_options)\<lparr>pl_active := {0}, pl_max_size := 1\<rparr>)) =
     (Blocked, on_close 5 0 (update_session 0 (set_closed Connection_server_shutdown (new_session 0))
       empty_world, (new_pool default_options)\<lparr>pl_active := {0}, pl_max_size := 1\<rparr>))"
  by (rule waiter_misses_freed_slot[THEN conjunct2, THEN conjunct1])
    (simp_all add: new_pool_def default_options_def set_closed_def has_closed_with_error_def error_reason_def)

text \<open>
  C37: accepted client options are in range.  Whatever the description, options are only accepted
  when every key is known, \<open>maxSize\<close> is positive and the two times are not negative, all within
  32 bits; these are the values after the cast to 32 bits, so a size of \<open>2\<^sup>32 + 1\<close> is accepted as 1.
\<close>

theorem client_options_in_range:
  assumes "parse_client_options parse desc = Inr opts"
  shows "0 < po_max_size opts \<and> po_max_size opts < 2 ^ 31 \<and> 0 \<le> po_max_idle_time opts \<and>
     po_max_idle_time opts < 2 ^ 31 \<and> 0 \<le> po_queue_timeout opts \<and> po_queue_timeout opts < 2 ^ 31 \<and>
     (desc \<noteq> [] \<longrightarrow> (\<exists>ps. parse desc = Inr (Object ps) \<and> set (map fst ps) \<subseteq> set allowed_options))"
proof -
  have keys: "verify_options ks = Inr () \<Longrightarrow> set ks \<subseteq> set allowed_options" for ks
    by (induction ks) (auto simp: verify_option_def split: if_splits)
  have opt: "P v \<and> v < 2 ^ 31"
    if "assign_option z name optional_int32 P d = Inr v" "P d" "d < 2 ^ 31" for z name P d v
    using that to_int32_range
    by (auto simp: assign_option_def Let_def optional_int32_def split: if_splits option.splits zvalue.splits)
  show ?thesis
  proof (cases "desc = []")
    case True
    then show ?thesis using assms by (auto simp: parse_client_options_def default_options_def)
  next
    case False
    with assms obtain z where z: "parse desc = Inr z"
      "(case z of Object ps \<Rightarrow> ebind (verify_options (map fst ps)) (\<lambda>_. assign_options z)
        | _ \<Rightarrow> Inl Json_object_expected) = Inr opts"
      by (cases "parse desc") (auto simp: parse_client_options_def)
    then obtain ps where ps: "parse desc = Inr (Object ps)" "verify_options (map fst ps) = Inr ()"
      "assign_options (Object ps) = Inr opts"
      by (cases z) (auto simp: ebind_def split: sum.splits)
    from ps(3) have "0 < po_max_size opts \<and> po_max_size opts < 2 ^ 31"
      "0 \<le> po_max_idle_time opts \<and> po_max_idle_time opts < 2 ^ 31"
      "0 \<le> po_queue_timeout opts \<and> po_queue_timeout opts < 2 ^ 31"
      by (auto simp: assign_options_def default_options_def dest!: opt)
    then show ?thesis using ps(1) keys[OF ps(2)] by blast
  qed
qed

theorem client_options_in_range_witness:
  "assign_options (Object [(''maxSize'', Long 4294967297)]) = Inr (default_options\<lparr>po_max_size := 1\<rparr>) \<and>
   0 < po_max_size (default_options\<lparr>po_max_size := 1\<rparr>)"
proof -
  have a: "assign_options (Object [(''maxSize'', Long 4294967297)]) = Inr (default_options\<lparr>po_max_size := 1\<rparr>)"
    by (simp add: assign_options_def assign_option_def get_property_def has_value_def default_options_def
        optional_int32_def to_int32_def Let_def)
  have "parse_client_options (\<lambda>s. Inr (Object [(''maxSize'', Long 4294967297)])) ''x'' =
      Inr (default_options\<lparr>po_max_size := 1\<rparr>)"
    by (simp add: parse_client_options_def a verify_option_def allowed_options_def)
  from client_options_in_range[OF this] a show ?thesis by blast
qed

end
