(* ===== verification/Rowset.thy ===== *)
theory Rowset
  imports Handlers Row_Decode
begin

text \<open>
  The rows of a result, after \<^verbatim>\<open>src/xmysqlnd/xmysqlnd_rowset_buffered.cc\<close> and the memory
  management of \<^verbatim>\<open>xmysqlnd_rowset_fwd.cc\<close>, which has the same layout: an array of row pointers of
  which \<open>row_count\<close> are in use, each pointing to the cells of a row.  A slot is \<open>None\<close> before it is
  written and after its row was freed; an array that is \<open>None\<close> was not allocated.  Accesses outside
  an array are the outcome \<open>Payload_overrun\<close>, following a null pointer is \<open>Null_dereference\<close>.
\<close>

section \<open>Row buffers\<close>

record rows_buf =
  rs_rows :: "zvalue list option list option"
  rs_rows_allocated :: nat
  rs_row_count :: nat
  rs_row_cursor :: nat
  rs_meta :: "result_meta option"

record fwd_buf = rows_buf +
  rs_prefetch_rows :: nat
  rs_total_row_count :: nat
  rs_total_fetched :: nat

definition new_buffered :: rows_buf where
  "new_buffered = \<lparr>rs_rows = None, rs_rows_allocated = 0, rs_row_count = 0, rs_row_cursor = 0,
     rs_meta = None\<rparr>"

definition new_fwd :: "nat \<Rightarrow> fwd_buf" where
  "new_fwd n = \<lparr>rs_rows = None, rs_rows_allocated = 0, rs_row_count = 0, rs_row_cursor = 0,
     rs_meta = None, rs_prefetch_rows = n, rs_total_row_count = 0, rs_total_fetched = 0\<rparr>"

definition create_row :: "result_meta \<Rightarrow> zvalue list" where
  "create_row m = replicate (rm_count m) Undefined"

text \<open>Reallocation keeps the slots that fit and adds uninitialised ones.\<close>

definition realloc_rows :: "nat \<Rightarrow> 'x rows_buf_scheme \<Rightarrow> 'x rows_buf_scheme" where
  "realloc_rows n rs = rs\<lparr>rs_rows_allocated := n,
     rs_rows := Some (take n ((case rs_rows rs of None \<Rightarrow> [] | Some r \<Rightarrow> r) @ replicate n None))\<rparr>"

definition put_row :: "zvalue list \<Rightarrow> 'x rows_buf_scheme \<Rightarrow> xdevapi_error + 'x rows_buf_scheme" where
  "put_row row rs = (case rs_rows rs of
     None \<Rightarrow> Inl Null_dereference
   | Some rows \<Rightarrow>
       if length rows \<le> rs_row_count rs then Inl Payload_overrun
       else Inr (rs\<lparr>rs_rows := Some (rows[rs_row_count rs := Some row]),
                   rs_row_count := rs_row_count rs + 1\<rparr>))"

definition needs_rows :: "'x rows_buf_scheme \<Rightarrow> bool" where
  "needs_rows rs \<longleftrightarrow> rs_rows rs = None \<or> rs_rows_allocated rs = rs_row_count rs"

definition buffered_add_row :: "zvalue list \<Rightarrow> rows_buf \<Rightarrow> xdevapi_error + rows_buf" where
  "buffered_add_row row rs =
     put_row row (if needs_rows rs then realloc_rows ((rs_rows_allocated rs + 2) * 5 div 3) rs else rs)"

definition fwd_add_row :: "zvalue list \<Rightarrow> fwd_buf \<Rightarrow> xdevapi_error + fwd_buf" where
  "fwd_add_row row rs =
     map_sum id (\<lambda>rs'. rs'\<lparr>rs_total_row_count := rs_total_row_count rs' + 1\<rparr>)
       (put_row row
         (if needs_rows rs then realloc_rows (rs_rows_allocated rs + rs_prefetch_rows rs) rs else rs))"

definition attach_meta :: "result_meta option \<Rightarrow> 'x rows_buf_scheme \<Rightarrow> 'x rows_buf_scheme" where
  "attach_meta m rs = (case m of None \<Rightarrow> rs | Some _ \<Rightarrow> rs\<lparr>rs_meta := m\<rparr>)"

definition free_rows_contents :: "'x rows_buf_scheme \<Rightarrow> 'x rows_buf_scheme" where
  "free_rows_contents rs = (case (rs_rows rs, rs_meta rs) of
     (Some rows, Some _) \<Rightarrow>
       rs\<lparr>rs_rows := Some (replicate (rs_row_count rs) None @ drop (rs_row_count rs) rows),
          rs_row_count := 0, rs_row_cursor := 0\<rparr>
   | _ \<Rightarrow> rs)"

definition free_rows :: "'x rows_buf_scheme \<Rightarrow> 'x rows_buf_scheme" where
  "free_rows rs = (case rs_rows rs of
     None \<Rightarrow> rs
   | Some _ \<Rightarrow> (free_rows_contents rs)\<lparr>rs_rows := None, rs_rows_allocated := 0\<rparr>)"

section \<open>Fetching\<close>

text \<open>
  The key of a column in the array of a row.  The numeric flag is never raised (see
  \<open>set_name\<close>), so the column name always is the key.
\<close>

definition column_key :: "field_meta \<Rightarrow> zkey" where
  "column_key f = (if fm_key_is_numeric f then Key_index 0 else Key_name (fm_name f))"

definition row_array :: "result_meta \<Rightarrow> zvalue list \<Rightarrow> zvalue" where
  "row_array m row =
     Array (fold (\<lambda>(f, v). array_insert (column_key f) v) (zip (rm_fields m) row) [])"

definition stored_row :: "'x rows_buf_scheme \<Rightarrow> nat \<Rightarrow> xdevapi_error + zvalue list option" where
  "stored_row rs i =
     (if rs_row_count rs \<le> i then Inr None
      else case rs_rows rs of
        None \<Rightarrow> Inl Null_dereference
      | Some rows \<Rightarrow> if length rows \<le> i then Inl Payload_overrun else Inr (rows ! i))"

text \<open>\<open>Inr None\<close> is the status \<open>FAIL\<close>, \<open>Inr (Some row)\<close> is \<open>PASS\<close> with the row.\<close>

definition fetch_one :: "'x rows_buf_scheme \<Rightarrow> nat \<Rightarrow> xdevapi_error + zvalue option" where
  "fetch_one rs i = (case rs_meta rs of
     None \<Rightarrow> Inl Null_dereference
   | Some m \<Rightarrow> (case stored_row rs i of
       Inl e \<Rightarrow> Inl e
     | Inr None \<Rightarrow> Inr None
     | Inr (Some row) \<Rightarrow>
         if length row < rm_count m then Inl Payload_overrun else Inr (Some (row_array m row))))"

definition fetch_one_c :: "rows_buf \<Rightarrow> nat \<Rightarrow> xdevapi_error + zvalue list option" where
  "fetch_one_c rs i = (case rs_meta rs of
     None \<Rightarrow> Inl Null_dereference
   | Some m \<Rightarrow> (case stored_row rs i of
       Inl e \<Rightarrow> Inl e
     | Inr None \<Rightarrow> Inr None
     | Inr (Some row) \<Rightarrow>
         if length row < rm_count m then Inl Payload_overrun else Inr (Some (take (rm_count m) row))))"

fun fetch_rows :: "'x rows_buf_scheme \<Rightarrow> nat list \<Rightarrow> xdevapi_error + zvalue list" where
  "fetch_rows rs [] = Inr []"
| "fetch_rows rs (i # is) = (case fetch_one rs i of
     Inl e \<Rightarrow> Inl e
   | Inr r \<Rightarrow> (case fetch_rows rs is of
       Inl e \<Rightarrow> Inl e
     | Inr rows \<Rightarrow> Inr ((case r of None \<Rightarrow> [] | Some row \<Rightarrow> [row]) @ rows)))"

definition buffered_fetch_all :: "rows_buf \<Rightarrow> xdevapi_error + zvalue list" where
  "buffered_fetch_all rs = fetch_rows rs [0..<rs_row_count rs]"

text \<open>
  All cells in one block.  The row count is cast to 32 bits and the size of the block is computed
  in 32 bits.
\<close>

fun fetch_cells :: "rows_buf \<Rightarrow> nat \<Rightarrow> nat list \<Rightarrow> xdevapi_error + zvalue list" where
  "fetch_cells rs n [] = Inr []"
| "fetch_cells rs n (i # is) = (case stored_row rs i of
     Inl e \<Rightarrow> Inl e
   | Inr None \<Rightarrow> Inl Null_dereference
   | Inr (Some row) \<Rightarrow>
       if length row < n then Inl Payload_overrun
       else (case fetch_cells rs n is of Inl e \<Rightarrow> Inl e | Inr cells \<Rightarrow> Inr (take n row @ cells)))"

definition fetch_all_c :: "rows_buf \<Rightarrow> xdevapi_error + zvalue list" where
  "fetch_all_c rs = (case rs_meta rs of
     None \<Rightarrow> Inl Null_dereference
   | Some m \<Rightarrow>
       let n = rm_count m; rows = rs_row_count rs mod 2 ^ 32; cells = rows * n mod 2 ^ 32
       in if cells < rows * n then Inl Payload_overrun else fetch_cells rs n [0..<rows])"

section \<open>The buffered cursor\<close>

definition buffered_next :: "rows_buf \<Rightarrow> func_status \<times> rows_buf" where
  "buffered_next rs =
     (if rs_row_count rs \<le> rs_row_cursor rs then (FAIL, rs)
      else (PASS, rs\<lparr>rs_row_cursor := rs_row_cursor rs + 1\<rparr>))"

definition buffered_fetch_current :: "rows_buf \<Rightarrow> xdevapi_error + zvalue option" where
  "buffered_fetch_current rs = fetch_one rs (rs_row_cursor rs)"

definition buffered_rewind :: "rows_buf \<Rightarrow> func_status \<times> rows_buf" where
  "buffered_rewind rs = (PASS, rs\<lparr>rs_row_cursor := 0\<rparr>)"

definition buffered_eof :: "rows_buf \<Rightarrow> bool" where
  "buffered_eof rs \<longleftrightarrow> rs_row_count rs \<le> rs_row_cursor rs"

section \<open>The invariant and the rows stored\<close>

definition rs_inv :: "'x rows_buf_scheme \<Rightarrow> bool" where
  "rs_inv rs \<longleftrightarrow> (case rs_rows rs of
     None \<Rightarrow> rs_row_count rs = 0 \<and> rs_rows_allocated rs = 0
   | Some rows \<Rightarrow> length rows = rs_rows_allocated rs \<and> rs_row_count rs \<le> rs_rows_allocated rs \<and>
       (\<forall>i<rs_row_count rs. rows ! i \<noteq> None))"

definition rows_of :: "'x rows_buf_scheme \<Rightarrow> zvalue list list" where
  "rows_of rs = (case rs_rows rs of
     None \<Rightarrow> [] | Some rows \<Rightarrow> map the (take (rs_row_count rs) rows))"

lemma rs_inv_new [simp]: "rs_inv new_buffered" "rs_inv (new_fwd n)"
  by (simp_all add: rs_inv_def new_buffered_def new_fwd_def)

lemma rows_of_new [simp]: "rows_of new_buffered = []" "rows_of (new_fwd n) = []"
  by (simp_all add: rows_of_def new_buffered_def new_fwd_def)

lemma length_rows_of: "rs_inv rs \<Longrightarrow> length (rows_of rs) = rs_row_count rs"
  by (auto simp: rs_inv_def rows_of_def split: option.splits)

lemma realloc_inv:
  assumes "rs_inv rs" "rs_rows_allocated rs \<le> n"
  shows "rs_inv (realloc_rows n rs)" "rows_of (realloc_rows n rs) = rows_of rs"
    "rs_row_count (realloc_rows n rs) = rs_row_count rs" "rs_rows_allocated (realloc_rows n rs) = n"
    "rs_rows (realloc_rows n rs) \<noteq> None"
  using assms by (auto simp: rs_inv_def rows_of_def realloc_rows_def nth_append split: option.splits)

lemma put_row_inv:
  assumes "rs_inv rs" "rs_rows rs \<noteq> None" "rs_row_count rs < rs_rows_allocated rs"
  shows "\<exists>rs'. put_row row rs = Inr rs' \<and> rs_inv rs' \<and> rows_of rs' = rows_of rs @ [row] \<and>
    rs_meta rs' = rs_meta rs \<and> rs_row_cursor rs' = rs_row_cursor rs \<and>
    rs_row_count rs' = rs_row_count rs + 1 \<and> rows_buf.more rs' = rows_buf.more rs"
proof -
  obtain rows where rows: "rs_rows rs = Some rows" using assms(2) by blast
  have len: "length rows = rs_rows_allocated rs" "\<forall>i<rs_row_count rs. rows ! i \<noteq> None"
    using assms(1) rows by (simp_all add: rs_inv_def)
  let ?rs = "rs\<lparr>rs_rows := Some (rows[rs_row_count rs := Some row]), rs_row_count := rs_row_count rs + 1\<rparr>"
  have "rs_inv ?rs" using assms(3) len by (auto simp: rs_inv_def nth_list_update)
  moreover have "rows_of ?rs = rows_of rs @ [row]"
    using assms(3) len rows by (simp add: rows_of_def take_Suc_conv_app_nth)
  moreover have "put_row row rs = Inr ?rs" using rows len assms(3) by (simp add: put_row_def)
  ultimately show ?thesis by simp
qed

lemma grow_then_put:
  assumes "rs_inv rs" "needs_rows rs \<Longrightarrow> rs_row_count rs < n \<and> rs_rows_allocated rs \<le> n"
  shows "\<exists>rs'. put_row row (if needs_rows rs then realloc_rows n rs else rs) = Inr rs' \<and> rs_inv rs' \<and>
    rows_of rs' = rows_of rs @ [row] \<and> rs_meta rs' = rs_meta rs \<and>
    rs_row_cursor rs' = rs_row_cursor rs \<and> rs_row_count rs' = rs_row_count rs + 1 \<and>
    rows_buf.more rs' = rows_buf.more rs"
proof (cases "needs_rows rs")
  case True
  have "rs_meta (realloc_rows n rs) = rs_meta rs" "rs_row_cursor (realloc_rows n rs) = rs_row_cursor rs"
    "rows_buf.more (realloc_rows n rs) = rows_buf.more rs" by (simp_all add: realloc_rows_def)
  then show ?thesis
    using True assms realloc_inv[of rs n] put_row_inv[of "realloc_rows n rs" row] by simp
next
  case False
  then have "rs_rows rs \<noteq> None" "rs_row_count rs < rs_rows_allocated rs"
    using assms(1) by (auto simp: needs_rows_def rs_inv_def split: option.splits)
  then show ?thesis using False assms(1) put_row_inv[of rs row] by simp
qed

lemma buffered_add_row_inv:
  assumes "rs_inv rs"
  shows "\<exists>rs'. buffered_add_row row rs = Inr rs' \<and> rs_inv rs' \<and> rows_of rs' = rows_of rs @ [row] \<and>
    rs_meta rs' = rs_meta rs \<and> rs_row_cursor rs' = rs_row_cursor rs"
proof -
  have "rs_row_count rs \<le> rs_rows_allocated rs" using assms by (auto simp: rs_inv_def split: option.splits)
  then show ?thesis
    using grow_then_put[OF assms, of "(rs_rows_allocated rs + 2) * 5 div 3" row]
    unfolding buffered_add_row_def by fastforce
qed

lemma fwd_counters [simp]:
  fixes rs :: fwd_buf
  shows "rs_inv (rs\<lparr>rs_total_row_count := n\<rparr>) = rs_inv rs"
    "rs_inv (rs\<lparr>rs_total_fetched := n\<rparr>) = rs_inv rs"
    "rows_of (rs\<lparr>rs_total_row_count := n\<rparr>) = rows_of rs"
    "rows_of (rs\<lparr>rs_total_fetched := n\<rparr>) = rows_of rs"
  by (simp_all add: rs_inv_def rows_of_def split: option.split)

lemma fwd_add_row_inv:
  assumes "rs_inv rs" "0 < rs_prefetch_rows rs"
  shows "\<exists>rs'. fwd_add_row row rs = Inr rs' \<and> rs_inv rs' \<and> rows_of rs' = rows_of rs @ [row] \<and>
    rs_meta rs' = rs_meta rs \<and> rs_row_cursor rs' = rs_row_cursor rs \<and>
    rs_prefetch_rows rs' = rs_prefetch_rows rs"
proof -
  have "rs_row_count rs \<le> rs_rows_allocated rs" using assms(1) by (auto simp: rs_inv_def split: option.splits)
  then obtain rs' where rs': "put_row row (if needs_rows rs then realloc_rows (rs_rows_allocated rs + rs_prefetch_rows rs) rs else rs) = Inr rs'"
    "rs_inv rs'" "rows_of rs' = rows_of rs @ [row]" "rs_meta rs' = rs_meta rs" "rs_row_cursor rs' = rs_row_cursor rs"
    "rows_buf.more rs' = rows_buf.more rs"
    using grow_then_put[OF assms(1), of "rs_rows_allocated rs + rs_prefetch_rows rs" row] assms(2) by fastforce
  have "rs_prefetch_rows rs' = rs_prefetch_rows rs" using rs'(6) by (cases rs; cases rs') simp
  then show ?thesis using rs' by (auto simp: fwd_add_row_def)
qed

lemma free_rows_contents_inv:
  assumes "rs_inv rs"
  shows "rs_inv (free_rows_contents rs)"
    "rs_meta rs \<noteq> None \<Longrightarrow> rows_of (free_rows_contents rs) = []"
  using assms by (auto simp: free_rows_contents_def rs_inv_def rows_of_def split: option.splits)

lemma fetch_one_row:
  assumes "rs_inv rs" "rs_meta rs = Some m" "\<forall>r\<in>set (rows_of rs). length r = rm_count m"
  shows "fetch_one rs i = Inr (if i < rs_row_count rs then Some (row_array m (rows_of rs ! i)) else None)"
proof (cases "i < rs_row_count rs")
  case True
  then obtain rows where rows: "rs_rows rs = Some rows" "i < length rows" "rows ! i \<noteq> None"
    using assms(1) by (auto simp: rs_inv_def split: option.splits)
  then have "rows_of rs ! i = the (rows ! i)" using True by (simp add: rows_of_def)
  moreover have "rows_of rs ! i \<in> set (rows_of rs)" using True assms(1) by (simp add: length_rows_of)
  ultimately show ?thesis using assms(2,3) rows True by (auto simp: fetch_one_def stored_row_def)
qed (simp add: fetch_one_def stored_row_def assms(2))

lemma fetch_rows_all:
  assumes "rs_inv rs" "rs_meta rs = Some m" "\<forall>r\<in>set (rows_of rs). length r = rm_count m"
    and "\<forall>i\<in>set is. i < rs_row_count rs"
  shows "fetch_rows rs is = Inr (map (\<lambda>i. row_array m (rows_of rs ! i)) is)"
  using assms(4) by (induction "is") (simp_all add: fetch_one_row[OF assms(1-3)])

lemma buffered_fetch_all_rows:
  assumes "rs_inv rs" "rs_meta rs = Some m" "\<forall>r\<in>set (rows_of rs). length r = rm_count m"
  shows "buffered_fetch_all rs = Inr (map (row_array m) (rows_of rs))"
proof -
  have "map (\<lambda>i. row_array m (rows_of rs ! i)) [0..<rs_row_count rs] = map (row_array m) (rows_of rs)"
    unfolding length_rows_of[OF assms(1), symmetric] by (rule nth_equalityI) simp_all
  then show ?thesis using fetch_rows_all[OF assms, of "[0..<rs_row_count rs]"]
    by (simp add: buffered_fetch_all_def)
qed

section \<open>Cursors\<close>

text \<open>
  The method \<^verbatim>\<open>fetchOne\<close> of the PHP result classes, over the operations of a result: null at the
  end, otherwise the current row, after which the cursor moves on; its status is ignored.
\<close>

definition php_fetch_one ::
  "('s \<Rightarrow> bool) \<Rightarrow> ('s \<Rightarrow> (xdevapi_error + zvalue option) \<times> 's) \<Rightarrow>
   ('s \<Rightarrow> (xdevapi_error + func_status) \<times> 's) \<Rightarrow> 's \<Rightarrow> (xdevapi_error + zvalue) \<times> 's" where
  "php_fetch_one eof fetch nxt s =
     (if eof s then (Inr Null, s)
      else case fetch s of
        (Inl e, s1) \<Rightarrow> (Inl e, s1)
      | (Inr None, s1) \<Rightarrow> (Inr Null, s1)
      | (Inr (Some row), s1) \<Rightarrow> (case nxt s1 of
          (Inl e, s2) \<Rightarrow> (Inl e, s2)
        | (Inr _, s2) \<Rightarrow> (Inr row, s2)))"

text \<open>A script that calls \<^verbatim>\<open>fetchOne\<close> \<open>n\<close> times.\<close>

fun php_fetches ::
  "('s \<Rightarrow> (xdevapi_error + zvalue) \<times> 's) \<Rightarrow> nat \<Rightarrow> 's \<Rightarrow> (xdevapi_error + zvalue list) \<times> 's" where
  "php_fetches one 0 s = (Inr [], s)"
| "php_fetches one (Suc n) s = (case one s of
     (Inl e, s1) \<Rightarrow> (Inl e, s1)
   | (Inr r, s1) \<Rightarrow> (case php_fetches one n s1 of
       (Inl e, s2) \<Rightarrow> (Inl e, s2)
     | (Inr rs, s2) \<Rightarrow> (Inr (r # rs), s2)))"

text \<open>
  What a cursor promises, as a relation between its states and the rows it stands before: the
  current row is the first of them, moving on drops it, and the end is reached when there are
  none.
\<close>

locale list_cursor =
  fixes eof :: "'s \<Rightarrow> bool" and fetch :: "'s \<Rightarrow> (xdevapi_error + zvalue option) \<times> 's"
    and nxt :: "'s \<Rightarrow> (xdevapi_error + func_status) \<times> 's"
    and stands :: "'s \<Rightarrow> zvalue list \<Rightarrow> bool"
  assumes eof: "stands s rows \<Longrightarrow> eof s \<longleftrightarrow> rows = []"
    and fetch: "stands s (r # rows) \<Longrightarrow> \<exists>s'. fetch s = (Inr (Some r), s') \<and> stands s' (r # rows)"
    and nxt: "stands s (r # rows) \<Longrightarrow> \<exists>s'. nxt s = (Inr PASS, s') \<and> stands s' rows"
begin

lemma fetch_one_step:
  assumes "stands s rows"
  shows "\<exists>s'. php_fetch_one eof fetch nxt s = (Inr (case rows of [] \<Rightarrow> Null | r # _ \<Rightarrow> r), s') \<and>
      stands s' (tl rows)"
proof (cases rows)
  case Nil
  then show ?thesis using assms eof by (simp add: php_fetch_one_def)
next
  case (Cons r rows')
  from fetch[OF assms[unfolded Cons]] obtain s1 where s1: "fetch s = (Inr (Some r), s1)"
    "stands s1 (r # rows')" by blast
  from nxt[OF s1(2)] obtain s2 where "nxt s1 = (Inr PASS, s2)" "stands s2 rows'" by blast
  then show ?thesis using s1 Cons assms eof by (simp add: php_fetch_one_def)
qed

lemma fetches_all:
  assumes "stands s rows"
  shows "\<exists>s'. php_fetches (php_fetch_one eof fetch nxt) n s =
      (Inr (take n rows @ replicate (n - length rows) Null), s') \<and> stands s' (drop n rows)"
  using assms
proof (induction n arbitrary: s rows)
  case (Suc n)
  from fetch_one_step[OF Suc.prems] obtain s1 where
    s1: "php_fetch_one eof fetch nxt s = (Inr (case rows of [] \<Rightarrow> Null | r # _ \<Rightarrow> r), s1)"
    "stands s1 (tl rows)" by blast
  from Suc.IH[OF s1(2)] show ?case using s1 by (cases rows) auto
qed simp

end

text \<open>The buffered cursor keeps this promise.\<close>

definition buffered_stands :: "rows_buf \<Rightarrow> zvalue list \<Rightarrow> bool" where
  "buffered_stands rs rows \<longleftrightarrow> rs_inv rs \<and>
     (\<exists>m. rs_meta rs = Some m \<and> (\<forall>r\<in>set (rows_of rs). length r = rm_count m) \<and>
       rows = drop (rs_row_cursor rs) (map (row_array m) (rows_of rs)))"

lemma buffered_cursor_moves [simp]:
  "rs_inv (rs\<lparr>rs_row_cursor := n\<rparr>) = rs_inv rs" "rows_of (rs\<lparr>rs_row_cursor := n\<rparr>) = rows_of rs"
  by (simp_all add: rs_inv_def rows_of_def split: option.split)

lemma drop_ConsD:
  assumes "drop n xs = y # ys"
  shows "n < length xs" "y = xs ! n" "ys = drop (Suc n) xs"
proof -
  show n: "n < length xs" using assms by (cases "n < length xs") auto
  then show "y = xs ! n" "ys = drop (Suc n) xs"
    using assms by (simp_all add: Cons_nth_drop_Suc[symmetric])
qed

interpretation buffered: list_cursor buffered_eof
  "\<lambda>rs. (buffered_fetch_current rs, rs)" "\<lambda>rs. (Inr (fst (buffered_next rs)), snd (buffered_next rs))"
  buffered_stands
proof
  fix rs :: rows_buf and r rows
  show "buffered_eof rs \<longleftrightarrow> rows = []" if "buffered_stands rs rows"
    using that by (auto simp: buffered_stands_def buffered_eof_def length_rows_of)
  assume st: "buffered_stands rs (r # rows)"
  then obtain m where m: "rs_inv rs" "rs_meta rs = Some m" "\<forall>r\<in>set (rows_of rs). length r = rm_count m"
    "drop (rs_row_cursor rs) (map (row_array m) (rows_of rs)) = r # rows"
    by (auto simp: buffered_stands_def)
  note cur = drop_ConsD[OF m(4)]
  show "\<exists>s'. (buffered_fetch_current rs, rs) = (Inr (Some r), s') \<and> buffered_stands s' (r # rows)"
    using st cur m by (simp add: buffered_fetch_current_def fetch_one_row length_rows_of)
  show "\<exists>s'. (Inr (fst (buffered_next rs)), snd (buffered_next rs)) = (Inr PASS, s') \<and>
      buffered_stands s' rows"
    using cur m by (auto simp: buffered_next_def length_rows_of buffered_stands_def)
qed

end
