(* ===== verification/Stmt.thy ===== *)
theory Stmt
  imports Rowset Reader_Laws
begin

text \<open>
  Statements, after \<^verbatim>\<open>src/xmysqlnd/xmysqlnd_stmt.cc\<close>: the callbacks that collect a reply in a
  context, and the operations that read whole results with them; with the execution state
  (\<^verbatim>\<open>xmysqlnd_stmt_execution_state.cc\<close>), the warning list (\<^verbatim>\<open>xmysqlnd_warning_list.cc\<close>), the dispatch
  over the two kinds of row sets (\<^verbatim>\<open>xmysqlnd_rowset.cc\<close>) and the result object
  (\<^verbatim>\<open>xmysqlnd_stmt_result.cc\<close>).
\<close>

section \<open>Execution state and warnings\<close>

record exec_state =
  es_items_affected :: "64 word"
  es_items_matched :: "64 word"
  es_items_found :: "64 word"
  es_last_insert_id :: "64 word"
  es_generated_doc_ids :: "string list"

definition new_exec_state :: exec_state where
  "new_exec_state = \<lparr>es_items_affected = 0, es_items_matched = 0, es_items_found = 0,
     es_last_insert_id = 0, es_generated_doc_ids = []\<rparr>"

definition set_affected_items_count :: "64 word \<Rightarrow> exec_state \<Rightarrow> exec_state" where
  "set_affected_items_count v es = es\<lparr>es_items_affected := v\<rparr>"

definition set_matched_items_count :: "64 word \<Rightarrow> exec_state \<Rightarrow> exec_state" where
  "set_matched_items_count v es = es\<lparr>es_items_matched := v\<rparr>"

definition set_found_items_count :: "64 word \<Rightarrow> exec_state \<Rightarrow> exec_state" where
  "set_found_items_count v es = es\<lparr>es_items_found := v\<rparr>"

definition set_last_insert_id :: "64 word \<Rightarrow> exec_state \<Rightarrow> exec_state" where
  "set_last_insert_id v es = es\<lparr>es_last_insert_id := v\<rparr>"

definition add_generated_doc_id :: "string \<Rightarrow> exec_state \<Rightarrow> exec_state" where
  "add_generated_doc_id i es = es\<lparr>es_generated_doc_ids := es_generated_doc_ids es @ [i]\<rparr>"

record warning =
  wl_message :: string
  wl_code :: nat
  wl_level :: nat

definition add_warning :: "nat \<Rightarrow> nat \<Rightarrow> string \<Rightarrow> warning list \<Rightarrow> warning list" where
  "add_warning level wcode msg ws = ws @ [\<lparr>wl_message = msg, wl_code = wcode, wl_level = level\<rparr>]"

definition get_warning :: "warning list \<Rightarrow> nat \<Rightarrow> warning option" where
  "get_warning ws i = (if i < length ws then Some (ws ! i) else None)"

section \<open>Row sets of both kinds\<close>

datatype rowset = Rowset_fwd fwd_buf | Rowset_buffered rows_buf

definition rowset_meta :: "rowset \<Rightarrow> result_meta option" where
  "rowset_meta r = (case r of Rowset_fwd f \<Rightarrow> rs_meta f | Rowset_buffered b \<Rightarrow> rs_meta b)"

definition rowset_attach_meta :: "result_meta option \<Rightarrow> rowset \<Rightarrow> rowset" where
  "rowset_attach_meta m r = (case r of
     Rowset_fwd f \<Rightarrow> Rowset_fwd (attach_meta m f)
   | Rowset_buffered b \<Rightarrow> Rowset_buffered (attach_meta m b))"

definition rowset_add_row :: "zvalue list \<Rightarrow> rowset \<Rightarrow> xdevapi_error + rowset" where
  "rowset_add_row row r = (case r of
     Rowset_fwd f \<Rightarrow> map_sum id Rowset_fwd (fwd_add_row row f)
   | Rowset_buffered b \<Rightarrow> map_sum id Rowset_buffered (buffered_add_row row b))"

definition rowset_row_count :: "rowset \<Rightarrow> nat" where
  "rowset_row_count r = (case r of
     Rowset_fwd f \<Rightarrow> rs_row_count f | Rowset_buffered b \<Rightarrow> rs_row_count b)"

definition rowset_fetch_one :: "rowset \<Rightarrow> nat \<Rightarrow> (xdevapi_error + zvalue option) \<times> rowset" where
  "rowset_fetch_one r i = (case r of
     Rowset_fwd f \<Rightarrow> (case fetch_one f i of
         Inr (Some row) \<Rightarrow> (Inr (Some row), Rowset_fwd (f\<lparr>rs_total_fetched := rs_total_fetched f + 1\<rparr>))
       | x \<Rightarrow> (x, r))
   | Rowset_buffered b \<Rightarrow> (fetch_one b i, r))"

text \<open>The C variants are only there for buffered rows; otherwise they fail.\<close>

definition rowset_fetch_one_c :: "rowset \<Rightarrow> nat \<Rightarrow> xdevapi_error + zvalue list option" where
  "rowset_fetch_one_c r i = (case r of Rowset_fwd _ \<Rightarrow> Inr None | Rowset_buffered b \<Rightarrow> fetch_one_c b i)"

definition rowset_fetch_all_c :: "rowset \<Rightarrow> xdevapi_error + zvalue list option" where
  "rowset_fetch_all_c r = (case r of
     Rowset_fwd _ \<Rightarrow> Inr None | Rowset_buffered b \<Rightarrow> map_sum id Some (fetch_all_c b))"

section \<open>The context of a read\<close>

text \<open>
  \<^verbatim>\<open>st_xmysqlnd_stmt_bind_ctx\<close>.  \<open>bc_fwd\<close> says which of the two functions creates the row set; the
  error information is absent where the source passes a null pointer.  Row set and context share
  one metadata object, so a field added to it is added to both.
\<close>

record bind_ctx =
  bc_fwd :: bool
  bc_error_info :: "(nat \<times> string \<times> string) option option"
  bc_fwd_prefetch_count :: nat
  bc_prefetch_counter :: nat
  bc_current_row :: "zvalue list"
  bc_rowset :: "rowset option"
  bc_meta :: "result_meta option"
  bc_warnings :: "warning list option"
  bc_exec_state :: "exec_state option"

definition new_bind_ctx :: "bool \<Rightarrow> (nat \<times> string \<times> string) option option \<Rightarrow> bind_ctx" where
  "new_bind_ctx fwd err = \<lparr>bc_fwd = fwd, bc_error_info = err, bc_fwd_prefetch_count = 0,
     bc_prefetch_counter = 0, bc_current_row = [], bc_rowset = None, bc_meta = None,
     bc_warnings = None, bc_exec_state = None\<rparr>"

text \<open>The callbacks of the caller, on the caller's own state.\<close>

record 'u stmt_binds =
  sb_row :: "(result_meta \<Rightarrow> zvalue list \<Rightarrow> 'u handling) option"
  sb_warning :: "(nat \<Rightarrow> nat \<Rightarrow> string \<Rightarrow> 'u handling) option"
  sb_error :: "(nat \<Rightarrow> string \<Rightarrow> string \<Rightarrow> 'u handling) option"
  sb_resultset_end :: "(bool \<Rightarrow> 'u \<Rightarrow> 'u) option"
  sb_statement_ok :: "(exec_state option \<Rightarrow> 'u \<Rightarrow> 'u) option"

type_synonym 'u collecting = "(bind_ctx \<times> 'u) handling"

definition create_rowset :: "bind_ctx \<Rightarrow> rowset" where
  "create_rowset c =
     (if bc_fwd c then Rowset_fwd (new_fwd (bc_fwd_prefetch_count c)) else Rowset_buffered new_buffered)"

definition ensure_rowset :: "bind_ctx \<Rightarrow> bind_ctx" where
  "ensure_rowset c = (case (bc_rowset c, bc_meta c) of
     (None, Some m) \<Rightarrow> c\<lparr>bc_rowset := Some (rowset_attach_meta (Some m) (create_rowset c))\<rparr>
   | _ \<Rightarrow> c)"

definition decode_cell ::
  "coded_input \<Rightarrow> nat \<Rightarrow> result_meta \<Rightarrow> nat \<Rightarrow> bytes \<Rightarrow> xdevapi_error + zvalue" where
  "decode_cell ci fs m idx buf = (case get_field m idx of
     None \<Rightarrow> Inl Null_dereference
   | Some f \<Rightarrow> (case row_field_to_zval ci fs f buf of
       None \<Rightarrow> Inl Payload_overrun
     | Some (_, v) \<Rightarrow> Inr v))"

text \<open>The end of a row: it is handed to the caller, or added to the row set.\<close>

definition finish_row :: "'u stmt_binds \<Rightarrow> result_meta \<Rightarrow> rowset \<Rightarrow> 'u collecting" where
  "finish_row SB m rs cu = (case sb_row SB of
     Some h \<Rightarrow> (case h m (bc_current_row (fst cu)) (snd cu) of
         (Inl e, u) \<Rightarrow> (Inl e, (fst cu, u))
       | (Inr _, u) \<Rightarrow> (Inr HND_AGAIN, (fst cu, u)))
   | None \<Rightarrow> (case rowset_add_row (bc_current_row (fst cu)) rs of
         Inl e \<Rightarrow> (Inl e, cu)
       | Inr rs' \<Rightarrow>
           let c1 = (fst cu)\<lparr>bc_rowset := Some rs'\<rparr> in
           if bc_fwd_prefetch_count c1 = 0 then (Inr HND_AGAIN, (c1, snd cu))
           else
             let left = uint_sub 64 (bc_prefetch_counter c1) 1
             in (Inr (if left = 0 then HND_PASS else HND_AGAIN),
                 (c1\<lparr>bc_prefetch_counter := left\<rparr>, snd cu))))"

definition handler_on_row_field ::
  "coded_input \<Rightarrow> nat \<Rightarrow> 'u stmt_binds \<Rightarrow> bytes \<Rightarrow> nat \<Rightarrow> 'u collecting" where
  "handler_on_row_field ci fs SB buf idx cu =
     (let c1 = ensure_rowset (fst cu) in
      case bc_rowset c1 of
        None \<Rightarrow> (Inr HND_AGAIN, (c1, snd cu))
      | Some rs \<Rightarrow> (case bc_meta c1 of
          None \<Rightarrow> (Inl Null_dereference, (c1, snd cu))
        | Some m \<Rightarrow>
            let c2 = (if idx = 0 then c1\<lparr>bc_current_row := create_row m\<rparr> else c1) in
            case decode_cell ci fs m idx buf of
              Inl e \<Rightarrow> (Inl e, (c2, snd cu))
            | Inr v \<Rightarrow>
                if length (bc_current_row c2) \<le> idx then (Inl Payload_overrun, (c2, snd cu))
                else
                  let c3 = c2\<lparr>bc_current_row := (bc_current_row c2)[idx := v]\<rparr> in
                  if idx + 1 = rm_count m then finish_row SB m rs (c3, snd cu)
                  else (Inr HND_AGAIN, (c3, snd cu))))"

definition handler_on_meta_field :: "field_meta \<Rightarrow> 'u collecting" where
  "handler_on_meta_field f cu =
     (let m = add_field f (case bc_meta (fst cu) of None \<Rightarrow> new_result_meta | Some m \<Rightarrow> m)
      in (Inr HND_AGAIN,
          ((fst cu)\<lparr>bc_meta := Some m, bc_rowset := map_option (rowset_attach_meta (Some m)) (bc_rowset (fst cu))\<rparr>,
           snd cu)))"

definition handler_on_warning :: "'u stmt_binds \<Rightarrow> nat \<Rightarrow> nat \<Rightarrow> string \<Rightarrow> 'u collecting" where
  "handler_on_warning SB level wcode msg cu =
     (case (case sb_warning SB of None \<Rightarrow> (Inr HND_AGAIN, snd cu) | Some h \<Rightarrow> h level wcode msg (snd cu)) of
        (Inl e, u) \<Rightarrow> (Inl e, (fst cu, u))
      | (Inr r, u) \<Rightarrow>
          (Inr r, ((fst cu)\<lparr>bc_warnings := Some (add_warning level wcode msg
             (case bc_warnings (fst cu) of None \<Rightarrow> [] | Some ws \<Rightarrow> ws))\<rparr>, u)))"

definition handler_on_error :: "'u stmt_binds \<Rightarrow> nat \<Rightarrow> string \<Rightarrow> string \<Rightarrow> 'u collecting" where
  "handler_on_error SB ecode state msg cu = (case sb_error SB of
     Some h \<Rightarrow> (case h ecode state msg (snd cu) of (r, u) \<Rightarrow> (r, (fst cu, u)))
   | None \<Rightarrow> (Inr HND_PASS_RETURN_FAIL,
       ((fst cu)\<lparr>bc_error_info := map_option (\<lambda>_. Some (ecode, state, msg)) (bc_error_info (fst cu))\<rparr>,
        snd cu)))"

definition handler_on_exec_state_change :: "nat \<Rightarrow> 64 word \<Rightarrow> 'u collecting" where
  "handler_on_exec_state_change t v cu =
     (let es = (case bc_exec_state (fst cu) of None \<Rightarrow> new_exec_state | Some es \<Rightarrow> es);
          es' = (if t = 1 then set_last_insert_id v es
                 else if t = 2 then set_affected_items_count v es
                 else if t = 3 then set_found_items_count v es
                 else if t = 4 then set_matched_items_count v es
                 else es)
      in (Inr HND_AGAIN, ((fst cu)\<lparr>bc_exec_state := Some es'\<rparr>, snd cu)))"

text \<open>The execution state is not created on demand here.\<close>

definition handler_on_generated_doc_ids :: "string \<Rightarrow> 'u collecting" where
  "handler_on_generated_doc_ids i cu = (case bc_exec_state (fst cu) of
     None \<Rightarrow> (Inl Null_dereference, cu)
   | Some es \<Rightarrow>
       (Inr HND_AGAIN, ((fst cu)\<lparr>bc_exec_state := Some (add_generated_doc_id i es)\<rparr>, snd cu)))"

definition handler_on_trx_state_change :: "nat \<Rightarrow> 'u collecting" where
  "handler_on_trx_state_change t cu = (Inr HND_AGAIN, cu)"

definition handler_on_resultset_end :: "'u stmt_binds \<Rightarrow> bool \<Rightarrow> bind_ctx \<times> 'u \<Rightarrow> bind_ctx \<times> 'u" where
  "handler_on_resultset_end SB has_more cu =
     (fst cu, case sb_resultset_end SB of None \<Rightarrow> snd cu | Some h \<Rightarrow> h has_more (snd cu))"

definition handler_on_statement_ok :: "'u stmt_binds \<Rightarrow> bind_ctx \<times> 'u \<Rightarrow> bind_ctx \<times> 'u" where
  "handler_on_statement_ok SB cu =
     (fst cu, case sb_statement_ok SB of
        None \<Rightarrow> snd cu | Some h \<Rightarrow> h (bc_exec_state (fst cu)) (snd cu))"

section \<open>Statements\<close>

text \<open>
  The state of a statement: its own context \<^verbatim>\<open>read_ctx\<close>, the local context \<^verbatim>\<open>create_ctx\<close> of the
  operation that runs, the caller's state and the flag of a partial read.
\<close>

record 'u stmt =
  sm_create :: bind_ctx
  sm_read :: bind_ctx
  sm_user :: 'u
  sm_partial_read_started :: bool

definition in_create :: "'u collecting \<Rightarrow> 'u stmt handling" where
  "in_create h s = (case h (sm_create s, sm_user s) of (r, c, u) \<Rightarrow> (r, s\<lparr>sm_create := c, sm_user := u\<rparr>))"

definition in_read :: "'u collecting \<Rightarrow> 'u stmt handling" where
  "in_read h s = (case h (sm_read s, sm_user s) of (r, c, u) \<Rightarrow> (r, s\<lparr>sm_read := c, sm_user := u\<rparr>))"

definition quietly :: "('s handling \<Rightarrow> 't handling) \<Rightarrow> ('s \<Rightarrow> 's) \<Rightarrow> 't \<Rightarrow> 't" where
  "quietly lift f t = snd (lift (\<lambda>s. (Inr HND_AGAIN, f s)) t)"

type_synonym ('v, 'z, 'u) stmt_state = "('v, 'z, 'u stmt reader) hstate"

text \<open>
  What the message layer is called with: the stream, the compression library, floating point,
  protobuf and the coded input stream, and the fuel for the loop over the members of a set.
\<close>

record ('v, 'z) env =
  en_io :: "'v vio"
  en_lib :: "'z compressor"
  en_floats :: floats
  en_pb :: pb
  en_input :: coded_input
  en_set_fuel :: nat

definition read_response ::
  "nat \<Rightarrow> ('v, 'z) env \<Rightarrow> 'u stmt reader_binds \<Rightarrow> ('v, 'z, 'u) stmt_state \<Rightarrow>
   ((xdevapi_error + func_status) \<times> ('v, 'z, 'u) stmt_state) option" where
  "read_response n E RB = receive_message n (en_io E) (en_pb E)
     (stmt_execute_handlers (en_lib E) (en_floats E) (en_pb E) RB)"

definition on_stmt :: "('u stmt \<Rightarrow> 'u stmt) \<Rightarrow> ('v, 'z, 'u) stmt_state \<Rightarrow> ('v, 'z, 'u) stmt_state" where
  "on_stmt f s = ((fst s)\<lparr>rd_app := f (rd_app (fst s))\<rparr>, snd s)"

definition init_read :: "('v, 'z, 'u) stmt_state \<Rightarrow> ('v, 'z, 'u) stmt_state" where
  "init_read s = (new_reader (rd_app (fst s)), snd s)"

section \<open>Results\<close>

record stmt_result =
  sr_rowset :: "rowset option"
  sr_meta :: "result_meta option"
  sr_exec_state :: "exec_state option"
  sr_warnings :: "warning list option"

definition buffered_binds :: "('v, 'z) env \<Rightarrow> 'u stmt_binds \<Rightarrow> bool \<Rightarrow> 'u stmt reader_binds" where
  "buffered_binds E SB has_error_info = \<lparr>
     rb_binds = no_binds\<lparr>
       bd_error := if sb_error SB \<noteq> None \<or> has_error_info
         then Some (\<lambda>ec st msg. in_create (handler_on_error SB ec st msg)) else None,
       bd_warning := if sb_warning SB \<noteq> None
         then Some (\<lambda>l wc msg. in_create (handler_on_warning SB l wc msg)) else None,
       bd_execution_state_change := Some (\<lambda>t v. in_create (handler_on_exec_state_change t v)),
       bd_generated_doc_ids := Some (\<lambda>i. in_read (handler_on_generated_doc_ids i)),
       bd_trx_state_change := Some (\<lambda>t. in_create (handler_on_trx_state_change t))\<rparr>,
     rb_create_meta_field = Some (\<lambda>s. (Some new_field, s)),
     rb_meta_field = Some (\<lambda>f. in_create (handler_on_meta_field f)),
     rb_row_field = Some (\<lambda>b i. in_create (handler_on_row_field (en_input E) (en_set_fuel E)
       (SB\<lparr>sb_row := None\<rparr>) b i)),
     rb_resultset_end = None, rb_stmt_execute_ok = None\<rparr>"

text \<open>The result and the flag \<open>has_more_results\<close>; \<open>Inr None\<close> is a null result.\<close>

definition get_buffered_result ::
  "nat \<Rightarrow> ('v, 'z) env \<Rightarrow> 'u stmt_binds \<Rightarrow> (nat \<times> string \<times> string) option option \<Rightarrow>
   ('v, 'z, 'u) stmt_state \<Rightarrow>
   ((xdevapi_error + (stmt_result \<times> bool) option) \<times> ('v, 'z, 'u) stmt_state) option" where
  "get_buffered_result n E SB err s =
     (let s0 = init_read (on_stmt (\<lambda>st. st\<lparr>sm_create := new_bind_ctx False err\<rparr>) s) in
      case read_response n E (buffered_binds E SB (err \<noteq> None)) s0 of
        None \<Rightarrow> None
      | Some (Inl e, s1) \<Rightarrow> Some (Inl e, s1)
      | Some (Inr FAIL, s1) \<Rightarrow> Some (Inr None, s1)
      | Some (Inr PASS, s1) \<Rightarrow>
          (let c = sm_create (rd_app (fst s1)) in
           Some (Inr (Some (\<lparr>sr_rowset = bc_rowset c, sr_meta = bc_meta c,
             sr_exec_state = bc_exec_state c, sr_warnings = bc_warnings c\<rparr>,
             rd_has_more_results (fst s1))), s1)))"

text \<open>
  The operations of the result object on buffered rows; without a row set they fail, and the result
  is at its end.
\<close>

definition buffered_result_fetch_all :: "stmt_result \<Rightarrow> xdevapi_error + zvalue list option" where
  "buffered_result_fetch_all r = (case sr_rowset r of
     Some (Rowset_buffered b) \<Rightarrow> map_sum id Some (buffered_fetch_all b)
   | _ \<Rightarrow> Inr None)"

definition buffered_result_eof :: "stmt_result \<Rightarrow> bool" where
  "buffered_result_eof r = (case sr_rowset r of Some (Rowset_buffered b) \<Rightarrow> buffered_eof b | _ \<Rightarrow> True)"

definition buffered_result_fetch_current :: "stmt_result \<Rightarrow> xdevapi_error + zvalue option" where
  "buffered_result_fetch_current r = (case sr_rowset r of
     Some (Rowset_buffered b) \<Rightarrow> buffered_fetch_current b | _ \<Rightarrow> Inr None)"

definition buffered_result_next :: "stmt_result \<Rightarrow> func_status \<times> stmt_result" where
  "buffered_result_next r = (case sr_rowset r of
     Some (Rowset_buffered b) \<Rightarrow>
       (fst (buffered_next b), r\<lparr>sr_rowset := Some (Rowset_buffered (snd (buffered_next b)))\<rparr>)
   | _ \<Rightarrow> (FAIL, r))"

definition buffered_result_rewind :: "stmt_result \<Rightarrow> func_status \<times> stmt_result" where
  "buffered_result_rewind r = (case sr_rowset r of
     Some (Rowset_buffered b) \<Rightarrow>
       (fst (buffered_rewind b), r\<lparr>sr_rowset := Some (Rowset_buffered (snd (buffered_rewind b)))\<rparr>)
   | _ \<Rightarrow> (FAIL, r))"

section \<open>Forward results\<close>

definition fwd_binds :: "('v, 'z) env \<Rightarrow> 'u stmt_binds \<Rightarrow> bool \<Rightarrow> 'u stmt reader_binds" where
  "fwd_binds E SB has_error_info = \<lparr>
     rb_binds = no_binds\<lparr>
       bd_error := if sb_error SB \<noteq> None \<or> has_error_info
         then Some (\<lambda>ec st msg. in_read (handler_on_error SB ec st msg)) else None,
       bd_warning := if sb_warning SB \<noteq> None
         then Some (\<lambda>l wc msg. in_read (handler_on_warning SB l wc msg)) else None,
       bd_execution_state_change := Some (\<lambda>t v. in_read (handler_on_exec_state_change t v)),
       bd_generated_doc_ids := Some (\<lambda>i. in_read (handler_on_generated_doc_ids i))\<rparr>,
     rb_create_meta_field = Some (\<lambda>s. (Some new_field, s)),
     rb_meta_field = Some (\<lambda>f. in_read (handler_on_meta_field f)),
     rb_row_field = Some (\<lambda>b i. in_read (handler_on_row_field (en_input E) (en_set_fuel E)
       (SB\<lparr>sb_row := None\<rparr>) b i)),
     rb_resultset_end = None, rb_stmt_execute_ok = None\<rparr>"

text \<open>
  The first call of \<^verbatim>\<open>get_fwd_result\<close> sets up \<^verbatim>\<open>read_ctx\<close>; later calls go on with what is there.
\<close>

definition start_partial_read :: "(nat \<times> string \<times> string) option option \<Rightarrow> 'u stmt \<Rightarrow> 'u stmt" where
  "start_partial_read err st = st\<lparr>sm_partial_read_started := True,
     sm_read := (sm_read st)\<lparr>bc_fwd := True, bc_error_info := err, bc_current_row := [],
       bc_rowset := None, bc_meta := None, bc_warnings := Some [],
       bc_exec_state := Some new_exec_state\<rparr>\<rparr>"

definition set_prefetch :: "nat \<Rightarrow> 'u stmt \<Rightarrow> 'u stmt" where
  "set_prefetch rows st = st\<lparr>sm_read :=
     (sm_read st)\<lparr>bc_fwd_prefetch_count := rows, bc_prefetch_counter := rows\<rparr>\<rparr>"

definition fwd_result :: "'u stmt \<Rightarrow> stmt_result" where
  "fwd_result st = \<lparr>sr_rowset = bc_rowset (sm_read st), sr_meta = bc_meta (sm_read st),
     sr_exec_state = bc_exec_state (sm_read st), sr_warnings = bc_warnings (sm_read st)\<rparr>"

text \<open>The result with the flags \<open>has_more_rows_in_set\<close> and \<open>has_more_results\<close>.\<close>

definition get_fwd_result ::
  "nat \<Rightarrow> ('v, 'z) env \<Rightarrow> 'u stmt_binds \<Rightarrow> (nat \<times> string \<times> string) option option \<Rightarrow> nat \<Rightarrow>
   ('v, 'z, 'u) stmt_state \<Rightarrow>
   ((xdevapi_error + (stmt_result \<times> bool \<times> bool) option) \<times> ('v, 'z, 'u) stmt_state) option" where
  "get_fwd_result n E SB err rows s =
     (let s0 = (if sm_partial_read_started (rd_app (fst s)) then s
                else init_read (on_stmt (start_partial_read err) s));
          s1 = on_stmt (set_prefetch rows) s0
      in if rows = 0 then Some (Inr (Some (fwd_result (rd_app (fst s1)), True, False)), s1)
         else case read_response n E (fwd_binds E SB (err \<noteq> None)) s1 of
           None \<Rightarrow> None
         | Some (Inl e, s2) \<Rightarrow> Some (Inl e, s2)
         | Some (Inr FAIL, s2) \<Rightarrow> Some (Inr None, s2)
         | Some (Inr PASS, s2) \<Rightarrow>
             Some (Inr (Some (fwd_result (rd_app (fst s2)), rd_has_more_rows_in_set (fst s2),
               rd_has_more_results (fst s2))), s2))"

text \<open>
  The forward cursor.  Its row set is the one of \<^verbatim>\<open>read_ctx\<close>, to which the callbacks add rows; a
  result without a row set is at its end and fails.
\<close>

definition fwd_rows :: "('v, 'z, 'u) stmt_state \<Rightarrow> fwd_buf option" where
  "fwd_rows s = (case bc_rowset (sm_read (rd_app (fst s))) of
     Some (Rowset_fwd f) \<Rightarrow> Some f | _ \<Rightarrow> None)"

definition set_fwd_rows :: "fwd_buf \<Rightarrow> 'u stmt \<Rightarrow> 'u stmt" where
  "set_fwd_rows f st = st\<lparr>sm_read := (sm_read st)\<lparr>bc_rowset := Some (Rowset_fwd f)\<rparr>\<rparr>"

definition fwd_eof :: "('v, 'z, 'u) stmt_state \<Rightarrow> bool" where
  "fwd_eof s = (case fwd_rows s of
     None \<Rightarrow> True
   | Some f \<Rightarrow> \<not> rd_has_more_rows_in_set (fst s) \<and> rs_row_count f \<le> rs_row_cursor f)"

definition fwd_fetch_current ::
  "('v, 'z, 'u) stmt_state \<Rightarrow> (xdevapi_error + zvalue option) \<times> ('v, 'z, 'u) stmt_state" where
  "fwd_fetch_current s = (case fwd_rows s of
     None \<Rightarrow> (Inr None, s)
   | Some f \<Rightarrow>
       let f1 = f\<lparr>rs_total_fetched := rs_total_fetched f + 1\<rparr>
       in case rowset_fetch_one (Rowset_fwd f1) (rs_row_cursor f1) of
            (r, Rowset_fwd f2) \<Rightarrow> (r, on_stmt (set_fwd_rows f2) s)
          | (r, _) \<Rightarrow> (r, s))"

definition fwd_next ::
  "nat \<Rightarrow> ('v, 'z) env \<Rightarrow> 'u stmt_binds \<Rightarrow> bool \<Rightarrow> ('v, 'z, 'u) stmt_state \<Rightarrow>
   ((xdevapi_error + func_status) \<times> ('v, 'z, 'u) stmt_state) option" where
  "fwd_next n E SB has_error_info s = (case fwd_rows s of
     None \<Rightarrow> Some (Inr FAIL, s)
   | Some f \<Rightarrow>
       if uint_sub 64 (rs_row_count f) (rs_row_cursor f) = 1 \<and> rd_has_more_rows_in_set (fst s) then
         let f1 = (if rs_row_count f = 0 then f else free_rows_contents f);
             s1 = on_stmt (\<lambda>st. let st1 = set_fwd_rows f1 st in
               st1\<lparr>sm_read := (sm_read st1)\<lparr>bc_prefetch_counter := bc_fwd_prefetch_count (sm_read st1)\<rparr>\<rparr>) s
         in read_response n E (fwd_binds E SB has_error_info) s1
       else Some (Inr PASS, on_stmt (set_fwd_rows (f\<lparr>rs_row_cursor := (rs_row_cursor f + 1) mod 2 ^ 64\<rparr>)) s))"

definition fwd_fetch_all ::
  "nat \<Rightarrow> ('v, 'z) env \<Rightarrow> 'u stmt_binds \<Rightarrow> bool \<Rightarrow> ('v, 'z, 'u) stmt_state \<Rightarrow>
   ((xdevapi_error + zvalue list option) \<times> ('v, 'z, 'u) stmt_state) option" where
  "fwd_fetch_all n E SB has_error_info s = (case fwd_rows s of
     None \<Rightarrow> Some (Inr None, s)
   | Some _ \<Rightarrow> (case read_response n E (fwd_binds E SB has_error_info) s of
       None \<Rightarrow> None
     | Some (Inl e, s1) \<Rightarrow> Some (Inl e, s1)
     | Some (Inr FAIL, s1) \<Rightarrow> Some (Inr None, s1)
     | Some (Inr PASS, s1) \<Rightarrow> (case fwd_rows s1 of
         None \<Rightarrow> Some (Inl Null_dereference, s1)
       | Some f \<Rightarrow> (case fetch_rows f [0..<rs_row_count f] of
           Inl e \<Rightarrow> Some (Inl e, s1)
         | Inr rows \<Rightarrow>
             let f1 = f\<lparr>rs_total_fetched := rs_total_fetched f + length rows\<rparr>;
                 f2 = (if rs_row_count f = 0 then f1
                       else free_rows_contents (f1\<lparr>rs_total_fetched := rs_total_fetched f1 + rs_row_count f1\<rparr>))
             in Some (Inr (Some rows), on_stmt (set_fwd_rows f2) s1)))))"

definition fwd_rewind :: "fwd_buf \<Rightarrow> func_status" where
  "fwd_rewind f = (if rs_total_fetched f = 0 \<and> rs_row_cursor f = 0 then PASS else FAIL)"

section \<open>Results read through callbacks\<close>

text \<open>
  \<^verbatim>\<open>read_one_result\<close> binds \<open>handler_on_statement_ok\<close> where the caller has a callback for the end of
  a result set, and \<open>handler_on_resultset_end\<close> where it has one for the end of the statement.
\<close>

definition one_result_binds :: "('v, 'z) env \<Rightarrow> 'u stmt_binds \<Rightarrow> 'u stmt reader_binds" where
  "one_result_binds E SB = \<lparr>
     rb_binds = no_binds\<lparr>
       bd_error := map_option (\<lambda>_ ec st msg. in_create (handler_on_error SB ec st msg)) (sb_error SB),
       bd_warning := map_option (\<lambda>_ l wc msg. in_create (handler_on_warning SB l wc msg)) (sb_warning SB),
       bd_execution_state_change := Some (\<lambda>t v. in_create (handler_on_exec_state_change t v)),
       bd_generated_doc_ids := Some (\<lambda>i. in_read (handler_on_generated_doc_ids i)),
       bd_trx_state_change := Some (\<lambda>t. in_create (handler_on_trx_state_change t))\<rparr>,
     rb_create_meta_field = Some (\<lambda>s. (Some new_field, s)),
     rb_meta_field = Some (\<lambda>f. in_create (handler_on_meta_field f)),
     rb_row_field = map_option (\<lambda>_ b i. in_create (handler_on_row_field (en_input E) (en_set_fuel E) SB b i))
       (sb_row SB),
     rb_resultset_end = map_option (\<lambda>_ b. quietly in_create (handler_on_resultset_end SB b))
       (sb_statement_ok SB),
     rb_stmt_execute_ok = map_option (\<lambda>_. quietly in_create (handler_on_statement_ok SB))
       (sb_resultset_end SB)\<rparr>"

definition finish_read ::
  "((xdevapi_error + func_status) \<times> ('v, 'z, 'u) stmt_state) option \<Rightarrow>
   ((xdevapi_error + func_status \<times> bool) \<times> ('v, 'z, 'u) stmt_state) option" where
  "finish_read r = (case r of
     None \<Rightarrow> None
   | Some (Inl e, s) \<Rightarrow> Some (Inl e, s)
   | Some (Inr st, s) \<Rightarrow> Some (Inr (st, st = PASS \<and> rd_has_more_results (fst s)), s))"

definition read_one_result ::
  "nat \<Rightarrow> ('v, 'z) env \<Rightarrow> 'u stmt_binds \<Rightarrow> (nat \<times> string \<times> string) option option \<Rightarrow>
   ('v, 'z, 'u) stmt_state \<Rightarrow>
   ((xdevapi_error + func_status \<times> bool) \<times> ('v, 'z, 'u) stmt_state) option" where
  "read_one_result n E SB err s = finish_read (read_response n E (one_result_binds E SB)
     (init_read (on_stmt (\<lambda>st. st\<lparr>sm_create := new_bind_ctx False err\<rparr>) s)))"

definition skip_binds :: "'u stmt reader_binds" where
  "skip_binds = \<lparr>
     rb_binds = no_binds\<lparr>
       bd_execution_state_change := Some (\<lambda>t v. in_create (handler_on_exec_state_change t v)),
       bd_generated_doc_ids := Some (\<lambda>i. in_read (handler_on_generated_doc_ids i))\<rparr>,
     rb_create_meta_field = None, rb_meta_field = None, rb_row_field = None,
     rb_resultset_end = None, rb_stmt_execute_ok = None\<rparr>"

definition skip_one_result ::
  "nat \<Rightarrow> ('v, 'z) env \<Rightarrow> (nat \<times> string \<times> string) option option \<Rightarrow> ('v, 'z, 'u) stmt_state \<Rightarrow>
   ((xdevapi_error + func_status \<times> bool) \<times> ('v, 'z, 'u) stmt_state) option" where
  "skip_one_result n E err s = finish_read (read_response n E skip_binds
     (init_read (on_stmt (\<lambda>st. st\<lparr>sm_create := new_bind_ctx False err\<rparr>) s)))"

text \<open>
  The loops over the results of a statement, with fuel for the number of results; \<open>start\<close> is
  what the caller does before each result.
\<close>

fun results_loop ::
  "nat \<Rightarrow> ('s \<Rightarrow> ((xdevapi_error + func_status \<times> bool) \<times> 's) option) \<Rightarrow> ('s \<Rightarrow> 's) \<Rightarrow> 's \<Rightarrow>
   ((xdevapi_error + func_status) \<times> 's) option" where
  "results_loop 0 one start s = None"
| "results_loop (Suc k) one start s = (case one (start s) of
     None \<Rightarrow> None
   | Some (Inl e, s1) \<Rightarrow> Some (Inl e, s1)
   | Some (Inr (st, has_more), s1) \<Rightarrow>
       if st = PASS \<and> has_more then results_loop k one start s1 else Some (Inr st, s1))"

definition read_all_results ::
  "nat \<Rightarrow> nat \<Rightarrow> ('v, 'z) env \<Rightarrow> 'u stmt_binds \<Rightarrow> ('u \<Rightarrow> 'u) option \<Rightarrow>
   (nat \<times> string \<times> string) option option \<Rightarrow> ('v, 'z, 'u) stmt_state \<Rightarrow>
   ((xdevapi_error + func_status) \<times> ('v, 'z, 'u) stmt_state) option" where
  "read_all_results k n E SB on_start err = results_loop k (read_one_result n E SB err)
     (case on_start of None \<Rightarrow> id | Some f \<Rightarrow> on_stmt (\<lambda>st. st\<lparr>sm_user := f (sm_user st)\<rparr>))"

definition skip_all_results ::
  "nat \<Rightarrow> nat \<Rightarrow> ('v, 'z) env \<Rightarrow> (nat \<times> string \<times> string) option option \<Rightarrow>
   ('v, 'z, 'u) stmt_state \<Rightarrow> ((xdevapi_error + func_status) \<times> ('v, 'z, 'u) stmt_state) option" where
  "skip_all_results k n E err = results_loop k (skip_one_result n E err) id"

end
