(* ===== verification/Stmt_Laws.thy ===== *)
theory Stmt_Laws
  imports Stmt
begin

text \<open>
  What the callbacks of a statement collect from a reply.  The callbacks act on one of two
  contexts; the locale \<open>collector\<close> is what both have in common.  Columns build the metadata, a row is
  decoded cell by cell and then added, and the buffered result of a whole reply stands before the
  decoded rows.
\<close>

section \<open>Columns and cells\<close>

definition column_field :: "pb \<Rightarrow> bytes \<Rightarrow> field_meta" where
  "column_field P c = fill_field (parse_column P c) new_field"

definition columns_meta :: "pb \<Rightarrow> bytes list \<Rightarrow> result_meta" where
  "columns_meta P cols = fold add_field (map (column_field P) cols) new_result_meta"

definition decodable :: "coded_input \<Rightarrow> nat \<Rightarrow> result_meta \<Rightarrow> bytes list \<Rightarrow> bool" where
  "decodable ci fs m row \<longleftrightarrow> length row = rm_count m \<and>
     (\<forall>i<rm_count m. \<not> isl (decode_cell ci fs m i (row ! i)))"

definition decoded_row :: "coded_input \<Rightarrow> nat \<Rightarrow> result_meta \<Rightarrow> bytes list \<Rightarrow> zvalue list" where
  "decoded_row ci fs m row = map (\<lambda>i. projr (decode_cell ci fs m i (row ! i))) [0..<rm_count m]"

lemma length_decoded_row [simp]: "length (decoded_row ci fs m row) = rm_count m"
  by (simp add: decoded_row_def)

lemma decoded_cell: "decodable ci fs m row \<Longrightarrow> i < rm_count m \<Longrightarrow>
    decode_cell ci fs m i (row ! i) = Inr (decoded_row ci fs m row ! i)"
  by (auto simp: decodable_def decoded_row_def)

lemma columns_meta_count [simp]: "rm_count (columns_meta P cols) = length cols"
  using meta_store.count_fold[of "map (column_field P) cols" new_result_meta] meta_store.count_empty
  by (simp add: columns_meta_def)

lemma keep_rowset: "bc_rowset c = None \<Longrightarrow> c\<lparr>bc_meta := x, bc_rowset := None\<rparr> = c\<lparr>bc_meta := x\<rparr>"
  by (cases c) simp

lemma on_stmt_simps [simp]:
  "snd (on_stmt g s) = snd s"
  "rd_field_count (fst (on_stmt g s)) = rd_field_count (fst s)"
  "rd_has_more_results (fst (on_stmt g s)) = rd_has_more_results (fst s)"
  "rd_has_more_rows_in_set (fst (on_stmt g s)) = rd_has_more_rows_in_set (fst s)"
  "rd_app (fst (on_stmt g s)) = g (rd_app (fst s))"
  by (simp_all add: on_stmt_def)

section \<open>Collecting\<close>

locale collector =
  fixes get :: "'s \<Rightarrow> bind_ctx \<times> 'u" and put :: "bind_ctx \<times> 'u \<Rightarrow> 's \<Rightarrow> 's"
    and lift :: "'u collecting \<Rightarrow> 's handling"
  assumes get_put [simp]: "get (put x s) = x" and put_put [simp]: "put x (put y s) = put x s"
    and put_get [simp]: "put (get s) s = s"
    and lift: "lift h s = (fst (h (get s)), put (snd (h (get s))) s)"
begin

definition collects :: "coded_input \<Rightarrow> nat \<Rightarrow> 'u stmt_binds \<Rightarrow> 's reader_binds \<Rightarrow> bool" where
  "collects ci fs SB RB \<longleftrightarrow> rb_create_meta_field RB = Some (\<lambda>s. (Some new_field, s)) \<and>
     rb_meta_field RB = Some (\<lambda>f. lift (handler_on_meta_field f)) \<and>
     rb_row_field RB = Some (\<lambda>b i. lift (handler_on_row_field ci fs SB b i))"

lemma column_step:
  assumes "collects ci fs SB RB" "bc_rowset (fst (get (rd_app rd))) = None"
  shows "stmt_step F P RB (XMSG_COLUMN_METADATA, c) rd =
     (Inr HND_AGAIN, rd\<lparr>rd_has_more_results := True, rd_has_more_rows_in_set := True,
        rd_field_count := rd_field_count rd + 1,
        rd_app := put ((fst (get (rd_app rd)))\<lparr>bc_meta := Some (add_field (column_field P c)
          (case bc_meta (fst (get (rd_app rd))) of None \<Rightarrow> new_result_meta | Some m \<Rightarrow> m))\<rparr>,
          snd (get (rd_app rd))) (rd_app rd)\<rparr>)"
  using assms
  by (simp add: stmt_step_def xmsg_defs stmt_execute_on_COLUMN_META_def collects_def on_reader_app_def
      lift handler_on_meta_field_def column_field_def Let_def keep_rowset)

lemma columns_run:
  assumes "collects ci fs SB RB" "bc_rowset c = None" "bc_meta c = Some m"
  shows "run_steps (stmt_step F P RB) (map (Pair XMSG_COLUMN_METADATA) cols @ ms)
      (rd\<lparr>rd_has_more_results := True, rd_has_more_rows_in_set := True, rd_app := put (c, u) a\<rparr>) =
    run_steps (stmt_step F P RB) ms
      (rd\<lparr>rd_has_more_results := True, rd_has_more_rows_in_set := True,
          rd_field_count := rd_field_count rd + length cols,
          rd_app := put (c\<lparr>bc_meta := Some (fold add_field (map (column_field P) cols) m)\<rparr>, u) a\<rparr>)"
  using assms(2,3)
proof (induction cols arbitrary: rd c m)
  case Nil
  then have "c\<lparr>bc_meta := Some m\<rparr> = c" by (cases c) simp
  then show ?case by simp
next
  case (Cons col cols)
  have "run_steps (stmt_step F P RB) (map (Pair XMSG_COLUMN_METADATA) cols @ ms)
      ((rd\<lparr>rd_field_count := rd_field_count rd + 1\<rparr>)\<lparr>rd_has_more_results := True,
        rd_has_more_rows_in_set := True,
        rd_app := put (c\<lparr>bc_meta := Some (add_field (column_field P col) m)\<rparr>, u) a\<rparr>) =
    run_steps (stmt_step F P RB) ms
      ((rd\<lparr>rd_field_count := rd_field_count rd + 1\<rparr>)\<lparr>rd_has_more_results := True,
        rd_has_more_rows_in_set := True,
        rd_field_count := rd_field_count (rd\<lparr>rd_field_count := rd_field_count rd + 1\<rparr>) + length cols,
        rd_app := put ((c\<lparr>bc_meta := Some (add_field (column_field P col) m)\<rparr>)\<lparr>bc_meta :=
          Some (fold add_field (map (column_field P) cols) (add_field (column_field P col) m))\<rparr>, u) a\<rparr>)"
    using Cons.prems by (intro Cons.IH) simp_all
  then show ?case using Cons.prems by (cases rd) (simp add: column_step[OF assms(1)])
qed

lemma first_columns_run:
  assumes "collects ci fs SB RB" "bc_rowset c = None" "bc_meta c = None" "cols \<noteq> []"
    and "get (rd_app rd) = (c, u)"
  shows "run_steps (stmt_step F P RB) (map (Pair XMSG_COLUMN_METADATA) cols @ ms) rd =
    run_steps (stmt_step F P RB) ms
      (rd\<lparr>rd_has_more_results := True, rd_has_more_rows_in_set := True,
          rd_field_count := rd_field_count rd + length cols,
          rd_app := put (c\<lparr>bc_meta := Some (columns_meta P cols)\<rparr>, u) (rd_app rd)\<rparr>)"
proof -
  obtain col cols' where cols: "cols = col # cols'" using assms(4) by (cases cols) auto
  show ?thesis
    using assms column_step[OF assms(1), of rd F P col]
      columns_run[OF assms(1), of "c\<lparr>bc_meta := Some (add_field (column_field P col) new_result_meta)\<rparr>"
        "add_field (column_field P col) new_result_meta" F P cols' ms u "rd_app rd"
        "rd\<lparr>rd_field_count := rd_field_count rd + 1\<rparr>"]
    by (cases rd) (simp add: cols columns_meta_def)
qed

text \<open>The cells of a row, from the second on.\<close>

lemma row_fields_collect:
  assumes "decodable ci fs m row" "bc_rowset c = Some rs" "bc_meta c = Some m"
    and "0 < i" "i < rm_count m"
  shows "row_fields (\<lambda>b i. lift (handler_on_row_field ci fs SB b i)) row (rm_count m - i) i HND_AGAIN
      (put (c\<lparr>bc_current_row := take i (decoded_row ci fs m row) @ replicate (rm_count m - i) Undefined\<rparr>, u) a) =
    lift (finish_row SB m rs) (put (c\<lparr>bc_current_row := decoded_row ci fs m row\<rparr>, u) a)"
  using assms(4,5)
proof (induction "rm_count m - i" arbitrary: i)
  case (Suc k)
  let ?d = "decoded_row ci fs m row" and ?n = "rm_count m"
  have todo: "?n - i = Suc k" and k: "k = ?n - Suc i" using Suc.hyps(2) by simp_all
  have upd: "(take i ?d @ replicate (?n - i) Undefined)[i := ?d ! i] =
      take (Suc i) ?d @ replicate (?n - Suc i) Undefined"
    using Suc.prems by (simp add: list_update_append take_Suc_conv_app_nth todo[unfolded k] k[symmetric] flip: k)
  let ?c = "c\<lparr>bc_current_row := take (Suc i) ?d @ replicate (?n - Suc i) Undefined\<rparr>"
  have h: "handler_on_row_field ci fs SB (row ! i) i
      (c\<lparr>bc_current_row := take i ?d @ replicate (?n - i) Undefined\<rparr>, u) =
      (if Suc i = ?n then finish_row SB m rs (?c, u) else (Inr HND_AGAIN, (?c, u)))"
    using Suc.prems assms decoded_cell[OF assms(1), of i]
    by (simp add: handler_on_row_field_def ensure_rowset_def Let_def upd)
  have len: "i < length row" using assms(1) Suc.prems by (simp add: decodable_def)
  show ?case
  proof (cases "Suc i = ?n")
    case True
    then have "?c = c\<lparr>bc_current_row := ?d\<rparr>" by simp
    then show ?thesis using len h True k
      by (auto simp: todo lift split: sum.splits prod.splits)
  next
    case False
    then show ?thesis using len h Suc.hyps(1)[of "Suc i"] Suc.prems k by (simp add: todo lift)
  qed
qed simp

lemma row_step:
  assumes "collects ci fs SB RB" "decodable ci fs m (parse_row P r)" "get (rd_app rd) = (c, u)"
    and "bc_meta c = Some m" "rd_field_count rd = rm_count m" "0 < rm_count m"
    and "bc_rowset (ensure_rowset c) = Some rs"
    and "finish_row SB m rs
      ((ensure_rowset c)\<lparr>bc_current_row := decoded_row ci fs m (parse_row P r)\<rparr>, u) = (res, cu)"
  shows "stmt_step F P RB (XMSG_RSET_ROW, r) rd =
    (res, rd\<lparr>rd_has_more_results := True, rd_app := put cu (rd_app rd)\<rparr>)"
proof -
  let ?row = "parse_row P r" and ?n = "rm_count m" and ?c1 = "ensure_rowset c"
  let ?d = "decoded_row ci fs m ?row"
  let ?h = "\<lambda>b i. lift (handler_on_row_field ci fs SB b i)"
  have c1: "bc_meta ?c1 = Some m" "ensure_rowset ?c1 = ?c1"
    using assms(4,7) by (auto simp: ensure_rowset_def split: option.splits)
  have len: "length ?row = ?n" using assms(2) by (simp add: decodable_def)
  let ?c2 = "?c1\<lparr>bc_current_row := take 1 ?d @ replicate (?n - 1) Undefined\<rparr>"
  have upd: "(create_row m)[0 := ?d ! 0] = take 1 ?d @ replicate (?n - 1) Undefined"
    using assms(6) by (cases "?n"; cases ?d) (auto simp: create_row_def dest: arg_cong[where f = length])
  have first: "handler_on_row_field ci fs SB (?row ! 0) 0 (c, u) =
      (if ?n = 1 then finish_row SB m rs (?c2, u) else (Inr HND_AGAIN, (?c2, u)))"
    using assms(6,7) c1 decoded_cell[OF assms(2), of 0]
    by (auto simp: handler_on_row_field_def Let_def upd) (simp_all add: create_row_def)
  have "row_fields ?h ?row ?n 0 HND_AGAIN (rd_app rd) = (res, put cu (rd_app rd))"
  proof (cases "?n = 1")
    case True
    then have "take 1 ?d = ?d" by simp
    then show ?thesis using True first assms(3,8) len
      by (auto simp: lift split: sum.splits)
  next
    case False
    then obtain k where k: "?n = Suc k" "0 < k" using assms(6) by (cases ?n) auto
    have "row_fields ?h ?row (?n - 1) 1 HND_AGAIN (put (?c2, u) (rd_app rd)) =
        lift (finish_row SB m rs) (put (?c1\<lparr>bc_current_row := ?d\<rparr>, u) (rd_app rd))"
      using k by (intro row_fields_collect[OF assms(2,7) c1(1)]) simp_all
    then show ?thesis using first assms(3,8) k len by (simp add: lift)
  qed
  then show ?thesis using assms(1,5)
    by (simp add: stmt_step_def xmsg_defs stmt_execute_on_RSET_ROW_def collects_def on_reader_app_def Let_def)
qed

end

section \<open>Buffered results\<close>

text \<open>The context holds the given rows in a buffered row set.\<close>

definition holds_buffered :: "bind_ctx \<Rightarrow> result_meta \<Rightarrow> zvalue list list \<Rightarrow> bool" where
  "holds_buffered c m rows \<longleftrightarrow> \<not> bc_fwd c \<and> bc_fwd_prefetch_count c = 0 \<and> bc_meta c = Some m \<and>
     (case bc_rowset c of
        None \<Rightarrow> rows = []
      | Some (Rowset_buffered b) \<Rightarrow>
          rs_inv b \<and> rs_meta b = Some m \<and> rs_row_cursor b = 0 \<and> rows_of b = rows
      | Some (Rowset_fwd f) \<Rightarrow> False)"

lemma ensure_buffered:
  assumes "holds_buffered c m rows"
  obtains b where "bc_rowset (ensure_rowset c) = Some (Rowset_buffered b)" "rs_inv b"
    "rs_meta b = Some m" "rs_row_cursor b = 0" "rows_of b = rows"
    "ensure_rowset c = c\<lparr>bc_rowset := Some (Rowset_buffered b)\<rparr>"
proof (cases "bc_rowset c")
  case None
  have "rs_inv (new_buffered\<lparr>rs_meta := Some m\<rparr>)" "rows_of (new_buffered\<lparr>rs_meta := Some m\<rparr>) = []"
    by (simp_all add: rs_inv_def rows_of_def new_buffered_def)
  then show ?thesis using assms None that[of "new_buffered\<lparr>rs_meta := Some m\<rparr>"]
    by (simp add: holds_buffered_def ensure_rowset_def create_rowset_def rowset_attach_meta_def
        attach_meta_def new_buffered_def)
next
  case (Some r)
  then obtain b where b: "r = Rowset_buffered b" using assms
    by (cases r) (auto simp: holds_buffered_def)
  have "ensure_rowset c = c\<lparr>bc_rowset := Some (Rowset_buffered b)\<rparr>"
    using Some b by (cases c) (simp add: ensure_rowset_def)
  then show ?thesis using assms Some b that[of b] by (simp add: holds_buffered_def)
qed

lemma finish_buffered:
  assumes "holds_buffered c m rows" "sb_row SB = None" "bc_rowset (ensure_rowset c) = Some rs"
  shows "\<exists>c'. finish_row SB m rs ((ensure_rowset c)\<lparr>bc_current_row := row\<rparr>, u) = (Inr HND_AGAIN, (c', u)) \<and>
    holds_buffered c' m (rows @ [row])"
proof -
  obtain b where b: "bc_rowset (ensure_rowset c) = Some (Rowset_buffered b)" "rs_inv b"
    "rs_meta b = Some m" "rs_row_cursor b = 0" "rows_of b = rows"
    "ensure_rowset c = c\<lparr>bc_rowset := Some (Rowset_buffered b)\<rparr>"
    by (rule ensure_buffered[OF assms(1)])
  have rs: "rs = Rowset_buffered b" using b(1) assms(3) by simp
  from buffered_add_row_inv[OF b(2), of row] show ?thesis
    using assms(1,2) b(2-) rs by (auto simp: finish_row_def rowset_add_row_def holds_buffered_def)
qed

context collector
begin

lemma rows_run_buffered:
  assumes "collects ci fs SB RB" "0 < rm_count m" and SB: "sb_row SB = None"
  shows "\<lbrakk>\<forall>r\<in>set rs. decodable ci fs m (parse_row P r); get (rd_app rd) = (c, u);
      holds_buffered c m rows; rd_field_count rd = rm_count m; rd_has_more_results rd\<rbrakk> \<Longrightarrow>
    \<exists>c'. run_steps (stmt_step F P RB) (map (Pair XMSG_RSET_ROW) rs @ ms) rd =
        run_steps (stmt_step F P RB) ms (rd\<lparr>rd_app := put (c', u) (rd_app rd)\<rparr>) \<and>
      holds_buffered c' m (rows @ map (\<lambda>r. decoded_row ci fs m (parse_row P r)) rs)"
proof (induction rs arbitrary: rd c rows)
  case Nil
  have "rd\<lparr>rd_app := put (c, u) (rd_app rd)\<rparr> = rd" unfolding Nil(2)[symmetric] by simp
  then show ?case using Nil by (intro exI[of _ c]) simp
next
  case (Cons r rs)
  obtain rs0 where rs0: "bc_rowset (ensure_rowset c) = Some rs0"
    using ensure_buffered[OF Cons.prems(3)] by metis
  let ?d = "decoded_row ci fs m (parse_row P r)"
  from finish_buffered[OF Cons.prems(3) SB rs0, of ?d u] obtain c1 where
    c1: "finish_row SB m rs0 ((ensure_rowset c)\<lparr>bc_current_row := ?d\<rparr>, u) = (Inr HND_AGAIN, (c1, u))"
    "holds_buffered c1 m (rows @ [?d])" by blast
  have meta: "bc_meta c = Some m" using Cons.prems(3) by (simp add: holds_buffered_def)
  have more: "rd\<lparr>rd_has_more_results := True, rd_app := a\<rparr> = rd\<lparr>rd_app := a\<rparr>" for a
    using Cons.prems(5) by (cases rd) simp
  have step: "stmt_step F P RB (XMSG_RSET_ROW, r) rd =
      (Inr HND_AGAIN, rd\<lparr>rd_app := put (c1, u) (rd_app rd)\<rparr>)"
    using row_step[OF assms(1) _ Cons.prems(2) meta Cons.prems(4) assms(2) rs0 c1(1), of F]
      Cons.prems(1) by (simp add: more)
  have "\<exists>c'. run_steps (stmt_step F P RB) (map (Pair XMSG_RSET_ROW) rs @ ms)
        (rd\<lparr>rd_app := put (c1, u) (rd_app rd)\<rparr>) =
      run_steps (stmt_step F P RB) ms
        (rd\<lparr>rd_app := put (c1, u) (rd_app rd), rd_app := put (c', u) (put (c1, u) (rd_app rd))\<rparr>) \<and>
      holds_buffered c' m ((rows @ [?d]) @ map (\<lambda>r. decoded_row ci fs m (parse_row P r)) rs)"
    using Cons.IH[of "rd\<lparr>rd_app := put (c1, u) (rd_app rd)\<rparr>" c1 "rows @ [?d]"] Cons.prems c1(2) by simp
  then show ?case using step by simp
qed

end

interpretation creating: collector "\<lambda>s. (sm_create s, sm_user s)"
  "\<lambda>x s. s\<lparr>sm_create := fst x, sm_user := snd x\<rparr>" in_create
  by unfold_locales (simp_all add: in_create_def split: prod.split)

interpretation reading: collector "\<lambda>s. (sm_read s, sm_user s)"
  "\<lambda>x s. s\<lparr>sm_read := fst x, sm_user := snd x\<rparr>" in_read
  by unfold_locales (simp_all add: in_read_def split: prod.split)

lemma buffered_collects:
  "creating.collects (en_input E) (en_set_fuel E) (SB\<lparr>sb_row := None\<rparr>) (buffered_binds E SB err)"
  by (simp add: creating.collects_def buffered_binds_def)

lemma fwd_collects:
  "reading.collects (en_input E) (en_set_fuel E) (SB\<lparr>sb_row := None\<rparr>) (fwd_binds E SB err)"
  by (simp add: reading.collects_def fwd_binds_def)

lemma closing_run:
  assumes "rb_resultset_end RB = None" "rb_stmt_execute_ok RB = None"
  shows "run_steps (stmt_step F P RB) [(XMSG_RSET_FETCH_DONE, d), (XMSG_STMT_EXECUTE_OK, k)] rd =
    Some (Inr PASS, rd\<lparr>rd_has_more_results := False, rd_has_more_rows_in_set := False\<rparr>, [])"
  using assms by (cases rd) (simp add: stmt_step_def xmsg_defs stmt_execute_on_RSET_FETCH_DONE_def
      end_resultset_def stmt_execute_on_STMT_EXECUTE_OK_def final_status_def)

text \<open>A reply with one result set, and the rows a script should see of it.\<close>

definition reply :: "bytes list \<Rightarrow> bytes list \<Rightarrow> bytes \<Rightarrow> bytes \<Rightarrow> messages" where
  "reply cols rows d k = map (Pair XMSG_COLUMN_METADATA) cols @ map (Pair XMSG_RSET_ROW) rows @
     [(XMSG_RSET_FETCH_DONE, d), (XMSG_STMT_EXECUTE_OK, k)]"

lemma reply_covered: "\<forall>m\<in>set (reply cols rows d k). stmt_covers m"
  by (auto simp: reply_def stmt_covers_def server_message_type_is_valid_def xmsg_defs)

definition result_rows :: "('v, 'z) env \<Rightarrow> bytes list \<Rightarrow> bytes list \<Rightarrow> zvalue list" where
  "result_rows E cols rows = (let m = columns_meta (en_pb E) cols in
     map (\<lambda>r. row_array m (decoded_row (en_input E) (en_set_fuel E) m (parse_row (en_pb E) r))) rows)"

definition readable :: "('v, 'z) env \<Rightarrow> bytes list \<Rightarrow> bytes list \<Rightarrow> bool" where
  "readable E cols rows \<longleftrightarrow> cols \<noteq> [] \<and>
     (\<forall>r\<in>set rows. decodable (en_input E) (en_set_fuel E) (columns_meta (en_pb E) cols)
        (parse_row (en_pb E) r))"

text \<open>The rows a buffered result stands before.\<close>

definition buffered_result_stands :: "stmt_result \<Rightarrow> zvalue list \<Rightarrow> bool" where
  "buffered_result_stands r rows = (case sr_rowset r of
     None \<Rightarrow> rows = []
   | Some (Rowset_buffered b) \<Rightarrow> buffered_stands b rows
   | Some (Rowset_fwd f) \<Rightarrow> False)"

interpretation buffered_result: list_cursor buffered_result_eof
  "\<lambda>r. (buffered_result_fetch_current r, r)"
  "\<lambda>r. (Inr (fst (buffered_result_next r)), snd (buffered_result_next r))" buffered_result_stands
proof
  fix r :: stmt_result and x rows
  show "buffered_result_eof r \<longleftrightarrow> rows = []" if "buffered_result_stands r rows"
    using that buffered.eof by (auto simp: buffered_result_stands_def buffered_result_eof_def
        split: option.splits rowset.splits)
  assume "buffered_result_stands r (x # rows)"
  then obtain b where b: "sr_rowset r = Some (Rowset_buffered b)" "buffered_stands b (x # rows)"
    by (auto simp: buffered_result_stands_def split: option.splits rowset.splits)
  show "\<exists>s'. (buffered_result_fetch_current r, r) = (Inr (Some x), s') \<and> buffered_result_stands s' (x # rows)"
    using b buffered.fetch[OF b(2)] by (simp add: buffered_result_stands_def buffered_result_fetch_current_def)
  show "\<exists>s'. (Inr (fst (buffered_result_next r)), snd (buffered_result_next r)) = (Inr PASS, s') \<and>
      buffered_result_stands s' rows"
    using b buffered.nxt[OF b(2)] by (simp add: buffered_result_stands_def buffered_result_next_def)
qed

lemma buffered_result_fetch_all_rows:
  assumes "buffered_result_stands r rows" "\<And>b. sr_rowset r = Some (Rowset_buffered b) \<Longrightarrow> rs_row_cursor b = 0"
  shows "buffered_result_fetch_all r = Inr (if sr_rowset r = None then None else Some rows)"
proof (cases "sr_rowset r")
  case None
  then show ?thesis by (simp add: buffered_result_fetch_all_def)
next
  case (Some x)
  then obtain b where b: "sr_rowset r = Some (Rowset_buffered b)" "buffered_stands b rows"
    using assms(1) by (auto simp: buffered_result_stands_def split: rowset.splits)
  then obtain m where "rs_inv b" "rs_meta b = Some m" "\<forall>r\<in>set (rows_of b). length r = rm_count m"
    "rows = map (row_array m) (rows_of b)" using assms(2)[OF b(1)] by (auto simp: buffered_stands_def)
  then show ?thesis using b by (simp add: buffered_result_fetch_all_def buffered_fetch_all_rows)
qed

lemma holds_buffered_stands:
  assumes "holds_buffered c m (map f rows)" "\<forall>r\<in>set rows. length (f r) = rm_count m"
    and "sr_rowset res = bc_rowset c"
  shows "buffered_result_stands res (map (\<lambda>r. row_array m (f r)) rows)"
    "sr_rowset res = Some (Rowset_buffered b) \<Longrightarrow> rs_row_cursor b = 0"
  using assms by (auto simp: holds_buffered_def buffered_stands_def buffered_result_stands_def comp_def
      split: option.splits rowset.splits)

lemma buffered_result_read:
  assumes "keeps_bytes (en_io E) pending" "has_valid_stream (en_io E) (mc_vio (snd s))"
    and "pending (mc_vio (snd s)) = concat (map frame (reply cols rows d k)) @ bs"
    and "\<forall>m\<in>set (reply cols rows d k). frame_ok m" "readable E cols rows"
  shows "\<exists>res s'. get_buffered_result (length (reply cols rows d k)) E SB err s =
      Some (Inr (Some (res, False)), s') \<and> sr_meta res = Some (columns_meta (en_pb E) cols) \<and>
      has_valid_stream (en_io E) (mc_vio (snd s')) \<and> pending (mc_vio (snd s')) = bs \<and>
      buffered_result_stands res (result_rows E cols rows) \<and>
      buffered_result_fetch_all res = Inr (if sr_rowset res = None then None else Some (result_rows E cols rows))"
proof -
  let ?P = "en_pb E" and ?m = "columns_meta (en_pb E) cols" and ?RB = "buffered_binds E SB (err \<noteq> None)"
  let ?step = "stmt_step (en_floats E) ?P ?RB"
  obtain rd ctx where s: "s = (rd, ctx)" by (cases s)
  let ?rd = "new_reader ((rd_app rd)\<lparr>sm_create := new_bind_ctx False err\<rparr>)"
  let ?c = "(new_bind_ctx False err)\<lparr>bc_meta := Some ?m\<rparr>"
  let ?rd1 = "?rd\<lparr>rd_has_more_results := True, rd_has_more_rows_in_set := True,
      rd_field_count := length cols, rd_app := (rd_app ?rd)\<lparr>sm_create := ?c\<rparr>\<rparr>"
  have cols: "cols \<noteq> []" using assms(5) by (simp add: readable_def)
  have ends: "rb_resultset_end ?RB = None" "rb_stmt_execute_ok ?RB = None"
    by (simp_all add: buffered_binds_def)
  have empty: "holds_buffered ?c ?m []" by (simp add: holds_buffered_def new_bind_ctx_def)
  have "run_steps ?step (reply cols rows d k) ?rd =
      run_steps ?step (map (Pair XMSG_RSET_ROW) rows @ [(XMSG_RSET_FETCH_DONE, d), (XMSG_STMT_EXECUTE_OK, k)]) ?rd1"
    unfolding reply_def
    by (subst creating.first_columns_run[OF buffered_collects, of "new_bind_ctx False err" _ _ "sm_user (rd_app rd)"])
      (simp_all add: cols new_reader_def new_bind_ctx_def)
  moreover have "\<exists>c'. run_steps ?step (map (Pair XMSG_RSET_ROW) rows @
        [(XMSG_RSET_FETCH_DONE, d), (XMSG_STMT_EXECUTE_OK, k)]) ?rd1 =
      run_steps ?step [(XMSG_RSET_FETCH_DONE, d), (XMSG_STMT_EXECUTE_OK, k)]
        (?rd1\<lparr>rd_app := (rd_app ?rd1)\<lparr>sm_create := fst (c', sm_user (rd_app rd)),
           sm_user := snd (c', sm_user (rd_app rd))\<rparr>\<rparr>) \<and>
      holds_buffered c' ?m ([] @ map (\<lambda>r. decoded_row (en_input E) (en_set_fuel E) ?m (parse_row ?P r)) rows)"
    by (rule creating.rows_run_buffered[OF buffered_collects, where c = ?c])
      (use assms(5) empty in \<open>simp_all add: cols readable_def new_reader_def\<close>)
  ultimately obtain c' where run: "run_steps ?step (reply cols rows d k) ?rd =
      Some (Inr PASS, ?rd\<lparr>rd_has_more_results := False, rd_has_more_rows_in_set := False,
        rd_field_count := length cols, rd_app := (rd_app rd)\<lparr>sm_create := c'\<rparr>\<rparr>, [])"
    and c': "holds_buffered c' ?m (map (\<lambda>r. decoded_row (en_input E) (en_set_fuel E) ?m (parse_row ?P r)) rows)"
    by (auto simp only: closing_run[OF ends]) (simp add: new_reader_def)
  have "\<forall>m\<in>set (reply cols rows d k). stmt_covers m \<and> frame_ok m" using assms(4) reply_covered by blast
  from stmt.receive_loop_run[OF assms(1) assms(2,3)[unfolded s snd_conv] this run order_refl, of "en_lib E"]
  obtain v where v: "read_response (length (reply cols rows d k)) E ?RB (?rd, ctx) =
      Some (Inr PASS, (?rd\<lparr>rd_has_more_results := False, rd_has_more_rows_in_set := False,
        rd_field_count := length cols, rd_app := (rd_app rd)\<lparr>sm_create := c'\<rparr>\<rparr>, ctx\<lparr>mc_vio := v\<rparr>))"
    "has_valid_stream (en_io E) v" "pending v = bs"
    unfolding read_response_def receive_message_def by auto
  let ?res = "\<lparr>sr_rowset = bc_rowset c', sr_meta = bc_meta c', sr_exec_state = bc_exec_state c',
      sr_warnings = bc_warnings c'\<rparr>"
  have rows: "buffered_result_stands ?res (result_rows E cols rows)"
    "\<And>b. sr_rowset ?res = Some (Rowset_buffered b) \<Longrightarrow> rs_row_cursor b = 0"
    unfolding result_rows_def Let_def
    by (rule holds_buffered_stands[OF c', where res = ?res]; simp)+
  have "bc_meta c' = Some ?m" using c' by (simp add: holds_buffered_def)
  then show ?thesis using v rows(1) buffered_result_fetch_all_rows[OF rows]
    by (simp add: get_buffered_result_def init_read_def on_stmt_def s new_reader_def)
qed

end
