(* ===== verification/Fwd_Laws.thy ===== *)
theory Fwd_Laws
  imports Stmt_Laws
begin

text \<open>
  The forward cursor.  Rows are read from the line in groups of at most the prefetch count; the
  cursor stands before the rows it has in memory followed by the rows still on the line, and moving
  past the last row in memory reads the next group.  It thus keeps the promise of \<open>list_cursor\<close>,
  over the whole of a reply.
\<close>

section \<open>Reading a group of rows\<close>

definition holds_fwd :: "bind_ctx \<Rightarrow> result_meta \<Rightarrow> nat \<Rightarrow> nat \<Rightarrow> zvalue list list \<Rightarrow> bool" where
  "holds_fwd c m p k rows \<longleftrightarrow> bc_fwd c \<and> bc_fwd_prefetch_count c = p \<and> bc_prefetch_counter c = k \<and>
     bc_meta c = Some m \<and>
     (case bc_rowset c of
        None \<Rightarrow> rows = []
      | Some (Rowset_fwd f) \<Rightarrow> rs_inv f \<and> rs_meta f = Some m \<and> rs_row_cursor f = 0 \<and>
          0 < rs_prefetch_rows f \<and> rows_of f = rows
      | Some (Rowset_buffered b) \<Rightarrow> False)"

lemma ensure_fwd:
  assumes "holds_fwd c m p k rows" "0 < p"
  obtains f where "bc_rowset (ensure_rowset c) = Some (Rowset_fwd f)" "rs_inv f"
    "rs_meta f = Some m" "rs_row_cursor f = 0" "0 < rs_prefetch_rows f" "rows_of f = rows"
    "ensure_rowset c = c\<lparr>bc_rowset := Some (Rowset_fwd f)\<rparr>"
proof (cases "bc_rowset c")
  case None
  have "rs_inv (new_fwd p\<lparr>rs_meta := Some m\<rparr>)" "rows_of (new_fwd p\<lparr>rs_meta := Some m\<rparr>) = []"
    by (simp_all add: rs_inv_def rows_of_def new_fwd_def)
  then show ?thesis using assms None that[of "new_fwd p\<lparr>rs_meta := Some m\<rparr>"]
    by (simp add: holds_fwd_def ensure_rowset_def create_rowset_def rowset_attach_meta_def
        attach_meta_def new_fwd_def)
next
  case (Some r)
  then obtain f where f: "r = Rowset_fwd f" using assms
    by (cases r) (auto simp: holds_fwd_def)
  have "ensure_rowset c = c\<lparr>bc_rowset := Some (Rowset_fwd f)\<rparr>"
    using Some f by (cases c) (simp add: ensure_rowset_def)
  then show ?thesis using assms Some f that[of f] by (simp add: holds_fwd_def)
qed

lemma finish_fwd:
  assumes "holds_fwd c m p k rows" "0 < p" "0 < k" "k < 2 ^ 64" "sb_row SB = None"
    and "bc_rowset (ensure_rowset c) = Some rs"
  shows "\<exists>c'. finish_row SB m rs ((ensure_rowset c)\<lparr>bc_current_row := row\<rparr>, u) =
      (Inr (if k = 1 then HND_PASS else HND_AGAIN), (c', u)) \<and> holds_fwd c' m p (k - 1) (rows @ [row])"
proof -
  obtain f where f: "bc_rowset (ensure_rowset c) = Some (Rowset_fwd f)" "rs_inv f"
    "rs_meta f = Some m" "rs_row_cursor f = 0" "0 < rs_prefetch_rows f" "rows_of f = rows"
    "ensure_rowset c = c\<lparr>bc_rowset := Some (Rowset_fwd f)\<rparr>"
    by (rule ensure_fwd[OF assms(1,2)])
  have rs: "rs = Rowset_fwd f" using f(1) assms(6) by simp
  have k: "uint_sub 64 k 1 = k - 1" using assms(3,4) by (simp add: uint_sub_le)
  from fwd_add_row_inv[OF f(2,5), of row] obtain f' where f': "fwd_add_row row f = Inr f'" "rs_inv f'"
    "rows_of f' = rows_of f @ [row]" "rs_meta f' = rs_meta f" "rs_row_cursor f' = rs_row_cursor f"
    "rs_prefetch_rows f' = rs_prefetch_rows f" by blast
  show ?thesis
    using assms(1,2,3,5) f(2-) f' rs k
    by (auto simp: finish_row_def rowset_add_row_def holds_fwd_def Let_def)
qed

definition line_messages :: "bytes list \<Rightarrow> bytes \<Rightarrow> bytes \<Rightarrow> messages" where
  "line_messages line d k =
     map (Pair XMSG_RSET_ROW) line @ [(XMSG_RSET_FETCH_DONE, d), (XMSG_STMT_EXECUTE_OK, k)]"

context collector
begin

lemma rows_run_fwd:
  assumes "collects ci fs SB RB" "0 < rm_count m" "0 < p" and SB: "sb_row SB = None"
  shows "\<lbrakk>\<forall>r\<in>set rs. decodable ci fs m (parse_row P r); get (rd_app rd) = (c, u);
      holds_fwd c m p k rows; length rs \<le> k; 0 < k; k < 2 ^ 64;
      rd_field_count rd = rm_count m; rd_has_more_results rd\<rbrakk> \<Longrightarrow>
    \<exists>c'. run_steps (stmt_step F P RB) (map (Pair XMSG_RSET_ROW) rs @ ms) rd =
        (if length rs = k then Some (Inr PASS, rd\<lparr>rd_app := put (c', u) (rd_app rd)\<rparr>, ms)
         else run_steps (stmt_step F P RB) ms (rd\<lparr>rd_app := put (c', u) (rd_app rd)\<rparr>)) \<and>
      holds_fwd c' m p (k - length rs) (rows @ map (\<lambda>r. decoded_row ci fs m (parse_row P r)) rs)"
proof (induction rs arbitrary: rd c rows k)
  case Nil
  have "rd\<lparr>rd_app := put (c, u) (rd_app rd)\<rparr> = rd" unfolding Nil(2)[symmetric] by simp
  then show ?case using Nil by (intro exI[of _ c]) simp
next
  case (Cons r rs)
  obtain rs0 where rs0: "bc_rowset (ensure_rowset c) = Some rs0"
    using ensure_fwd[OF Cons.prems(3) assms(3)] by metis
  let ?d = "decoded_row ci fs m (parse_row P r)"
  from finish_fwd[OF Cons.prems(3) assms(3) Cons.prems(5,6) SB rs0, of ?d u] obtain c1 where
    c1: "finish_row SB m rs0 ((ensure_rowset c)\<lparr>bc_current_row := ?d\<rparr>, u) =
      (Inr (if k = 1 then HND_PASS else HND_AGAIN), (c1, u))"
    "holds_fwd c1 m p (k - 1) (rows @ [?d])" by blast
  have meta: "bc_meta c = Some m" using Cons.prems(3) by (simp add: holds_fwd_def)
  have more: "rd\<lparr>rd_has_more_results := True, rd_app := a\<rparr> = rd\<lparr>rd_app := a\<rparr>" for a
    using Cons.prems(8) by (cases rd) simp
  have step: "stmt_step F P RB (XMSG_RSET_ROW, r) rd =
      (Inr (if k = 1 then HND_PASS else HND_AGAIN), rd\<lparr>rd_app := put (c1, u) (rd_app rd)\<rparr>)"
    using row_step[OF assms(1) _ Cons.prems(2) meta Cons.prems(7) assms(2) rs0 c1(1), of F]
      Cons.prems(1) by (simp add: more)
  show ?case
  proof (cases "k = 1")
    case True
    then have "rs = []" using Cons.prems(4) by simp
    then show ?thesis using step c1(2) True by (auto simp: final_status_def)
  next
    case False
    then obtain k' where k': "k = Suc k'" "0 < k'" using Cons.prems(5) by (cases k) auto
    have "\<exists>c'. run_steps (stmt_step F P RB) (map (Pair XMSG_RSET_ROW) rs @ ms)
          (rd\<lparr>rd_app := put (c1, u) (rd_app rd)\<rparr>) =
        (if length rs = k' then Some (Inr PASS, rd\<lparr>rd_app := put (c', u) (rd_app rd)\<rparr>, ms)
         else run_steps (stmt_step F P RB) ms (rd\<lparr>rd_app := put (c', u) (rd_app rd)\<rparr>)) \<and>
        holds_fwd c' m p (k' - length rs) ((rows @ [?d]) @ map (\<lambda>r. decoded_row ci fs m (parse_row P r)) rs)"
      using Cons.IH[of "rd\<lparr>rd_app := put (c1, u) (rd_app rd)\<rparr>" c1 k' "rows @ [?d]"] Cons.prems c1(2) k'
      by (cases "length rs = k'") simp_all
    then show ?thesis using step k' by (cases "length rs = k'") simp_all
  qed
qed

lemma line_run:
  assumes "collects ci fs SB RB" "0 < rm_count m" "0 < p" "p < 2 ^ 64"
    and "\<forall>r\<in>set line. decodable ci fs m (parse_row P r)" "get (rd_app rd) = (c, u)"
    and "holds_fwd c m p p []" "rd_field_count rd = rm_count m" "rd_has_more_results rd"
    and SB: "sb_row SB = None" and ends: "rb_resultset_end RB = None" "rb_stmt_execute_ok RB = None"
  shows "\<exists>c' k'. run_steps (stmt_step F P RB) (line_messages line d k) rd =
    Some (Inr PASS,
      (if length line < p then rd\<lparr>rd_has_more_results := False, rd_has_more_rows_in_set := False\<rparr>
       else rd)\<lparr>rd_app := put (c', u) (rd_app rd)\<rparr>,
      if length line < p then [] else line_messages (drop p line) d k) \<and>
    holds_fwd c' m p k' (map (\<lambda>r. decoded_row ci fs m (parse_row P r)) (take p line))"
proof (cases "length line < p")
  case True
  let ?close = "[(XMSG_RSET_FETCH_DONE, d), (XMSG_STMT_EXECUTE_OK, k)]"
  obtain c' where "run_steps (stmt_step F P RB) (map (Pair XMSG_RSET_ROW) line @ ?close) rd =
      run_steps (stmt_step F P RB) ?close (rd\<lparr>rd_app := put (c', u) (rd_app rd)\<rparr>)"
    "holds_fwd c' m p (p - length line) (map (\<lambda>r. decoded_row ci fs m (parse_row P r)) line)"
    using rows_run_fwd[OF assms(1-3) SB assms(5-7) _ assms(3,4,8,9), of F ?close] True by auto
  then have "run_steps (stmt_step F P RB) (map (Pair XMSG_RSET_ROW) line @ ?close) rd =
      Some (Inr PASS, rd\<lparr>rd_has_more_results := False, rd_has_more_rows_in_set := False,
        rd_app := put (c', u) (rd_app rd)\<rparr>, [])" by (cases rd) (simp add: closing_run[OF ends] del: run_steps.simps)
  then show ?thesis using True \<open>holds_fwd c' m p _ _\<close> by (intro exI[of _ c'] exI[of _ "p - length line"])
      (simp add: line_messages_def)
next
  case False
  let ?close = "[(XMSG_RSET_FETCH_DONE, d), (XMSG_STMT_EXECUTE_OK, k)]"
  have "map (Pair XMSG_RSET_ROW) line @ ?close =
      map (Pair XMSG_RSET_ROW) (take p line) @ map (Pair XMSG_RSET_ROW) (drop p line) @ ?close"
    by (simp flip: map_append)
  moreover have "\<forall>r\<in>set (take p line). decodable ci fs m (parse_row P r)"
    using assms(5) by (auto dest: in_set_takeD)
  ultimately show ?thesis
    using rows_run_fwd[OF assms(1-3) SB _ assms(6,7) _ assms(3,4,8,9), of "take p line" P F
        "map (Pair XMSG_RSET_ROW) (drop p line) @ ?close"] False by (auto simp: line_messages_def)
qed

end

section \<open>The forward cursor\<close>

text \<open>
  The rows and the end of the result set that are still on the line.
\<close>

definition line_ok ::
  "nat \<Rightarrow> ('v, 'z) env \<Rightarrow> ('v \<Rightarrow> bytes) \<Rightarrow> bytes \<Rightarrow> result_meta \<Rightarrow> ('v, 'z, 'u) stmt_state \<Rightarrow>
   bytes list \<Rightarrow> bool" where
  "line_ok n E pending bs m s line \<longleftrightarrow>
     keeps_bytes (en_io E) pending \<and> has_valid_stream (en_io E) (mc_vio (snd s)) \<and>
     rd_field_count (fst s) = rm_count m \<and> rd_has_more_results (fst s) \<and> length line + 2 \<le> n \<and>
     (\<forall>r\<in>set line. decodable (en_input E) (en_set_fuel E) m (parse_row (en_pb E) r)) \<and>
     (\<exists>d k. pending (mc_vio (snd s)) = concat (map frame (line_messages line d k)) @ bs \<and>
        (\<forall>x\<in>set (line_messages line d k). frame_ok x))"

definition fwd_buf_ok :: "result_meta \<Rightarrow> bind_ctx \<Rightarrow> fwd_buf \<Rightarrow> bool" where
  "fwd_buf_ok m c f \<longleftrightarrow> rs_inv f \<and> rs_meta f = Some m \<and> 0 < rm_count m \<and> 0 < rs_prefetch_rows f \<and>
     rs_row_cursor f \<le> rs_row_count f \<and> rs_row_count f < 2 ^ 64 \<and>
     (\<forall>r\<in>set (rows_of f). length r = rm_count m) \<and>
     bc_fwd c \<and> bc_meta c = Some m \<and> 0 < bc_fwd_prefetch_count c \<and> bc_fwd_prefetch_count c < 2 ^ 64"

definition fwd_stands ::
  "nat \<Rightarrow> ('v, 'z) env \<Rightarrow> ('v \<Rightarrow> bytes) \<Rightarrow> bytes \<Rightarrow> ('v, 'z, 'u) stmt_state \<Rightarrow> zvalue list \<Rightarrow> bool" where
  "fwd_stands n E pending bs s rows \<longleftrightarrow> (case fwd_rows s of
     None \<Rightarrow> rows = []
   | Some f \<Rightarrow> \<exists>m line. fwd_buf_ok m (sm_read (rd_app (fst s))) f \<and>
       rows = map (row_array m) (drop (rs_row_cursor f) (rows_of f) @
         map (\<lambda>r. decoded_row (en_input E) (en_set_fuel E) m (parse_row (en_pb E) r)) line) \<and>
       (if rd_has_more_rows_in_set (fst s)
        then rs_row_cursor f < rs_row_count f \<and> line_ok n E pending bs m s line
        else line = []))"

definition fwd_next_total ::
  "nat \<Rightarrow> ('v, 'z) env \<Rightarrow> 'u stmt_binds \<Rightarrow> bool \<Rightarrow> ('v, 'z, 'u) stmt_state \<Rightarrow>
   (xdevapi_error + func_status) \<times> ('v, 'z, 'u) stmt_state" where
  "fwd_next_total n E SB err s = (case fwd_next n E SB err s of None \<Rightarrow> (Inl Runtime_error, s) | Some x \<Rightarrow> x)"

lemma set_fwd_rows_simps [simp]:
  "fwd_rows (on_stmt (set_fwd_rows f) s) = Some f"
  "sm_read (set_fwd_rows f st) = (sm_read st)\<lparr>bc_rowset := Some (Rowset_fwd f)\<rparr>"
  by (simp_all add: fwd_rows_def on_stmt_def set_fwd_rows_def)

lemma fwd_buf_ok_ctx [simp]:
  "fwd_buf_ok m (c\<lparr>bc_rowset := r\<rparr>) f = fwd_buf_ok m c f"
  by (simp add: fwd_buf_ok_def)

lemma fwd_buf_ok_fetched [simp]:
  "fwd_buf_ok m c (f\<lparr>rs_total_fetched := n\<rparr>) = fwd_buf_ok m c f"
  by (simp add: fwd_buf_ok_def)

lemma line_ok_on_stmt [simp]: "line_ok n E pending bs m (on_stmt g s) line = line_ok n E pending bs m s line"
  by (simp add: line_ok_def)

lemma fwd_stands_Cons:
  assumes "fwd_stands n E pending bs s (r # rows)"
  obtains f m line where "fwd_rows s = Some f" "fwd_buf_ok m (sm_read (rd_app (fst s))) f"
    "rs_row_cursor f < rs_row_count f" "r = row_array m (rows_of f ! rs_row_cursor f)"
    "rows = map (row_array m) (drop (Suc (rs_row_cursor f)) (rows_of f) @
       map (\<lambda>r. decoded_row (en_input E) (en_set_fuel E) m (parse_row (en_pb E) r)) line)"
    "if rd_has_more_rows_in_set (fst s) then line_ok n E pending bs m s line else line = []"
proof -
  from assms obtain f m line where f: "fwd_rows s = Some f" "fwd_buf_ok m (sm_read (rd_app (fst s))) f"
    "r # rows = map (row_array m) (drop (rs_row_cursor f) (rows_of f) @
       map (\<lambda>r. decoded_row (en_input E) (en_set_fuel E) m (parse_row (en_pb E) r)) line)"
    "if rd_has_more_rows_in_set (fst s)
     then rs_row_cursor f < rs_row_count f \<and> line_ok n E pending bs m s line else line = []"
    by (auto simp: fwd_stands_def split: option.splits)
  have len: "length (rows_of f) = rs_row_count f" using f(2) by (simp add: fwd_buf_ok_def length_rows_of)
  have cur: "rs_row_cursor f < rs_row_count f"
    using f(3,4) len by (cases "rs_row_cursor f < rs_row_count f") (auto split: if_splits)
  then have "drop (rs_row_cursor f) (rows_of f) =
      rows_of f ! rs_row_cursor f # drop (Suc (rs_row_cursor f)) (rows_of f)"
    using len by (simp add: Cons_nth_drop_Suc)
  then show ?thesis using f cur that[of f m line] by (auto split: if_splits)
qed

lemma line_covered: "\<forall>x\<in>set (line_messages line d k). stmt_covers x"
  by (auto simp: line_messages_def stmt_covers_def server_message_type_is_valid_def xmsg_defs)

lemma holds_fwd_buf_ok:
  assumes "holds_fwd c m p k (map g line)" "bc_rowset c = Some (Rowset_fwd f)" "length line \<le> p"
    "0 < p" "p < 2 ^ 64" "0 < rm_count m" "\<forall>r\<in>set line. length (g r) = rm_count m"
  shows "fwd_buf_ok m c f" "rs_row_cursor f = 0" "rows_of f = map g line" "rs_row_count f = length line"
proof -
  have inv: "rs_inv f" and rows: "rows_of f = map g line" using assms(1,2) by (simp_all add: holds_fwd_def)
  have "length (rows_of f) = length line" using rows by simp
  then show cnt: "rs_row_count f = length line" using length_rows_of[OF inv] by simp
  show "fwd_buf_ok m c f" "rs_row_cursor f = 0" "rows_of f = map g line"
    using assms cnt by (auto simp: holds_fwd_def fwd_buf_ok_def)
qed

text \<open>
  A group is read, possibly after the messages \<open>pre\<close> in front of the rows.
\<close>

lemma fwd_fill_after:
  assumes io: "keeps_bytes (en_io E) pending" "has_valid_stream (en_io E) (mc_vio ctx)"
      "pending (mc_vio ctx) = concat (map frame (pre @ line_messages line d k)) @ bs"
      "\<forall>x\<in>set (pre @ line_messages line d k). frame_ok x" "\<forall>x\<in>set pre. stmt_covers x"
      "length (pre @ line_messages line d k) \<le> n"
    and pre: "run_steps (stmt_step (en_floats E) (en_pb E) (fwd_binds E SB err)) (pre @ line_messages line d k) rd0 =
      run_steps (stmt_step (en_floats E) (en_pb E) (fwd_binds E SB err)) (line_messages line d k) rd"
    and rd: "rd_field_count rd = rm_count m" "rd_has_more_results rd" "rd_has_more_rows_in_set rd"
      "holds_fwd (sm_read (rd_app rd)) m p p []"
    and dec: "\<forall>r\<in>set line. decodable (en_input E) (en_set_fuel E) m (parse_row (en_pb E) r)"
    and m: "0 < rm_count m" and p: "0 < p" "p < 2 ^ 64"
  shows "\<exists>s'. read_response n E (fwd_binds E SB err) (rd0, ctx) = Some (Inr PASS, s') \<and>
    fwd_stands n E pending bs s' (map (\<lambda>r. row_array m (decoded_row (en_input E) (en_set_fuel E) m
      (parse_row (en_pb E) r))) line)"
proof -
  let ?g = "\<lambda>r. decoded_row (en_input E) (en_set_fuel E) m (parse_row (en_pb E) r)"
  let ?RB = "fwd_binds E SB err" and ?u = "sm_user (rd_app rd)"
  let ?ms = "if length line < p then [] else line_messages (drop p line) d k"
  let ?rd = "(if length line < p then rd\<lparr>rd_has_more_results := False, rd_has_more_rows_in_set := False\<rparr> else rd)"
  from reading.line_run[OF fwd_collects[of E SB err] m p dec, where rd = rd and c = "sm_read (rd_app rd)"
      and u = ?u and F = "en_floats E" and d = d and k = k]
  obtain c' k' where run: "run_steps (stmt_step (en_floats E) (en_pb E) ?RB) (pre @ line_messages line d k) rd0 =
      Some (Inr PASS, ?rd\<lparr>rd_app := (rd_app rd)\<lparr>sm_read := c'\<rparr>\<rparr>, ?ms)"
    and c': "holds_fwd c' m p k' (map ?g (take p line))"
    unfolding pre using rd by (auto simp: fwd_binds_def)
  have "\<forall>x\<in>set (pre @ line_messages line d k). stmt_covers x \<and> frame_ok x" using io(4,5) line_covered by auto
  from stmt.receive_loop_run[OF io(1-3) this run io(6), of "en_lib E"]
  obtain v where v: "read_response n E ?RB (rd0, ctx) =
      Some (Inr PASS, (?rd\<lparr>rd_app := (rd_app rd)\<lparr>sm_read := c'\<rparr>\<rparr>, ctx\<lparr>mc_vio := v\<rparr>))"
    "has_valid_stream (en_io E) v" "pending v = concat (map frame ?ms) @ bs"
    unfolding read_response_def receive_message_def by auto
  let ?s = "(?rd\<lparr>rd_app := (rd_app rd)\<lparr>sm_read := c'\<rparr>\<rparr>, ctx\<lparr>mc_vio := v\<rparr>)"
  have "fwd_stands n E pending bs ?s (map (\<lambda>r. row_array m (?g r)) line)"
  proof (cases "bc_rowset c'")
    case None
    then have "line = []" using c' p by (simp add: holds_fwd_def)
    then show ?thesis using None by (simp add: fwd_stands_def fwd_rows_def)
  next
    case (Some r)
    then obtain f where f: "bc_rowset c' = Some (Rowset_fwd f)"
      using c' by (cases r) (auto simp: holds_fwd_def)
    note fb = holds_fwd_buf_ok[OF c' f _ p m]
    have "\<forall>x\<in>set (line_messages (drop p line) d k). frame_ok x"
      using io(4) by (auto simp: line_messages_def dest: in_set_dropD)
    moreover have "\<forall>r\<in>set (drop p line). decodable (en_input E) (en_set_fuel E) m (parse_row (en_pb E) r)"
      using dec by (auto dest: in_set_dropD)
    moreover have "length (drop p line) + 2 \<le> n" using io(6) by (simp add: line_messages_def)
    ultimately have rest: "line_ok n E pending bs m ?s (drop p line)" if "\<not> length line < p"
      using that v(2,3) io(1) rd(1,2) unfolding line_ok_def
      by (intro conjI exI[of _ d] exI[of _ k]) simp_all
    have rows: "map (\<lambda>r. row_array m (?g r)) line =
        map (row_array m) (map ?g (take p line) @ map ?g (drop p line))" by (simp flip: map_append)
    show ?thesis using f fb rest rd(3) p by (auto simp: fwd_stands_def fwd_rows_def rows)
  qed
  then show ?thesis using v(1) by blast
qed

lemma fwd_fill:
  assumes "line_ok n E pending bs m s line" "rd_has_more_rows_in_set (fst s)"
    and "holds_fwd (sm_read (rd_app (fst s))) m p p []" "0 < rm_count m" "0 < p" "p < 2 ^ 64"
  shows "\<exists>s'. read_response n E (fwd_binds E SB err) s = Some (Inr PASS, s') \<and>
    fwd_stands n E pending bs s' (map (\<lambda>r. row_array m (decoded_row (en_input E) (en_set_fuel E) m
      (parse_row (en_pb E) r))) line)"
proof -
  obtain rd ctx where s: "s = (rd, ctx)" by (cases s)
  from assms(1) obtain d k where
    "pending (mc_vio ctx) = concat (map frame (line_messages line d k)) @ bs"
    "\<forall>x\<in>set (line_messages line d k). frame_ok x"
    by (auto simp: line_ok_def s)
  then show ?thesis
    using assms fwd_fill_after[where pre = "[]" and ?rd0.0 = rd and rd = rd and ctx = ctx and d = d and k = k
      and line = line and m = m and p = p and n = n and E = E and pending = pending and bs = bs
      and SB = SB and err = err]
    by (simp add: line_ok_def s) (simp add: line_messages_def)
qed

lemma fwd_buf_ok_step:
  "fwd_buf_ok m c f \<Longrightarrow> rs_row_cursor f < rs_row_count f \<Longrightarrow>
    fwd_buf_ok m c (f\<lparr>rs_row_cursor := (rs_row_cursor f + 1) mod 2 ^ 64\<rparr>)"
  by (simp add: fwd_buf_ok_def)

lemma fwd_eof_stands: "fwd_stands n E pending bs s rows \<Longrightarrow> fwd_eof s \<longleftrightarrow> rows = []"
  using length_rows_of
  by (fastforce simp: fwd_stands_def fwd_eof_def fwd_buf_ok_def split: option.splits if_splits)

lemma fwd_fetch_stands:
  assumes "fwd_stands n E pending bs s (r # rows)"
  shows "\<exists>s'. fwd_fetch_current s = (Inr (Some r), s') \<and> fwd_stands n E pending bs s' (r # rows)"
proof -
  from assms obtain f m line where f: "fwd_rows s = Some f" "fwd_buf_ok m (sm_read (rd_app (fst s))) f"
    "rs_row_cursor f < rs_row_count f" "r = row_array m (rows_of f ! rs_row_cursor f)"
    "rows = map (row_array m) (drop (Suc (rs_row_cursor f)) (rows_of f) @
       map (\<lambda>r. decoded_row (en_input E) (en_set_fuel E) m (parse_row (en_pb E) r)) line)"
    "if rd_has_more_rows_in_set (fst s) then line_ok n E pending bs m s line else line = []"
    by (rule fwd_stands_Cons)
  let ?f = "f\<lparr>rs_total_fetched := rs_total_fetched f + 1\<rparr>"
  have "fetch_one ?f (rs_row_cursor f) = Inr (Some r)"
    using f(2,3,4) by (subst fetch_one_row[where m = m]) (auto simp: fwd_buf_ok_def)
  then have "fwd_fetch_current s =
      (Inr (Some r), on_stmt (set_fwd_rows (?f\<lparr>rs_total_fetched := rs_total_fetched ?f + 1\<rparr>)) s)"
    using f(1) by (simp add: fwd_fetch_current_def rowset_fetch_one_def Let_def)
  moreover have "drop (rs_row_cursor f) (rows_of f) =
      rows_of f ! rs_row_cursor f # drop (Suc (rs_row_cursor f)) (rows_of f)"
    using f(2,3) by (simp add: Cons_nth_drop_Suc fwd_buf_ok_def length_rows_of)
  ultimately show ?thesis using f(2-)
    by (auto simp: fwd_stands_def intro!: exI[of _ m] exI[of _ line] split: if_splits)
qed

lemma free_rows_contents_meta:
  fixes f :: fwd_buf
  assumes "rs_inv f" "rs_meta f = Some m" "rs_row_count f \<noteq> 0"
  shows "rs_row_cursor (free_rows_contents f) = 0" "rs_meta (free_rows_contents f) = Some m"
    "rs_prefetch_rows (free_rows_contents f) = rs_prefetch_rows f"
  using assms by (auto simp: free_rows_contents_def rs_inv_def split: option.splits)

lemma fwd_next_stands:
  assumes "fwd_stands n E pending bs s (r # rows)"
  shows "\<exists>s'. fwd_next_total n E SB err s = (Inr PASS, s') \<and> fwd_stands n E pending bs s' rows"
proof -
  let ?c = "sm_read (rd_app (fst s))"
  let ?g = "\<lambda>m r. decoded_row (en_input E) (en_set_fuel E) m (parse_row (en_pb E) r)"
  from assms obtain f m line where f: "fwd_rows s = Some f" "fwd_buf_ok m (sm_read (rd_app (fst s))) f"
    "rs_row_cursor f < rs_row_count f" "r = row_array m (rows_of f ! rs_row_cursor f)"
    "rows = map (row_array m) (drop (Suc (rs_row_cursor f)) (rows_of f) @ map (?g m) line)"
    "if rd_has_more_rows_in_set (fst s) then line_ok n E pending bs m s line else line = []"
    by (rule fwd_stands_Cons)
  have ok: "rs_inv f" "rs_meta f = Some m" "0 < rm_count m" "0 < rs_prefetch_rows f" "rs_row_count f < 2 ^ 64"
    "bc_fwd ?c" "bc_meta ?c = Some m" "0 < bc_fwd_prefetch_count ?c" "bc_fwd_prefetch_count ?c < 2 ^ 64"
    using f(2) by (simp_all add: fwd_buf_ok_def)
  have sub: "uint_sub 64 (rs_row_count f) (rs_row_cursor f) = rs_row_count f - rs_row_cursor f"
    using f(3) ok by (simp add: uint_sub_le)
  show ?thesis
  proof (cases "rs_row_count f - rs_row_cursor f = 1 \<and> rd_has_more_rows_in_set (fst s)")
    case True
    let ?f = "free_rows_contents f" and ?p = "bc_fwd_prefetch_count ?c"
    let ?s = "on_stmt (\<lambda>st. let st1 = set_fwd_rows ?f st in
        st1\<lparr>sm_read := (sm_read st1)\<lparr>bc_prefetch_counter := bc_fwd_prefetch_count (sm_read st1)\<rparr>\<rparr>) s"
    have nz: "rs_row_count f \<noteq> 0" using f(3) by simp
    have "drop (Suc (rs_row_cursor f)) (rows_of f) = []"
      using True ok by (auto simp: length_rows_of)
    then have rows: "rows = map (\<lambda>r. row_array m (?g m r)) line" using f(5) by simp
    have "holds_fwd (sm_read (rd_app (fst ?s))) m ?p ?p []"
      using ok nz by (simp add: holds_fwd_def Let_def free_rows_contents_inv free_rows_contents_meta)
    then have "\<exists>s'. read_response n E (fwd_binds E SB err) ?s = Some (Inr PASS, s') \<and>
        fwd_stands n E pending bs s' rows"
      unfolding rows using True f(6) ok by (intro fwd_fill[where p = ?p]) auto
    then show ?thesis using True f(1) nz by (auto simp: fwd_next_total_def fwd_next_def sub)
  next
    case False
    then have more: "rd_has_more_rows_in_set (fst s) \<Longrightarrow> Suc (rs_row_cursor f) < rs_row_count f" using f(3) by auto
    have "Suc (rs_row_cursor f) mod 2 ^ 64 = Suc (rs_row_cursor f)" using f(3) ok by simp
    then have cur: "(rs_row_cursor f + 1) mod 2 ^ 64 = Suc (rs_row_cursor f)" by simp
    let ?f = "f\<lparr>rs_row_cursor := Suc (rs_row_cursor f)\<rparr>" and ?s = "on_stmt (set_fwd_rows (f\<lparr>rs_row_cursor := Suc (rs_row_cursor f)\<rparr>)) s"
    have "fwd_buf_ok m ?c ?f" using fwd_buf_ok_step[OF f(2,3)] unfolding cur .
    then have "fwd_stands n E pending bs ?s rows"
      using f(5,6) more by (simp add: fwd_stands_def) (metis (no_types, lifting))
    moreover have "fwd_next_total n E SB err s = (Inr PASS, ?s)"
      using f(1) cur by (simp only: fwd_next_total_def fwd_next_def sub option.simps False if_False)
    ultimately show ?thesis by blast
  qed
qed

interpretation fwd: list_cursor fwd_eof fwd_fetch_current "fwd_next_total n E SB err"
  "fwd_stands n E pending bs" for n E SB err pending bs
  by unfold_locales (rule fwd_eof_stands fwd_fetch_stands fwd_next_stands; assumption)+

section \<open>A whole reply\<close>

lemma fwd_result_read:
  assumes "keeps_bytes (en_io E) pending" "has_valid_stream (en_io E) (mc_vio (snd s))"
    and "pending (mc_vio (snd s)) = concat (map frame (reply cols rows d k)) @ bs"
    and "\<forall>m\<in>set (reply cols rows d k). frame_ok m" "readable E cols rows"
    and "\<not> sm_partial_read_started (rd_app (fst s))" "0 < p" "p < 2 ^ 64"
    and "length (reply cols rows d k) \<le> n"
  shows "\<exists>res s'. get_fwd_result n E SB err p s = Some (Inr (Some res), s') \<and>
    fwd_stands n E pending bs s' (result_rows E cols rows)"
proof -
  let ?P = "en_pb E" and ?m = "columns_meta (en_pb E) cols" and ?RB = "fwd_binds E SB (err \<noteq> None)"
  let ?pre = "map (Pair XMSG_COLUMN_METADATA) cols"
  obtain rd ctx where s: "s = (rd, ctx)" by (cases s)
  let ?st = "set_prefetch p (start_partial_read err (rd_app rd))"
  let ?fresh = "new_reader ?st" and ?c = "sm_read ?st"
  let ?rd = "?fresh\<lparr>rd_has_more_results := True, rd_has_more_rows_in_set := True,
      rd_field_count := length cols, rd_app := ?st\<lparr>sm_read := ?c\<lparr>bc_meta := Some ?m\<rparr>\<rparr>\<rparr>"
  have reply: "reply cols rows d k = ?pre @ line_messages rows d k"
    by (simp add: reply_def line_messages_def)
  have cols: "cols \<noteq> []" using assms(5) by (simp add: readable_def)
  have c: "bc_rowset ?c = None" "bc_meta ?c = None"
    by (simp_all add: set_prefetch_def start_partial_read_def)
  have run: "run_steps (stmt_step (en_floats E) ?P ?RB) (?pre @ line_messages rows d k) ?fresh =
      run_steps (stmt_step (en_floats E) ?P ?RB) (line_messages rows d k) ?rd"
    using reading.first_columns_run[OF fwd_collects c cols, where rd = ?fresh and u = "sm_user ?st"]
    by (simp add: new_reader_def)
  have "holds_fwd (?c\<lparr>bc_meta := Some ?m\<rparr>) ?m p p []"
    by (simp add: holds_fwd_def set_prefetch_def start_partial_read_def)
  then have "\<exists>s'. read_response n E ?RB (?fresh, ctx) = Some (Inr PASS, s') \<and>
      fwd_stands n E pending bs s' (map (\<lambda>r. row_array ?m (decoded_row (en_input E) (en_set_fuel E) ?m
        (parse_row ?P r))) rows)"
    using assms cols unfolding reply s
    by (intro fwd_fill_after[OF _ _ _ _ _ _ run, where p = p])
      (auto simp: readable_def stmt_covers_def server_message_type_is_valid_def xmsg_defs)
  then show ?thesis using assms(6,7)
    by (auto simp: get_fwd_result_def init_read_def on_stmt_def s new_reader_def result_rows_def Let_def)
qed

end
