(* ===== verification/Result_Seq.thy ===== *)
theory Result_Seq
  imports Stmt_Laws Reader_Props
begin

text \<open>
  Statements with several results.  The loops of \<^verbatim>\<open>read_all_results\<close> and \<^verbatim>\<open>skip_all_results\<close> are
  shown once, for any reader of one result (the locale \<open>result_reader\<close>), and instantiated with the
  callbacks that skip and with those that hand rows to the caller.
\<close>

section \<open>Several results\<close>

text \<open>
  A result set is its columns and rows.  The reply of a statement with several of them has a
  message after each that says whether another one follows.
\<close>

type_synonym result_set = "bytes list \<times> bytes list"

definition set_messages :: "result_set \<Rightarrow> messages" where
  "set_messages rs = map (Pair XMSG_COLUMN_METADATA) (fst rs) @ map (Pair XMSG_RSET_ROW) (snd rs)"

fun replies :: "result_set \<Rightarrow> result_set list \<Rightarrow> messages" where
  "replies rs [] = set_messages rs @ [(XMSG_RSET_FETCH_DONE, []), (XMSG_STMT_EXECUTE_OK, [])]"
| "replies rs (rs' # more_sets) =
     set_messages rs @ (XMSG_RSET_FETCH_DONE_MORE_RSETS, []) # replies rs' more_sets"

lemma replies_covered: "\<forall>m\<in>set (replies rs sets). stmt_covers m"
  by (induction sets arbitrary: rs)
    (auto simp: set_messages_def stmt_covers_def server_message_type_is_valid_def xmsg_defs)

text \<open>
  An operation that reads one result, seen from the messages: \<open>one\<close> takes the messages of one result
  set and has the effect \<open>f\<close> on what the caller observes of the state.
\<close>

lemma more_sets_run:
  assumes "rb_resultset_end RB = None"
  shows "run_steps (stmt_step F P RB) ((XMSG_RSET_FETCH_DONE_MORE_RSETS, d) # ms) rd =
    Some (Inr PASS, rd\<lparr>rd_has_more_results := True, rd_has_more_rows_in_set := False\<rparr>, ms)"
  using assms by (cases rd) (simp add: stmt_step_def xmsg_defs stmt_execute_on_RSET_FETCH_DONE_MORE_RSETS_def
      end_resultset_def final_status_def)

definition sets_ok :: "('v, 'z) env \<Rightarrow> ('v \<Rightarrow> bytes) \<Rightarrow> bytes \<Rightarrow> ('v, 'z, 'u) stmt_state \<Rightarrow> messages \<Rightarrow> bool" where
  "sets_ok E pending bs s ms \<longleftrightarrow> has_valid_stream (en_io E) (mc_vio (snd s)) \<and>
     pending (mc_vio (snd s)) = concat (map frame ms) @ bs \<and> (\<forall>m\<in>set ms. stmt_covers m \<and> frame_ok m)"

lemma sets_ok_on_stmt [simp]: "sets_ok E pending bs (on_stmt f s) ms = sets_ok E pending bs s ms"
  "sets_ok E pending bs (init_read s) ms = sets_ok E pending bs s ms"
  by (simp_all add: sets_ok_def on_stmt_def init_read_def)

lemma read_response_run:
  assumes "keeps_bytes (en_io E) pending" "sets_ok E pending bs s ms" "length ms \<le> n"
    and "run_steps (stmt_step (en_floats E) (en_pb E) RB) ms (fst s) = Some (r, rd', ms')"
    and "set ms' \<subseteq> set ms"
  shows "\<exists>s'. read_response n E RB s = Some (r, s') \<and> fst s' = rd' \<and> sets_ok E pending bs s' ms'"
proof -
  obtain rd ctx where s: "s = (rd, ctx)" by (cases s)
  from stmt.receive_loop_run[OF assms(1) _ _ _ assms(4)[unfolded s fst_conv] assms(3), of ctx bs "en_lib E"]
  obtain v where "read_response n E RB s = Some (r, (rd', ctx\<lparr>mc_vio := v\<rparr>))"
    "has_valid_stream (en_io E) v" "pending v = concat (map frame ms') @ bs"
    unfolding read_response_def receive_message_def s using assms(2) by (auto simp: sets_ok_def s)
  then show ?thesis using assms(2,5) by (auto simp: sets_ok_def)
qed

text \<open>
  A reader of results: before each one it prepares the statement with \<open>ini\<close>; the messages of a
  result set then leave the reader expecting more, with the effect \<open>eff\<close> on the caller's state.
\<close>

locale result_reader =
  fixes F :: floats and P :: pb and RB :: "'u stmt reader_binds" and ini :: "'u stmt \<Rightarrow> 'u stmt"
    and ok :: "result_set \<Rightarrow> bool" and eff :: "result_set \<Rightarrow> 'u \<Rightarrow> 'u"
  assumes ends: "rb_resultset_end RB = None" "rb_stmt_execute_ok RB = None"
    and run: "ok rs \<Longrightarrow> \<exists>rd. run_steps (stmt_step F P RB) (set_messages rs @ ms) (new_reader (ini st)) =
        run_steps (stmt_step F P RB) ms rd \<and> sm_user (rd_app rd) = eff rs (sm_user st)"
begin

definition one :: "nat \<Rightarrow> ('v, 'z) env \<Rightarrow> ('v, 'z, 'u) stmt_state \<Rightarrow>
   ((xdevapi_error + func_status \<times> bool) \<times> ('v, 'z, 'u) stmt_state) option" where
  "one n E s = finish_read (read_response n E RB (init_read (on_stmt ini s)))"

lemma one_result:
  assumes "keeps_bytes (en_io E) pending" "en_floats E = F" "en_pb E = P"
    and "sets_ok E pending bs s (replies rs sets)" "ok rs" "length (replies rs sets) \<le> n"
  shows "\<exists>s'. one n E s = Some (Inr (PASS, sets \<noteq> []), s') \<and>
      sm_user (rd_app (fst s')) = eff rs (sm_user (rd_app (fst s))) \<and>
      sets_ok E pending bs s' (case sets of [] \<Rightarrow> [] | rs' # sets' \<Rightarrow> replies rs' sets')"
proof -
  let ?step = "stmt_step F P RB" and ?s = "init_read (on_stmt ini s)"
  let ?closing = "case sets of [] \<Rightarrow> [(XMSG_RSET_FETCH_DONE, []), (XMSG_STMT_EXECUTE_OK, [])]
      | rs' # sets' \<Rightarrow> (XMSG_RSET_FETCH_DONE_MORE_RSETS, []) # replies rs' sets'"
  let ?rest = "case sets of [] \<Rightarrow> [] | rs' # sets' \<Rightarrow> replies rs' sets'"
  have ms: "replies rs sets = set_messages rs @ ?closing" by (cases sets) simp_all
  have s: "fst ?s = new_reader (ini (rd_app (fst s)))" by (simp add: init_read_def on_stmt_def)
  from run[OF assms(5), of ?closing "rd_app (fst s)"] obtain rd where
    rd: "run_steps ?step (replies rs sets) (fst ?s) = run_steps ?step ?closing rd"
    "sm_user (rd_app rd) = eff rs (sm_user (rd_app (fst s)))" unfolding s ms by blast
  have "run_steps ?step ?closing rd = Some (Inr PASS,
      rd\<lparr>rd_has_more_results := sets \<noteq> [], rd_has_more_rows_in_set := False\<rparr>, ?rest)"
    by (cases sets) (simp_all only: list.simps closing_run[OF ends] more_sets_run[OF ends(1)] simp_thms)
  moreover have "set ?rest \<subseteq> set (replies rs sets)" by (cases sets) auto
  ultimately obtain s' where "read_response n E RB ?s = Some (Inr PASS, s')"
    "fst s' = rd\<lparr>rd_has_more_results := sets \<noteq> [], rd_has_more_rows_in_set := False\<rparr>"
    "sets_ok E pending bs s' ?rest"
    using read_response_run[OF assms(1), of bs ?s "replies rs sets" n RB] assms(2-4,6) rd(1) by auto
  then show ?thesis using rd(2) by (auto simp: one_def finish_read_def)
qed

lemma all_results:
  assumes "keeps_bytes (en_io E) pending" "en_floats E = F" "en_pb E = P"
    and "sets_ok E pending bs s (replies rs sets)" "\<forall>x\<in>set (rs # sets). ok x"
    and "length (replies rs sets) \<le> n"
  shows "\<exists>s'. results_loop (Suc (length sets)) (one n E)
        (on_stmt (\<lambda>st. st\<lparr>sm_user := f (sm_user st)\<rparr>)) s = Some (Inr PASS, s') \<and>
      sm_user (rd_app (fst s')) = fold (\<lambda>x u. eff x (f u)) (rs # sets) (sm_user (rd_app (fst s))) \<and>
      has_valid_stream (en_io E) (mc_vio (snd s')) \<and> pending (mc_vio (snd s')) = bs"
  using assms(4-)
proof (induction sets arbitrary: rs s)
  case Nil
  then show ?case
    using one_result[OF assms(1-3), of bs "on_stmt (\<lambda>st. st\<lparr>sm_user := f (sm_user st)\<rparr>) s" rs "[]" n]
    by (auto simp: sets_ok_def)
next
  case (Cons rs' sets)
  let ?s = "on_stmt (\<lambda>st. st\<lparr>sm_user := f (sm_user st)\<rparr>) s"
  from one_result[OF assms(1-3), of bs ?s rs "rs' # sets" n] Cons.prems obtain s1 where
    s1: "one n E ?s = Some (Inr (PASS, True), s1)"
    "sm_user (rd_app (fst s1)) = eff rs (f (sm_user (rd_app (fst s))))"
    "sets_ok E pending bs s1 (replies rs' sets)" by auto
  from Cons.IH[OF s1(3)] Cons.prems s1(1,2) show ?case by auto
qed

end

lemma skip_sets_run:
  "\<exists>rd'. run_steps (stmt_step F P skip_binds) (set_messages rs @ ms) rd =
      run_steps (stmt_step F P skip_binds) ms rd' \<and> rd_app rd' = rd_app rd"
proof -
  have rows: "\<exists>rd'. run_steps (stmt_step F P skip_binds) (map (Pair XMSG_RSET_ROW) rows @ ms) rd =
      run_steps (stmt_step F P skip_binds) ms rd' \<and> rd_app rd' = rd_app rd" for rows and rd :: "'u stmt reader"
  proof (induction rows arbitrary: rd)
    case (Cons r rows)
    have "stmt_step F P skip_binds (XMSG_RSET_ROW, r) rd = (Inr HND_AGAIN, rd\<lparr>rd_has_more_results := True\<rparr>)"
      by (simp add: stmt_step_def xmsg_defs stmt_execute_on_RSET_ROW_def skip_binds_def)
    then show ?case using Cons[of "rd\<lparr>rd_has_more_results := True\<rparr>"] by simp
  qed auto
  have "rb_create_meta_field skip_binds = None" by (simp add: skip_binds_def)
  from run_columns[OF this, of F P "fst rs" "map (Pair XMSG_RSET_ROW) (snd rs) @ ms" rd]
  show ?thesis using rows[of "snd rs"] unfolding set_messages_def append_assoc by fastforce
qed

interpretation skipping: result_reader F P skip_binds
  "\<lambda>st. st\<lparr>sm_create := new_bind_ctx False err\<rparr>" "\<lambda>rs. True" "\<lambda>rs u. u" for F P err
proof
  fix rs :: result_set and ms and st :: "'a stmt"
  show "\<exists>rd. run_steps (stmt_step F P skip_binds) (set_messages rs @ ms)
        (new_reader (st\<lparr>sm_create := new_bind_ctx False err\<rparr>)) = run_steps (stmt_step F P skip_binds) ms rd \<and>
      sm_user (rd_app rd) = sm_user st"
    using skip_sets_run[of F P rs ms "new_reader (st\<lparr>sm_create := new_bind_ctx False err\<rparr>)"]
    by (auto simp: new_reader_def)
qed (simp_all add: skip_binds_def)

text \<open>Rows handed to a callback of the caller.\<close>

definition row_binds :: "(result_meta \<Rightarrow> zvalue list \<Rightarrow> 'u \<Rightarrow> 'u) \<Rightarrow> 'u stmt_binds" where
  "row_binds g = \<lparr>sb_row = Some (\<lambda>m row u. (Inr HND_AGAIN, g m row u)), sb_warning = None, sb_error = None,
     sb_resultset_end = None, sb_statement_ok = None\<rparr>"

context collector
begin

lemma rows_run_callback:
  assumes "collects ci fs (row_binds g) RB" "0 < rm_count m"
  shows "\<lbrakk>\<forall>r\<in>set rs. decodable ci fs m (parse_row P r); get (rd_app rd) = (c, u); bc_meta c = Some m;
      rd_field_count rd = rm_count m\<rbrakk> \<Longrightarrow>
    \<exists>rd' c'. run_steps (stmt_step F P RB) (map (Pair XMSG_RSET_ROW) rs @ ms) rd =
        run_steps (stmt_step F P RB) ms rd' \<and>
      get (rd_app rd') = (c', fold (\<lambda>r. g m (decoded_row ci fs m (parse_row P r))) rs u)"
proof (induction rs arbitrary: rd c u)
  case (Cons r rs)
  obtain rs0 where rs0: "bc_rowset (ensure_rowset c) = Some rs0" "bc_meta (ensure_rowset c) = Some m"
    using Cons.prems(3) by (cases "bc_rowset c") (auto simp: ensure_rowset_def)
  let ?d = "decoded_row ci fs m (parse_row P r)" and ?c = "ensure_rowset c"
  have "finish_row (row_binds g) m rs0 (?c\<lparr>bc_current_row := ?d\<rparr>, u) =
      (Inr HND_AGAIN, (?c\<lparr>bc_current_row := ?d\<rparr>, g m ?d u))"
    by (simp add: finish_row_def row_binds_def)
  from row_step[OF assms(1) _ Cons.prems(2,3,4) assms(2) rs0(1) this, of F] Cons.prems(1)
  show ?case using rs0(2) Cons.prems(1,4)
      Cons.IH[of "rd\<lparr>rd_has_more_results := True, rd_app := put (?c\<lparr>bc_current_row := ?d\<rparr>, g m ?d u) (rd_app rd)\<rparr>"]
    by auto
qed auto

end

definition deliver_set ::
  "('v, 'z) env \<Rightarrow> (result_meta \<Rightarrow> zvalue list \<Rightarrow> 'u \<Rightarrow> 'u) \<Rightarrow> result_set \<Rightarrow> 'u \<Rightarrow> 'u" where
  "deliver_set E g rs u = (let m = columns_meta (en_pb E) (fst rs) in
     fold (\<lambda>r. g m (decoded_row (en_input E) (en_set_fuel E) m (parse_row (en_pb E) r))) (snd rs) u)"

lemma one_result_collects:
  "creating.collects (en_input E) (en_set_fuel E) (row_binds g) (one_result_binds E (row_binds g))"
  by (simp add: creating.collects_def one_result_binds_def row_binds_def)

interpretation delivering: result_reader "en_floats E" "en_pb E" "one_result_binds E (row_binds g)"
  "\<lambda>st. st\<lparr>sm_create := new_bind_ctx False err\<rparr>" "\<lambda>rs. readable E (fst rs) (snd rs)" "deliver_set E g"
  for E g err
proof
  fix rs :: result_set and ms and st :: "'c stmt"
  let ?step = "stmt_step (en_floats E) (en_pb E) (one_result_binds E (row_binds g))"
  let ?st = "st\<lparr>sm_create := new_bind_ctx False err\<rparr>" and ?m = "columns_meta (en_pb E) (fst rs)"
  let ?c = "(new_bind_ctx False err)\<lparr>bc_meta := Some ?m\<rparr>"
  let ?rd = "(new_reader ?st)\<lparr>rd_has_more_results := True, rd_has_more_rows_in_set := True,
      rd_field_count := length (fst rs), rd_app := ?st\<lparr>sm_create := ?c\<rparr>\<rparr>"
  assume ok: "readable E (fst rs) (snd rs)"
  have "run_steps ?step (set_messages rs @ ms) (new_reader ?st) =
      run_steps ?step (map (Pair XMSG_RSET_ROW) (snd rs) @ ms) ?rd"
    using ok creating.first_columns_run[OF one_result_collects, where rd = "new_reader ?st" and
        c = "new_bind_ctx False err" and u = "sm_user st" and cols = "fst rs"]
    by (simp add: set_messages_def readable_def new_reader_def new_bind_ctx_def)
  moreover from creating.rows_run_callback[OF one_result_collects, where rd = ?rd and m = ?m and rs = "snd rs"]
  have "\<exists>rd'. run_steps ?step (map (Pair XMSG_RSET_ROW) (snd rs) @ ms) ?rd = run_steps ?step ms rd' \<and>
      sm_user (rd_app rd') = deliver_set E g rs (sm_user st)"
    using ok by (fastforce simp: readable_def deliver_set_def Let_def)
  ultimately show "\<exists>rd. run_steps ?step (set_messages rs @ ms) (new_reader ?st) = run_steps ?step ms rd \<and>
      sm_user (rd_app rd) = deliver_set E g rs (sm_user st)" by simp
qed (simp_all add: one_result_binds_def row_binds_def)

end
