(* ===== verification/Stmt_Props.thy ===== *)
theory Stmt_Props
  imports Fwd_Laws Result_Seq Row_Props
begin

text \<open>
  Properties of reading results: what a script sees of a result set through the two kinds of
  cursors, the loops over all results of a statement, the execution state, and where the code goes
  wrong.
\<close>

lemma skipping_one:
  "result_reader.one skip_binds (\<lambda>st. st\<lparr>sm_create := new_bind_ctx False err\<rparr>) n E = skip_one_result n E err"
  by (simp add: fun_eq_iff skipping.one_def skip_one_result_def)

lemma delivering_one:
  "result_reader.one (one_result_binds E (row_binds g)) (\<lambda>st. st\<lparr>sm_create := new_bind_ctx False err\<rparr>) n E =
     read_one_result n E (row_binds g) err"
  by (simp add: fun_eq_iff delivering.one_def read_one_result_def)

section \<open>One result set\<close>

text \<open>
  C15: a buffered result is complete.  When the reply to a statement is one result set whose cells
  can be decoded, \<open>get_buffered_result\<close> returns a result, has consumed exactly the reply, says that
  no further result follows, and its \<open>fetch_all\<close> returns the decoded rows in order (it fails for a
  result without rows).
\<close>

theorem buffered_result_complete:
  assumes "keeps_bytes (en_io E) pending" "has_valid_stream (en_io E) (mc_vio (snd s))"
    and "pending (mc_vio (snd s)) = concat (map frame (reply cols rows d k)) @ bs"
    and "\<forall>m\<in>set (reply cols rows d k). frame_ok m" "readable E cols rows"
  shows "\<exists>res s' x. get_buffered_result (length (reply cols rows d k)) E SB err s =
      Some (Inr (Some (res, False)), s') \<and> pending (mc_vio (snd s')) = bs \<and>
      sr_meta res = Some (columns_meta (en_pb E) cols) \<and> buffered_result_fetch_all res = Inr x \<and>
      (case x of None \<Rightarrow> rows = [] | Some l \<Rightarrow> l = result_rows E cols rows)"
proof -
  from buffered_result_read[OF assms, of SB err] obtain res s' where
    res: "get_buffered_result (length (reply cols rows d k)) E SB err s = Some (Inr (Some (res, False)), s')"
    "pending (mc_vio (snd s')) = bs" "sr_meta res = Some (columns_meta (en_pb E) cols)"
    "buffered_result_stands res (result_rows E cols rows)"
    "buffered_result_fetch_all res = Inr (if sr_rowset res = None then None else Some (result_rows E cols rows))"
    by blast
  have "sr_rowset res = None \<Longrightarrow> rows = []" using res(4)
    by (simp add: buffered_result_stands_def result_rows_def Let_def)
  then show ?thesis using res by (cases "sr_rowset res") auto
qed

text \<open>A server of text columns named \<open>a\<close>, one field to a row, for examples.\<close>

definition text_pb :: pb where
  "text_pb = some_pb\<lparr>
     parse_column := \<lambda>b. (parse_column some_pb b)\<lparr>col_type := Some 7, col_name := Some ''a''\<rparr>,
     parse_row := \<lambda>b. [b]\<rparr>"

definition text_env :: "(bytes, unit) env" where
  "text_env = \<lparr>en_io = memory_vio, en_lib = plain_compressor, en_floats = some_floats, en_pb = text_pb,
     en_input = protobuf_input, en_set_fuel = 0\<rparr>"

definition silent_binds :: "'u stmt_binds" where
  "silent_binds = \<lparr>sb_row = None, sb_warning = None, sb_error = None, sb_resultset_end = None,
     sb_statement_ok = None\<rparr>"

definition fresh_stmt :: "'u \<Rightarrow> bytes \<Rightarrow> (bytes, unit, 'u) stmt_state" where
  "fresh_stmt u v = (new_reader \<lparr>sm_create = new_bind_ctx False None, sm_read = new_bind_ctx False None,
     sm_user = u, sm_partial_read_started = False\<rparr>, \<lparr>mc_vio = v, mc_executor = None, mc_error = None\<rparr>)"

lemma text_env_simps [simp]:
  "en_io text_env = memory_vio" "en_pb text_env = text_pb" "en_floats text_env = some_floats"
  "keeps_bytes memory_vio (\<lambda>v. v)" "has_valid_stream memory_vio v" "mc_vio (snd (fresh_stmt u v)) = v"
  "rd_app (fst (fresh_stmt u v)) = \<lparr>sm_create = new_bind_ctx False None, sm_read = new_bind_ctx False None,
     sm_user = u, sm_partial_read_started = False\<rparr>"
  by (simp_all add: text_env_def memory_vio_keeps fresh_stmt_def new_reader_def) (simp add: memory_vio_def)

lemma text_meta: "columns_meta text_pb [[]] = \<lparr>rm_fields = [new_field\<lparr>fm_type := 7, fm_type_set := True,
     fm_name := ''a''\<rparr>], rm_fields_size = rm_fields_size (columns_meta text_pb [[]])\<rparr>"
  by (simp add: columns_meta_def column_field_def text_pb_def some_pb_def fill_field_def when_set_def
      set_type_def set_name_def add_field_def new_result_meta_def rm_count_def new_field_def c_string_def
      Let_def)

lemma text_cell: "decode_cell ci fs (columns_meta text_pb [[]]) 0 [x, 0] = Inr (String (text_of [x]))"
  by (subst text_meta) (simp add: decode_cell_def get_field_def rm_count_def row_field_to_zval_def row_string_def)

lemma text_row: "parse_row text_pb b = [b]"
  by (simp add: text_pb_def)

lemma text_readable: "readable text_env [[]] [[x, 0]]" "readable text_env [[]] [[x, 0], [y, 0]]"
  by (simp_all add: readable_def decodable_def text_row text_cell)

theorem buffered_result_complete_witness:
  "\<exists>res s' x. get_buffered_result (length (reply [[]] [[104, 0], [105, 0]] [] [])) text_env silent_binds None
      (fresh_stmt () (concat (map frame (reply [[]] [[104, 0], [105, 0]] [] [])) @ [9])) =
      Some (Inr (Some (res, False)), s') \<and> mc_vio (snd s') = [9] \<and>
      sr_meta res = Some (columns_meta (en_pb text_env) [[]]) \<and> buffered_result_fetch_all res = Inr x \<and>
      (case x of None \<Rightarrow> [[104, 0], [105, 0 :: byte]] = []
       | Some l \<Rightarrow> l = result_rows text_env [[]] [[104, 0], [105, 0]])"
  by (rule buffered_result_complete[where pending = "\<lambda>v. v"])
    (auto simp: text_readable reply_def frame_ok_def xmsg_defs)

text \<open>
  C3: the forward cursor refines the list of rows.  Whatever the prefetch count, a script that
  calls \<^verbatim>\<open>fetchOne\<close> \<open>j\<close> times on a forward result gets the decoded rows of the reply in order and
  then nulls, although rows are read from the line in groups and the memory of a group is reused
  for the next one.
\<close>

theorem forward_cursor_enumerates:
  assumes "keeps_bytes (en_io E) pending" "has_valid_stream (en_io E) (mc_vio (snd s))"
    and "pending (mc_vio (snd s)) = concat (map frame (reply cols rows d k)) @ bs"
    and "\<forall>m\<in>set (reply cols rows d k). frame_ok m" "readable E cols rows"
    and "\<not> sm_partial_read_started (rd_app (fst s))" "0 < p" "p < 2 ^ 64"
    and "length (reply cols rows d k) \<le> n"
  shows "\<exists>res s1 s2. get_fwd_result n E SB err p s = Some (Inr (Some res), s1) \<and>
    php_fetches (php_fetch_one fwd_eof fwd_fetch_current (fwd_next_total n E SB (err \<noteq> None))) j s1 =
      (Inr (take j (result_rows E cols rows) @ replicate (j - length (result_rows E cols rows)) Null), s2)"
  using fwd_result_read[OF assms, of SB err] fwd.fetches_all by fast

theorem forward_cursor_enumerates_witness:
  "\<exists>res s1 s2. get_fwd_result (length (reply [[]] [[104, 0], [105, 0]] [] [])) text_env silent_binds None 1
      (fresh_stmt () (concat (map frame (reply [[]] [[104, 0], [105, 0]] [] [])) @ [9])) =
      Some (Inr (Some res), s1) \<and>
    php_fetches (php_fetch_one fwd_eof fwd_fetch_current
        (fwd_next_total (length (reply [[]] [[104, 0], [105, 0]] [] [])) text_env silent_binds
          ((None :: (nat \<times> string \<times> string) option option) \<noteq> None))) 3 s1 =
      (Inr (take 3 (result_rows text_env [[]] [[104, 0], [105, 0]]) @
        replicate (3 - length (result_rows text_env [[]] [[104, 0], [105, 0]])) Null), s2)"
  by (rule forward_cursor_enumerates[where pending = "\<lambda>v. v"])
    (auto simp: text_readable reply_def frame_ok_def xmsg_defs)

text \<open>
  C12: both kinds of results look the same to a script.  For the same reply, \<open>j\<close> calls of
  \<^verbatim>\<open>fetchOne\<close> on the buffered and on the forward result return the same values.
\<close>

theorem cursors_agree:
  assumes "keeps_bytes (en_io E) pending" "has_valid_stream (en_io E) (mc_vio (snd s))"
    and "pending (mc_vio (snd s)) = concat (map frame (reply cols rows d k)) @ bs"
    and "\<forall>m\<in>set (reply cols rows d k). frame_ok m" "readable E cols rows"
    and "\<not> sm_partial_read_started (rd_app (fst s))" "0 < p" "p < 2 ^ 64"
  shows "\<exists>b s1 f s2. get_buffered_result (length (reply cols rows d k)) E SB err s =
      Some (Inr (Some (b, False)), s1) \<and>
    get_fwd_result (length (reply cols rows d k)) E SB err p s = Some (Inr (Some f), s2) \<and>
    fst (php_fetches (php_fetch_one buffered_result_eof (\<lambda>r. (buffered_result_fetch_current r, r))
        (\<lambda>r. (Inr (fst (buffered_result_next r)), snd (buffered_result_next r)))) j b) =
    fst (php_fetches (php_fetch_one fwd_eof fwd_fetch_current
        (fwd_next_total (length (reply cols rows d k)) E SB (err \<noteq> None))) j s2)"
proof -
  obtain b s1 where b: "get_buffered_result (length (reply cols rows d k)) E SB err s =
      Some (Inr (Some (b, False)), s1)" "buffered_result_stands b (result_rows E cols rows)"
    using buffered_result_read[OF assms(1-5), of SB err] by blast
  obtain f s2 where f: "get_fwd_result (length (reply cols rows d k)) E SB err p s = Some (Inr (Some f), s2)"
    "fwd_stands (length (reply cols rows d k)) E pending bs s2 (result_rows E cols rows)"
    using fwd_result_read[OF assms order_refl, of SB err] by blast
  obtain s3 s4 where fetches: "php_fetches (php_fetch_one buffered_result_eof (\<lambda>r. (buffered_result_fetch_current r, r))
      (\<lambda>r. (Inr (fst (buffered_result_next r)), snd (buffered_result_next r)))) j b =
      (Inr (take j (result_rows E cols rows) @ replicate (j - length (result_rows E cols rows)) Null), s3)"
    "php_fetches (php_fetch_one fwd_eof fwd_fetch_current
        (fwd_next_total (length (reply cols rows d k)) E SB (err \<noteq> None))) j s2 =
      (Inr (take j (result_rows E cols rows) @ replicate (j - length (result_rows E cols rows)) Null), s4)"
    using buffered_result.fetches_all[OF b(2), of j] fwd.fetches_all[OF f(2), of SB "err \<noteq> None" j] by blast
  show ?thesis by (intro exI[of _ b] exI[of _ s1] exI[of _ f] exI[of _ s2])
    (simp only: b(1) f(1) fetches fst_conv simp_thms)
qed

theorem cursors_agree_witness:
  "\<exists>b s1 f s2. get_buffered_result (length (reply [[]] [[104, 0], [105, 0]] [] [])) text_env silent_binds None
      (fresh_stmt () (concat (map frame (reply [[]] [[104, 0], [105, 0]] [] [])) @ [9])) =
      Some (Inr (Some (b, False)), s1) \<and>
    get_fwd_result (length (reply [[]] [[104, 0], [105, 0]] [] [])) text_env silent_binds None 2
      (fresh_stmt () (concat (map frame (reply [[]] [[104, 0], [105, 0]] [] [])) @ [9])) =
      Some (Inr (Some f), s2) \<and>
    fst (php_fetches (php_fetch_one buffered_result_eof (\<lambda>r. (buffered_result_fetch_current r, r))
        (\<lambda>r. (Inr (fst (buffered_result_next r)), snd (buffered_result_next r)))) 3 b) =
    fst (php_fetches (php_fetch_one fwd_eof fwd_fetch_current
        (fwd_next_total (length (reply [[]] [[104, 0], [105, 0]] [] [])) text_env silent_binds
          ((None :: (nat \<times> string \<times> string) option option) \<noteq> None))) 3 s2)"
  by (rule cursors_agree[where pending = "\<lambda>v. v"])
    (auto simp: text_readable reply_def frame_ok_def xmsg_defs)

section \<open>All results of a statement\<close>

lemma start_id: "id = on_stmt (\<lambda>st. st\<lparr>sm_user := id (sm_user st)\<rparr>)"
  by (simp add: on_stmt_def fun_eq_iff)

text \<open>
  C16: \<open>read_all_results\<close> delivers every row of every result set, in order, to the caller's
  callback, each with the metadata of its own result set, then ends with \<open>PASS\<close> and has consumed
  exactly the reply; the loop needs one round per result set.
\<close>

theorem read_all_results_delivers:
  assumes "keeps_bytes (en_io E) pending" "sets_ok E pending bs s (replies rs sets)"
    and "\<forall>x\<in>set (rs # sets). readable E (fst x) (snd x)" "length (replies rs sets) \<le> n"
  shows "\<exists>s'. read_all_results (Suc (length sets)) n E (row_binds g) (Some f) err s = Some (Inr PASS, s') \<and>
      sm_user (rd_app (fst s')) = fold (\<lambda>x u. deliver_set E g x (f u)) (rs # sets) (sm_user (rd_app (fst s))) \<and>
      pending (mc_vio (snd s')) = bs"
  using delivering.all_results[OF assms(1) refl refl assms(2-4), of g err f]
  unfolding read_all_results_def delivering_one by auto

lemma two_sets_ok: "sets_ok text_env (\<lambda>v. v) [9]
    (fresh_stmt u (concat (map frame (replies ([[]], [[104, 0]]) [([[]], [[105, 0]])])) @ [9]))
    (replies ([[]], [[104, 0]]) [([[]], [[105, 0]])])"
  by (auto simp: sets_ok_def set_messages_def stmt_covers_def server_message_type_is_valid_def frame_ok_def xmsg_defs)

theorem read_all_results_delivers_witness:
  "\<exists>s'. read_all_results (Suc (length [([[]] :: bytes list, [[105, 0]] :: bytes list)]))
        (length (replies ([[]], [[104, 0]]) [([[]], [[105, 0]])])) text_env
        (row_binds (\<lambda>m row u. u @ row)) (Some (\<lambda>u. u @ [Null])) None
        (fresh_stmt [] (concat (map frame (replies ([[]], [[104, 0]]) [([[]], [[105, 0]])])) @ [9])) =
        Some (Inr PASS, s') \<and>
      sm_user (rd_app (fst s')) = fold (\<lambda>x u. deliver_set text_env (\<lambda>m row u. u @ row) x (u @ [Null]))
        (([[]], [[104, 0]]) # [([[]], [[105, 0]])])
        (sm_user (rd_app (fst (fresh_stmt []
           (concat (map frame (replies ([[]], [[104, 0]]) [([[]], [[105, 0]])])) @ [9]))))) \<and>
      mc_vio (snd s') = [9]"
  by (rule read_all_results_delivers[where pending = "\<lambda>v. v", OF _ two_sets_ok])
    (simp_all add: text_readable)

text \<open>
  C34: \<open>skip_all_results\<close> ends and leaves the line behind the reply, whatever result sets the reply
  holds, also undecodable ones; the caller's state is untouched.
\<close>

theorem skip_all_results_ends:
  assumes "keeps_bytes (en_io E) pending" "sets_ok E pending bs s (replies rs sets)"
    and "length (replies rs sets) \<le> n"
  shows "\<exists>s'. skip_all_results (Suc (length sets)) n E err s = Some (Inr PASS, s') \<and>
      sm_user (rd_app (fst s')) = sm_user (rd_app (fst s)) \<and> pending (mc_vio (snd s')) = bs"
proof -
  have "fold (\<lambda>(x :: result_set) u. id u) (rs # sets) v = v" for v :: 'u
    by (induction sets) simp_all
  then show ?thesis
    using skipping.all_results[OF assms(1) refl refl assms(2) _ assms(3), of err id]
    unfolding skip_all_results_def skipping_one start_id[symmetric] by auto
qed

theorem skip_all_results_ends_witness:
  "\<exists>s'. skip_all_results (Suc (length [([[]] :: bytes list, [[105, 0]] :: bytes list)]))
        (length (replies ([[]], [[104, 0]]) [([[]], [[105, 0]])])) text_env None
        (fresh_stmt () (concat (map frame (replies ([[]], [[104, 0]]) [([[]], [[105, 0]])])) @ [9])) =
        Some (Inr PASS, s') \<and>
      sm_user (rd_app (fst s')) = sm_user (rd_app (fst (fresh_stmt ()
        (concat (map frame (replies ([[]], [[104, 0]]) [([[]], [[105, 0]])])) @ [9])))) \<and>
      mc_vio (snd s') = [9]"
  by (rule skip_all_results_ends[where pending = "\<lambda>v. v", OF _ two_sets_ok]) simp_all


section \<open>The execution state\<close>

text \<open>
  A notice that carries one of the four counters of a statement, and what the counters are after a
  number of them.
\<close>

definition counter_notice :: "('v, 'z) env \<Rightarrow> bytes \<Rightarrow> nat \<times> 64 word \<Rightarrow> bool" where
  "counter_notice E b c \<longleftrightarrow> fst c \<in> {3, 4, 5, 6} \<and>
     nf_type (parse_notice (en_pb E) b) = Some 3 \<and> nf_scope (parse_notice (en_pb E) b) = Some 2 \<and>
     (case nf_payload (parse_notice (en_pb E) b) of
        None \<Rightarrow> False
      | Some q \<Rightarrow> sc_param (parse_state_changed (en_pb E) q) = Some (fst c) \<and>
          (case sc_value (parse_state_changed (en_pb E) q) of
             [] \<Rightarrow> False | v # _ \<Rightarrow> scalar2uint (en_floats E) v = Some (snd c)))"

definition last_counter :: "nat \<Rightarrow> (nat \<times> 64 word) list \<Rightarrow> 64 word" where
  "last_counter p cs = (let xs = filter (\<lambda>c. fst c = p) cs in if xs = [] then 0 else snd (List.last xs))"

definition counters :: "(nat \<times> 64 word) list \<Rightarrow> exec_state option" where
  "counters cs = (if cs = [] then None
     else Some \<lparr>es_items_affected = last_counter 4 cs, es_items_matched = last_counter 6 cs,
       es_items_found = last_counter 5 cs, es_last_insert_id = last_counter 3 cs, es_generated_doc_ids = []\<rparr>)"

lemma last_counter_snoc: "last_counter p (cs @ [c]) = (if fst c = p then snd c else last_counter p cs)"
  by (simp add: last_counter_def Let_def)

lemma last_counter_Nil: "last_counter p [] = 0" "last_counter p [c] = (if fst c = p then snd c else 0)"
  by (simp_all add: last_counter_def)

lemma counter_step:
  assumes "counter_notice E b c" "bc_exec_state (sm_create (rd_app rd)) = counters cs"
  shows "\<exists>rd'. stmt_step (en_floats E) (en_pb E) (buffered_binds E SB err) (XMSG_NOTICE, b) rd =
      (Inr HND_AGAIN, rd') \<and> bc_exec_state (sm_create (rd_app rd')) = counters (cs @ [c])"
proof -
  obtain q v vs where q: "nf_payload (parse_notice (en_pb E) b) = Some q"
    "sc_param (parse_state_changed (en_pb E) q) = Some (fst c)"
    "sc_value (parse_state_changed (en_pb E) q) = v # vs" "scalar2uint (en_floats E) v = Some (snd c)"
    "nf_type (parse_notice (en_pb E) b) = Some 3" "nf_scope (parse_notice (en_pb E) b) = Some 2"
    using assms(1) by (auto simp: counter_notice_def split: option.splits list.splits)
  obtain t where t: "exec_state_type (fst c) = Some t" and c: "fst c \<in> {3, 4, 5, 6}"
    using assms(1) by (auto simp: counter_notice_def exec_state_type_def)
  have "stmt_step (en_floats E) (en_pb E) (buffered_binds E SB err) (XMSG_NOTICE, b) rd =
      on_reader_app (in_create (handler_on_exec_state_change t (snd c))) rd"
    using q t c by (auto simp: stmt_step_def xmsg_defs inspect_notice_frame_def inspect_changed_state_def
        buffered_binds_def on_reader_app_def inspect_changed_exec_state_def)
  moreover have "\<exists>x. handler_on_exec_state_change t (snd c) (sm_create (rd_app rd), sm_user (rd_app rd)) =
      (Inr HND_AGAIN, (x, sm_user (rd_app rd))) \<and> bc_exec_state x = counters (cs @ [c])"
    using t c assms(2) by (cases "cs = []") (auto simp: exec_state_type_def handler_on_exec_state_change_def
        counters_def new_exec_state_def set_last_insert_id_def set_affected_items_count_def
        set_found_items_count_def set_matched_items_count_def last_counter_snoc last_counter_Nil Let_def)
  ultimately show ?thesis by (auto simp: on_reader_app_def in_create_def)
qed

lemma counters_run:
  assumes "\<forall>x\<in>set ns. counter_notice E (fst x) (snd x)"
    and "bc_exec_state (sm_create (rd_app rd)) = counters cs"
  shows "\<exists>rd'. run_steps (stmt_step (en_floats E) (en_pb E) (buffered_binds E SB err))
      (map (\<lambda>x. (XMSG_NOTICE, fst x)) ns @ ms) rd =
      run_steps (stmt_step (en_floats E) (en_pb E) (buffered_binds E SB err)) ms rd' \<and>
    bc_exec_state (sm_create (rd_app rd')) = counters (cs @ map snd ns)"
  using assms
proof (induction ns arbitrary: rd cs)
  case (Cons x ns)
  then obtain rd' where "stmt_step (en_floats E) (en_pb E) (buffered_binds E SB err) (XMSG_NOTICE, fst x) rd =
      (Inr HND_AGAIN, rd')" "bc_exec_state (sm_create (rd_app rd')) = counters (cs @ [snd x])"
    using counter_step[of E "fst x" "snd x" rd cs SB err] by auto
  then show ?case using Cons.IH[of rd' "cs @ [snd x]"] Cons.prems(1) by auto
qed auto

text \<open>
  C33: the counters of a statement are recorded.  When the reply to a statement without rows is any
  sequence of notices of the insert id and of the rows affected, found and matched, the result's
  execution state holds the last value of each, 0 where there was none.
\<close>

theorem execution_state_recorded:
  assumes "keeps_bytes (en_io E) pending"
    and "sets_ok E pending bs s (map (\<lambda>x. (XMSG_NOTICE, fst x)) ns @ [(XMSG_STMT_EXECUTE_OK, k)])"
    and "\<forall>x\<in>set ns. counter_notice E (fst x) (snd x)" "length ns < n"
  shows "\<exists>res s'. get_buffered_result n E SB err s = Some (Inr (Some (res, False)), s') \<and>
    sr_exec_state res = counters (map snd ns) \<and> pending (mc_vio (snd s')) = bs"
proof -
  let ?s = "init_read (on_stmt (\<lambda>st. st\<lparr>sm_create := new_bind_ctx False err\<rparr>) s)"
  let ?RB = "buffered_binds E SB (err \<noteq> None)"
  let ?step = "stmt_step (en_floats E) (en_pb E) ?RB" and ?ms = "map (\<lambda>x. (XMSG_NOTICE, fst x)) ns @ [(XMSG_STMT_EXECUTE_OK, k)]"
  have "bc_exec_state (sm_create (rd_app (fst ?s))) = counters []"
    by (simp add: init_read_def new_reader_def on_stmt_def new_bind_ctx_def counters_def)
  from counters_run[OF assms(3) this, of SB "err \<noteq> None" "[(XMSG_STMT_EXECUTE_OK, k)]"] obtain rd where
    rd: "run_steps ?step ?ms (fst ?s) = run_steps ?step [(XMSG_STMT_EXECUTE_OK, k)] rd"
    "bc_exec_state (sm_create (rd_app rd)) = counters (map snd ns)" by auto
  have "run_steps ?step [(XMSG_STMT_EXECUTE_OK, k)] rd = Some (Inr PASS, rd\<lparr>rd_has_more_results := False\<rparr>, [])"
    by (simp add: stmt_step_def xmsg_defs stmt_execute_on_STMT_EXECUTE_OK_def buffered_binds_def final_status_def)
  then obtain s' where "read_response n E ?RB ?s = Some (Inr PASS, s')"
    "fst s' = rd\<lparr>rd_has_more_results := False\<rparr>" "sets_ok E pending bs s' []"
    using read_response_run[OF assms(1), of bs ?s ?ms n ?RB] assms(2,4) rd(1) by auto
  then show ?thesis using rd(2) by (simp add: get_buffered_result_def Let_def sets_ok_def)
qed

definition counter_env :: "(bytes, unit) env" where
  "counter_env = text_env\<lparr>en_pb := text_pb\<lparr>
     parse_notice := \<lambda>b. \<lparr>nf_type = Some 3, nf_scope = Some 2, nf_payload = Some b\<rparr>,
     parse_state_changed := \<lambda>b. \<lparr>sc_param = Some (length b), sc_value = [V_UINT 7]\<rparr>\<rparr>\<rparr>"

theorem execution_state_recorded_witness:
  "\<exists>res s'. get_buffered_result 3 counter_env silent_binds None
      (fresh_stmt () (concat (map frame (map (\<lambda>x. (XMSG_NOTICE, fst x))
        [([0, 0, 0, 0 :: byte], (4, 7)), ([0, 0, 0], (3, 7))] @ [(XMSG_STMT_EXECUTE_OK, [])])) @ [])) =
      Some (Inr (Some (res, False)), s') \<and>
    sr_exec_state res = counters (map snd [([0, 0, 0, 0 :: byte], (4, 7)), ([0, 0, 0], (3, 7))]) \<and>
    mc_vio (snd s') = []"
  by (rule execution_state_recorded[where pending = "\<lambda>v. v"])
    (auto simp: counter_env_def sets_ok_def frame_ok_def stmt_covers_def xmsg_defs
      server_message_type_is_valid_def counter_notice_def scalar2uint_def)

section \<open>Errors\<close>

text \<open>
  C40: generated document ids crash a buffered read.  The handler for them works on the statement's
  own context, whose execution state is only created by \<open>get_fwd_result\<close>: when the reply to a
  statement that was not read forward begins with a notice of generated ids, \<open>get_buffered_result\<close>
  follows a null pointer.
\<close>

theorem buffered_doc_ids_null_dereference:
  assumes "keeps_bytes (en_io E) pending" "sets_ok E pending bs s ((XMSG_NOTICE, b) # ms)"
    and "length ms < n" "bc_exec_state (sm_read (rd_app (fst s))) = None"
    and "parse_notice (en_pb E) b = \<lparr>nf_type = Some 3, nf_scope = Some 2, nf_payload = Some q\<rparr>"
    and "parse_state_changed (en_pb E) q = \<lparr>sc_param = Some 12, sc_value = v # vs\<rparr>"
  shows "\<exists>s'. get_buffered_result n E SB err s = Some (Inl Null_dereference, s')"
proof -
  let ?s = "init_read (on_stmt (\<lambda>st. st\<lparr>sm_create := new_bind_ctx False err\<rparr>) s)"
  let ?RB = "buffered_binds E SB (err \<noteq> None)"
  have "run_steps (stmt_step (en_floats E) (en_pb E) ?RB) ((XMSG_NOTICE, b) # ms) (fst ?s) =
      Some (Inl Null_dereference, fst ?s, ms)"
    using assms(4-) by (simp add: stmt_step_def xmsg_defs inspect_notice_frame_def inspect_changed_state_def
        buffered_binds_def in_read_def handler_on_generated_doc_ids_def on_reader_app_def init_read_def
        on_stmt_def new_reader_def)
  then obtain s' where "read_response n E ?RB ?s = Some (Inl Null_dereference, s')"
    using read_response_run[OF assms(1), of bs ?s "(XMSG_NOTICE, b) # ms" n ?RB] assms(2,3) by auto
  then show ?thesis by (simp add: get_buffered_result_def Let_def)
qed

definition doc_ids_env :: "(bytes, unit) env" where
  "doc_ids_env = text_env\<lparr>en_pb := text_pb\<lparr>
     parse_notice := \<lambda>b. \<lparr>nf_type = Some 3, nf_scope = Some 2, nf_payload = Some b\<rparr>,
     parse_state_changed := \<lambda>b. \<lparr>sc_param = Some 12, sc_value = [V_OCTETS ''id'']\<rparr>\<rparr>\<rparr>"

theorem buffered_doc_ids_null_dereference_witness:
  "\<exists>s'. get_buffered_result 2 doc_ids_env silent_binds None
      (fresh_stmt () (concat (map frame [(XMSG_NOTICE, []), (XMSG_STMT_EXECUTE_OK, [])]) @ [])) =
      Some (Inl Null_dereference, s')"
  by (rule buffered_doc_ids_null_dereference[where pending = "\<lambda>v. v" and b = "[]" and q = "[]"
        and ms = "[(XMSG_STMT_EXECUTE_OK, [])]" and bs = "[]"])
    (auto simp: doc_ids_env_def sets_ok_def frame_ok_def stmt_covers_def xmsg_defs
      server_message_type_is_valid_def new_bind_ctx_def)

text \<open>
  The callback for a finished statement is not called on its own.  The callbacks for the end
  of a result set and for the end of the statement are bound under each other's condition, so a
  caller of \<open>read_one_result\<close> that only asks for the second is never told.
\<close>

lemma statement_ok_not_called:
  assumes "keeps_bytes (en_io E) pending" "sets_ok E pending bs s [(XMSG_STMT_EXECUTE_OK, d)]"
    and "sb_resultset_end SB = None" "0 < n"
  shows "\<exists>s'. read_one_result n E SB err s = Some (Inr (PASS, False), s') \<and>
      sm_user (rd_app (fst s')) = sm_user (rd_app (fst s))"
proof -
  let ?s = "init_read (on_stmt (\<lambda>st. st\<lparr>sm_create := new_bind_ctx False err\<rparr>) s)"
  let ?RB = "one_result_binds E SB"
  have "run_steps (stmt_step (en_floats E) (en_pb E) ?RB) [(XMSG_STMT_EXECUTE_OK, d)] (fst ?s) =
      Some (Inr PASS, fst ?s, [])"
    using assms(3) by (simp add: stmt_step_def xmsg_defs stmt_execute_on_STMT_EXECUTE_OK_def one_result_binds_def
        init_read_def new_reader_def final_status_def)
  then obtain s' where "read_response n E ?RB ?s = Some (Inr PASS, s')" "fst s' = fst ?s"
    using read_response_run[OF assms(1), of bs ?s "[(XMSG_STMT_EXECUTE_OK, d)]" n ?RB] assms(2,4) by auto
  then show ?thesis
    by (simp add: read_one_result_def finish_read_def init_read_def on_stmt_def new_reader_def)
qed

lemma statement_ok_not_called_example:
  "\<exists>s'. read_one_result 1 text_env (silent_binds\<lparr>sb_statement_ok := Some (\<lambda>es u. u + 1)\<rparr>) None
      (fresh_stmt (0 :: nat) (concat (map frame [(XMSG_STMT_EXECUTE_OK, [])]) @ [])) =
        Some (Inr (PASS, False), s') \<and>
      sm_user (rd_app (fst s')) =
        sm_user (rd_app (fst (fresh_stmt (0 :: nat) (concat (map frame [(XMSG_STMT_EXECUTE_OK, [])]) @ []))))"
  by (rule statement_ok_not_called[where pending = "\<lambda>v. v" and d = "[]" and bs = "[]"])
    (auto simp: sets_ok_def frame_ok_def stmt_covers_def xmsg_defs server_message_type_is_valid_def silent_binds_def)


text \<open>The columns of a result set that follows another one in the same context.\<close>

context collector
begin

lemma later_columns_run:
  assumes "collects ci fs SB RB" "get (rd_app rd) = (c, u)" "bc_meta c = Some m"
  shows "\<exists>rd' c'. run_steps (stmt_step F P RB) (map (Pair XMSG_COLUMN_METADATA) cols @ ms) rd =
      run_steps (stmt_step F P RB) ms rd' \<and> get (rd_app rd') = (c', u) \<and>
      bc_meta c' = Some (fold add_field (map (column_field P) cols) m) \<and>
      rd_field_count rd' = rd_field_count rd + length cols"
  using assms(2,3)
proof (induction cols arbitrary: rd c m)
  case (Cons col cols)
  let ?m = "add_field (column_field P col) m"
  let ?c = "c\<lparr>bc_meta := Some ?m, bc_rowset := map_option (rowset_attach_meta (Some ?m)) (bc_rowset c)\<rparr>"
  let ?rd = "rd\<lparr>rd_has_more_results := True, rd_has_more_rows_in_set := True,
      rd_field_count := rd_field_count rd + 1, rd_app := put (?c, u) (rd_app rd)\<rparr>"
  have "stmt_step F P RB (XMSG_COLUMN_METADATA, col) rd = (Inr HND_AGAIN, ?rd)"
    using assms(1) Cons.prems
    by (simp add: stmt_step_def xmsg_defs stmt_execute_on_COLUMN_META_def collects_def on_reader_app_def
        lift handler_on_meta_field_def column_field_def Let_def)
  then show ?case using Cons.IH[of ?rd ?c ?m] by fastforce
qed auto

lemma short_row_fields:
  assumes "bc_meta c = Some m" "length row < rm_count m" "length row < i + todo" "i \<le> length row"
    and "\<forall>i<length row. \<not> isl (decode_cell ci fs m i (row ! i))"
    and "i = 0 \<or> length (bc_current_row c) = rm_count m"
  shows "\<exists>a'. row_fields (\<lambda>b i. lift (handler_on_row_field ci fs SB b i)) row todo i r (put (c, u) a) =
    (Inl Payload_overrun, a')"
  using assms
proof (induction todo arbitrary: i c r)
  case (Suc todo)
  show ?case
  proof (cases "length row \<le> i")
    case False
    then obtain v where v: "decode_cell ci fs m i (row ! i) = Inr v"
      using Suc.prems(5) by (metis not_le sum.collapse(2))
    obtain rs where rs: "bc_rowset (ensure_rowset c) = Some rs" "bc_meta (ensure_rowset c) = Some m"
      "bc_current_row (ensure_rowset c) = bc_current_row c"
      using Suc.prems(1) by (cases "bc_rowset c") (auto simp: ensure_rowset_def)
    have "\<exists>c'. handler_on_row_field ci fs SB (row ! i) i (c, u) = (Inr HND_AGAIN, (c', u)) \<and>
        bc_meta c' = Some m \<and> length (bc_current_row c') = rm_count m"
      using Suc.prems(2,6) False rs v by (auto simp: handler_on_row_field_def Let_def create_row_def)
    then obtain c' where c': "handler_on_row_field ci fs SB (row ! i) i (c, u) = (Inr HND_AGAIN, (c', u))"
      "bc_meta c' = Some m" "length (bc_current_row c') = rm_count m" by blast
    then show ?thesis using False Suc.IH[OF c'(2) assms(2), of "Suc i" HND_AGAIN] Suc.prems(3,5) by (simp add: lift)
  qed simp
qed simp

end

text \<open>
  A second result set cannot be read forward.  \<open>get_fwd_result\<close> sets its context and the
  message reader up only once per statement: the columns of the next result set are added to those
  of the previous one, and the first row, which has only its own fields, is read beyond its end.
\<close>

lemma second_fwd_result_overruns:
  assumes "keeps_bytes (en_io E) pending"
    and "sets_ok E pending bs s (map (Pair XMSG_COLUMN_METADATA) cols @ (XMSG_RSET_ROW, r) # ms)"
    and "length cols + length ms < n" "sm_partial_read_started (rd_app (fst s))" "0 < p"
    and "bc_meta (sm_read (rd_app (fst s))) = Some m" "rd_field_count (fst s) = rm_count m" "0 < rm_count m"
    and "length (parse_row (en_pb E) r) = length cols"
    and "\<forall>i<length cols. \<not> isl (decode_cell (en_input E) (en_set_fuel E)
       (fold add_field (map (column_field (en_pb E)) cols) m) i (parse_row (en_pb E) r ! i))"
  shows "\<exists>s'. get_fwd_result n E SB err p s = Some (Inl Payload_overrun, s')"
proof -
  let ?ms = "map (Pair XMSG_COLUMN_METADATA) cols @ (XMSG_RSET_ROW, r) # ms"
  let ?RB = "fwd_binds E SB (err \<noteq> None)" and ?s = "on_stmt (set_prefetch p) s"
  let ?m = "fold add_field (map (column_field (en_pb E)) cols) m"
  let ?step = "stmt_step (en_floats E) (en_pb E) ?RB"
  have meta: "bc_meta (sm_read (rd_app (fst ?s))) = Some m" using assms(6) by (simp add: set_prefetch_def)
  from reading.later_columns_run[OF fwd_collects[of E SB "err \<noteq> None"] refl meta, of "en_floats E" "en_pb E" cols "(XMSG_RSET_ROW, r) # ms"]
  obtain rd c u where rd: "run_steps ?step ?ms (fst ?s) = run_steps ?step ((XMSG_RSET_ROW, r) # ms) rd"
    "sm_read (rd_app rd) = c" "sm_user (rd_app rd) = u" "bc_meta c = Some ?m"
    "rd_field_count rd = rm_count m + length cols" using assms(7) by auto
  have cnt: "rm_count ?m = rm_count m + length cols"
    by (induction cols arbitrary: m) (simp_all add: meta_store.count_add)
  have same: "rd_app rd\<lparr>sm_read := c, sm_user := u\<rparr> = rd_app rd" using rd(2,3) by auto
  have "\<exists>a. row_fields (\<lambda>b i. in_read (handler_on_row_field (en_input E) (en_set_fuel E) (SB\<lparr>sb_row := None\<rparr>) b i))
      (parse_row (en_pb E) r) (rm_count m + length cols) 0 HND_AGAIN (rd_app rd) = (Inl Payload_overrun, a)"
    using reading.short_row_fields[OF rd(4), of "parse_row (en_pb E) r" 0 "rm_count m + length cols"
        "en_input E" "en_set_fuel E" "SB\<lparr>sb_row := None\<rparr>" HND_AGAIN u "rd_app rd"] assms(8-10) cnt same by simp
  then obtain rd' where "run_steps ?step ?ms (fst ?s) = Some (Inl Payload_overrun, rd', ms)"
    using rd(1,5) by (auto simp: stmt_step_def xmsg_defs stmt_execute_on_RSET_ROW_def fwd_binds_def on_reader_app_def)
  then obtain s' where "read_response n E ?RB ?s = Some (Inl Payload_overrun, s')"
    using read_response_run[OF assms(1), of bs ?s ?ms n ?RB] assms(2,3) by auto
  then show ?thesis using assms(4,5) by (simp add: get_fwd_result_def Let_def)
qed

definition after_first_set :: "bytes \<Rightarrow> (bytes, unit, unit) stmt_state" where
  "after_first_set v = ((new_reader \<lparr>sm_create = new_bind_ctx False None,
     sm_read = (new_bind_ctx True None)\<lparr>bc_meta := Some (columns_meta text_pb [[]])\<rparr>,
     sm_user = (), sm_partial_read_started = True\<rparr>)\<lparr>rd_field_count := 1\<rparr>,
     \<lparr>mc_vio = v, mc_executor = None, mc_error = None\<rparr>)"

lemma text_cell_later:
  "decode_cell ci fs (fold add_field (map (column_field text_pb) [[]]) (columns_meta text_pb [[]])) 0 [x, 0] =
     Inr (String (text_of [x]))"
  by (subst text_meta) (simp add: add_field_def decode_cell_def get_field_def rm_count_def row_field_to_zval_def
      row_string_def Let_def)

lemma second_fwd_result_overruns_example:
  "\<exists>s'. get_fwd_result 3 text_env silent_binds None 100
      (after_first_set (concat (map frame (map (Pair XMSG_COLUMN_METADATA) [[]] @
         (XMSG_RSET_ROW, [104, 0]) # [(XMSG_RSET_FETCH_DONE, [])])) @ [])) = Some (Inl Payload_overrun, s')"
  by (rule second_fwd_result_overruns[where pending = "\<lambda>v. v" and cols = "[[]]" and r = "[104, 0]"
        and ms = "[(XMSG_RSET_FETCH_DONE, [])]" and bs = "[]" and m = "columns_meta text_pb [[]]"])
    (auto simp: after_first_set_def sets_ok_def frame_ok_def stmt_covers_def xmsg_defs
      server_message_type_is_valid_def new_reader_def text_row text_cell_later[simplified])

end
