(* ===== verification/Conn_Options.thy ===== *)
theory Conn_Options
  imports Compress_Setup
begin

text \<open>
  The options of a connection, after \<^verbatim>\<open>Session_auth_data\<close> of \<^verbatim>\<open>src/xmysqlnd/xmysqlnd_session.h\<close> and
  \<^verbatim>\<open>Extract_client_option\<close> of \<^verbatim>\<open>src/xmysqlnd/xmysqlnd_session.cc\<close>: the data a URI fills in, the parsers
  of the option values and the table that leads from an option's name to its setter.  Option texts
  come from C strings, so they hold no NUL.  Whether TLS 1.3 is available in PHP is the parameter
  \<open>tls13\<close>, the environment the parameter \<open>env\<close>.
\<close>

section \<open>Data\<close>

datatype ssl_mode =
    Ssl_not_specified | Ssl_disabled | Ssl_any_secure | Ssl_required | Ssl_verify_ca | Ssl_verify_identity

datatype auth_mechanism =
    Mech_unspecified | Mech_mysql41 | Mech_plain | Mech_external | Mech_sha256_memory

datatype tls_version = Tls_unspecified | Tls_v1_2 | Tls_v1_3

datatype transport_type = Windows_pipe | Unix_domain_socket | Network | No_transport

record session_auth_data =
  sa_hostname :: string
  sa_port :: nat
  sa_username :: string
  sa_password :: string
  sa_connection_timeout :: "int option"
  sa_compression_policy :: policy
  sa_compression_algorithms :: "string list option"
  sa_ssl_mode :: ssl_mode
  sa_ssl_no_defaults :: bool
  sa_tls_versions :: "tls_version list"
  sa_tls_ciphersuites :: "string list"
  sa_ssl_local_pk :: string
  sa_ssl_local_cert :: string
  sa_ssl_cafile :: string
  sa_ssl_capath :: string
  sa_ssl_ciphers :: "string list"
  sa_ssl_allow_self_signed_cert :: bool
  sa_auth_mechanism :: auth_mechanism

definition new_auth_data :: session_auth_data where
  "new_auth_data = \<lparr>sa_hostname = [], sa_port = 0, sa_username = [], sa_password = [],
     sa_connection_timeout = None, sa_compression_policy = Preferred, sa_compression_algorithms = None,
     sa_ssl_mode = Ssl_not_specified, sa_ssl_no_defaults = True, sa_tls_versions = [],
     sa_tls_ciphersuites = [], sa_ssl_local_pk = [], sa_ssl_local_cert = [], sa_ssl_cafile = [],
     sa_ssl_capath = [], sa_ssl_ciphers = [], sa_ssl_allow_self_signed_cert = True,
     sa_auth_mechanism = Mech_unspecified\<rparr>"

section \<open>Strings and numbers\<close>

text \<open>A \<^verbatim>\<open>std::map\<close> ordered by \<^verbatim>\<open>util::iless\<close> finds a key up to case.\<close>

definition ifind :: "(string \<times> 'a) list \<Rightarrow> string \<Rightarrow> 'a option" where
  "ifind tab key = map_option snd (find (\<lambda>(k, v). iequal k key) tab)"

definition trim :: "string \<Rightarrow> string" where
  "trim s = rev (dropWhile c_isspace (rev (dropWhile c_isspace s)))"

text \<open>\<^verbatim>\<open>single_separator_split\<close>: as many items as separators and one more, none for an empty text.\<close>

fun split_at :: "char \<Rightarrow> string \<Rightarrow> string \<Rightarrow> string list" where
  "split_at sep acc [] = [acc]"
| "split_at sep acc (c # cs) = (if c = sep then acc # split_at sep [] cs else split_at sep (acc @ [c]) cs)"

definition single_separator_split :: "string \<Rightarrow> char \<Rightarrow> string list" where
  "single_separator_split input sep = (if input = [] then [] else split_at sep [] input)"

text \<open>
  \<^verbatim>\<open>std::stoi\<close>: leading white space, a sign and the longest run of digits; what follows is
  ignored.  It throws when there is no digit or the value does not fit into an \<^verbatim>\<open>int\<close>.
\<close>

definition signed_digits :: "string \<Rightarrow> int \<times> string" where
  "signed_digits s =
     (if s \<noteq> [] \<and> hd s = CHR ''-'' then (-1, takeWhile c_isdigit (tl s))
      else if s \<noteq> [] \<and> hd s = CHR ''+'' then (1, takeWhile c_isdigit (tl s))
      else (1, takeWhile c_isdigit s))"

definition stoi :: "string \<Rightarrow> int option" where
  "stoi s = (case signed_digits (dropWhile c_isspace s) of (sign, ds) \<Rightarrow>
     let v = sign * int (dec_value ds) in
     if ds = [] \<or> v < - (2 ^ 31) \<or> 2 ^ 31 \<le> v then None else Some v)"

section \<open>The environment\<close>

datatype env_variable = Mysql_port | Mysqlx_port | Mysqlx_connection_timeout

definition var_to_info :: "env_variable \<Rightarrow> string \<times> string \<times> string" where
  "var_to_info v = (case v of
     Mysql_port \<Rightarrow> (''MYSQL_TEST_PORT'', ''MYSQL_PORT'', ''3306'')
   | Mysqlx_port \<Rightarrow> (''MYSQLX_TEST_PORT'', ''MYSQLX_PORT'', ''33060'')
   | Mysqlx_connection_timeout \<Rightarrow>
       (''MYSQLX_TEST_CONNECTION_TIMEOUT'', ''MYSQLX_CONNECTION_TIMEOUT'', ''10''))"

definition get_as_string :: "(string \<Rightarrow> string option) \<Rightarrow> env_variable \<Rightarrow> string" where
  "get_as_string env v = (case var_to_info v of (test_var, common_var, default_value) \<Rightarrow>
     case env test_var of Some s \<Rightarrow> s | None \<Rightarrow>
       (case env common_var of Some s \<Rightarrow> s | None \<Rightarrow> default_value))"

definition get_as_int :: "(string \<Rightarrow> string option) \<Rightarrow> env_variable \<Rightarrow> xdevapi_error + int" where
  "get_as_int env v = (case stoi (get_as_string env v) of None \<Rightarrow> Inl Stoi_failure | Some i \<Rightarrow> Inr i)"

section \<open>Parsers of option values\<close>

definition auth_mechanism_to_str :: "auth_mechanism \<Rightarrow> string" where
  "auth_mechanism_to_str m = (case m of
     Mech_mysql41 \<Rightarrow> ''MYSQL41'' | Mech_plain \<Rightarrow> ''PLAIN'' | Mech_external \<Rightarrow> ''EXTERNAL''
   | Mech_sha256_memory \<Rightarrow> ''SHA256_MEMORY'' | Mech_unspecified \<Rightarrow> [])"

definition parse_ssl_mode :: "string \<Rightarrow> xdevapi_error + ssl_mode" where
  "parse_ssl_mode mode_str =
     (case ifind [(''required'', Ssl_required), (''disabled'', Ssl_disabled),
        (''verify_ca'', Ssl_verify_ca), (''verify_identity'', Ssl_verify_identity)] mode_str of
        None \<Rightarrow> Inl (Unknown_ssl_mode mode_str) | Some m \<Rightarrow> Inr m)"

definition parse_auth_mechanism :: "string \<Rightarrow> xdevapi_error + auth_mechanism" where
  "parse_auth_mechanism s =
     (case ifind (map (\<lambda>m. (auth_mechanism_to_str m, m))
        [Mech_mysql41, Mech_plain, Mech_external, Mech_sha256_memory]) s of
        None \<Rightarrow> Inl (Invalid_auth_mechanism s) | Some m \<Rightarrow> Inr m)"

definition parse_single_or_array :: "string \<Rightarrow> string list" where
  "parse_single_or_array val =
     (if val \<noteq> [] \<and> hd val = CHR ''['' \<and> last val = CHR '']''
      then map trim (single_separator_split (butlast (tl val)) CHR '','')
      else [trim val])"

definition parse_boolean :: "string \<Rightarrow> string \<Rightarrow> xdevapi_error + bool" where
  "parse_boolean option_name value_str =
     (case ifind [(''true'', True), (''false'', False), (''on'', True), (''off'', False),
        (''yes'', True), (''no'', False)] value_str of
        None \<Rightarrow> Inl (Invalid_argument (''The argument to '' @ option_name @
          '' must be boolean, but it is '' @ [CHR 0x27] @ value_str @ [CHR 0x27] @ ''.''))
      | Some b \<Rightarrow> Inr b)"

definition parse_int :: "string \<Rightarrow> string \<Rightarrow> xdevapi_error + int" where
  "parse_int option_name value_str = (case stoi value_str of
     None \<Rightarrow> Inl (Invalid_argument (''The argument to '' @ option_name @
       '' must be an integer, but it is '' @ [CHR 0x27] @ value_str @ [CHR 0x27] @ ''.''))
   | Some i \<Rightarrow> Inr i)"

definition quote :: "string \<Rightarrow> string" where
  "quote s = [CHR 0x27] @ s @ [CHR 0x27]"

definition parse_compression_policy :: "string \<Rightarrow> string \<Rightarrow> xdevapi_error + policy" where
  "parse_compression_policy option_name s =
     (case ifind [(''required'', Required), (''preferred'', Preferred), (''disabled'', Disabled)] s of
        None \<Rightarrow> Inl (Invalid_argument (''The connection property '' @ quote option_name @
          '' acceptable values are: '' @ quote ''preferred'' @ '', '' @ quote ''required'' @ '', or '' @
          quote ''disabled'' @ ''. The value '' @ quote s @ '' is not acceptable.''))
      | Some p \<Rightarrow> Inr p)"

definition contains_blank :: "string \<Rightarrow> bool" where
  "contains_blank s = list_ex (\<lambda>c. code c = 32 \<or> code c = 9) s"

definition quotation_if_blank :: "string \<Rightarrow> string" where
  "quotation_if_blank s = (if s = [] \<or> contains_blank s then quote s else s)"

definition verify_compression_algorithm :: "string \<Rightarrow> xdevapi_error + unit" where
  "verify_compression_algorithm name =
     (if list_all (\<lambda>c. c_isalnum c \<or> c = CHR ''_'') name then Inr ()
      else Inl (Compression_invalid_algorithm_name
        (quotation_if_blank name @ '' not recognized as a correct name of compression algorithm'')))"

section \<open>Setters\<close>

text \<open>A setter returns the data and the warnings it raises.\<close>

type_synonym set_result = "xdevapi_error + session_auth_data \<times> string list"

definition assign_ssl_mode :: "ssl_mode \<Rightarrow> session_auth_data \<Rightarrow> session_auth_data" where
  "assign_ssl_mode mode auth =
     (if sa_ssl_mode auth = mode then auth
      else if sa_ssl_mode auth = Ssl_any_secure \<and> mode \<noteq> Ssl_disabled then auth\<lparr>sa_ssl_mode := mode\<rparr>
      else auth\<lparr>sa_ssl_mode := mode\<rparr>)"

definition ensure_ssl_mode :: "session_auth_data \<Rightarrow> session_auth_data" where
  "ensure_ssl_mode auth =
     (if sa_ssl_mode auth = Ssl_not_specified then assign_ssl_mode Ssl_any_secure auth else auth)"

definition set_ssl_mode :: "string \<Rightarrow> session_auth_data \<Rightarrow> set_result" where
  "set_ssl_mode v auth = ebind (parse_ssl_mode v) (\<lambda>mode. Inr (assign_ssl_mode mode auth, []))"

definition assign_auth_mechanism :: "auth_mechanism \<Rightarrow> session_auth_data \<Rightarrow> set_result" where
  "assign_auth_mechanism m auth =
     (if sa_auth_mechanism auth = Mech_unspecified then Inr (auth\<lparr>sa_auth_mechanism := m\<rparr>, [])
      else if sa_auth_mechanism auth \<noteq> m
      then Inl (Invalid_auth_mechanism ''only one authentication mechanism is allowed'')
      else Inr (auth, []))"

definition set_auth_mechanism :: "string \<Rightarrow> session_auth_data \<Rightarrow> set_result" where
  "set_auth_mechanism v auth = ebind (parse_auth_mechanism v) (\<lambda>m. assign_auth_mechanism m auth)"

definition name_to_protocols :: "bool \<Rightarrow> (string \<times> tls_version) list" where
  "name_to_protocols tls13 =
     [(''TLSv1'', Tls_unspecified), (''TLSv1.0'', Tls_unspecified), (''TLSv1.1'', Tls_unspecified),
      (''TLSv1.2'', Tls_v1_2)] @ (if tls13 then [(''TLSv1.3'', Tls_v1_3)] else [])"

text \<open>
  The loop over the names looks at what a name leads to before it tests whether the name was found.
\<close>

fun collect_tls_versions :: "bool \<Rightarrow> string list \<Rightarrow> bool \<Rightarrow> tls_version list \<Rightarrow> xdevapi_error + bool \<times> tls_version list" where
  "collect_tls_versions tls13 [] unsupported vs = Inr (unsupported, vs)"
| "collect_tls_versions tls13 (name # names) unsupported vs =
     (case ifind (name_to_protocols tls13) name of
        None \<Rightarrow> Inl End_dereference
      | Some v \<Rightarrow> if v = Tls_unspecified then collect_tls_versions tls13 names True vs
                  else collect_tls_versions tls13 names unsupported (vs @ [v]))"

fun join :: "string \<Rightarrow> string list \<Rightarrow> string" where
  "join sep [] = []"
| "join sep [x] = x"
| "join sep (x # y # ys) = x @ sep @ join sep (y # ys)"

definition no_valid_version_msg :: "bool \<Rightarrow> string" where
  "no_valid_version_msg tls13 =
     ''No valid TLS version specified, the only valid versions are '' @
     join '', '' (map fst (filter (\<lambda>(n, v). v \<noteq> Tls_unspecified) (name_to_protocols tls13))) @
     '' (Note: versions '' @
     join '', '' (map fst (filter (\<lambda>(n, v). v = Tls_unspecified) (name_to_protocols tls13))) @
     '' are no longer supported)''"

definition set_tls_versions :: "bool \<Rightarrow> string \<Rightarrow> session_auth_data \<Rightarrow> set_result" where
  "set_tls_versions tls13 v auth =
     ebind (collect_tls_versions tls13 (parse_single_or_array v) False (sa_tls_versions auth))
       (\<lambda>(unsupported, vs).
         if vs = [] then Inl (Unknown_tls_version (no_valid_version_msg tls13))
         else Inr (auth\<lparr>sa_tls_versions := vs\<rparr>,
           if unsupported
           then [''TLSv1 and TLSv1.1 are not supported starting from MySQL 8.0.28 and should not be used.'']
           else []))"

definition set_connect_timeout :: "string \<Rightarrow> string \<Rightarrow> session_auth_data \<Rightarrow> set_result" where
  "set_connect_timeout option_name v auth = ebind (parse_int option_name v) (\<lambda>timeout.
     if timeout < 0 then Inl Invalid_timeout
     else Inr (auth\<lparr>sa_connection_timeout := Some timeout\<rparr>, []))"

definition set_compression :: "string \<Rightarrow> string \<Rightarrow> session_auth_data \<Rightarrow> set_result" where
  "set_compression option_name v auth = ebind (parse_compression_policy option_name v) (\<lambda>p.
     Inr (auth\<lparr>sa_compression_policy := p\<rparr>, []))"

fun verify_compression_algorithms :: "string list \<Rightarrow> xdevapi_error + unit" where
  "verify_compression_algorithms [] = Inr ()"
| "verify_compression_algorithms (a # as) =
     ebind (verify_compression_algorithm a) (\<lambda>_. verify_compression_algorithms as)"

definition set_compression_algorithms :: "string \<Rightarrow> session_auth_data \<Rightarrow> set_result" where
  "set_compression_algorithms v auth =
     (let as = parse_single_or_array v in
      ebind (verify_compression_algorithms as) (\<lambda>_. Inr (auth\<lparr>sa_compression_algorithms := Some as\<rparr>, [])))"

section \<open>One option\<close>

datatype client_option =
    Opt_ssl_mode | Opt_ssl_no_defaults | Opt_auth | Opt_ssl_key | Opt_ssl_cert | Opt_ssl_ca
  | Opt_ssl_capath | Opt_ssl_ciphers | Opt_tls_versions | Opt_tls_ciphersuites
  | Opt_connect_timeout | Opt_compression | Opt_compression_algorithms

record client_option_info =
  coi_requires_value :: bool
  coi_is_secure :: bool
  coi_setter :: client_option

definition coi :: "bool \<Rightarrow> bool \<Rightarrow> client_option \<Rightarrow> client_option_info" where
  "coi req sec opt = \<lparr>coi_requires_value = req, coi_is_secure = sec, coi_setter = opt\<rparr>"

definition option_to_info :: "(string \<times> client_option_info) list" where
  "option_to_info =
     [(''ssl-mode'', coi True False Opt_ssl_mode),
      (''ssl-no-defaults'', coi False False Opt_ssl_no_defaults),
      (''auth'', coi True False Opt_auth),
      (''ssl-key'', coi True True Opt_ssl_key),
      (''ssl-cert'', coi True True Opt_ssl_cert),
      (''ssl-ca'', coi True True Opt_ssl_ca),
      (''ssl-capath'', coi True True Opt_ssl_capath),
      (''ssl-cipher'', coi True True Opt_ssl_ciphers),
      (''ssl-ciphers'', coi True True Opt_ssl_ciphers),
      (''tls-version'', coi True True Opt_tls_versions),
      (''tls-versions'', coi True True Opt_tls_versions),
      (''tls-ciphersuite'', coi True True Opt_tls_ciphersuites),
      (''tls-ciphersuites'', coi True True Opt_tls_ciphersuites),
      (''connect-timeout'', coi True False Opt_connect_timeout),
      (''compression'', coi True False Opt_compression),
      (''compression-algorithms'', coi True False Opt_compression_algorithms)]"

definition apply_setter :: "bool \<Rightarrow> string \<Rightarrow> client_option \<Rightarrow> string \<Rightarrow> session_auth_data \<Rightarrow> set_result" where
  "apply_setter tls13 option_name opt v auth = (case opt of
     Opt_ssl_mode \<Rightarrow> set_ssl_mode v auth
   | Opt_ssl_no_defaults \<Rightarrow> Inr (auth\<lparr>sa_ssl_no_defaults := True\<rparr>, [])
   | Opt_auth \<Rightarrow> set_auth_mechanism v auth
   | Opt_ssl_key \<Rightarrow> Inr (auth\<lparr>sa_ssl_local_pk := v\<rparr>, [])
   | Opt_ssl_cert \<Rightarrow> Inr (auth\<lparr>sa_ssl_local_cert := v\<rparr>, [])
   | Opt_ssl_ca \<Rightarrow> Inr (auth\<lparr>sa_ssl_cafile := v\<rparr>, [])
   | Opt_ssl_capath \<Rightarrow> Inr (auth\<lparr>sa_ssl_capath := v\<rparr>, [])
   | Opt_ssl_ciphers \<Rightarrow> Inr (auth\<lparr>sa_ssl_ciphers := parse_single_or_array v\<rparr>, [])
   | Opt_tls_versions \<Rightarrow> set_tls_versions tls13 v auth
   | Opt_tls_ciphersuites \<Rightarrow> Inr (auth\<lparr>sa_tls_ciphersuites := parse_single_or_array v\<rparr>, [])
   | Opt_connect_timeout \<Rightarrow> set_connect_timeout option_name v auth
   | Opt_compression \<Rightarrow> set_compression option_name v auth
   | Opt_compression_algorithms \<Rightarrow> set_compression_algorithms v auth)"

definition extract_client_option :: "bool \<Rightarrow> string \<Rightarrow> string \<Rightarrow> session_auth_data \<Rightarrow> set_result" where
  "extract_client_option tls13 option_name v auth =
     (case ifind option_to_info option_name of
        None \<Rightarrow> Inl (Unknown_client_conn_option option_name)
      | Some info \<Rightarrow>
          if coi_requires_value info \<and> v = []
          then Inl (Invalid_argument (''The argument to '' @ option_name @ '' cannot be empty.''))
          else map_sum id (\<lambda>(auth1, warns). (if coi_is_secure info then ensure_ssl_mode auth1 else auth1, warns))
            (apply_setter tls13 option_name (coi_setter info) v auth))"

end
