(* ===== verification/Ciphers.thy ===== *)
theory Ciphers
  imports Conn_Options
begin

text \<open>
  The ciphers of a connection, after \<^verbatim>\<open>Map_ciphersuites_to_ciphers\<close> and \<^verbatim>\<open>Filter_ciphers\<close> of
  \<^verbatim>\<open>src/xmysqlnd/xmysqlnd_session.cc\<close>, with their three tables, and \<^verbatim>\<open>extract_auth_information\<close>,
  which runs the options of a URI and then prepares the ciphers.
\<close>

section \<open>Tables\<close>

definition ciphersuites_to_ciphers :: "(string \<times> string) list" where
  "ciphersuites_to_ciphers =
     [(''SSL_RSA_WITH_NULL_MD5'', ''NULL-MD5''), (''SSL_RSA_WITH_NULL_SHA'', ''NULL-SHA''),
      (''SSL_RSA_EXPORT_WITH_RC4_40_MD5'', ''EXP-RC4-MD5''),
      (''SSL_RSA_WITH_RC4_128_MD5'', ''RC4-MD5''), (''SSL_RSA_WITH_RC4_128_SHA'', ''RC4-SHA''),
      (''SSL_RSA_EXPORT_WITH_RC2_CBC_40_MD5'', ''EXP-RC2-CBC-MD5''),
      (''SSL_RSA_WITH_IDEA_CBC_SHA'', ''IDEA-CBC-SHA''),
      (''SSL_RSA_EXPORT_WITH_DES40_CBC_SHA'', ''EXP-DES-CBC-SHA''),
      (''SSL_RSA_WITH_DES_CBC_SHA'', ''DES-CBC-SHA''),
      (''SSL_RSA_WITH_3DES_EDE_CBC_SHA'', ''DES-CBC3-SHA''),
      (''SSL_DH_DSS_WITH_DES_CBC_SHA'', ''DH-DSS-DES-CBC-SHA''),
      (''SSL_DH_DSS_WITH_3DES_EDE_CBC_SHA'', ''DH-DSS-DES-CBC3-SHA''),
      (''SSL_DH_RSA_WITH_DES_CBC_SHA'', ''DH-RSA-DES-CBC-SHA''),
      (''SSL_DH_RSA_WITH_3DES_EDE_CBC_SHA'', ''DH-RSA-DES-CBC3-SHA''),
      (''SSL_DHE_DSS_EXPORT_WITH_DES40_CBC_SHA'', ''EXP-EDH-DSS-DES-CBC-SHA''),
      (''SSL_DHE_DSS_WITH_DES_CBC_SHA'', ''EDH-DSS-CBC-SHA''),
      (''SSL_DHE_DSS_WITH_3DES_EDE_CBC_SHA'', ''EDH-DSS-DES-CBC3-SHA''),
      (''SSL_DHE_RSA_EXPORT_WITH_DES40_CBC_SHA'', ''EXP-EDH-RSA-DES-CBC-SHA''),
      (''SSL_DHE_RSA_WITH_DES_CBC_SHA'', ''EDH-RSA-DES-CBC-SHA''),
      (''SSL_DHE_RSA_WITH_3DES_EDE_CBC_SHA'', ''EDH-RSA-DES-CBC3-SHA''),
      (''SSL_DH_anon_EXPORT_WITH_RC4_40_MD5'', ''EXP-ADH-RC4-MD5''),
      (''SSL_DH_anon_WITH_RC4_128_MD5'', ''ADH-RC4-MD5''),
      (''SSL_DH_anon_EXPORT_WITH_DES40_CBC_SHA'', ''EXP-ADH-DES-CBC-SHA''),
      (''SSL_DH_anon_WITH_DES_CBC_SHA'', ''ADH-DES-CBC-SHA''),
      (''SSL_DH_anon_WITH_3DES_EDE_CBC_SHA'', ''ADH-DES-CBC3-SHA''),
      (''TLS_RSA_WITH_NULL_MD5'', ''NULL-MD5''), (''TLS_RSA_WITH_NULL_SHA'', ''NULL-SHA''),
      (''TLS_RSA_EXPORT_WITH_RC4_40_MD5'', ''EXP-RC4-MD5''),
      (''TLS_RSA_WITH_RC4_128_MD5'', ''RC4-MD5''), (''TLS_RSA_WITH_RC4_128_SHA'', ''RC4-SHA''),
      (''TLS_RSA_EXPORT_WITH_RC2_CBC_40_MD5'', ''EXP-RC2-CBC-MD5''),
      (''TLS_RSA_WITH_IDEA_CBC_SHA'', ''IDEA-CBC-SHA''),
      (''TLS_RSA_EXPORT_WITH_DES40_CBC_SHA'', ''EXP-DES-CBC-SHA''),
      (''TLS_RSA_WITH_DES_CBC_SHA'', ''DES-CBC-SHA''),
      (''TLS_RSA_WITH_3DES_EDE_CBC_SHA'', ''DES-CBC3-SHA''),
      (''TLS_DHE_DSS_EXPORT_WITH_DES40_CBC_SHA'', ''EXP-EDH-DSS-DES-CBC-SHA''),
      (''TLS_DHE_DSS_WITH_DES_CBC_SHA'', ''EDH-DSS-CBC-SHA''),
      (''TLS_DHE_DSS_WITH_3DES_EDE_CBC_SHA'', ''EDH-DSS-DES-CBC3-SHA''),
      (''TLS_DHE_RSA_EXPORT_WITH_DES40_CBC_SHA'', ''EXP-EDH-RSA-DES-CBC-SHA''),
      (''TLS_DHE_RSA_WITH_DES_CBC_SHA'', ''EDH-RSA-DES-CBC-SHA''),
      (''TLS_DHE_RSA_WITH_3DES_EDE_CBC_SHA'', ''EDH-RSA-DES-CBC3-SHA''),
      (''TLS_DH_anon_EXPORT_WITH_RC4_40_MD5'', ''EXP-ADH-RC4-MD5''),
      (''TLS_DH_anon_WITH_RC4_128_MD5'', ''ADH-RC4-MD5''),
      (''TLS_DH_anon_EXPORT_WITH_DES40_CBC_SHA'', ''EXP-ADH-DES-CBC-SHA''),
      (''TLS_DH_anon_WITH_DES_CBC_SHA'', ''ADH-DES-CBC-SHA''),
      (''TLS_DH_anon_WITH_3DES_EDE_CBC_SHA'', ''ADH-DES-CBC3-SHA''),
      (''TLS_RSA_WITH_AES_128_CBC_SHA'', ''AES128-SHA''),
      (''TLS_RSA_WITH_AES_256_CBC_SHA'', ''AES256-SHA''),
      (''TLS_DH_DSS_WITH_AES_128_CBC_SHA'', ''DH-DSS-AES128-SHA''),
      (''TLS_DH_DSS_WITH_AES_256_CBC_SHA'', ''DH-DSS-AES256-SHA''),
      (''TLS_DH_RSA_WITH_AES_128_CBC_SHA'', ''DH-RSA-AES128-SHA''),
      (''TLS_DH_RSA_WITH_AES_256_CBC_SHA'', ''DH-RSA-AES256-SHA''),
      (''TLS_DHE_DSS_WITH_AES_128_CBC_SHA'', ''DHE-DSS-AES128-SHA''),
      (''TLS_DHE_DSS_WITH_AES_256_CBC_SHA'', ''DHE-DSS-AES256-SHA''),
      (''TLS_DHE_RSA_WITH_AES_128_CBC_SHA'', ''DHE-RSA-AES128-SHA''),
      (''TLS_DHE_RSA_WITH_AES_256_CBC_SHA'', ''DHE-RSA-AES256-SHA''),
      (''TLS_DH_anon_WITH_AES_128_CBC_SHA'', ''ADH-AES128-SHA''),
      (''TLS_DH_anon_WITH_AES_256_CBC_SHA'', ''ADH-AES256-SHA''),
      (''TLS_RSA_WITH_CAMELLIA_128_CBC_SHA'', ''CAMELLIA128-SHA''),
      (''TLS_RSA_WITH_CAMELLIA_256_CBC_SHA'', ''CAMELLIA256-SHA''),
      (''TLS_DH_DSS_WITH_CAMELLIA_128_CBC_SHA'', ''DH-DSS-CAMELLIA128-SHA''),
      (''TLS_DH_DSS_WITH_CAMELLIA_256_CBC_SHA'', ''DH-DSS-CAMELLIA256-SHA''),
      (''TLS_DH_RSA_WITH_CAMELLIA_128_CBC_SHA'', ''DH-RSA-CAMELLIA128-SHA''),
      (''TLS_DH_RSA_WITH_CAMELLIA_256_CBC_SHA'', ''DH-RSA-CAMELLIA256-SHA''),
      (''TLS_DHE_DSS_WITH_CAMELLIA_128_CBC_SHA'', ''DHE-DSS-CAMELLIA128-SHA''),
      (''TLS_DHE_DSS_WITH_CAMELLIA_256_CBC_SHA'', ''DHE-DSS-CAMELLIA256-SHA''),
      (''TLS_DHE_RSA_WITH_CAMELLIA_128_CBC_SHA'', ''DHE-RSA-CAMELLIA128-SHA''),
      (''TLS_DHE_RSA_WITH_CAMELLIA_256_CBC_SHA'', ''DHE-RSA-CAMELLIA256-SHA''),
      (''TLS_DH_anon_WITH_CAMELLIA_128_CBC_SHA'', ''ADH-CAMELLIA128-SHA''),
      (''TLS_DH_anon_WITH_CAMELLIA_256_CBC_SHA'', ''ADH-CAMELLIA256-SHA''),
      (''TLS_RSA_WITH_SEED_CBC_SHA'', ''SEED-SHA''),
      (''TLS_DH_DSS_WITH_SEED_CBC_SHA'', ''DH-DSS-SEED-SHA''),
      (''TLS_DH_RSA_WITH_SEED_CBC_SHA'', ''DH-RSA-SEED-SHA''),
      (''TLS_DHE_DSS_WITH_SEED_CBC_SHA'', ''DHE-DSS-SEED-SHA''),
      (''TLS_DHE_RSA_WITH_SEED_CBC_SHA'', ''DHE-RSA-SEED-SHA''),
      (''TLS_DH_anon_WITH_SEED_CBC_SHA'', ''ADH-SEED-SHA''),
      (''TLS_GOSTR341094_WITH_28147_CNT_IMIT'', ''GOST94-GOST89-GOST89''),
      (''TLS_GOSTR341001_WITH_28147_CNT_IMIT'', ''GOST2001-GOST89-GOST89''),
      (''TLS_GOSTR341094_WITH_NULL_GOSTR3411'', ''GOST94-NULL-GOST94''),
      (''TLS_GOSTR341001_WITH_NULL_GOSTR3411'', ''GOST2001-NULL-GOST94''),
      (''TLS_RSA_EXPORT1024_WITH_DES_CBC_SHA'', ''EXP1024-DES-CBC-SHA''),
      (''TLS_RSA_EXPORT1024_WITH_RC4_56_SHA'', ''EXP1024-RC4-SHA''),
      (''TLS_DHE_DSS_EXPORT1024_WITH_DES_CBC_SHA'', ''EXP1024-DHE-DSS-DES-CBC-SHA''),
      (''TLS_DHE_DSS_EXPORT1024_WITH_RC4_56_SHA'', ''EXP1024-DHE-DSS-RC4-SHA''),
      (''TLS_DHE_DSS_WITH_RC4_128_SHA'', ''DHE-DSS-RC4-SHA''),
      (''TLS_ECDH_RSA_WITH_NULL_SHA'', ''ECDH-RSA-NULL-SHA''),
      (''TLS_ECDH_RSA_WITH_RC4_128_SHA'', ''ECDH-RSA-RC4-SHA''),
      (''TLS_ECDH_RSA_WITH_3DES_EDE_CBC_SHA'', ''ECDH-RSA-DES-CBC3-SHA''),
      (''TLS_ECDH_RSA_WITH_AES_128_CBC_SHA'', ''ECDH-RSA-AES128-SHA''),
      (''TLS_ECDH_RSA_WITH_AES_256_CBC_SHA'', ''ECDH-RSA-AES256-SHA''),
      (''TLS_ECDH_ECDSA_WITH_NULL_SHA'', ''ECDH-ECDSA-NULL-SHA''),
      (''TLS_ECDH_ECDSA_WITH_RC4_128_SHA'', ''ECDH-ECDSA-RC4-SHA''),
      (''TLS_ECDH_ECDSA_WITH_3DES_EDE_CBC_SHA'', ''ECDH-ECDSA-DES-CBC3-SHA''),
      (''TLS_ECDH_ECDSA_WITH_AES_128_CBC_SHA'', ''ECDH-ECDSA-AES128-SHA''),
      (''TLS_ECDH_ECDSA_WITH_AES_256_CBC_SHA'', ''ECDH-ECDSA-AES256-SHA''),
      (''TLS_ECDHE_RSA_WITH_NULL_SHA'', ''ECDHE-RSA-NULL-SHA''),
      (''TLS_ECDHE_RSA_WITH_RC4_128_SHA'', ''ECDHE-RSA-RC4-SHA''),
      (''TLS_ECDHE_RSA_WITH_3DES_EDE_CBC_SHA'', ''ECDHE-RSA-DES-CBC3-SHA''),
      (''TLS_ECDHE_RSA_WITH_AES_128_CBC_SHA'', ''ECDHE-RSA-AES128-SHA''),
      (''TLS_ECDHE_RSA_WITH_AES_256_CBC_SHA'', ''ECDHE-RSA-AES256-SHA''),
      (''TLS_ECDHE_ECDSA_WITH_NULL_SHA'', ''ECDHE-ECDSA-NULL-SHA''),
      (''TLS_ECDHE_ECDSA_WITH_RC4_128_SHA'', ''ECDHE-ECDSA-RC4-SHA''),
      (''TLS_ECDHE_ECDSA_WITH_3DES_EDE_CBC_SHA'', ''ECDHE-ECDSA-DES-CBC3-SHA''),
      (''TLS_ECDHE_ECDSA_WITH_AES_128_CBC_SHA'', ''ECDHE-ECDSA-AES128-SHA''),
      (''TLS_ECDHE_ECDSA_WITH_AES_256_CBC_SHA'', ''ECDHE-ECDSA-AES256-SHA''),
      (''TLS_ECDH_anon_WITH_NULL_SHA'', ''AECDH-NULL-SHA''),
      (''TLS_ECDH_anon_WITH_RC4_128_SHA'', ''AECDH-RC4-SHA''),
      (''TLS_ECDH_anon_WITH_3DES_EDE_CBC_SHA'', ''AECDH-DES-CBC3-SHA''),
      (''TLS_ECDH_anon_WITH_AES_128_CBC_SHA'', ''AECDH-AES128-SHA''),
      (''TLS_ECDH_anon_WITH_AES_256_CBC_SHA'', ''AECDH-AES256-SHA''),
      (''TLS_RSA_WITH_NULL_SHA256'', ''NULL-SHA256''),
      (''TLS_RSA_WITH_AES_128_CBC_SHA256'', ''AES128-SHA256''),
      (''TLS_RSA_WITH_AES_256_CBC_SHA256'', ''AES256-SHA256''),
      (''TLS_RSA_WITH_AES_128_GCM_SHA256'', ''AES128-GCM-SHA256''),
      (''TLS_RSA_WITH_AES_256_GCM_SHA384'', ''AES256-GCM-SHA384''),
      (''TLS_DH_RSA_WITH_AES_128_CBC_SHA256'', ''DH-RSA-AES128-SHA256''),
      (''TLS_DH_RSA_WITH_AES_256_CBC_SHA256'', ''DH-RSA-AES256-SHA256''),
      (''TLS_DH_RSA_WITH_AES_128_GCM_SHA256'', ''DH-RSA-AES128-GCM-SHA256''),
      (''TLS_DH_RSA_WITH_AES_256_GCM_SHA384'', ''DH-RSA-AES256-GCM-SHA384''),
      (''TLS_DH_DSS_WITH_AES_128_CBC_SHA256'', ''DH-DSS-AES128-SHA256''),
      (''TLS_DH_DSS_WITH_AES_256_CBC_SHA256'', ''DH-DSS-AES256-SHA256''),
      (''TLS_DH_DSS_WITH_AES_128_GCM_SHA256'', ''DH-DSS-AES128-GCM-SHA256''),
      (''TLS_DH_DSS_WITH_AES_256_GCM_SHA384'', ''DH-DSS-AES256-GCM-SHA384''),
      (''TLS_DHE_RSA_WITH_AES_128_CBC_SHA256'', ''DHE-RSA-AES128-SHA256''),
      (''TLS_DHE_RSA_WITH_AES_256_CBC_SHA256'', ''DHE-RSA-AES256-SHA256''),
      (''TLS_DHE_RSA_WITH_AES_128_GCM_SHA256'', ''DHE-RSA-AES128-GCM-SHA256''),
      (''TLS_DHE_RSA_WITH_AES_256_GCM_SHA384'', ''DHE-RSA-AES256-GCM-SHA384''),
      (''TLS_DHE_DSS_WITH_AES_128_CBC_SHA256'', ''DHE-DSS-AES128-SHA256''),
      (''TLS_DHE_DSS_WITH_AES_256_CBC_SHA256'', ''DHE-DSS-AES256-SHA256''),
      (''TLS_DHE_DSS_WITH_AES_128_GCM_SHA256'', ''DHE-DSS-AES128-GCM-SHA256''),
      (''TLS_DHE_DSS_WITH_AES_256_GCM_SHA384'', ''DHE-DSS-AES256-GCM-SHA384''),
      (''TLS_ECDH_RSA_WITH_AES_128_CBC_SHA256'', ''ECDH-RSA-AES128-SHA256''),
      (''TLS_ECDH_RSA_WITH_AES_256_CBC_SHA384'', ''ECDH-RSA-AES256-SHA384''),
      (''TLS_ECDH_RSA_WITH_AES_128_GCM_SHA256'', ''ECDH-RSA-AES128-GCM-SHA256''),
      (''TLS_ECDH_RSA_WITH_AES_256_GCM_SHA384'', ''ECDH-RSA-AES256-GCM-SHA384''),
      (''TLS_ECDH_ECDSA_WITH_AES_128_CBC_SHA256'', ''ECDH-ECDSA-AES128-SHA256''),
      (''TLS_ECDH_ECDSA_WITH_AES_256_CBC_SHA384'', ''ECDH-ECDSA-AES256-SHA384''),
      (''TLS_ECDH_ECDSA_WITH_AES_128_GCM_SHA256'', ''ECDH-ECDSA-AES128-GCM-SHA256''),
      (''TLS_ECDH_ECDSA_WITH_AES_256_GCM_SHA384'', ''ECDH-ECDSA-AES256-GCM-SHA384''),
      (''TLS_ECDHE_RSA_WITH_AES_128_CBC_SHA256'', ''ECDHE-RSA-AES128-SHA256''),
      (''TLS_ECDHE_RSA_WITH_AES_256_CBC_SHA384'', ''ECDHE-RSA-AES256-SHA384''),
      (''TLS_ECDHE_RSA_WITH_AES_128_GCM_SHA256'', ''ECDHE-RSA-AES128-GCM-SHA256''),
      (''TLS_ECDHE_RSA_WITH_AES_256_GCM_SHA384'', ''ECDHE-RSA-AES256-GCM-SHA384''),
      (''TLS_ECDHE_ECDSA_WITH_AES_128_CBC_SHA256'', ''ECDHE-ECDSA-AES128-SHA256''),
      (''TLS_ECDHE_ECDSA_WITH_AES_256_CBC_SHA384'', ''ECDHE-ECDSA-AES256-SHA384''),
      (''TLS_ECDHE_ECDSA_WITH_AES_128_GCM_SHA256'', ''ECDHE-ECDSA-AES128-GCM-SHA256''),
      (''TLS_ECDHE_ECDSA_WITH_AES_256_GCM_SHA384'', ''ECDHE-ECDSA-AES256-GCM-SHA384''),
      (''TLS_DH_anon_WITH_AES_128_CBC_SHA256'', ''ADH-AES128-SHA256''),
      (''TLS_DH_anon_WITH_AES_256_CBC_SHA256'', ''ADH-AES256-SHA256''),
      (''TLS_DH_anon_WITH_AES_128_GCM_SHA256'', ''ADH-AES128-GCM-SHA256''),
      (''TLS_DH_anon_WITH_AES_256_GCM_SHA384'', ''ADH-AES256-GCM-SHA384''),
      (''TLS_PSK_WITH_RC4_128_SHA'', ''PSK-RC4-SHA''),
      (''TLS_PSK_WITH_3DES_EDE_CBC_SHA'', ''PSK-3DES-EDE-CBC-SHA''),
      (''TLS_PSK_WITH_AES_128_CBC_SHA'', ''PSK-AES128-CBC-SHA''),
      (''TLS_PSK_WITH_AES_256_CBC_SHA'', ''PSK-AES256-CBC-SHA''),
      (''SSL_CK_RC4_128_WITH_MD5'', ''RC4-MD5''),
      (''SSL_CK_RC2_128_CBC_WITH_MD5'', ''RC2-CBC-MD5''),
      (''SSL_CK_IDEA_128_CBC_WITH_MD5'', ''IDEA-CBC-MD5''),
      (''SSL_CK_DES_192_EDE3_CBC_WITH_MD5'', ''DES-CBC3-MD5'')]"

definition allowed_ciphers :: "string list" where
  "allowed_ciphers =
     [''ECDHE-ECDSA-AES128-GCM-SHA256'', ''ECDHE-ECDSA-AES256-GCM-SHA384'',
      ''ECDHE-RSA-AES128-GCM-SHA256'', ''ECDHE-ECDSA-AES128-SHA256'', ''ECDHE-RSA-AES128-SHA256'',
      ''TLS_AES_128_GCM_SHA256'', ''TLS_AES_256_GCM_SHA384'', ''TLS_CHACHA20_POLY1305_SHA256'',
      ''TLS_AES_128_CCM_SHA256'', ''TLS_AES_128_CCM_8_SHA256'', ''ECDHE-RSA-AES256-GCM-SHA384'',
      ''ECDHE-ECDSA-AES256-SHA384'', ''ECDHE-RSA-AES256-SHA384'', ''DHE-RSA-AES128-GCM-SHA256'',
      ''DHE-DSS-AES128-GCM-SHA256'', ''DHE-RSA-AES128-SHA256'', ''DHE-DSS-AES128-SHA256'',
      ''DHE-DSS-AES256-GCM-SHA384'', ''DHE-RSA-AES256-SHA256'', ''DHE-DSS-AES256-SHA256'',
      ''DHE-RSA-AES256-GCM-SHA384'', ''ECDHE-ECDSA-CHACHA20-POLY1305'',
      ''ECDHE-RSA-CHACHA20-POLY1305'', ''DH-DSS-AES128-GCM-SHA256'',
      ''ECDH-ECDSA-AES128-GCM-SHA256'', ''DH-DSS-AES256-GCM-SHA384'',
      ''ECDH-ECDSA-AES256-GCM-SHA384'', ''DH-DSS-AES128-SHA256'', ''ECDH-ECDSA-AES128-SHA256'',
      ''DH-DSS-AES256-SHA256'', ''ECDH-ECDSA-AES256-SHA384'', ''DH-RSA-AES128-GCM-SHA256'',
      ''ECDH-RSA-AES128-GCM-SHA256'', ''DH-RSA-AES256-GCM-SHA384'', ''ECDH-RSA-AES256-GCM-SHA384'',
      ''DH-RSA-AES128-SHA256'', ''ECDH-RSA-AES128-SHA256'', ''DH-RSA-AES256-SHA256'',
      ''ECDH-RSA-AES256-SHA384'', ''ECDHE-RSA-AES128-SHA'', ''ECDHE-ECDSA-AES128-SHA'',
      ''ECDHE-RSA-AES256-SHA'', ''ECDHE-ECDSA-AES256-SHA'', ''DHE-DSS-AES128-SHA'',
      ''DHE-RSA-AES128-SHA'', ''DHE-DSS-AES256-SHA'', ''DHE-RSA-AES256-SHA'', ''DH-DSS-AES128-SHA'',
      ''ECDH-ECDSA-AES128-SHA'', ''AES256-SHA'', ''DH-DSS-AES256-SHA'', ''ECDH-ECDSA-AES256-SHA'',
      ''DH-RSA-AES128-SHA'', ''ECDH-RSA-AES128-SHA'', ''DH-RSA-AES256-SHA'',
      ''ECDH-RSA-AES256-SHA'', ''CAMELLIA256-SHA'', ''CAMELLIA128-SHA'', ''AES128-GCM-SHA256'',
      ''AES256-GCM-SHA384'', ''AES128-SHA256'', ''AES256-SHA256'', ''AES128-SHA'',
      ''DHE-DSS-DES-CBC3-SHA'', ''DHE-RSA-DES-CBC3-SHA'', ''ECDH-RSA-DES-CBC3-SHA'',
      ''ECDH-ECDSA-DES-CBC3-SHA'', ''ECDHE-RSA-DES-CBC3-SHA'', ''ECDHE-ECDSA-DES-CBC3-SHA'',
      ''DES-CBC3-SHA'']"

definition allowed_ciphersuites :: "string list" where
  "allowed_ciphersuites =
     [''TLS_ECDHE_ECDSA_WITH_AES_128_GCM_SHA256'', ''TLS_ECDHE_ECDSA_WITH_AES_256_GCM_SHA384'',
      ''TLS_ECDHE_RSA_WITH_AES_128_GCM_SHA256'', ''TLS_ECDHE_ECDSA_WITH_AES_128_CBC_SHA256'',
      ''TLS_ECDHE_RSA_WITH_AES_128_CBC_SHA256'', ''TLS_AES_128_GCM_SHA256'',
      ''TLS_AES_256_GCM_SHA384'', ''TLS_CHACHA20_POLY1305_SHA256'', ''TLS_AES_128_CCM_SHA256'',
      ''TLS_AES_128_CCM_8_SHA256'', ''TLS_ECDHE_RSA_WITH_AES_256_GCM_SHA384'',
      ''TLS_ECDHE_ECDSA_WITH_AES_256_CBC_SHA384'', ''TLS_ECDHE_RSA_WITH_AES_256_CBC_SHA384'',
      ''TLS_DHE_RSA_WITH_AES_128_GCM_SHA256'', ''TLS_DHE_DSS_WITH_AES_128_GCM_SHA256'',
      ''TLS_DHE_RSA_WITH_AES_128_CBC_SHA256'', ''TLS_DHE_DSS_WITH_AES_128_CBC_SHA256'',
      ''TLS_DHE_DSS_WITH_AES_256_GCM_SHA384'', ''TLS_DHE_RSA_WITH_AES_256_CBC_SHA256'',
      ''TLS_DHE_DSS_WITH_AES_256_CBC_SHA256'', ''TLS_DHE_RSA_WITH_AES_256_GCM_SHA384'',
      ''TLS_ECDHE_ECDSA_WITH_CHACHA20_POLY1305_SHA256'',
      ''TLS_ECDHE_RSA_WITH_CHACHA20_POLY1305_SHA256'', ''TLS_DH_DSS_WITH_AES_128_GCM_SHA256'',
      ''TLS_ECDH_ECDSA_WITH_AES_128_GCM_SHA256'', ''TLS_DH_DSS_WITH_AES_256_GCM_SHA384'',
      ''TLS_ECDH_ECDSA_WITH_AES_256_GCM_SHA384'', ''TLS_DH_DSS_WITH_AES_128_CBC_SHA256'',
      ''TLS_ECDH_ECDSA_WITH_AES_128_CBC_SHA256'', ''TLS_DH_DSS_WITH_AES_256_CBC_SHA256'',
      ''TLS_ECDH_ECDSA_WITH_AES_256_CBC_SHA384'', ''TLS_DH_RSA_WITH_AES_128_GCM_SHA256'',
      ''TLS_ECDH_RSA_WITH_AES_128_GCM_SHA256'', ''TLS_DH_RSA_WITH_AES_256_GCM_SHA384'',
      ''TLS_ECDH_RSA_WITH_AES_256_GCM_SHA384'', ''TLS_DH_RSA_WITH_AES_128_CBC_SHA256'',
      ''TLS_ECDH_RSA_WITH_AES_128_CBC_SHA256'', ''TLS_DH_RSA_WITH_AES_256_CBC_SHA256'',
      ''TLS_ECDH_RSA_WITH_AES_256_CBC_SHA384'', ''TLS_ECDHE_RSA_WITH_AES_128_CBC_SHA'',
      ''TLS_ECDHE_ECDSA_WITH_AES_128_CBC_SHA'', ''TLS_ECDHE_RSA_WITH_AES_256_CBC_SHA'',
      ''TLS_ECDHE_ECDSA_WITH_AES_256_CBC_SHA'', ''TLS_DHE_DSS_WITH_AES_128_CBC_SHA'',
      ''TLS_DHE_RSA_WITH_AES_128_CBC_SHA'', ''TLS_DHE_DSS_WITH_AES_256_CBC_SHA'',
      ''TLS_DHE_RSA_WITH_AES_256_CBC_SHA'', ''TLS_DH_DSS_WITH_AES_128_CBC_SHA'',
      ''TLS_ECDH_ECDSA_WITH_AES_128_CBC_SHA'', ''TLS_RSA_WITH_AES_256_CBC_SHA'',
      ''TLS_DH_DSS_WITH_AES_256_CBC_SHA'', ''TLS_ECDH_ECDSA_WITH_AES_256_CBC_SHA'',
      ''TLS_DH_RSA_WITH_AES_128_CBC_SHA'', ''TLS_ECDH_RSA_WITH_AES_128_CBC_SHA'',
      ''TLS_DH_RSA_WITH_AES_256_CBC_SHA'', ''TLS_ECDH_RSA_WITH_AES_256_CBC_SHA'',
      ''TLS_RSA_WITH_CAMELLIA_256_CBC_SHA'', ''TLS_RSA_WITH_CAMELLIA_128_CBC_SHA'',
      ''TLS_RSA_WITH_AES_128_GCM_SHA256'', ''TLS_RSA_WITH_AES_256_GCM_SHA384'',
      ''TLS_RSA_WITH_AES_128_CBC_SHA256'', ''TLS_RSA_WITH_AES_256_CBC_SHA256'',
      ''TLS_RSA_WITH_AES_128_CBC_SHA'', ''TLS_DH_DSS_WITH_3DES_EDE_CBC_SHA'',
      ''TLS_DH_RSA_WITH_3DES_EDE_CBC_SHA'', ''TLS_DHE_DSS_WITH_3DES_EDE_CBC_SHA'',
      ''TLS_DHE_RSA_WITH_3DES_EDE_CBC_SHA'', ''TLS_ECDH_RSA_WITH_3DES_EDE_CBC_SHA'',
      ''TLS_ECDH_ECDSA_WITH_3DES_EDE_CBC_SHA'', ''TLS_ECDHE_RSA_WITH_3DES_EDE_CBC_SHA'',
      ''TLS_ECDHE_ECDSA_WITH_3DES_EDE_CBC_SHA'', ''TLS_RSA_WITH_3DES_EDE_CBC_SHA'']"

section \<open>From cipher suites to ciphers\<close>

definition older_than_tls13 :: "tls_version list \<Rightarrow> bool" where
  "older_than_tls13 vs = list_ex (\<lambda>v. v = Tls_unspecified \<or> v = Tls_v1_2) vs"

definition need_mapping :: "session_auth_data \<Rightarrow> bool" where
  "need_mapping auth =
     (if sa_tls_ciphersuites auth = [] then False
      else if sa_ssl_ciphers auth \<noteq> [] then False
      else older_than_tls13 (sa_tls_versions auth))"

definition map_ciphersuites_to_ciphers :: "session_auth_data \<Rightarrow> session_auth_data" where
  "map_ciphersuites_to_ciphers auth =
     (if \<not> need_mapping auth then auth
      else auth\<lparr>sa_ssl_ciphers := sa_ssl_ciphers auth @
        List.map_filter (map_of ciphersuites_to_ciphers) (sa_tls_ciphersuites auth)\<rparr>)"

section \<open>Filtering\<close>

definition need_default_ciphersuites :: "bool \<Rightarrow> tls_version list \<Rightarrow> bool" where
  "need_default_ciphersuites tls13 vs =
     (if vs = [] then tls13
      else if Tls_v1_3 \<in> set vs then True
      else tls13 \<and> Tls_unspecified \<in> set vs)"

definition need_default_ciphers :: "tls_version list \<Rightarrow> bool" where
  "need_default_ciphers vs = (if vs = [] then True else older_than_tls13 vs)"

definition process_ciphersuites :: "bool \<Rightarrow> session_auth_data \<Rightarrow> xdevapi_error + session_auth_data" where
  "process_ciphersuites tls13 auth =
     (if sa_tls_ciphersuites auth \<noteq> []
      then let cs = filter (\<lambda>c. c \<in> set allowed_ciphersuites) (sa_tls_ciphersuites auth) in
           if cs = [] then Inl No_valid_ciphersuite_in_list else Inr (auth\<lparr>sa_tls_ciphersuites := cs\<rparr>)
      else if need_default_ciphersuites tls13 (sa_tls_versions auth)
      then Inr (auth\<lparr>sa_tls_ciphersuites := allowed_ciphersuites\<rparr>)
      else Inr auth)"

definition process_ciphers :: "session_auth_data \<Rightarrow> xdevapi_error + session_auth_data" where
  "process_ciphers auth =
     (if sa_ssl_ciphers auth \<noteq> []
      then let cs = filter (\<lambda>c. c \<in> set allowed_ciphers) (sa_ssl_ciphers auth) in
           if cs = [] then Inl No_valid_cipher_in_list else Inr (auth\<lparr>sa_ssl_ciphers := cs\<rparr>)
      else if need_default_ciphers (sa_tls_versions auth)
      then Inr (auth\<lparr>sa_ssl_ciphers := allowed_ciphers\<rparr>)
      else Inr auth)"

definition filter_ciphers :: "bool \<Rightarrow> session_auth_data \<Rightarrow> xdevapi_error + session_auth_data" where
  "filter_ciphers tls13 auth = ebind (process_ciphersuites tls13 auth) process_ciphers"

definition prepare_ciphers :: "bool \<Rightarrow> session_auth_data \<Rightarrow> xdevapi_error + session_auth_data" where
  "prepare_ciphers tls13 auth =
     (if sa_ssl_mode auth = Ssl_disabled then Inr auth
      else filter_ciphers tls13 (map_ciphersuites_to_ciphers auth))"

section \<open>The options of a URI\<close>

text \<open>The parts of a URI, as \<^verbatim>\<open>php_url_parse\<close> gives them and \<^verbatim>\<open>util::Url\<close> keeps them.\<close>

record url =
  url_scheme :: string
  url_user :: string
  url_pass :: string
  url_host :: string
  url_port :: nat
  url_path :: string
  url_query :: string
  url_fragment :: string

definition url_of_php :: "url \<Rightarrow> url" where
  "url_of_php u =
     u\<lparr>url_path := (if url_path u \<noteq> [] \<and> hd (url_path u) = CHR ''/'' then tl (url_path u) else url_path u)\<rparr>"

definition empty_url :: url where
  "empty_url = \<lparr>url_scheme = [], url_user = [], url_pass = [], url_host = [], url_port = 0,
     url_path = [], url_query = [], url_fragment = []\<rparr>"

definition url_empty :: "url \<Rightarrow> bool" where
  "url_empty u \<longleftrightarrow> url_scheme u = [] \<and> url_user u = [] \<and> url_pass u = [] \<and> url_host u = [] \<and>
     url_port u = 0 \<and> url_path u = [] \<and> url_query u = [] \<and> url_fragment u = []"

text \<open>The options of the query, one after the other; \<open>None\<close> is a malformed query.\<close>

definition variable_of :: "string \<Rightarrow> string" where
  "variable_of opt = takeWhile (\<lambda>c. c \<noteq> CHR ''='') opt"

definition value_of :: "string \<Rightarrow> string" where
  "value_of opt = tl (dropWhile (\<lambda>c. c \<noteq> CHR ''='') opt)"

fun extract_options ::
  "bool \<Rightarrow> string list \<Rightarrow> session_auth_data \<times> string list \<Rightarrow> xdevapi_error + (session_auth_data \<times> string list) option" where
  "extract_options tls13 [] s = Inr (Some s)"
| "extract_options tls13 (opt # opts) (auth, warns) =
     (if opt = [] \<or> variable_of opt = [] then Inr None
      else if iequal (variable_of opt) ''connection-attributes''
      then extract_options tls13 opts (auth, warns)
      else case extract_client_option tls13 (variable_of opt) (value_of opt) auth of
             Inl e \<Rightarrow> Inl e
           | Inr (auth1, ws) \<Rightarrow> extract_options tls13 opts (auth1, warns @ ws))"

definition default_ssl_mode :: "session_auth_data \<Rightarrow> session_auth_data" where
  "default_ssl_mode auth =
     (if sa_ssl_mode auth = Ssl_not_specified \<or> sa_ssl_mode auth = Ssl_any_secure
      then assign_ssl_mode Ssl_required auth else auth)"

definition extract_auth_information ::
  "bool \<Rightarrow> url \<Rightarrow> xdevapi_error + (session_auth_data \<times> string list) option" where
  "extract_auth_information tls13 u =
     ebind (extract_options tls13 (single_separator_split (url_query u) CHR ''&'') (new_auth_data, []))
       (\<lambda>r. case r of None \<Rightarrow> Inr None
       | Some (auth, warns) \<Rightarrow>
           (let auth1 = default_ssl_mode auth;
                auth2 = (if url_port u \<noteq> 0
                  then auth1\<lparr>sa_port := url_port u, sa_hostname := url_host u\<rparr> else auth1);
                auth3 = auth2\<lparr>sa_username := url_user u, sa_password := url_pass u\<rparr>
            in ebind (prepare_ciphers tls13 auth3) (\<lambda>auth4. Inr (Some (auth4, warns)))))"

end
