(* ===== verification/Addresses.thy ===== *)
theory Addresses
  imports Ciphers
begin

text \<open>
  The addresses a URI names, after \<^verbatim>\<open>src/xmysqlnd/xmysqlnd_session.cc\<close>: the parser of lists of hosts
  with priorities, the hosts of a DNS SRV record, sockets and pipes in a URI, and the verification of
  connection strings.  \<^verbatim>\<open>php_url_parse\<close>, the DNS resolver and \<^verbatim>\<open>std::sort\<close>, whose order of equal
  elements is open, are parameters.  An exception raised in PHP does not stop the code; such
  exceptions are listed by their codes.
\<close>

section \<open>Searching strings\<close>

text \<open>Reading a string at its end gives its NUL.\<close>

definition char_at :: "string \<Rightarrow> nat \<Rightarrow> char" where
  "char_at s i = (if i < length s then s ! i else CHR 0x00)"

definition find_from :: "char \<Rightarrow> string \<Rightarrow> nat \<Rightarrow> nat option" where
  "find_from c s i = find (\<lambda>j. s ! j = c) [i..<length s]"

definition find_last :: "char \<Rightarrow> string \<Rightarrow> nat \<Rightarrow> nat option" where
  "find_last c s i = find (\<lambda>j. s ! j = c) (rev [i..<length s])"

definition find_text :: "string \<Rightarrow> string \<Rightarrow> nat option" where
  "find_text pat s = find (\<lambda>j. take (length pat) (drop j s) = pat) [0..<length s + 1 - length pat]"

definition erase :: "nat \<Rightarrow> nat \<Rightarrow> 'a list \<Rightarrow> 'a list" where
  "erase pos n s = take pos s @ drop (pos + n) s"

definition insert_at :: "nat \<Rightarrow> 'a list \<Rightarrow> 'a list \<Rightarrow> 'a list" where
  "insert_at pos x s = take pos s @ x @ drop pos s"

text \<open>
  \<^verbatim>\<open>std::atoi\<close> with the behaviour of glibc for values out of range: clamped to 64 bits, then cut to
  the low 32.
\<close>

definition atoi :: "string \<Rightarrow> int" where
  "atoi s = (case signed_digits (dropWhile c_isspace s) of (sign, ds) \<Rightarrow>
     to_int32 (word_of_int (max (- (2 ^ 63)) (min (2 ^ 63 - 1) (sign * int (dec_value ds))))))"

section \<open>Is there a list?\<close>

text \<open>
  The scan from behind the \<^verbatim>\<open>@\<close> to the closing bracket: the count of open brackets, whether what was
  seen can only be a list, and the position.
\<close>

fun scan_list :: "string \<Rightarrow> nat \<Rightarrow> bool \<Rightarrow> nat \<Rightarrow> nat \<times> bool \<times> nat" where
  "scan_list [] brk valid e = (brk, valid, e)"
| "scan_list (c # cs) brk valid e =
     (if brk = 0 then (brk, valid, e)
      else if c = CHR ''['' then scan_list cs (brk + 1) (valid \<or> 1 < brk + 1) (e + 1)
      else if c = CHR '']'' then (if brk = 1 then (0, valid, e) else scan_list cs (brk - 1) valid (e + 1))
      else scan_list cs brk (valid \<or> c = CHR '','' \<or> c = CHR ''('' \<or> c = CHR '')'') (e + 1))"

definition contains_list_of_url :: "string \<Rightarrow> int" where
  "contains_list_of_url uri = (case find_from CHR ''@'' uri 0 of
     None \<Rightarrow> -1
   | Some p \<Rightarrow>
       (case scan_list (drop (p + 2) uri) (if char_at uri (p + 1) = CHR ''['' then 1 else 0) False (p + 2) of
          (brk, valid, e) \<Rightarrow> if brk \<noteq> 0 then -1 else if valid then int e else 0))"

section \<open>The parser of lists\<close>

type_synonym address = "string \<times> int"

record list_parser =
  lp_beg :: nat
  lp_end :: nat
  lp_uri :: string
  lp_unformatted :: string
  lp_addresses :: "address list"
  lp_raised :: "nat list"

definition max_host_priority :: int where "max_host_priority = 100"

text \<open>An invalid parser has its end before its beginning, so that \<open>lp_parse\<close> does not loop.\<close>

definition invalidate :: "list_parser \<Rightarrow> list_parser" where
  "invalidate p = p\<lparr>lp_beg := 1, lp_end := 0\<rparr>"

definition empty_parser :: list_parser where
  "empty_parser = \<lparr>lp_beg = 0, lp_end = 0, lp_uri = [], lp_unformatted = [], lp_addresses = [], lp_raised = []\<rparr>"

definition new_list_parser :: "string \<Rightarrow> list_parser" where
  "new_list_parser raw =
     (let uri = filter (\<lambda>c. \<not> c_isspace c) raw in
      case find_from CHR ''@'' uri 0 of
        None \<Rightarrow> invalidate empty_parser
      | Some p \<Rightarrow>
          (let valid_list = contains_list_of_url uri; b = p + 1 in
           if valid_list < 0 then invalidate empty_parser
           else if 0 < valid_list
           then let e = nat valid_list in
                empty_parser\<lparr>lp_beg := b + 1, lp_end := e - 1, lp_uri := uri,
                  lp_unformatted := erase b (e - b + 1) uri\<rparr>
           else invalidate (empty_parser\<lparr>lp_addresses := [(uri, max_host_priority)]\<rparr>)))"

definition add_address :: "address \<Rightarrow> list_parser \<Rightarrow> list_parser" where
  "add_address a p =
     p\<lparr>lp_addresses := lp_addresses p @ [(insert_at (lp_beg p - 1) (fst a) (lp_unformatted p), snd a)]\<rparr>"

text \<open>
  One value of an address with priority: the positions of what follows the equals sign and of the
  separator, zero while not seen.  \<open>None\<close> is a second equals sign.
\<close>

fun scan_value :: "bool \<Rightarrow> string \<Rightarrow> nat \<Rightarrow> nat \<Rightarrow> (nat \<times> nat \<times> nat) option" where
  "scan_value final [] idx b = Some (idx, b, 0)"
| "scan_value final (c # cs) idx b =
     (if c = CHR ''='' then (if b \<noteq> 0 then None else scan_value final cs (idx + 1) (idx + 1))
      else if c = CHR '','' \<or> (final \<and> c = CHR '')'') then Some (idx, b, idx)
      else scan_value final cs (idx + 1) b)"

definition trim_value :: "string \<Rightarrow> string" where
  "trim_value s = filter (\<lambda>c. c \<noteq> CHR '' '' \<and> code c \<noteq> 9) s"

definition parse_round_token :: "string \<Rightarrow> list_parser \<Rightarrow> bool \<times> list_parser" where
  "parse_round_token str p = (case (find_text ''address'' str, find_text ''priority'' str) of
     (Some a, Some q) \<Rightarrow>
       (let addr_beg = a + length ''address''; prio_beg = q + length ''priority'' in
        if q < a then (False, p)
        else case scan_value False (drop addr_beg str) addr_beg 0 of
          None \<Rightarrow> (False, p)
        | Some (idx, b, e) \<Rightarrow>
            if prio_beg \<le> idx \<or> e < b then (False, p)
            else (case scan_value True (drop prio_beg str) prio_beg 0 of
              None \<Rightarrow> (False, p)
            | Some (idx', b', e') \<Rightarrow>
                if e' < b' then (False, p)
                else let prio = atoi (trim_value (slice b' e' str)) in
                  if prio < 0 \<or> max_host_priority < prio
                  then (False, p\<lparr>lp_raised := lp_raised p @ [4007]\<rparr>)
                  else (True, add_address (trim_value (slice b e str), prio) p)))
   | _ \<Rightarrow> (False, p))"

lemma find_from_SomeD: "find_from c s i = Some j \<Longrightarrow> i \<le> j \<and> j < length s \<and> s ! j = c"
  by (auto simp: find_from_def find_Some_iff)

lemma parse_round_token_fixed:
  "parse_round_token str p = (ok, p1) \<Longrightarrow>
     lp_beg p1 = lp_beg p \<and> lp_end p1 = lp_end p \<and> lp_uri p1 = lp_uri p \<and> lp_unformatted p1 = lp_unformatted p"
  by (auto simp: parse_round_token_def add_address_def Let_def split: option.splits if_splits prod.splits)

text \<open>
  The loop over the list.  After an address without priority, the increment of the loop comes on top
  of the one that sets the start of the next address, so one character is not looked at.
\<close>

function lp_loop :: "nat \<Rightarrow> nat \<Rightarrow> list_parser \<Rightarrow> bool \<times> list_parser" where
  "lp_loop idx last_pos p =
     (if lp_end p < idx then (True, p)
      else if char_at (lp_uri p) idx = CHR ''(''
      then (case find_from CHR '')'' (lp_uri p) idx of
          None \<Rightarrow> (False, p)
        | Some pos \<Rightarrow>
            (case parse_round_token (slice idx (pos + 1) (lp_uri p)) p of
               (ok, p1) \<Rightarrow> if \<not> ok then (False, p1)
                 else lp_loop (pos + 1) (pos + 2) p1))
      else if (char_at (lp_uri p) idx = CHR '','' \<or> idx = lp_end p) \<and> last_pos < idx
      then lp_loop (idx + 2) (idx + 1)
             (add_address (slice last_pos (if idx = lp_end p then idx + 1 else idx) (lp_uri p), -1) p)
      else lp_loop (idx + 1) last_pos p)"
  by pat_completeness auto

termination
  by (relation "measure (\<lambda>(idx, l, p). Suc (lp_end p) - idx)")
    (auto dest!: find_from_SomeD parse_round_token_fixed[OF sym] simp: add_address_def)

declare lp_loop.simps [simp del]

definition default_priorities :: "address list \<Rightarrow> address list" where
  "default_priorities as =
     map (\<lambda>(i, a). (fst a, max (max_host_priority - int i) 0)) (enumerate 0 as)"

definition lp_parse :: "(address list \<Rightarrow> address list) \<Rightarrow> list_parser \<Rightarrow> address list \<times> nat list" where
  "lp_parse sorter p = (case lp_loop (lp_beg p) (lp_beg p) p of
     (False, p1) \<Rightarrow> ([], lp_raised p1)
   | (True, p1) \<Rightarrow>
       (let as = lp_addresses p1; prio_cnt = length (filter (\<lambda>a. 0 \<le> snd a) as) in
        if prio_cnt \<noteq> 0 \<and> prio_cnt \<noteq> length as then ([], lp_raised p1 @ [4000])
        else if prio_cnt = 0 then (default_priorities as, lp_raised p1)
        else (sorter as, lp_raised p1)))"

definition extract_uri_addresses :: "(address list \<Rightarrow> address list) \<Rightarrow> string \<Rightarrow> address list \<times> nat list" where
  "extract_uri_addresses sorter uri = (case find_last CHR ''@'' uri 0 of
     None \<Rightarrow> ([], [10025])
   | Some i \<Rightarrow> if length uri - i \<le> 2 then ([], [10025]) else lp_parse sorter (new_list_parser uri))"

end
