(* ===== verification/Uris.thy ===== *)
theory Uris
  imports Addresses
begin

text \<open>
  What a single URI says, after \<^verbatim>\<open>src/xmysqlnd/xmysqlnd_session.cc\<close> and
  \<^verbatim>\<open>src/xmysqlnd/xmysqlnd_utils.cc\<close>: a socket or pipe in place of a host, the parts of the URI, the
  attributes of the connection, and the hosts of a DNS SRV lookup.
\<close>

section \<open>Percent encoding\<close>

definition c_isxdigit :: "char \<Rightarrow> bool" where
  "c_isxdigit c \<longleftrightarrow> c_isdigit c \<or> (97 \<le> code (c_tolower c) \<and> code (c_tolower c) \<le> 102)"

definition hex_digit_value :: "char \<Rightarrow> nat" where
  "hex_digit_value c = (if c_isdigit c then code c - 48 else code (c_tolower c) - 97 + 10)"

definition pct_to_char :: "char \<Rightarrow> char \<Rightarrow> char" where
  "pct_to_char a b = char_of (hex_digit_value a * 16 + hex_digit_value b)"

fun decode_pct_path :: "string \<Rightarrow> string" where
  "decode_pct_path (c # a # b # cs) =
     (if c = CHR ''%'' \<and> c_isxdigit a \<and> c_isxdigit b then pct_to_char a b # decode_pct_path cs
      else c # decode_pct_path (a # b # cs))"
| "decode_pct_path cs = cs"

section \<open>Sockets and pipes\<close>

definition extract_transport :: "string \<Rightarrow> (string \<times> transport_type) \<times> string" where
  "extract_transport uri = (case find_last CHR ''@'' uri 0 of
     None \<Rightarrow> (([], No_transport), uri)
   | Some at \<Rightarrow>
       (let idx = at + 1; tr = char_at uri idx in
        if \<not> (tr = CHR ''.'' \<or> tr = CHR ''/'' \<or> tr = CHR ''('' \<or> tr = CHR 0x5C)
        then (([], Network), uri)
        else
          let ty = (if tr = CHR 0x5C then Windows_pipe else Unix_domain_socket);
              double_dot = (tr = CHR ''.'' \<and> char_at uri (idx + 1) = CHR ''.'');
              exp_term = (if tr = CHR ''('' then CHR '')'' else CHR ''/'');
              e = (case find_last exp_term uri idx of
                None \<Rightarrow> length uri
              | Some j \<Rightarrow>
                  if j \<le> idx \<or> (\<not> double_dot \<and> j = idx + 1) \<or> (double_dot \<and> j = idx + 2)
                  then length uri
                  else if exp_term = CHR '')'' then j + 1 else j);
              transport = filter (\<lambda>c. c \<noteq> CHR ''('' \<and> c \<noteq> CHR '')'') (decode_pct_path (slice idx e uri))
          in ((transport, ty),
              insert_at idx (replicate (length transport + 1) CHR ''x'') (erase idx (e - idx) uri))))"

text \<open>
  A missing host or user is noted in a variable that only guards a log entry, so it does not
  change the result.
\<close>

definition extract_uri_information ::
  "(string \<Rightarrow> url option) \<Rightarrow> (string \<Rightarrow> string option) \<Rightarrow> string \<Rightarrow> xdevapi_error + url \<times> transport_type" where
  "extract_uri_information php_url_parse env uri0 = (case extract_transport uri0 of ((tr_path, ty), uri) \<Rightarrow>
     case php_url_parse uri of
       None \<Rightarrow> Inr (empty_url, No_transport)
     | Some raw \<Rightarrow>
         (let node = url_of_php raw in
          ebind
            (if url_host node = [] then Inr node
             else if tr_path \<noteq> []
             then (if ty = No_transport \<or> ty = Network then Inl Null_dereference
                   else Inr (node\<lparr>url_host := tr_path, url_port := 0\<rparr>))
             else Inr node)
            (\<lambda>node1.
              if url_port node1 = 0 \<and> tr_path = []
              then ebind (get_as_int env Mysqlx_port) (\<lambda>port.
                Inr (node1\<lparr>url_port := nat (port mod 2 ^ 16)\<rparr>, ty))
              else Inr (node1, ty))))"

section \<open>Attributes of the connection\<close>

type_synonym attribs = "(string \<times> string) list"

text \<open>What the process tells about itself: its id, the build's platform, the host's name.\<close>

record client_process =
  cp_pid :: nat
  cp_os :: string
  cp_platform :: string
  cp_host :: "string option"

definition get_def_client_attribs :: "client_process \<Rightarrow> attribs" where
  "get_def_client_attribs cp =
     [(''_client_name'', ''mysql-connector-php''), (''_pid'', dec_string (cp_pid cp)),
      (''_os'', cp_os cp), (''_client_version'', ''8.0.30''),
      (''_client_license'', ''PHP License, version 3.01''), (''_platform'', cp_platform cp)] @
     (case cp_host cp of None \<Rightarrow> [] | Some h \<Rightarrow> [(''_source_host'', h)])"

text \<open>A pair, and the exception raised in PHP when the pair is not accepted and left empty.\<close>

definition parse_attribute :: "string \<Rightarrow> (string \<times> string) \<times> nat list" where
  "parse_attribute attribute = (case single_separator_split attribute CHR ''='' of
     [] \<Rightarrow> (([], []), [])
   | k # vs \<Rightarrow>
       if 32 < length k then (([], []), [10039])
       else if vs \<noteq> [] \<and> 1024 < length (hd vs) then (([], []), [10039])
       else if k \<noteq> [] \<and> hd k = CHR ''_'' then (([], []), [10038])
       else if length vs = 1 then ((k, hd vs), [])
       else ((k, []), []))"

text \<open>
  The attributes of a list.  Outcomes: an exception, or whether all were accepted, with the
  attributes collected and the exceptions raised in PHP.
\<close>

fun parse_attributes :: "string list \<Rightarrow> attribs \<Rightarrow> xdevapi_error + bool \<times> attribs \<times> nat list" where
  "parse_attributes [] acc = Inr (True, acc, [])"
| "parse_attributes (a # as) acc =
     (if a = [] then parse_attributes as acc
      else case parse_attribute a of (kv, raised) \<Rightarrow>
        if fst kv \<in> fst ` set acc then Inl Conn_attrib_dup_key
        else if fst kv \<noteq> [] then parse_attributes as (acc @ [kv])
        else Inr (False, acc, raised))"

definition parse_conn_attrib ::
  "client_process \<Rightarrow> string \<Rightarrow> bool \<Rightarrow> attribs \<Rightarrow> xdevapi_error + bool \<times> attribs \<times> nat list" where
  "parse_conn_attrib cp user is_a_list acc =
     (if iequal user ''false'' then Inr (True, acc, [])
      else if \<not> iequal user ''true'' \<and> user \<noteq> []
      then (if is_a_list
        then map_sum id (\<lambda>(ok, acc1, raised).
               if ok then (True, acc1 @ get_def_client_attribs cp, raised) else (False, [], raised))
               (parse_attributes (single_separator_split user CHR '','') acc)
        else Inl Conn_attrib_wrong_type)
      else Inr (True, acc @ get_def_client_attribs cp, []))"

definition check_attribs_length ::
  "xdevapi_error + bool \<times> attribs \<times> nat list \<Rightarrow> xdevapi_error + bool \<times> attribs \<times> nat list" where
  "check_attribs_length r = map_sum id (\<lambda>(ok, acc, raised).
     if (\<Sum>(k, v)\<leftarrow>acc. length k + length v) > 1024 * 64
     then (False, acc, raised @ [10040]) else (ok, acc, raised)) r"

definition extract_connection_attributes ::
  "client_process \<Rightarrow> string \<Rightarrow> attribs \<Rightarrow> xdevapi_error + bool \<times> attribs \<times> nat list" where
  "extract_connection_attributes cp uri acc =
     (if uri = [] then Inr (False, acc, [])
      else case find_text ''connection-attributes'' uri of
        None \<Rightarrow> Inr (True, acc @ get_def_client_attribs cp, [])
      | Some p \<Rightarrow>
          (let pos = p + length ''connection-attributes'' in
           if char_at uri pos \<noteq> CHR ''='' then check_attribs_length (parse_conn_attrib cp [] False acc)
           else if char_at uri (pos + 1) = CHR ''[''
           then (case find_from CHR '']'' uri (pos + 1) of
              None \<Rightarrow> Inr (False, acc, [])
            | Some e \<Rightarrow> check_attribs_length (parse_conn_attrib cp (slice (pos + 2) e uri) True acc))
           else check_attribs_length (parse_conn_attrib cp
              (slice (pos + 1) (case find_from CHR '','' uri (pos + 1) of None \<Rightarrow> length uri | Some e \<Rightarrow> e) uri)
              False acc)))"

section \<open>DNS SRV\<close>

text \<open>
  The resolver answers a host name with priority, weight, port and host of each record; \<open>None\<close> in
  place of a record is one it could not parse.
\<close>

record srv_record =
  sr_priority :: nat
  sr_weight :: nat
  sr_port :: nat
  sr_host :: string

type_synonym resolver = "string \<Rightarrow> srv_record option list option"

text \<open>
  The records in a map from priorities to maps from weights to lists that grow at the front,
  flattened with the weights in reverse.
\<close>

definition srv_data_to_hostname_list :: "srv_record list \<Rightarrow> (string \<times> nat) list" where
  "srv_data_to_hostname_list rs =
     concat (map (\<lambda>p. let ps = filter (\<lambda>r. sr_priority r = p) rs in
       concat (map (\<lambda>w. map (\<lambda>r. (sr_host r, sr_port r)) (rev (filter (\<lambda>r. sr_weight r = w) ps)))
         (rev (sorted_list_of_set (sr_weight ` set ps)))))
       (sorted_list_of_set (sr_priority ` set rs)))"

definition query_srv_list :: "resolver \<Rightarrow> string \<Rightarrow> (string \<times> nat) list" where
  "query_srv_list dns host = (case dns host of
     None \<Rightarrow> []
   | Some rs \<Rightarrow> if None \<in> set rs then [] else srv_data_to_hostname_list (map the rs))"

text \<open>The port of a record takes the place that the priority has in the addresses of a list.\<close>

definition convert_srv_hostname_to_uri :: "(string \<times> nat) list \<Rightarrow> url \<Rightarrow> address list" where
  "convert_srv_hostname_to_uri hosts node = map (\<lambda>(host, port).
     (''mysqlx://'' @ url_user node @ '':'' @ url_pass node @ ''@'' @ host @
      (if url_query node \<noteq> [] then ''/?'' @ url_query node else []), int port)) hosts"

definition dns_srv_get_hostname_list ::
  "(string \<Rightarrow> url option) \<Rightarrow> resolver \<Rightarrow> string \<Rightarrow> xdevapi_error + address list" where
  "dns_srv_get_hostname_list php_url_parse dns uri = (case php_url_parse uri of
     None \<Rightarrow> Inl Provided_invalid_uri
   | Some raw \<Rightarrow>
       (let node = url_of_php raw; hosts = query_srv_list dns (url_host node) in
        Inr (if hosts \<noteq> [] then convert_srv_hostname_to_uri hosts node else [])))"

definition verify_dns_srv_uri :: "string \<Rightarrow> xdevapi_error option" where
  "verify_dns_srv_uri uri_string =
     (let off = length ''mysqlx+srv://'' in
      if length uri_string \<le> off then Some Provided_invalid_uri
      else let rest = drop off uri_string;
               uri = (case find_from CHR ''@'' rest 0 of None \<Rightarrow> rest | Some p \<Rightarrow> drop (p + 1) rest)
           in if CHR '':'' \<in> set uri then Some Port_nbr_not_allowed_with_srv_uri
              else if char_at uri 0 = CHR ''('' \<and> char_at uri 1 = CHR ''/'' \<or>
                      char_at uri 0 = CHR ''.'' \<or> char_at uri 0 = CHR ''/''
              then Some Unix_socket_not_allowed_with_srv
              else if contains_list_of_url uri_string \<noteq> 0 then Some Url_list_not_allowed
              else None)"

definition requested_srv_lookup :: "string \<Rightarrow> xdevapi_error + bool" where
  "requested_srv_lookup uri_string = (case find_text ''mysqlx+'' uri_string of
     None \<Rightarrow> Inr False
   | Some p \<Rightarrow>
       if take 3 (drop (p + length ''mysqlx+'') uri_string) \<noteq> ''srv'' then Inl Provided_invalid_uri
       else case verify_dns_srv_uri uri_string of Some e \<Rightarrow> Inl e | None \<Rightarrow> Inr True)"

section \<open>Connection strings\<close>

definition verify_uri_address :: "(string \<Rightarrow> url option) \<Rightarrow> string \<Rightarrow> xdevapi_error option" where
  "verify_uri_address php_url_parse addr =
     (if php_url_parse addr \<noteq> None then None
      else Some (Invalid_argument (''invalid uri '' @ quote addr @ ''.'')))"

definition verify_connection_string ::
  "(string \<Rightarrow> url option) \<Rightarrow> (address list \<Rightarrow> address list) \<Rightarrow> string \<Rightarrow> xdevapi_error option \<times> nat list" where
  "verify_connection_string php_url_parse sorter s = (case extract_uri_addresses sorter s of
     ([], raised) \<Rightarrow> (Some (Invalid_argument (''invalid connection string '' @ quote s @ ''.'')), raised)
   | (as, raised) \<Rightarrow>
       (case filter (\<lambda>e. e \<noteq> None) (map (\<lambda>a. verify_uri_address php_url_parse (fst a)) as) of
          [] \<Rightarrow> (None, raised) | e # _ \<Rightarrow> (e, raised)))"

end
