(* ===== verification/Auth.thy ===== *)
theory Auth
  imports Uris Session_State
begin

text \<open>
  Connecting and authenticating, after \<^verbatim>\<open>src/xmysqlnd/xmysqlnd_session.cc\<close>: the scramblers and
  plugins of the authentication mechanisms, the choice of mechanisms, the exchange with the server
  over the message layer, and the order of the steps of a connection.  The hash functions and the
  TLS handshake of PHP, the serialised form of the requests and opening the stream are parameters.
\<close>

unbundle bit_operations_syntax

section \<open>Scramblers\<close>

definition to_auth_mech_names :: "auth_mechanism list \<Rightarrow> string list" where
  "to_auth_mech_names ms = map auth_mechanism_to_str ms"

record auth_context =
  ax_username :: bytes
  ax_password :: bytes
  ax_default_schema :: bytes

text \<open>
  \<^verbatim>\<open>PHP_SHA256\<close> of a byte string, and \<^verbatim>\<open>php_mysqlnd_scramble\<close> of a salt of 20 bytes and a password.
\<close>

record hashes =
  hs_sha256 :: "bytes \<Rightarrow> bytes"
  hs_mysqlnd_scramble :: "bytes \<Rightarrow> bytes \<Rightarrow> bytes"

definition scramble_length :: nat where "scramble_length = 20"

definition sha1_max_length :: nat where "sha1_max_length = 20"

definition sha256_max_length :: nat where "sha256_max_length = 32"

definition crypt_data :: "bytes \<Rightarrow> bytes \<Rightarrow> nat \<Rightarrow> bytes" where
  "crypt_data lhs rhs n = map (\<lambda>i. lhs ! i XOR rhs ! i) [0..<n]"

definition hash_data :: "hashes \<Rightarrow> bytes \<Rightarrow> bytes \<Rightarrow> bytes" where
  "hash_data H salt password =
     (let sha0 = hs_sha256 H password;
          sha1 = hs_sha256 H (take sha256_max_length sha0);
          buffer = hs_sha256 H (take sha256_max_length sha1 @ take scramble_length salt)
      in crypt_data buffer sha0 sha256_max_length)"

text \<open>Both scramblers read 20 bytes of the salt, whatever its length.\<close>

definition scramble :: "hashes \<Rightarrow> auth_mechanism \<Rightarrow> auth_context \<Rightarrow> bytes \<Rightarrow> xdevapi_error + bytes" where
  "scramble H m ax salt =
     (if length salt < scramble_length then Inl Payload_overrun
      else case m of
        Mech_mysql41 \<Rightarrow> Inr (hs_mysqlnd_scramble H (take scramble_length salt) (ax_password ax))
      | _ \<Rightarrow> Inr (hash_data H salt (ax_password ax)))"

definition hash_length :: "auth_mechanism \<Rightarrow> nat" where
  "hash_length m = (if m = Mech_mysql41 then sha1_max_length else sha256_max_length)"

definition calc_hash ::
  "hashes \<Rightarrow> auth_mechanism \<Rightarrow> auth_context \<Rightarrow> bytes \<Rightarrow> xdevapi_error + bytes option" where
  "calc_hash H m ax salt =
     (if ax_password ax = [] then Inr None else map_sum id Some (scramble H m ax salt))"

definition hexconvtab :: bytes where
  "hexconvtab = [48, 49, 50, 51, 52, 53, 54, 55, 56, 57, 97, 98, 99, 100, 101, 102]"

definition hex_hash :: "bytes \<Rightarrow> bytes" where
  "hex_hash hash = concat (map (\<lambda>b. [hexconvtab ! unat (drop_bit 4 b), hexconvtab ! unat (b AND 15)]) hash)"

definition scrambler_run ::
  "hashes \<Rightarrow> auth_mechanism \<Rightarrow> auth_context \<Rightarrow> bytes \<Rightarrow> xdevapi_error + bytes" where
  "scrambler_run H m ax salt =
     (if salt = [] then Inr []
      else map_sum id (\<lambda>h. case h of None \<Rightarrow> [] | Some hash \<Rightarrow> hex_hash (take (hash_length m) hash))
             (calc_hash H m ax salt))"

section \<open>Plugins\<close>

text \<open>A plugin collects what it sends in \<open>pg_auth_data\<close>, which is never cleared.\<close>

record auth_plugin =
  pg_mechanism :: auth_mechanism
  pg_context :: auth_context
  pg_auth_data :: bytes

definition create_auth_plugin :: "auth_mechanism \<Rightarrow> auth_context \<Rightarrow> auth_plugin option" where
  "create_auth_plugin m ax =
     (if m = Mech_unspecified then None
      else Some \<lparr>pg_mechanism = m, pg_context = ax, pg_auth_data = []\<rparr>)"

definition get_mech_name :: "auth_plugin \<Rightarrow> string" where
  "get_mech_name p = auth_mechanism_to_str (pg_mechanism p)"

definition add_to_auth_data :: "bytes \<Rightarrow> auth_plugin \<Rightarrow> auth_plugin" where
  "add_to_auth_data d p = p\<lparr>pg_auth_data := pg_auth_data p @ d\<rparr>"

definition add_prefix_to_auth_data :: "auth_plugin \<Rightarrow> auth_plugin" where
  "add_prefix_to_auth_data p =
     add_to_auth_data [0] (add_to_auth_data (ax_username (pg_context p))
       (add_to_auth_data [0] (add_to_auth_data (ax_default_schema (pg_context p)) p)))"

definition add_scramble_to_auth_data ::
  "hashes \<Rightarrow> bytes \<Rightarrow> auth_plugin \<Rightarrow> xdevapi_error + auth_plugin" where
  "add_scramble_to_auth_data H salt p =
     map_sum id (\<lambda>d. add_to_auth_data d p) (scrambler_run H (pg_mechanism p) (pg_context p) salt)"

definition prepare_start_auth_data :: "auth_plugin \<Rightarrow> bytes \<times> auth_plugin" where
  "prepare_start_auth_data p =
     (if pg_mechanism p = Mech_plain
      then let p1 = add_to_auth_data (ax_password (pg_context p)) (add_prefix_to_auth_data p)
           in (pg_auth_data p1, p1)
      else ([], p))"

definition prepare_continue_auth_data ::
  "hashes \<Rightarrow> bytes \<Rightarrow> auth_plugin \<Rightarrow> (xdevapi_error + bytes) \<times> auth_plugin" where
  "prepare_continue_auth_data H salt p = (case pg_mechanism p of
     Mech_mysql41 \<Rightarrow>
       (let p1 = add_to_auth_data [42] (add_prefix_to_auth_data p) in
        case add_scramble_to_auth_data H salt p1 of
          Inl e \<Rightarrow> (Inl e, p1)
        | Inr p2 \<Rightarrow> let p3 = add_to_auth_data [0] p2 in (Inr (pg_auth_data p3), p3))
   | Mech_sha256_memory \<Rightarrow>
       (let p1 = add_prefix_to_auth_data p in
        case add_scramble_to_auth_data H salt p1 of
          Inl e \<Rightarrow> (Inl e, p1)
        | Inr p2 \<Rightarrow> (Inr (pg_auth_data p2), p2))
   | Mech_external \<Rightarrow> (Inr (pg_auth_data p), p)
   | _ \<Rightarrow> (Inr [], p))"

section \<open>The choice of mechanisms\<close>

definition is_auth_mechanism_supported :: "zvalue \<Rightarrow> auth_mechanism \<Rightarrow> bool" where
  "is_auth_mechanism_supported caps m =
     (let mechs = zfind caps ''authentication.mechanisms'' in
      is_array mechs \<and>
      list_ex (\<lambda>v. case v of String s \<Rightarrow> iequal s (auth_mechanism_to_str m) | _ \<Rightarrow> False) (zvalues mechs))"

definition is_tls_enabled :: "ssl_mode \<Rightarrow> bool" where
  "is_tls_enabled mode \<longleftrightarrow> mode \<noteq> Ssl_disabled"

definition gather_auth_mechanisms :: "auth_mechanism \<Rightarrow> ssl_mode \<Rightarrow> zvalue \<Rightarrow> auth_mechanism list" where
  "gather_auth_mechanisms user mode caps =
     (if user \<noteq> Mech_unspecified then [user]
      else if is_tls_enabled mode then [Mech_plain]
      else filter (is_auth_mechanism_supported caps) [Mech_mysql41, Mech_sha256_memory])"

section \<open>The session\<close>

text \<open>
  \<^verbatim>\<open>xmysqlnd_session_data\<close> as far as connecting goes: the data of the options, the state object,
  the error information (none for error number 0), the warnings and exceptions raised in PHP, and the
  plugin in use.
\<close>

record auth_session =
  au_session :: session
  au_auth :: "session_auth_data option"
  au_mechanisms :: "auth_mechanism list"
  au_capabilities :: zvalue
  au_attribs :: attribs
  au_transport :: transport_type
  au_socket_path :: string
  au_scheme :: string
  au_default_schema :: string
  au_host_info :: string
  au_client_id :: "64 word"
  au_error :: "(nat \<times> string \<times> string) option"
  au_raised :: "(nat \<times> string \<times> string) list"
  au_plugin :: "auth_plugin option"

definition raise_session_error :: "nat \<Rightarrow> string \<Rightarrow> string \<Rightarrow> auth_session \<Rightarrow> auth_session" where
  "raise_session_error ecode state msg a =
     a\<lparr>au_error := Some (ecode, state, msg), au_raised := au_raised a @ [(ecode, state, msg)]\<rparr>"

definition session_handler_on_error :: "nat \<Rightarrow> string \<Rightarrow> string \<Rightarrow> auth_session handling" where
  "session_handler_on_error ecode state msg a =
     (Inr HND_PASS_RETURN_FAIL, raise_session_error ecode state msg a)"

definition handler_on_auth_continue ::
  "hashes \<Rightarrow> bytes \<Rightarrow> auth_session \<Rightarrow> (xdevapi_error + hnd_status \<times> bytes) \<times> auth_session" where
  "handler_on_auth_continue H salt a = (case au_plugin a of
     None \<Rightarrow> (Inl Null_dereference, a)
   | Some p \<Rightarrow> (case prepare_continue_auth_data H salt p of
       (r, p') \<Rightarrow> (map_sum id (Pair HND_AGAIN) r, a\<lparr>au_plugin := Some p'\<rparr>)))"

definition set_client_id :: "64 word \<Rightarrow> auth_session \<Rightarrow> (xdevapi_error + func_status) \<times> auth_session" where
  "set_client_id i a = (Inr PASS, a\<lparr>au_client_id := i\<rparr>)"

definition on_muted_auth_warning :: "nat \<Rightarrow> nat \<Rightarrow> string \<Rightarrow> auth_session handling" where
  "on_muted_auth_warning level wcode msg a = (Inr HND_PASS_RETURN_FAIL, a)"

definition on_muted_auth_error :: "nat \<Rightarrow> string \<Rightarrow> string \<Rightarrow> auth_session handling" where
  "on_muted_auth_error ecode state msg a = (Inr HND_PASS_RETURN_FAIL, a)"

section \<open>Exchanges\<close>

text \<open>
  What a connection uses from outside: the stream, the compressors, floating point, protobuf, the
  hash functions, the serialised requests, the TLS handshake for the allowed versions (1.2, 1.3) and
  the options of the stream context, opening the stream with a time-out, the compressors of the
  build, whether PHP has TLS 1.3, the environment, and whether the server keeps sessions open.
\<close>

record ('v, 'z) auth_env =
  ae_io :: "'v vio"
  ae_lib :: "'z compressor"
  ae_floats :: floats
  ae_pb :: pb
  ae_hashes :: hashes
  ae_addr :: nat
  ae_capabilities_get :: bytes
  ae_capabilities_set :: "zvalue \<Rightarrow> bytes"
  ae_auth_start :: "string \<Rightarrow> bytes \<Rightarrow> bytes"
  ae_auth_continue :: "bytes \<Rightarrow> bytes"
  ae_crypto :: "bool \<times> bool \<Rightarrow> (string \<times> zvalue) list \<Rightarrow> 'v \<Rightarrow> bool \<times> 'v"
  ae_connect :: "string \<Rightarrow> int option \<Rightarrow> 'v \<Rightarrow> func_status \<times> (nat \<times> string \<times> string) option \<times> 'v"
  ae_avail :: "algorithm \<Rightarrow> bool"
  ae_tls13 :: bool
  ae_env :: "string \<Rightarrow> string option"
  ae_supported :: bool

type_synonym ('v, 'z) auth_state = "auth_session \<times> ('v, 'z) msg_ctx"

type_synonym ('a, 's) run = "((xdevapi_error + 'a) \<times> 's) option"

text \<open>Sending ends with the fuel that \<open>send_message\<close> gives it, at the packet size of the protocol.\<close>

definition auth_send ::
  "('v, 'z) auth_env \<Rightarrow> byte \<Rightarrow> bytes \<Rightarrow> ('v, 'z) msg_ctx \<Rightarrow> func_status \<times> ('v, 'z) msg_ctx" where
  "auth_send E ty payload ctx =
     (case send_message (ae_io E) (ae_lib E) (ae_pb E) max_packet_size (ae_addr E) ty payload ctx of
        None \<Rightarrow> (FAIL, ctx) | Some r \<Rightarrow> r)"

definition auth_binds :: "hashes \<Rightarrow> bool \<Rightarrow> auth_session binds" where
  "auth_binds H multiple = no_binds\<lparr>
     bd_auth_continue := Some (handler_on_auth_continue H),
     bd_warning := if multiple then Some on_muted_auth_warning else None,
     bd_error := Some (if multiple then on_muted_auth_error else session_handler_on_error),
     bd_client_id := Some set_client_id\<rparr>"

definition authenticate_with_plugin ::
  "nat \<Rightarrow> ('v, 'z) auth_env \<Rightarrow> bool \<Rightarrow> auth_plugin \<Rightarrow> ('v, 'z) auth_state \<Rightarrow>
   (bool, ('v, 'z) auth_state) run" where
  "authenticate_with_plugin n E multiple p s =
     (case prepare_start_auth_data p of (auth_data, p1) \<Rightarrow>
      case auth_send E 4 (ae_auth_start E (get_mech_name p1) auth_data) (snd s) of (sent, ctx) \<Rightarrow>
      let s1 = ((fst s)\<lparr>au_plugin := Some p1\<rparr>, ctx) in
      if sent \<noteq> PASS then Some (Inr False, s1)
      else map_option (\<lambda>(r, s2). (map_sum id (\<lambda>st. st = PASS) r, s2))
        (receive_message n (ae_io E) (ae_pb E)
           (auth_start_handlers (\<lambda>out. auth_send E 5 (ae_auth_continue E out)) (ae_floats E) (ae_pb E)
             (auth_binds (ae_hashes E) multiple)) s1))"

text \<open>The mechanisms are tried in turn until one is accepted.\<close>

fun try_mechanisms ::
  "(auth_mechanism \<Rightarrow> 's \<Rightarrow> (bool, 's) run) \<Rightarrow> auth_mechanism list \<Rightarrow> 's \<Rightarrow> (bool, 's) run" where
  "try_mechanisms one [] s = Some (Inr False, s)"
| "try_mechanisms one (m # ms) s = (case one m s of
     None \<Rightarrow> None
   | Some (Inl e, s1) \<Rightarrow> Some (Inl e, s1)
   | Some (Inr True, s1) \<Rightarrow> Some (Inr True, s1)
   | Some (Inr False, s1) \<Rightarrow> try_mechanisms one ms s1)"

definition multiple_mechanisms_error :: "auth_mechanism list \<Rightarrow> auth_session \<Rightarrow> auth_session" where
  "multiple_mechanisms_error ms = raise_session_error 10054 ''HY000''
     (''Authentication failed using '' @ join '', '' (to_auth_mech_names ms) @
      ''. Check username and password or try a secure connection'')"

definition authentication_loop ::
  "nat \<Rightarrow> ('v, 'z) auth_env \<Rightarrow> auth_context \<Rightarrow> auth_mechanism list \<Rightarrow> ('v, 'z) auth_state \<Rightarrow>
   (bool, ('v, 'z) auth_state) run" where
  "authentication_loop n E ax ms s =
     (let multiple = 1 < length ms in
      case try_mechanisms (\<lambda>m s. case create_auth_plugin m ax of
             None \<Rightarrow> Some (Inl Null_dereference, s)
           | Some p \<Rightarrow> authenticate_with_plugin n E multiple p s) ms s of
        Some (Inr False, s1) \<Rightarrow>
          Some (Inr False, if multiple then (multiple_mechanisms_error ms (fst s1), snd s1) else s1)
      | r \<Rightarrow> r)"

end
