(* ===== verification/Connect.thy ===== *)
theory Connect
  imports Auth
begin

text \<open>
  The steps of a connection, after \<^verbatim>\<open>Authenticate::run\<close>, \<^verbatim>\<open>xmysqlnd_session_data::connect_handshake\<close>
  and \<^verbatim>\<open>xmysqlnd_session_data::connect\<close> of \<^verbatim>\<open>src/xmysqlnd/xmysqlnd_session.cc\<close>.  The order of the steps
  is defined over any implementation of them (\<open>auth_ops\<close>); \<open>wire_ops\<close> is the one over the message
  layer.
\<close>

section \<open>The steps in order\<close>

definition and_then :: "('a, 's) run \<Rightarrow> ('a \<Rightarrow> 's \<Rightarrow> ('b, 's) run) \<Rightarrow> ('b, 's) run" where
  "and_then r k = (case r of
     None \<Rightarrow> None | Some (Inl e, s) \<Rightarrow> Some (Inl e, s) | Some (Inr x, s) \<Rightarrow> k x s)"

lemma and_then_simps [simp]:
  "and_then None k = None" "and_then (Some (Inl e, s)) k = Some (Inl e, s)"
  "and_then (Some (Inr x, s)) k = k x s"
  by (simp_all add: and_then_def)

record 's auth_ops =
  ao_capabilities :: "'s \<Rightarrow> (zvalue option, 's) run"
  ao_compression :: "zvalue \<Rightarrow> 's \<Rightarrow> (unit, 's) run"
  ao_crypto :: "'s \<Rightarrow> (func_status, 's) run"
  ao_no_tls :: "'s \<Rightarrow> 's"
  ao_state :: "session_state \<Rightarrow> 's \<Rightarrow> 's"
  ao_login :: "auth_mechanism list \<Rightarrow> 's \<Rightarrow> (bool, 's) run"
  ao_save :: "zvalue \<Rightarrow> 's \<Rightarrow> 's"
  ao_open :: "'s \<Rightarrow> (func_status, 's) run"
  ao_attributes :: "'s \<Rightarrow> (func_status, 's) run"

text \<open>Looking for a key in capabilities that are no array is undefined.\<close>

definition init_connection :: "'s auth_ops \<Rightarrow> ssl_mode \<Rightarrow> zvalue \<Rightarrow> 's \<Rightarrow> (bool, 's) run" where
  "init_connection ops mode caps s =
     (if \<not> is_array caps then Some (Inl Null_dereference, s)
      else if mode = Ssl_disabled then Some (Inr True, s)
      else if zcontains caps ''tls''
      then and_then (ao_crypto ops s) (\<lambda>st s1. Some (Inr (st = PASS), s1))
      else Some (Inr False, ao_no_tls ops s))"

text \<open>The outcome, with the capabilities the authentication has seen.\<close>

definition run_auth :: "'s auth_ops \<Rightarrow> ssl_mode \<Rightarrow> auth_mechanism \<Rightarrow> 's \<Rightarrow> (bool \<times> zvalue, 's) run" where
  "run_auth ops mode user s =
     and_then (ao_capabilities ops s) (\<lambda>c s1. case c of
       None \<Rightarrow> Some (Inr (False, Undefined), s1)
     | Some caps \<Rightarrow> and_then (ao_compression ops caps s1) (\<lambda>_ s2.
         and_then (init_connection ops mode caps s2) (\<lambda>ok s3.
           if \<not> ok then Some (Inr (False, caps), s3)
           else
             let s4 = ao_state ops SESSION_NON_AUTHENTICATED s3;
                 ms = gather_auth_mechanisms user mode caps
             in if ms = [] then Some (Inr (False, caps), s4)
                else and_then (ao_login ops ms s4) (\<lambda>r s5. Some (Inr (r, caps), s5)))))"

text \<open>A new authentication asks for no capabilities, and the session forgets those it had.\<close>

definition run_re_auth :: "'s auth_ops \<Rightarrow> auth_mechanism list \<Rightarrow> 's \<Rightarrow> (bool \<times> zvalue, 's) run" where
  "run_re_auth ops ms s = and_then (ao_login ops ms s) (\<lambda>r s1. Some (Inr (r, Undefined), s1))"

definition session_authenticate ::
  "'s auth_ops \<Rightarrow> ssl_mode \<Rightarrow> auth_mechanism \<Rightarrow> auth_mechanism list option \<Rightarrow> 's \<Rightarrow> (func_status, 's) run" where
  "session_authenticate ops mode user re_auth s =
     and_then (case re_auth of None \<Rightarrow> run_auth ops mode user s | Some ms \<Rightarrow> run_re_auth ops ms s)
       (\<lambda>(ok, caps) s1. Some (Inr (if ok then PASS else FAIL), ao_save ops caps s1))"

definition connect_handshake ::
  "'s auth_ops \<Rightarrow> ssl_mode \<Rightarrow> auth_mechanism \<Rightarrow> 's \<Rightarrow> (func_status, 's) run" where
  "connect_handshake ops mode user s =
     and_then (ao_open ops s) (\<lambda>st s1.
       if st \<noteq> PASS then Some (Inr FAIL, s1)
       else and_then (ao_attributes ops (ao_state ops SESSION_CONNECTING s1)) (\<lambda>st s2.
         if st \<noteq> PASS then Some (Inr st, s2) else session_authenticate ops mode user None s2))"

section \<open>The steps over the message layer\<close>

definition caps_get_read ::
  "nat \<Rightarrow> ('v, 'z) auth_env \<Rightarrow> ('v, 'z) auth_state \<Rightarrow> (func_status \<times> zvalue, ('v, 'z) auth_state) run" where
  "caps_get_read n E s =
     map_option (\<lambda>(r, ((a, z), ctx)). (map_sum id (\<lambda>st. (st, z)) r, (a, ctx)))
       (receive_message n (ae_io E) (ae_pb E)
          (capabilities_get_handlers (ae_floats E) (no_binds\<lparr>bd_error := Some session_handler_on_error\<rparr>))
          ((fst s, Undefined), snd s))"

definition init_capabilities ::
  "nat \<Rightarrow> ('v, 'z) auth_env \<Rightarrow> ('v, 'z) auth_state \<Rightarrow> (zvalue option, ('v, 'z) auth_state) run" where
  "init_capabilities n E s = (case auth_send E 1 (ae_capabilities_get E) (snd s) of (sent, ctx) \<Rightarrow>
     if sent \<noteq> PASS then Some (Inr None, (fst s, ctx))
     else and_then (caps_get_read n E (fst s, ctx)) (\<lambda>(st, caps) s1.
       Some (Inr (if st = PASS then Some caps else None), s1)))"

definition setup_compression ::
  "nat \<Rightarrow> ('v, 'z) auth_env \<Rightarrow> (algorithm \<Rightarrow> bool) \<Rightarrow> policy \<Rightarrow> string list option \<Rightarrow> zvalue \<Rightarrow>
   ('v, 'z) auth_state \<Rightarrow> (unit, ('v, 'z) auth_state) run" where
  "setup_compression n E avail pol algs caps s =
     (case setup_run avail pol algs
        (caps_set_exchange n (ae_io E) (ae_lib E) (ae_pb E) (ae_capabilities_set E) max_packet_size (ae_addr E))
        caps (snd s) of
        (Inl e, ctx) \<Rightarrow> Some (Inl e, (fst s, ctx))
      | (Inr cfg, ctx) \<Rightarrow> Some (Inr (), (fst s, ctx\<lparr>mc_executor := executor_reset (ae_lib E) cfg\<rparr>)))"

text \<open>Sending capabilities and reading the answer, for TLS and for the client attributes.\<close>

definition caps_set_get ::
  "nat \<Rightarrow> ('v, 'z) auth_env \<Rightarrow> zvalue \<Rightarrow> ('v, 'z) auth_state \<Rightarrow> (func_status, ('v, 'z) auth_state) run" where
  "caps_set_get n E caps s = (case auth_send E 2 (ae_capabilities_set E caps) (snd s) of (sent, ctx) \<Rightarrow>
     if sent \<noteq> PASS then Some (Inr FAIL, (fst s, ctx))
     else and_then (caps_get_read n E (fst s, ctx)) (\<lambda>(st, _) s1. Some (Inr st, s1)))"

text \<open>
  TLS.  The options of the stream context, and the versions put into one set of methods, so that
  there is one attempt; \<open>ae_crypto\<close> does the handshake.  10068 and 10069 are
  \<^verbatim>\<open>cannot_connect_by_ssl\<close> and \<^verbatim>\<open>cannot_setup_tls\<close>, whose texts are left empty.
\<close>

definition crypto_options :: "session_auth_data \<Rightarrow> (string \<times> zvalue) list" where
  "crypto_options auth =
     (let str = (\<lambda>name v. if v \<noteq> [] then [(name, String v)] else []);
          mode = sa_ssl_mode auth
      in str ''local_pk'' (sa_ssl_local_pk auth) @ str ''local_cert'' (sa_ssl_local_cert auth) @
         str ''cafile'' (sa_ssl_cafile auth) @ str ''capath'' (sa_ssl_capath auth) @
         (if sa_ssl_ciphers auth \<noteq> [] then [(''ciphers'', String (join '':'' (sa_ssl_ciphers auth)))] else []) @
         [(''verify_peer'', Bool (mode = Ssl_verify_ca \<or> mode = Ssl_verify_identity)),
          (''verify_peer_name'', Bool (mode = Ssl_verify_identity)),
          (''allow_self_signed'', Bool (sa_ssl_allow_self_signed_cert auth))])"

definition to_stream_crypt_method :: "bool \<Rightarrow> tls_version \<Rightarrow> (bool \<times> bool) option" where
  "to_stream_crypt_method tls13 v = (case v of
     Tls_unspecified \<Rightarrow> Some (True, tls13)
   | Tls_v1_2 \<Rightarrow> Some (True, False)
   | Tls_v1_3 \<Rightarrow> if tls13 then Some (False, True) else None)"

fun prepare_crypt_methods :: "bool \<Rightarrow> tls_version list \<Rightarrow> (bool \<times> bool) option" where
  "prepare_crypt_methods tls13 [] = Some (False, False)"
| "prepare_crypt_methods tls13 (v # vs) =
     (case (to_stream_crypt_method tls13 v, prepare_crypt_methods tls13 vs) of
        (Some (a, b), Some (c, d)) \<Rightarrow> Some (a \<or> c, b \<or> d)
      | _ \<Rightarrow> None)"

definition set_error_info :: "nat \<Rightarrow> auth_session \<Rightarrow> auth_session" where
  "set_error_info ecode a = a\<lparr>au_error := Some (ecode, ''HY000'', [])\<rparr>"

definition try_setup_crypto_connection ::
  "nat \<Rightarrow> ('v, 'z) auth_env \<Rightarrow> session_auth_data \<Rightarrow> bool \<times> bool \<Rightarrow> ('v, 'z) auth_state \<Rightarrow>
   (func_status, ('v, 'z) auth_state) run" where
  "try_setup_crypto_connection n E auth methods s =
     (case auth_send E 2 (ae_capabilities_set E (Array [(Key_name ''tls'', Bool True)])) (snd s) of (sent, ctx) \<Rightarrow>
      if sent \<noteq> PASS then Some (Inr FAIL, (fst s, ctx))
      else and_then (caps_get_read n E (fst s, ctx)) (\<lambda>(st, _) s1.
        if st = PASS
        then (case ae_crypto E methods (crypto_options auth) (mc_vio (snd s1)) of (ok, v) \<Rightarrow>
          let ctx1 = (snd s1)\<lparr>mc_vio := v\<rparr> in
          if ok then Some (Inr PASS, (fst s1, ctx1))
          else Some (Inr FAIL, (set_error_info 10068 (fst s1), ctx1)))
        else Some (Inr st, (set_error_info 10069 (fst s1), snd s1))))"

definition setup_crypto_connection ::
  "nat \<Rightarrow> ('v, 'z) auth_env \<Rightarrow> session_auth_data \<Rightarrow> ('v, 'z) auth_state \<Rightarrow>
   (func_status, ('v, 'z) auth_state) run" where
  "setup_crypto_connection n E auth s =
     (let vs = (if sa_tls_versions auth = [] then [Tls_unspecified] else sa_tls_versions auth) in
      case prepare_crypt_methods (ae_tls13 E) vs of
        None \<Rightarrow> Some (Inl Map_at_failure, s)
      | Some methods \<Rightarrow> try_setup_crypto_connection n E auth methods s)"

definition prepare_client_attr_object :: "(string \<times> string) list \<Rightarrow> any" where
  "prepare_client_attr_object attribs = Any_object (map (\<lambda>(k, v). (k, Any_scalar (V_STRING v))) attribs)"

definition send_client_attributes ::
  "nat \<Rightarrow> ('v, 'z) auth_env \<Rightarrow> (string \<times> string) list \<Rightarrow> ('v, 'z) auth_state \<Rightarrow>
   (func_status, ('v, 'z) auth_state) run" where
  "send_client_attributes n E attribs s =
     (if attribs = [] then Some (Inr PASS, s)
      else caps_set_get n E (Array [(Key_name ''session_connect_attrs'',
        any2zval (fl_widen (ae_floats E)) (prepare_client_attr_object attribs))]) s)"

definition no_tls_warning :: "auth_session \<Rightarrow> auth_session" where
  "no_tls_warning a = a\<lparr>au_raised := au_raised a @
     [(0, [], ''Cannot connect to MySQL by using SSL, unsupported by the server'')]\<rparr>"

section \<open>Opening the stream\<close>

definition set_connection_timeout ::
  "(string \<Rightarrow> string option) \<Rightarrow> int option \<Rightarrow> xdevapi_error + int option" where
  "set_connection_timeout env timeout =
     ebind (case timeout of Some t \<Rightarrow> Inr t | None \<Rightarrow> get_as_int env Mysqlx_connection_timeout)
       (\<lambda>t. if t = 0 then Inr None else if t < 0 then Inl Invalid_timeout else Inr (Some t))"

definition open_stream ::
  "('v, 'z) auth_env \<Rightarrow> session_auth_data \<Rightarrow> ('v, 'z) auth_state \<Rightarrow> (func_status, ('v, 'z) auth_state) run" where
  "open_stream E auth s = (case set_connection_timeout (ae_env E) (sa_connection_timeout auth) of
     Inl e \<Rightarrow> Some (Inl e, s)
   | Inr timeout \<Rightarrow>
       (case ae_connect E (au_scheme (fst s)) timeout (mc_vio (snd s)) of (st, err, v) \<Rightarrow>
          Some (Inr st,
            (if err = None then fst s else (fst s)\<lparr>au_error := err\<rparr>, (snd s)\<lparr>mc_vio := v\<rparr>))))"

text \<open>The bytes of the strings that go into the authentication data.\<close>

definition bytes_of :: "string \<Rightarrow> bytes" where
  "bytes_of s = map (\<lambda>c. word_of_nat (code c)) s"

definition wire_ops :: "nat \<Rightarrow> ('v, 'z) auth_env \<Rightarrow> session_auth_data \<Rightarrow> string \<Rightarrow> attribs \<Rightarrow>
    ('v, 'z) auth_state auth_ops" where
  "wire_ops n E auth schema attribs = \<lparr>
     ao_capabilities = init_capabilities n E,
     ao_compression = setup_compression n E (ae_avail E) (sa_compression_policy auth)
       (sa_compression_algorithms auth),
     ao_crypto = setup_crypto_connection n E auth,
     ao_no_tls = map_prod no_tls_warning id,
     ao_state = (\<lambda>st. map_prod (\<lambda>a. a\<lparr>au_session := state_set st (au_session a)\<rparr>) id),
     ao_login = (\<lambda>ms s. authentication_loop n E
       \<lparr>ax_username = bytes_of (sa_username auth), ax_password = bytes_of (sa_password auth),
        ax_default_schema = bytes_of schema\<rparr> ms ((fst s)\<lparr>au_mechanisms := ms\<rparr>, snd s)),
     ao_save = (\<lambda>caps. map_prod (\<lambda>a. a\<lparr>au_capabilities := caps\<rparr>) id),
     ao_open = open_stream E auth,
     ao_attributes = send_client_attributes n E attribs\<rparr>"

section \<open>Connecting a session\<close>

text \<open>
  The scheme of the stream.  Pipes exist only on Windows; for them and for no transport an exception
  is raised in PHP and the scheme stays empty.  Exceptions raised in PHP are kept by their codes,
  without their texts.
\<close>

definition raise_exceptions :: "nat list \<Rightarrow> auth_session \<Rightarrow> auth_session" where
  "raise_exceptions cs a = a\<lparr>au_raised := au_raised a @ map (\<lambda>c. (c, ''HY000'', [])) cs\<rparr>"

definition get_scheme ::
  "(string \<Rightarrow> string option) \<Rightarrow> string \<Rightarrow> nat \<Rightarrow> auth_session \<Rightarrow> xdevapi_error + string \<times> auth_session" where
  "get_scheme env hostname port a = (case au_transport a of
     Network \<Rightarrow>
       ebind (if port = 0 then map_sum id (\<lambda>p. nat (p mod 2 ^ 32)) (get_as_int env Mysql_port) else Inr port)
         (\<lambda>p. Inr (''tcp://'' @ hostname @ '':'' @ dec_string p, a))
   | Unix_domain_socket \<Rightarrow> Inr (''unix://'' @ au_socket_path a, a)
   | _ \<Rightarrow> Inr ([], raise_exceptions [10027] a))"

text \<open>\<open>cleanup\<close> frees what a connection uses, the data of the options included.\<close>

definition session_cleanup :: "('v, 'z) auth_state \<Rightarrow> ('v, 'z) auth_state" where
  "session_cleanup s =
     ((fst s)\<lparr>au_auth := None, au_session := (au_session (fst s))\<lparr>sn_callback := None\<rparr>,
        au_default_schema := [], au_scheme := [], au_host_info := []\<rparr>,
      (snd s)\<lparr>mc_executor := None\<rparr>)"

text \<open>2008 and 2002 are \<^verbatim>\<open>CR_OUT_OF_MEMORY\<close> and \<^verbatim>\<open>CR_CONNECTION_ERROR\<close> of PHP's mysqlnd.\<close>

definition default_error :: "nat \<times> string \<times> string \<Rightarrow> auth_session \<Rightarrow> auth_session" where
  "default_error e a = (if au_error a = None then a\<lparr>au_error := Some e\<rparr> else a)"

definition host_info :: "session_auth_data \<Rightarrow> auth_session \<Rightarrow> string" where
  "host_info auth a = (case au_transport a of
     Network \<Rightarrow> sa_hostname auth @ '' via TCP/IP''
   | Unix_domain_socket \<Rightarrow> ''Localhost via UNIX socket''
   | Windows_pipe \<Rightarrow> au_socket_path a @ '' via named pipe''
   | No_transport \<Rightarrow> au_host_info a)"

definition connect_prepare :: "('v, 'z) auth_env \<Rightarrow> ('v, 'z) auth_state \<Rightarrow> ('v, 'z) auth_state" where
  "connect_prepare E s =
     (let a = (fst s)\<lparr>au_error := None\<rparr>; sn = au_session a in
      if sn_state sn = SESSION_ALLOCATED then (a, snd s)
      else session_cleanup
        (if sn_state sn \<in> {SESSION_CLOSE_SENT, SESSION_CLOSED} then (a, snd s)
         else (a\<lparr>au_session := snd (send_close (ae_supported E) Implicit sn)\<rparr>, snd s)))"

definition connect_failed :: "('v, 'z) auth_state \<Rightarrow> ('v, 'z) auth_state" where
  "connect_failed s =
     session_cleanup (if au_error (fst s) = None
       then (raise_session_error 2002 ''HY000'' ''Unknown error'' (fst s), snd s) else s)"

definition connect_done :: "session_auth_data \<Rightarrow> ('v, 'z) auth_state \<Rightarrow> func_status \<times> ('v, 'z) auth_state" where
  "connect_done auth s =
     (let a = (fst s)\<lparr>au_session := state_set SESSION_READY (au_session (fst s)),
            au_host_info := host_info auth (fst s)\<rparr>
      in if au_host_info a = [] then (FAIL, connect_failed (a\<lparr>au_error := Some (2008, ''HY000'', ''Out of memory'')\<rparr>, snd s))
         else (PASS, (a\<lparr>au_error := None\<rparr>, snd s)))"

text \<open>
  \<open>connect\<close>: a session that was used before is closed and cleaned up first.  The cleanup takes away
  the data of the options, and the host is read from it next.
\<close>

definition connect ::
  "nat \<Rightarrow> ('v, 'z) auth_env \<Rightarrow> string \<Rightarrow> nat \<Rightarrow> ('v, 'z) auth_state \<Rightarrow> (func_status, ('v, 'z) auth_state) run" where
  "connect n E schema port s =
     (let s1 = connect_prepare E s; a1 = (fst s1)\<lparr>au_default_schema := schema\<rparr> in
      case au_auth a1 of
        None \<Rightarrow> Some (Inl Null_dereference, (a1, snd s1))
      | Some auth \<Rightarrow>
          (case get_scheme (ae_env E) (sa_hostname auth) port a1 of
             Inl e \<Rightarrow> Some (Inl e, (a1, snd s1))
           | Inr (scheme, a2) \<Rightarrow>
               if scheme = [] then Some (Inr FAIL, connect_failed (a2, snd s1))
               else and_then
                 (connect_handshake (wire_ops n E auth schema (au_attribs a2)) (sa_ssl_mode auth)
                    (sa_auth_mechanism auth) (a2\<lparr>au_scheme := scheme\<rparr>, snd s1))
                 (\<lambda>st s3.
                   if st = PASS then (case connect_done auth s3 of (r, s4) \<Rightarrow> Some (Inr r, s4))
                   else Some (Inr st,
                     connect_failed (default_error (2008, ''HY000'', ''Out of memory'') (fst s3), snd s3)))))"

section \<open>Quoting\<close>

definition quote_name :: "string \<Rightarrow> string" where
  "quote_name name =
     (if name = [] then []
      else CHR 0x60 # concat (map (\<lambda>c. if c = CHR 0x60 then [CHR 0x60, CHR 0x60] else [c]) name) @ [CHR 0x60])"

end
