(* ===== verification/Options_Props.thy ===== *)
theory Options_Props
  imports Connect
begin

text \<open>
  What the options of a URI lead to: the TLS mode, the form of the data a connection gets, the
  ciphers, and the quoting of identifiers.
\<close>

section \<open>Options\<close>

lemma iequal_equiv: "iequal a a" "iequal a b \<Longrightarrow> iequal b a" "iequal a b \<Longrightarrow> iequal b c \<Longrightarrow> iequal a c"
  by (simp_all add: iequal_def)

lemma iequal_length: "iequal a b \<Longrightarrow> length a = length b"
  unfolding iequal_def by (metis length_map)

lemma ifind_SomeD: "ifind tab key = Some v \<Longrightarrow> \<exists>k. (k, v) \<in> set tab \<and> iequal k key"
  by (auto simp: ifind_def find_Some_iff) (metis nth_mem)

lemma ifind_ssl_mode:
  assumes "ifind option_to_info name = Some info"
  shows "coi_setter info = Opt_ssl_mode \<longleftrightarrow> iequal name ''ssl-mode''"
proof
  assume "coi_setter info = Opt_ssl_mode"
  then show "iequal name ''ssl-mode''"
    using ifind_SomeD[OF assms] by (auto simp: option_to_info_def coi_def dest: iequal_equiv(2))
next
  assume "iequal name ''ssl-mode''"
  then have "iequal ''ssl-mode'' name" by (rule iequal_equiv(2))
  then have "ifind option_to_info name = Some (coi True False Opt_ssl_mode)"
    by (simp add: ifind_def option_to_info_def)
  then show "coi_setter info = Opt_ssl_mode" using assms by (simp add: coi_def)
qed

definition ssl_modes :: "string list \<Rightarrow> string list" where
  "ssl_modes opts = map value_of (filter (\<lambda>opt. iequal (variable_of opt) ''ssl-mode'') opts)"

lemma assign_ssl_mode [simp]: "assign_ssl_mode m a = a\<lparr>sa_ssl_mode := m\<rparr>"
  by (simp add: assign_ssl_mode_def)

lemma ensure_mode:
  "sa_ssl_mode (ensure_ssl_mode a) =
     (if sa_ssl_mode a = Ssl_not_specified then Ssl_any_secure else sa_ssl_mode a)"
  by (simp add: ensure_ssl_mode_def)

lemmas setter_defs = apply_setter_def set_ssl_mode_def set_auth_mechanism_def assign_auth_mechanism_def
  set_tls_versions_def set_connect_timeout_def set_compression_def set_compression_algorithms_def Let_def

lemma setter_keeps_mode:
  assumes "apply_setter tls13 name opt v a = Inr (a1, ws)" "opt \<noteq> Opt_ssl_mode"
  shows "sa_ssl_mode a1 = sa_ssl_mode a"
  using assms by (cases opt) (auto simp: setter_defs split: if_splits prod.splits)

lemma option_cases:
  assumes "extract_client_option tls13 name v a = Inr (a1, ws)"
  obtains info b where "ifind option_to_info name = Some info"
    "apply_setter tls13 name (coi_setter info) v a = Inr (b, ws)"
    "a1 = (if coi_is_secure info then ensure_ssl_mode b else b)"
  using assms by (auto simp: extract_client_option_def map_sum_def split: option.splits if_splits sum.splits)

lemma options_Cons:
  assumes "extract_options tls13 (opt # opts) (a, w) = Inr (Some r)"
  shows "iequal (variable_of opt) ''connection-attributes'' \<and> extract_options tls13 opts (a, w) = Inr (Some r) \<or>
    (\<exists>b ws. extract_client_option tls13 (variable_of opt) (value_of opt) a = Inr (b, ws) \<and>
      extract_options tls13 opts (b, w @ ws) = Inr (Some r))"
  using assms by (auto split: if_splits sum.splits)

lemma option_mode:
  assumes "extract_client_option tls13 name v a = Inr (a1, ws)"
  shows "if iequal name ''ssl-mode'' then parse_ssl_mode v = Inr (sa_ssl_mode a1)
    else sa_ssl_mode a1 = sa_ssl_mode a \<or> sa_ssl_mode a = Ssl_not_specified \<and> sa_ssl_mode a1 = Ssl_any_secure"
proof -
  obtain info b where info: "ifind option_to_info name = Some info"
    and b: "apply_setter tls13 name (coi_setter info) v a = Inr (b, ws)"
    and a1: "a1 = (if coi_is_secure info then ensure_ssl_mode b else b)"
    using assms by (rule option_cases)
  show ?thesis
  proof (cases "coi_setter info = Opt_ssl_mode")
    case True
    then have "\<not> coi_is_secure info" using ifind_SomeD[OF info] by (auto simp: option_to_info_def coi_def)
    then show ?thesis using True ifind_ssl_mode[OF info] b a1 by (auto simp: setter_defs)
  next
    case False
    then show ?thesis
      using ifind_ssl_mode[OF info] setter_keeps_mode[OF b] a1 by (auto simp: ensure_mode)
  qed
qed

lemma parsed_mode: "parse_ssl_mode v = Inr m \<Longrightarrow> m \<in> {Ssl_disabled, Ssl_required, Ssl_verify_ca, Ssl_verify_identity}"
  by (auto simp: parse_ssl_mode_def split: option.splits dest!: ifind_SomeD)

lemma options_mode:
  assumes "extract_options tls13 opts (a, w) = Inr (Some (a1, w1))"
  shows "if ssl_modes opts = []
    then sa_ssl_mode a1 = sa_ssl_mode a \<or> sa_ssl_mode a = Ssl_not_specified \<and> sa_ssl_mode a1 = Ssl_any_secure
    else parse_ssl_mode (last (ssl_modes opts)) = Inr (sa_ssl_mode a1)"
  using assms
proof (induction opts arbitrary: a w)
  case Nil
  then show ?case by (simp add: ssl_modes_def)
next
  case (Cons opt opts)
  show ?case
  proof (cases "iequal (variable_of opt) ''connection-attributes''")
    case True
    have "\<not> iequal (variable_of opt) ''ssl-mode''"
      using iequal_length[OF True] iequal_length[of "variable_of opt" "''ssl-mode''"] by auto
    then show ?thesis using Cons True by (auto simp: ssl_modes_def split: if_splits)
  next
    case False
    then obtain b ws where b: "extract_client_option tls13 (variable_of opt) (value_of opt) a = Inr (b, ws)"
      and rest: "extract_options tls13 opts (b, w @ ws) = Inr (Some (a1, w1))"
      using Cons(2) by (auto split: if_splits sum.splits)
    have modes: "ssl_modes (opt # opts) =
        (if iequal (variable_of opt) ''ssl-mode'' then value_of opt # ssl_modes opts else ssl_modes opts)"
      by (simp add: ssl_modes_def)
    show ?thesis
      using Cons(1)[OF rest] option_mode[OF b] parsed_mode[of "value_of opt" "sa_ssl_mode b"]
      by (auto simp: modes split: if_splits)
  qed
qed

lemma ciphers_keep:
  "prepare_ciphers tls13 a = Inr a1 \<Longrightarrow> sa_ssl_mode a1 = sa_ssl_mode a \<and> sa_tls_versions a1 = sa_tls_versions a \<and>
     sa_connection_timeout a1 = sa_connection_timeout a \<and>
     sa_compression_algorithms a1 = sa_compression_algorithms a"
  by (auto simp: prepare_ciphers_def filter_ciphers_def process_ciphersuites_def process_ciphers_def
      map_ciphersuites_to_ciphers_def Let_def split: if_splits)

lemma mode_of_uri:
  assumes "extract_auth_information tls13 u = Inr (Some (auth, ws))"
    and "modes = ssl_modes (single_separator_split (url_query u) CHR ''&'')"
  shows "if modes = [] then sa_ssl_mode auth = Ssl_required else parse_ssl_mode (last modes) = Inr (sa_ssl_mode auth)"
proof -
  obtain a w b where a: "extract_options tls13 (single_separator_split (url_query u) CHR ''&'') (new_auth_data, []) = Inr (Some (a, w))"
    and b: "prepare_ciphers tls13 b = Inr auth" "sa_ssl_mode b = sa_ssl_mode (default_ssl_mode a)"
    using assms(1) by (auto simp: extract_auth_information_def Let_def split: option.splits)
  show ?thesis
    using options_mode[OF a] ciphers_keep[OF b(1)] b(2) parsed_mode[of "last modes" "sa_ssl_mode a"]
    by (auto simp: assms(2) default_ssl_mode_def new_auth_data_def split: if_splits)
qed


text \<open>
  C13: the TLS mode of a connection is what the last \<^verbatim>\<open>ssl-mode\<close> option of the URI says, and
  \<open>Ssl_required\<close> when there is none: no other option, and no order of options, turns encryption off.
\<close>

theorem ssl_mode_of_uri:
  assumes "extract_auth_information tls13 u = Inr (Some (auth, ws))"
    and "modes = ssl_modes (single_separator_split (url_query u) CHR ''&'')"
  shows "if modes = [] then sa_ssl_mode auth = Ssl_required else parse_ssl_mode (last modes) = Inr (sa_ssl_mode auth)"
  by (rule mode_of_uri[OF assms])

definition plain_url :: url where
  "plain_url = empty_url\<lparr>url_user := ''u'', url_host := ''h'', url_port := 33060,
     url_query := ''auth=PLAIN&ssl-mode=disabled''\<rparr>"

definition plain_auth :: session_auth_data where
  "plain_auth = new_auth_data\<lparr>sa_hostname := ''h'', sa_port := 33060, sa_username := ''u'',
     sa_ssl_mode := Ssl_disabled, sa_auth_mechanism := Mech_plain\<rparr>"

lemma plain_auth_extracted: "extract_auth_information tls13 plain_url = Inr (Some (plain_auth, []))"
proof -
  have q: "single_separator_split (url_query plain_url) CHR ''&'' = [''auth=PLAIN'', ''ssl-mode=disabled'']"
    by code_simp
  have v: "variable_of ''auth=PLAIN'' = ''auth''" "value_of ''auth=PLAIN'' = ''PLAIN''"
    "variable_of ''ssl-mode=disabled'' = ''ssl-mode''" "value_of ''ssl-mode=disabled'' = ''disabled''"
    "\<not> iequal ''auth'' ''connection-attributes''" "\<not> iequal ''ssl-mode'' ''connection-attributes''"
    "ifind option_to_info ''auth'' = Some (coi True False Opt_auth)"
    "ifind option_to_info ''ssl-mode'' = Some (coi True False Opt_ssl_mode)"
    "parse_auth_mechanism ''PLAIN'' = Inr Mech_plain" "parse_ssl_mode ''disabled'' = Inr Ssl_disabled"
    by code_simp+
  have o1: "extract_client_option tls13 ''auth'' ''PLAIN'' a =
      map_sum id (\<lambda>(a, w). (a, w)) (assign_auth_mechanism Mech_plain a)" for a
    by (simp add: extract_client_option_def v coi_def apply_setter_def set_auth_mechanism_def)
  have o2: "extract_client_option tls13 ''ssl-mode'' ''disabled'' a = Inr (a\<lparr>sa_ssl_mode := Ssl_disabled\<rparr>, [])" for a
    by (simp add: extract_client_option_def v coi_def apply_setter_def set_ssl_mode_def)
  show ?thesis
    unfolding extract_auth_information_def q
    by (simp add: v o1 o2 assign_auth_mechanism_def new_auth_data_def default_ssl_mode_def prepare_ciphers_def
        plain_auth_def plain_url_def empty_url_def)
qed

theorem ssl_mode_of_uri_witness:
  "if ssl_modes (single_separator_split (url_query plain_url) CHR ''&'') = [] then sa_ssl_mode plain_auth = Ssl_required
   else parse_ssl_mode (last (ssl_modes (single_separator_split (url_query plain_url) CHR ''&''))) =
     Inr (sa_ssl_mode plain_auth)"
  by (rule ssl_mode_of_uri[OF plain_auth_extracted[of True] refl])

definition versions_ok :: "bool \<Rightarrow> tls_version list \<Rightarrow> bool" where
  "versions_ok tls13 vs \<longleftrightarrow> Tls_unspecified \<notin> set vs \<and> (Tls_v1_3 \<in> set vs \<longrightarrow> tls13)"

definition options_ok :: "bool \<Rightarrow> session_auth_data \<Rightarrow> bool" where
  "options_ok tls13 a \<longleftrightarrow> versions_ok tls13 (sa_tls_versions a) \<and>
     (case sa_connection_timeout a of None \<Rightarrow> True | Some t \<Rightarrow> 0 \<le> t \<and> t < 2 ^ 31) \<and>
     (case sa_compression_algorithms a of None \<Rightarrow> True
      | Some as \<Rightarrow> list_all (list_all (\<lambda>c. c_isalnum c \<or> c = CHR ''_'')) as)"

definition ciphers_ok :: "session_auth_data \<Rightarrow> bool" where
  "ciphers_ok a \<longleftrightarrow> set (sa_ssl_ciphers a) \<subseteq> set allowed_ciphers \<and>
     set (sa_tls_ciphersuites a) \<subseteq> set allowed_ciphersuites \<and>
     (sa_tls_versions a = [] \<or> Tls_v1_2 \<in> set (sa_tls_versions a) \<longrightarrow> sa_ssl_ciphers a \<noteq> [])"

lemma collect_versions_ok:
  "collect_tls_versions tls13 names b vs = Inr (b', vs') \<Longrightarrow> versions_ok tls13 vs \<Longrightarrow> versions_ok tls13 vs'"
proof (induction names arbitrary: b vs)
  case (Cons name names)
  then obtain v where v: "ifind (name_to_protocols tls13) name = Some v" by (auto split: option.splits)
  have "v = Tls_v1_3 \<longrightarrow> tls13"
    using ifind_SomeD[OF v] by (auto simp: name_to_protocols_def split: if_splits)
  then have ok: "versions_ok tls13 (if v = Tls_unspecified then vs else vs @ [v])"
    using Cons(3) by (auto simp: versions_ok_def)
  then show ?case using Cons(2) v Cons.IH[of _ vs] Cons.IH[of _ "vs @ [v]"] by (auto split: if_splits)
qed simp

lemma verified_names:
  "verify_compression_algorithms as = Inr () \<Longrightarrow> list_all (list_all (\<lambda>c. c_isalnum c \<or> c = CHR ''_'')) as"
  by (induction as) (auto simp: verify_compression_algorithm_def split: if_splits)

lemma stoi_range: "stoi s = Some t \<Longrightarrow> t < 2 ^ 31"
  by (auto simp: stoi_def Let_def split: prod.splits if_splits)

lemma setter_ok:
  assumes "apply_setter tls13 name opt v a = Inr (a1, ws)" "options_ok tls13 a"
  shows "options_ok tls13 a1"
proof (cases opt)
  case Opt_tls_versions
  then obtain b vs where "collect_tls_versions tls13 (parse_single_or_array v) False (sa_tls_versions a) = Inr (b, vs)"
    and "a1 = a\<lparr>sa_tls_versions := vs\<rparr>"
    using assms(1) by (auto simp: setter_defs split: if_splits)
  then show ?thesis using collect_versions_ok assms(2) by (simp add: options_ok_def)
next
  case Opt_connect_timeout
  then obtain t where "stoi v = Some t" "0 \<le> t" "a1 = a\<lparr>sa_connection_timeout := Some t\<rparr>"
    using assms(1) by (auto simp: setter_defs parse_int_def split: if_splits option.splits)
  then show ?thesis using stoi_range assms(2) by (simp add: options_ok_def)
next
  case Opt_compression_algorithms
  then obtain as where "verify_compression_algorithms as = Inr ()"
    and "a1 = a\<lparr>sa_compression_algorithms := Some as\<rparr>"
    using assms(1) by (auto simp: setter_defs)
  then show ?thesis using verified_names assms(2) by (simp add: options_ok_def)
qed (use assms in \<open>auto simp: setter_defs options_ok_def split: if_splits\<close>)

lemma options_ok_ensure [simp]: "options_ok tls13 (ensure_ssl_mode a) = options_ok tls13 a"
  by (simp add: options_ok_def ensure_ssl_mode_def)

lemma option_ok:
  assumes "extract_client_option tls13 name v a = Inr (a1, ws)" "options_ok tls13 a"
  shows "options_ok tls13 a1"
  using assms(1) by (rule option_cases) (use setter_ok assms(2) in auto)

lemma options_all_ok:
  "extract_options tls13 opts (a, w) = Inr (Some (a1, w1)) \<Longrightarrow> options_ok tls13 a \<Longrightarrow> options_ok tls13 a1"
proof (induction opts arbitrary: a w)
  case (Cons opt opts)
  show ?case using options_Cons[OF Cons(2)] Cons.IH option_ok Cons(3) by metis
qed simp

lemma allowed_nonempty: "allowed_ciphers \<noteq> []"
  by (simp add: allowed_ciphers_def)

lemma processed_suites:
  "process_ciphersuites tls13 a = Inr b \<Longrightarrow> set (sa_tls_ciphersuites b) \<subseteq> set allowed_ciphersuites"
  by (auto simp: process_ciphersuites_def Let_def split: if_splits)

lemma processed_ciphers:
  assumes "process_ciphers a = Inr b"
  shows "set (sa_ssl_ciphers b) \<subseteq> set allowed_ciphers \<and> sa_tls_ciphersuites b = sa_tls_ciphersuites a \<and>
    sa_tls_versions b = sa_tls_versions a \<and> (need_default_ciphers (sa_tls_versions a) \<longrightarrow> sa_ssl_ciphers b \<noteq> [])"
  using assms allowed_nonempty by (auto simp: process_ciphers_def Let_def split: if_splits)

lemma prepared_ciphers:
  assumes "prepare_ciphers tls13 a = Inr a1" "sa_ssl_mode a \<noteq> Ssl_disabled"
  shows "ciphers_ok a1"
proof -
  obtain b where "process_ciphersuites tls13 (map_ciphersuites_to_ciphers a) = Inr b" "process_ciphers b = Inr a1"
    using assms by (auto simp: prepare_ciphers_def filter_ciphers_def)
  then show ?thesis
    using processed_suites[of tls13 _ b] processed_ciphers[of b a1]
    by (auto simp: ciphers_ok_def need_default_ciphers_def older_than_tls13_def list_ex_iff split: if_splits)
qed

lemma crypt_methods_exist: "versions_ok tls13 vs \<Longrightarrow> prepare_crypt_methods tls13 vs \<noteq> None"
proof (induction vs)
  case (Cons v vs)
  then show ?case by (cases v) (auto simp: versions_ok_def to_stream_crypt_method_def)
qed simp



text \<open>
  Without \<^verbatim>\<open>tls-versions\<close> in the URI, the cipher suites it asks for have no effect on the
  connection: they are not mapped to ciphers although TLS 1.2 is allowed, and the stream is given
  every allowed cipher.
\<close>

lemma ciphersuites_ignored:
  assumes "sa_ssl_mode a \<noteq> Ssl_disabled" "sa_tls_versions a = []" "sa_ssl_ciphers a = []"
    and "set (sa_tls_ciphersuites a) \<inter> set allowed_ciphersuites \<noteq> {}"
  shows "\<exists>a1. prepare_ciphers tls13 a = Inr a1 \<and> sa_ssl_ciphers a1 = allowed_ciphers"
proof -
  have "filter (\<lambda>c. c \<in> set allowed_ciphersuites) (sa_tls_ciphersuites a) \<noteq> []"
    using assms(4) by (auto simp: filter_empty_conv)
  then show ?thesis using assms(1-3)
    by (auto simp: prepare_ciphers_def map_ciphersuites_to_ciphers_def need_mapping_def older_than_tls13_def
        filter_ciphers_def process_ciphersuites_def process_ciphers_def need_default_ciphers_def Let_def)
qed

definition suite_auth :: session_auth_data where
  "suite_auth = new_auth_data\<lparr>sa_ssl_mode := Ssl_required,
     sa_tls_ciphersuites := [''TLS_RSA_WITH_AES_128_GCM_SHA256'']\<rparr>"

lemma ciphersuites_ignored_example:
  "\<exists>a1. prepare_ciphers True suite_auth = Inr a1 \<and> sa_ssl_ciphers a1 = allowed_ciphers"
proof (rule ciphersuites_ignored)
  have "''TLS_RSA_WITH_AES_128_GCM_SHA256'' \<in> set allowed_ciphersuites" by code_simp
  then show "set (sa_tls_ciphersuites suite_auth) \<inter> set allowed_ciphersuites \<noteq> {}"
    by (auto simp: suite_auth_def)
qed (simp_all add: suite_auth_def new_auth_data_def)

text \<open>A name of a TLS version that is not known is looked up, and what the search ended at is read.\<close>

lemma unknown_tls_version:
  "ifind (name_to_protocols tls13) v = None \<Longrightarrow> parse_single_or_array v = [v] \<Longrightarrow>
   set_tls_versions tls13 v a = Inl End_dereference"
  by (simp add: set_tls_versions_def)

section \<open>Quoting\<close>

text \<open>How the server reads an identifier in backquotes: two of them stand for one.\<close>

fun scan_identifier :: "string \<Rightarrow> (string \<times> string) option" where
  "scan_identifier [] = None"
| "scan_identifier (c # cs) =
     (if c \<noteq> CHR 0x60 then map_option (\<lambda>(n, r). (c # n, r)) (scan_identifier cs)
      else case cs of
        d # ds \<Rightarrow> if d = CHR 0x60 then map_option (\<lambda>(n, r). (d # n, r)) (scan_identifier ds) else Some ([], cs)
      | [] \<Rightarrow> Some ([], []))"

definition read_identifier :: "string \<Rightarrow> (string \<times> string) option" where
  "read_identifier s = (if s \<noteq> [] \<and> hd s = CHR 0x60 then scan_identifier (tl s) else None)"

text \<open>
  An identifier that is quoted is read back exactly, whatever characters it holds and whatever
  follows it: no identifier can end its quotation early.
\<close>

lemma quote_name_exact:
  assumes "name \<noteq> []" "rest = [] \<or> hd rest \<noteq> CHR 0x60"
  shows "read_identifier (quote_name name @ rest) = Some (name, rest)"
proof -
  let ?q = "\<lambda>c. if c = CHR 0x60 then [CHR 0x60, CHR 0x60] else [c]"
  have "scan_identifier (concat (map ?q name) @ CHR 0x60 # rest) = Some (name, rest)"
  proof (induction name)
    case Nil
    then show ?case using assms(2) by (auto split: list.split)
  qed simp_all
  then show ?thesis using assms(1) by (simp add: read_identifier_def quote_name_def)
qed

lemma quote_name_exact_example:
  "read_identifier (quote_name ''a`; b'' @ ''.c'') = Some (''a`; b'', ''.c'')"
  by (rule quote_name_exact) simp_all

end
