(* ===== verification/Failover.thy ===== *)
theory Failover
  imports Connect
begin

text \<open>
  Connecting to the hosts of a URI in turn, after \<^verbatim>\<open>establish_connection\<close>, \<^verbatim>\<open>connect_session\<close> and
  \<^verbatim>\<open>xmysqlnd_new_session_connect\<close> of \<^verbatim>\<open>src/xmysqlnd/xmysqlnd_session.cc\<close>.
\<close>

text \<open>What connecting a URI uses from outside besides what a connection uses.\<close>

record uri_env =
  ue_php_url_parse :: "string \<Rightarrow> url option"
  ue_resolver :: resolver
  ue_sort :: "address list \<Rightarrow> address list"
  ue_process :: client_process
  ue_openssl :: bool

definition xmysqlnd_session_connect ::
  "nat \<Rightarrow> ('v, 'z) auth_env \<Rightarrow> session_auth_data \<Rightarrow> string \<Rightarrow> nat \<Rightarrow> ('v, 'z) auth_state \<Rightarrow>
   (func_status, ('v, 'z) auth_state) run" where
  "xmysqlnd_session_connect n E auth schema port s =
     connect n E schema port ((fst s)\<lparr>au_auth := Some auth\<rparr>, snd s)"

definition establish_connection ::
  "nat \<Rightarrow> ('v, 'z) auth_env \<Rightarrow> session_auth_data \<Rightarrow> url \<Rightarrow> transport_type \<Rightarrow> ('v, 'z) auth_state \<Rightarrow>
   (func_status, ('v, 'z) auth_state) run" where
  "establish_connection n E auth u ty s =
     (if ty \<noteq> Network \<and> url_host u = [] then Some (Inr FAIL, s)
      else let a = (if ty \<noteq> Network then (fst s)\<lparr>au_socket_path := url_host u\<rparr> else fst s)
           in xmysqlnd_session_connect n E auth (url_path u) (url_port u)
                (a\<lparr>au_transport := ty\<rparr>, snd s))"

text \<open>
  The loop over the addresses: a connection ends it, an error of the URI gives up, and otherwise it
  goes on, keeping the error information of the last attempt.
\<close>

datatype attempts = Connected | Exhausted "(nat \<times> string \<times> string) option" | Given_up

definition raise_warnings :: "string list \<Rightarrow> auth_session \<Rightarrow> auth_session" where
  "raise_warnings ws a = a\<lparr>au_raised := au_raised a @ map (\<lambda>w. (0, [], w)) ws\<rparr>"

text \<open>
  One address: \<open>Some PASS\<close> and \<open>Some FAIL\<close> are outcomes of an attempt, \<open>None\<close> gives up.
\<close>

definition try_address ::
  "nat \<Rightarrow> uri_env \<Rightarrow> ('v, 'z) auth_env \<Rightarrow> string \<Rightarrow> ('v, 'z) auth_state \<Rightarrow>
   ((func_status \<times> bool) option, ('v, 'z) auth_state) run" where
  "try_address n W E uri s =
     (case extract_uri_information (ue_php_url_parse W) (ae_env E) uri of
        Inl e \<Rightarrow> Some (Inl e, s)
      | Inr (u, ty) \<Rightarrow>
          if url_empty u then Some (Inr None, (raise_exceptions [10025] (fst s), snd s))
          else (case extract_connection_attributes (ue_process W) uri (au_attribs (fst s)) of
             Inl e \<Rightarrow> Some (Inl e, s)
           | Inr (ok, attribs, raised) \<Rightarrow>
               let a = raise_exceptions raised ((fst s)\<lparr>au_attribs := attribs\<rparr>) in
               if \<not> ok then Some (Inr None, (raise_exceptions [10027] a, snd s))
               else (case extract_auth_information (ae_tls13 E) u of
                  Inl e \<Rightarrow> Some (Inl e, (a, snd s))
                | Inr None \<Rightarrow> Some (Inr (Some (FAIL, False)), (a, snd s))
                | Inr (Some (auth, ws)) \<Rightarrow>
                    let s1 = (raise_warnings ws a, snd s) in
                    if sa_ssl_mode auth \<noteq> Ssl_disabled \<and> ty = Unix_domain_socket
                    then Some (Inr None, (raise_exceptions [10034] (fst s1), snd s1))
                    else if sa_ssl_mode auth \<noteq> Ssl_disabled \<and> \<not> ue_openssl W
                    then Some (Inl Openssl_unavailable, s1)
                    else and_then (establish_connection n E auth u ty s1)
                      (\<lambda>st s2. Some (Inr (Some (st, True)), s2)))))"

fun try_addresses ::
  "('a \<Rightarrow> ('s \<Rightarrow> ((func_status \<times> bool) option, 's) run)) \<Rightarrow> ('s \<Rightarrow> (nat \<times> string \<times> string) option) \<Rightarrow>
   'a list \<Rightarrow> (nat \<times> string \<times> string) option \<Rightarrow> 's \<Rightarrow> (attempts, 's) run" where
  "try_addresses one err [] last_error s = Some (Inr (Exhausted last_error), s)"
| "try_addresses one err (u # us) last_error s = and_then (one u s) (\<lambda>r s1. case r of
     None \<Rightarrow> Some (Inr Given_up, s1)
   | Some (st, attempted) \<Rightarrow>
       if st = PASS then Some (Inr Connected, s1)
       else try_addresses one err us (if attempted then err s1 else last_error) s1)"

definition find_addresses ::
  "uri_env \<Rightarrow> string \<Rightarrow> xdevapi_error + address list \<times> nat list" where
  "find_addresses W uri = ebind (requested_srv_lookup uri) (\<lambda>srv.
     if srv then map_sum id (\<lambda>as. (as, [])) (dns_srv_get_hostname_list (ue_php_url_parse W) (ue_resolver W) uri)
     else Inr (extract_uri_addresses (ue_sort W) uri))"

definition connect_session ::
  "nat \<Rightarrow> uri_env \<Rightarrow> ('v, 'z) auth_env \<Rightarrow> string \<Rightarrow> ('v, 'z) auth_state \<Rightarrow>
   (func_status, ('v, 'z) auth_state) run" where
  "connect_session n W E uri s = (case find_addresses W uri of
     Inl e \<Rightarrow> Some (Inl e, s)
   | Inr (uris, raised) \<Rightarrow>
       and_then (try_addresses (\<lambda>a. try_address n W E (fst a)) (\<lambda>s. au_error (fst s)) uris None
           (raise_exceptions raised (fst s), snd s))
         (\<lambda>r s1. case r of
            Connected \<Rightarrow> Some (Inr PASS, s1)
          | Given_up \<Rightarrow> Some (Inr FAIL, s1)
          | Exhausted e \<Rightarrow>
              if 1 < length uris then Some (Inr FAIL, (raise_exceptions [4001] (fst s1), snd s1))
              else (case e of
                 Some (ecode, state, msg) \<Rightarrow> Some (Inl (Server_error ecode state msg), s1)
               | None \<Rightarrow> Some (Inr FAIL, s1))))"

text \<open>A new session, and whether PHP gets an object for it.\<close>

definition new_auth_session :: "nat \<Rightarrow> auth_session" where
  "new_auth_session self = \<lparr>au_session = new_session self, au_auth = None, au_mechanisms = [],
     au_capabilities = Undefined, au_attribs = [], au_transport = No_transport, au_socket_path = [],
     au_scheme = [], au_default_schema = [], au_host_info = [], au_client_id = 0, au_error = None,
     au_raised = [], au_plugin = None\<rparr>"

definition new_session_connect ::
  "nat \<Rightarrow> uri_env \<Rightarrow> ('v, 'z) auth_env \<Rightarrow> nat \<Rightarrow> string \<Rightarrow> ('v, 'z) msg_ctx \<Rightarrow>
   (('v, 'z) auth_state option, ('v, 'z) auth_state) run" where
  "new_session_connect n W E self uri ctx =
     and_then (connect_session n W E uri (new_auth_session self, ctx))
       (\<lambda>st s. Some (Inr (if st = PASS then Some s else None), s))"

end
