(* ===== verification/Address_Props.thy ===== *)
theory Address_Props
  imports Failover "HOL-Library.Multiset"
begin

text \<open>
  The addresses a connection is tried with: lists of hosts, lists with priorities, and the hosts of
  DNS SRV records.
\<close>

lemma scan_list_plain:
  "CHR ''['' \<notin> set t \<Longrightarrow> CHR '']'' \<notin> set t \<Longrightarrow>
   scan_list (t @ CHR '']'' # post) 1 valid e =
     (0, valid \<or> CHR '','' \<in> set t \<or> CHR ''('' \<in> set t \<or> CHR '')'' \<in> set t, e + length t)"
proof (induction t arbitrary: valid e)
  case (Cons c t)
  have IH: "scan_list (t @ CHR '']'' # post) 1 v n =
     (0, v \<or> CHR '','' \<in> set t \<or> CHR ''('' \<in> set t \<or> CHR '')'' \<in> set t, n + length t)" for v n
    using Cons by simp
  have "c \<noteq> CHR ''[''" "c \<noteq> CHR '']''" using Cons(2,3) by auto
  then have "scan_list ((c # t) @ CHR '']'' # post) 1 valid e =
      scan_list (t @ CHR '']'' # post) 1 (valid \<or> c = CHR '','' \<or> c = CHR ''('' \<or> c = CHR '')'') (e + 1)"
    by simp
  then show ?case unfolding IH by auto
qed simp

lemma find_from_append:
  assumes "c \<notin> set pre"
  shows "find_from c (pre @ c # rest) 0 = Some (length pre)"
proof -
  have "\<forall>j<length pre. pre ! j \<noteq> c" using assms nth_mem by metis
  then show ?thesis
    unfolding find_from_def find_Some_iff by (intro exI[of _ "length pre"]) (simp add: nth_append)
qed

lemma find_append: "find P (xs @ ys) = (case find P xs of None \<Rightarrow> find P ys | r \<Rightarrow> r)"
  by (induction xs) auto

lemma find_last_append:
  assumes "c \<notin> set post"
  shows "find_last c (pre @ c # post) 0 = Some (length pre)"
proof -
  let ?s = "pre @ c # post"
  have "[0..<length ?s] = [0..<length pre] @ [length pre] @ [Suc (length pre)..<length ?s]"
    using upt_add_eq_append[of 0 "length pre" "Suc (length post)"] upt_conv_Cons[of "length pre" "length ?s"]
    by (simp del: upt_Suc)
  moreover have "find (\<lambda>j. ?s ! j = c) (rev [Suc (length pre)..<length ?s]) = None"
  proof -
    have "?s ! j \<noteq> c" if "Suc (length pre) \<le> j" "j < length ?s" for j
      using that assms nth_mem[of "j - Suc (length pre)" post] by (auto simp: nth_append nth_Cons')
    then show ?thesis unfolding find_None_iff set_rev set_upt by auto
  qed
  ultimately show ?thesis by (simp add: find_last_def find_append)
qed

lemma lp_loop_skip:
  assumes "k \<le> lp_end p" "i \<le> k"
    and "\<And>j. i \<le> j \<Longrightarrow> j < k \<Longrightarrow> char_at (lp_uri p) j \<noteq> CHR ''('' \<and> char_at (lp_uri p) j \<noteq> CHR '',''"
  shows "lp_loop i l p = lp_loop k l p"
  using assms(2,3)
proof (induction "k - i" arbitrary: i)
  case (Suc d)
  then have "lp_loop i l p = lp_loop (Suc i) l p"
    using assms(1) by (subst lp_loop.simps) auto
  then show ?case using Suc(1)[of "Suc i"] Suc(2-) by auto
qed simp


lemma lp_loop_past: "lp_end p < i \<Longrightarrow> lp_loop i l p = (True, p)"
  by (simp add: lp_loop.simps[of i l p])

lemma lp_end_add_address [simp]: "lp_end (add_address a p) = lp_end p"
  by (simp add: add_address_def)

definition plain_char :: "char \<Rightarrow> bool" where
  "plain_char c \<longleftrightarrow> c \<noteq> CHR '','' \<and> c \<noteq> CHR ''('' \<and> c \<noteq> CHR '')'' \<and> c \<noteq> CHR ''['' \<and> c \<noteq> CHR '']'' \<and>
     c \<noteq> CHR ''@'' \<and> \<not> c_isspace c"

definition host_ok :: "string \<Rightarrow> bool" where
  "host_ok h \<longleftrightarrow> 2 \<le> length h \<and> list_all plain_char h"

lemma lp_loop_comma:
  assumes "char_at (lp_uri p) k = CHR '',''" "k < lp_end p" "i \<le> k" "l < k"
    and "\<And>j. i \<le> j \<Longrightarrow> j < k \<Longrightarrow> plain_char (char_at (lp_uri p) j)"
  shows "lp_loop i l p = lp_loop (k + 2) (k + 1) (add_address (slice l k (lp_uri p), -1) p)"
proof -
  have "lp_loop i l p = lp_loop k l p"
    using assms(2-) by (intro lp_loop_skip) (auto simp: plain_char_def)
  then show ?thesis using assms(1,2,4) by (simp add: lp_loop.simps[of k l p])
qed

lemma lp_loop_last:
  assumes "l < lp_end p" "i \<le> lp_end p"
    and "\<And>j. i \<le> j \<Longrightarrow> j \<le> lp_end p \<Longrightarrow> plain_char (char_at (lp_uri p) j)"
  shows "lp_loop i l p = (True, add_address (slice l (lp_end p + 1) (lp_uri p), -1) p)"
proof -
  let ?p = "add_address (slice l (lp_end p + 1) (lp_uri p), -1) p"
  have "lp_loop i l p = lp_loop (lp_end p) l p"
    using assms by (intro lp_loop_skip) (auto simp: plain_char_def)
  also have "\<dots> = lp_loop (lp_end p + 2) (lp_end p + 1) ?p"
    using assms(1) assms(3)[of "lp_end p"] assms(2) by (simp add: lp_loop.simps[of "lp_end p" l p] plain_char_def)
  also have "\<dots> = (True, ?p)" by (rule lp_loop_past) simp
  finally show ?thesis .
qed

lemma char_at_append:
  "length A \<le> j \<Longrightarrow> j < length A + length h \<Longrightarrow> char_at (A @ h @ B) j = h ! (j - length A)"
  using less_diff_conv2[of "length A" j "length h"] by (simp add: char_at_def nth_append add.commute)

lemma plain_range:
  assumes "list_all plain_char h" "length A \<le> j" "j < length A + length h"
  shows "plain_char (char_at (A @ h @ B) j)"
  using assms by (simp add: char_at_append list_all_length)

definition with_hosts :: "string list \<Rightarrow> list_parser \<Rightarrow> list_parser" where
  "with_hosts hs p = p\<lparr>lp_addresses := lp_addresses p @
     map (\<lambda>h. (insert_at (lp_beg p - 1) h (lp_unformatted p), -1)) hs\<rparr>"

lemma add_with_hosts: "with_hosts hs (add_address (h, -1) p) = with_hosts (h # hs) p"
  by (simp add: with_hosts_def add_address_def)

lemma lp_loop_hosts:
  assumes "hs \<noteq> []" "list_all host_ok hs" "lp_uri p = A @ join '','' hs @ B"
    and "lp_end p + 1 = length A + length (join '','' hs)" "i = length A \<or> i = length A + 1"
  shows "lp_loop i (length A) p = (True, with_hosts hs p)"
  using assms
proof (induction "'',''" hs arbitrary: A i p rule: join.induct)
  case (2 x)
  then have ok: "list_all plain_char x" "2 \<le> length x" by (auto simp: host_ok_def)
  have "lp_loop i (length A) p = (True, add_address (slice (length A) (lp_end p + 1) (lp_uri p), -1) p)"
    using 2 ok plain_range[OF ok(1), of A _ B] by (intro lp_loop_last) auto
  moreover have "slice (length A) (lp_end p + 1) (lp_uri p) = x" using 2 by (simp add: slice_def)
  ultimately show ?case by (simp add: with_hosts_def add_address_def)
next
  case (3 x y ys)
  let ?k = "length A + length x" and ?rest = "join '','' (y # ys)"
  have ok: "list_all plain_char x" "2 \<le> length x" using 3 by (auto simp: host_ok_def)
  have U: "lp_uri p = A @ x @ '','' @ ?rest @ B" using 3 by simp
  have "length ?rest > 0" using 3(3) by (cases ys) (auto simp: host_ok_def)
  then have "lp_loop i (length A) p =
      lp_loop (?k + 2) (?k + 1) (add_address (slice (length A) ?k (lp_uri p), -1) p)"
    using 3 ok plain_range[OF ok(1), of A _ "'','' @ ?rest @ B"] U
    by (intro lp_loop_comma) (auto simp: char_at_def nth_append)
  also have "slice (length A) ?k (lp_uri p) = x" using U by (simp add: slice_def)
  also have "lp_loop (?k + 2) (?k + 1) (add_address (x, -1) p) =
      (True, with_hosts (y # ys) (add_address (x, -1) p))"
    using 3(1)[of "add_address (x, -1) p" "A @ x @ '',''" "?k + 2"] 3(3,5) U by (simp add: add_address_def)
  finally show ?case by (simp add: add_with_hosts)
qed simp

text \<open>A last host of one letter is never added.\<close>

lemma lp_loop_lost:
  assumes "hs \<noteq> []" "list_all host_ok hs" "lp_uri p = A @ join '','' (hs @ [[c]]) @ B"
    and "lp_end p + 1 = length A + length (join '','' (hs @ [[c]]))" "i = length A \<or> i = length A + 1"
  shows "lp_loop i (length A) p = (True, with_hosts hs p)"
  using assms
proof (induction "'',''" hs arbitrary: A i p rule: join.induct)
  case (2 x)
  let ?k = "length A + length x" and ?p = "add_address (x, -1) p"
  have ok: "list_all plain_char x" "2 \<le> length x" using 2 by (auto simp: host_ok_def)
  have U: "lp_uri p = A @ x @ '','' @ [c] @ B" using 2 by simp
  have "lp_loop i (length A) p =
      lp_loop (?k + 2) (?k + 1) (add_address (slice (length A) ?k (lp_uri p), -1) p)"
    using 2 ok plain_range[OF ok(1), of A _ "'','' @ [c] @ B"] U
    by (intro lp_loop_comma) (auto simp: char_at_def nth_append)
  also have "slice (length A) ?k (lp_uri p) = x" using U by (simp add: slice_def)
  also have "lp_loop (?k + 2) (?k + 1) ?p = (True, ?p)"
    using 2 by (intro lp_loop_past) simp
  finally show ?case by (simp add: with_hosts_def add_address_def)
next
  case (3 x y ys)
  let ?k = "length A + length x" and ?rest = "join '','' ((y # ys) @ [[c]])"
  have ok: "list_all plain_char x" "2 \<le> length x" using 3 by (auto simp: host_ok_def)
  have U: "lp_uri p = A @ x @ '','' @ ?rest @ B" using 3 by simp
  have "length ?rest > 0" using 3(3) by (cases ys) (auto simp: host_ok_def)
  then have "lp_loop i (length A) p =
      lp_loop (?k + 2) (?k + 1) (add_address (slice (length A) ?k (lp_uri p), -1) p)"
    using 3 ok plain_range[OF ok(1), of A _ "'','' @ ?rest @ B"] U
    by (intro lp_loop_comma) (auto simp: char_at_def nth_append)
  also have "slice (length A) ?k (lp_uri p) = x" using U by (simp add: slice_def)
  also have "lp_loop (?k + 2) (?k + 1) (add_address (x, -1) p) =
      (True, with_hosts (y # ys) (add_address (x, -1) p))"
    using 3(1)[of "add_address (x, -1) p" "A @ x @ '',''" "?k + 2"] 3(3,5) U by (simp add: add_address_def)
  finally show ?case by (simp add: add_with_hosts)
qed simp


definition uri_text :: "string \<Rightarrow> bool" where
  "uri_text s \<longleftrightarrow> list_all (\<lambda>c. c \<noteq> CHR ''@'' \<and> \<not> c_isspace c) s"

text \<open>The parser on a URI whose list has the text \<open>l\<close>, and what the addresses of its hosts are.\<close>

definition bracketed :: "string \<Rightarrow> string \<Rightarrow> string \<Rightarrow> string" where
  "bracketed pre l post = pre @ ''@['' @ l @ '']'' @ post"

definition list_parser_of :: "string \<Rightarrow> string \<Rightarrow> string \<Rightarrow> list_parser" where
  "list_parser_of pre l post = empty_parser\<lparr>lp_beg := length pre + 2, lp_end := length pre + 1 + length l,
     lp_uri := bracketed pre l post, lp_unformatted := pre @ ''@'' @ post\<rparr>"

lemma uri_textD: "uri_text s \<Longrightarrow> CHR ''@'' \<notin> set s" "uri_text s \<Longrightarrow> filter (\<lambda>c. \<not> c_isspace c) s = s"
  by (auto simp: uri_text_def list_all_iff)

lemma uri_text_append [simp]: "uri_text (a @ b) \<longleftrightarrow> uri_text a \<and> uri_text b"
  by (simp add: uri_text_def)

lemma extract_bracketed:
  assumes "uri_text (pre @ l @ post)" "CHR ''['' \<notin> set l" "CHR '']'' \<notin> set l"
    and "CHR '','' \<in> set l \<or> CHR ''('' \<in> set l \<or> CHR '')'' \<in> set l"
  shows "extract_uri_addresses sorter (bracketed pre l post) = lp_parse sorter (list_parser_of pre l post)"
proof -
  let ?u = "bracketed pre l post"
  have sp: "\<not> c_isspace CHR ''@''" "\<not> c_isspace CHR ''[''" "\<not> c_isspace CHR '']''" by (simp_all add: c_isspace_def)
  have flt: "filter (\<lambda>c. \<not> c_isspace c) ?u = ?u"
    using assms(1) sp by (simp add: bracketed_def uri_textD)
  have at: "find_from CHR ''@'' ?u 0 = Some (length pre)"
    using assms(1) find_from_append[of "CHR ''@''" pre] by (simp add: bracketed_def uri_textD)
  have "CHR ''@'' \<notin> set (CHR ''['' # l @ CHR '']'' # post)" using assms(1) by (simp add: uri_textD)
  from find_last_append[OF this, of pre] have lst: "find_last CHR ''@'' ?u 0 = Some (length pre)"
    by (simp add: bracketed_def)
  have "l \<noteq> []" using assms(4) by auto
  then have len: "\<not> length ?u - length pre \<le> 2" by (simp add: bracketed_def Suc_le_eq)
  have "char_at ?u (length pre + 1) = CHR ''[''" by (simp add: char_at_def bracketed_def nth_append)
  moreover have "drop (length pre + 2) ?u = l @ CHR '']'' # post" by (simp add: bracketed_def)
  ultimately have "contains_list_of_url ?u = int (length pre + 2 + length l)"
    using scan_list_plain[OF assms(2,3), of post False "length pre + 2"] assms(4) at
    by (simp add: contains_list_of_url_def)
  moreover have "nat (int (length pre + 2 + length l)) = length pre + 2 + length l" by simp
  moreover have "erase (length pre + 1) (length pre + 2 + length l - (length pre + 1) + 1) ?u = pre @ ''@'' @ post"
    by (simp add: erase_def bracketed_def eval_nat_numeral)
  ultimately have "new_list_parser ?u = list_parser_of pre l post"
    unfolding new_list_parser_def flt at list_parser_of_def empty_parser_def Let_def by simp
  then show ?thesis using lst len by (simp add: extract_uri_addresses_def)
qed

definition host_uri :: "string \<Rightarrow> string \<Rightarrow> string \<Rightarrow> string" where
  "host_uri pre post h = pre @ ''@'' @ h @ post"

lemma parse_hosts:
  assumes "lp_loop (length pre + 2) (length pre + 2) (list_parser_of pre l post) =
      (True, with_hosts hs (list_parser_of pre l post))"
  shows "lp_parse sorter (list_parser_of pre l post) =
    (map (\<lambda>(i, h). (host_uri pre post h, max (100 - int i) 0)) (enumerate 0 hs), [])"
proof -
  let ?p = "with_hosts hs (list_parser_of pre l post)"
  have as: "lp_addresses ?p = map (\<lambda>h. (host_uri pre post h, -1)) hs" "lp_raised ?p = []"
    by (simp_all add: with_hosts_def list_parser_of_def empty_parser_def insert_at_def host_uri_def)
  have "filter (\<lambda>a. 0 \<le> snd a) (lp_addresses ?p) = []" by (simp add: as filter_empty_conv)
  moreover have "default_priorities (lp_addresses ?p) =
      map (\<lambda>(i, h). (host_uri pre post h, max (100 - int i) 0)) (enumerate 0 hs)"
    by (simp add: default_priorities_def as max_host_priority_def enumerate_eq_zip zip_map2 split_def)
  moreover have "lp_beg (list_parser_of pre l post) = length pre + 2" by (simp add: list_parser_of_def)
  ultimately show ?thesis using assms as(2) by (simp add: lp_parse_def)
qed

lemma host_ok_text: "list_all host_ok hs \<Longrightarrow> list_all (\<lambda>h. uri_text h \<and> CHR ''['' \<notin> set h \<and> CHR '']'' \<notin> set h) hs"
  by (auto simp: host_ok_def uri_text_def plain_char_def list_all_iff)

lemma join_text:
  "list_all (\<lambda>h. uri_text h \<and> CHR ''['' \<notin> set h \<and> CHR '']'' \<notin> set h) hs \<Longrightarrow>
   uri_text (join '','' hs) \<and> CHR ''['' \<notin> set (join '','' hs) \<and> CHR '']'' \<notin> set (join '','' hs)"
  by (induction "'',''" hs rule: join.induct) (auto simp: uri_text_def c_isspace_def)

lemma join_comma: "2 \<le> length hs \<Longrightarrow> CHR '','' \<in> set (join '','' hs)"
  by (cases "('','', hs)" rule: join.cases) auto

text \<open>
  C30: a list of hosts without priorities is tried in the order of the list.  For every list of at
  least two hosts of two or more characters, the addresses are the URI with each host in place of
  the list, in order, with priorities from 100 downwards that never become negative.
\<close>

theorem host_list_in_order:
  assumes "2 \<le> length hs" "list_all host_ok hs" "uri_text (pre @ post)"
  shows "extract_uri_addresses sorter (bracketed pre (join '','' hs) post) =
    (map (\<lambda>(i, h). (host_uri pre post h, max (100 - int i) 0)) (enumerate 0 hs), [])"
proof -
  let ?p = "list_parser_of pre (join '','' hs) post"
  have "lp_loop (length pre + 2) (length (pre @ ''@['')) ?p = (True, with_hosts hs ?p)"
    using assms(1,2) by (intro lp_loop_hosts) (auto simp: list_parser_of_def bracketed_def)
  then show ?thesis
    using extract_bracketed[of pre "join '','' hs" post] join_text[OF host_ok_text[OF assms(2)]]
      join_comma[OF assms(1)] assms(3) by (simp add: parse_hosts)
qed

theorem host_list_in_order_witness:
  "extract_uri_addresses id (bracketed ''mysqlx://u'' (join '','' [''ab'', ''c.d:1'']) ''/s'') =
    (map (\<lambda>(i, h). (host_uri ''mysqlx://u'' ''/s'' h, max (100 - int i) 0)) (enumerate 0 [''ab'', ''c.d:1'']), [])"
  by (rule host_list_in_order) (simp_all add: host_ok_def plain_char_def uri_text_def c_isspace_def)

text \<open>
  The last host of a list is lost when its name has one character: the addresses are those of
  the hosts before it, and nothing is raised.
\<close>

lemma single_letter_host_lost:
  assumes "hs \<noteq> []" "list_all host_ok hs" "plain_char c" "uri_text (pre @ post)"
  shows "extract_uri_addresses sorter (bracketed pre (join '','' (hs @ [[c]])) post) =
    (map (\<lambda>(i, h). (host_uri pre post h, max (100 - int i) 0)) (enumerate 0 hs), [])"
proof -
  let ?l = "join '','' (hs @ [[c]])"
  let ?p = "list_parser_of pre ?l post"
  have "list_all (\<lambda>h. uri_text h \<and> CHR ''['' \<notin> set h \<and> CHR '']'' \<notin> set h) (hs @ [[c]])"
    using host_ok_text[OF assms(2)] assms(3) by (auto simp: uri_text_def plain_char_def)
  from join_text[OF this] have "uri_text ?l \<and> CHR ''['' \<notin> set ?l \<and> CHR '']'' \<notin> set ?l" .
  moreover have "2 \<le> length (hs @ [[c]])" using assms(1) by (cases hs) auto
  moreover have "lp_loop (length pre + 2) (length (pre @ ''@['')) ?p = (True, with_hosts hs ?p)"
    using assms(1,2) by (intro lp_loop_lost) (auto simp: list_parser_of_def bracketed_def)
  ultimately show ?thesis
    using extract_bracketed[of pre ?l post] join_comma[of "hs @ [[c]]"] assms(4) by (simp add: parse_hosts)
qed


lemma single_letter_host_lost_example:
  "extract_uri_addresses id (bracketed ''mysqlx://u'' (join '','' ([''ab''] @ [''c''])) ''/s'') =
    (map (\<lambda>(i, h). (host_uri ''mysqlx://u'' ''/s'' h, max (100 - int i) 0)) (enumerate 0 [''ab'']), [])"
  by (rule single_letter_host_lost) (simp_all add: host_ok_def plain_char_def uri_text_def c_isspace_def)

section \<open>Hosts with priorities\<close>

definition entry :: "string \<times> nat \<Rightarrow> string" where
  "entry e = ''(address='' @ fst e @ '',priority='' @ dec_string (snd e) @ '')''"

definition entry_ok :: "string \<times> nat \<Rightarrow> bool" where
  "entry_ok e \<longleftrightarrow> list_all plain_char (fst e) \<and> CHR ''='' \<notin> set (fst e) \<and>
     find_text ''priority'' (fst e) = None \<and> snd e \<le> 100"

lemma digit_not: "c_isdigit c \<Longrightarrow> plain_char c \<and> c \<noteq> CHR ''=''"
  by (auto simp: plain_char_def c_isdigit_def c_isspace_def)

lemma atoi_dec_string: "p \<le> 100 \<Longrightarrow> atoi (dec_string p) = int p"
proof -
  assume "p \<le> 100"
  have digits: "\<forall>c\<in>set (dec_string p). c_isdigit c" by (auto dest: dec_string_digits)
  obtain c cs where c: "dec_string p = c # cs" using dec_string_nonempty[of p] by (cases "dec_string p") auto
  then have hd: "c_isdigit c" using digits by simp
  then have "c \<noteq> CHR ''-''" "c \<noteq> CHR ''+''" "\<not> c_isspace c" by (auto simp: c_isdigit_def c_isspace_def)
  then have "signed_digits (dropWhile c_isspace (dec_string p)) = (1, takeWhile c_isdigit (dec_string p))"
    unfolding c signed_digits_def by simp
  moreover have "takeWhile c_isdigit (dec_string p) = dec_string p" using digits by (simp add: takeWhile_eq_all_conv)
  ultimately show ?thesis using \<open>p \<le> 100\<close> to_int32_small[of "int p"] by (simp add: atoi_def)
qed

lemma scan_value_plain:
  assumes "\<forall>c\<in>set t. plain_char c \<and> c \<noteq> CHR ''=''" "d = CHR '','' \<or> final \<and> d = CHR '')''"
  shows "scan_value final (t @ d # rest) idx b = Some (idx + length t, b, idx + length t)"
  using assms(1)
proof (induction t arbitrary: idx)
  case Nil
  then show ?case using assms(2) by auto
next
  case (Cons c t)
  then show ?case by (simp add: plain_char_def)
qed

lemma find_text_Some:
  assumes "take (length pat) (drop i s) = pat" "i + length pat \<le> length s"
    and "\<And>j. j < i \<Longrightarrow> take (length pat) (drop j s) \<noteq> pat"
  shows "find_text pat s = Some i"
  unfolding find_text_def find_Some_iff using assms by (intro exI[of _ i]) auto

lemma take_drop_mid:
  "length A \<le> j \<Longrightarrow> j + n \<le> length A + length h \<Longrightarrow>
   take n (drop j (A @ h @ R)) = take n (drop (j - length A) h)"
  by simp

lemma drop_at: "length xs = n \<Longrightarrow> drop n (xs @ ys) = ys"
  by simp

lemma find_from_at:
  assumes "c \<notin> set t"
  shows "find_from c (A @ t @ c # B) (length A) = Some (length A + length t)"
proof -
  have "(A @ t @ c # B) ! (length A + j) \<noteq> c" if "j < length t" for j
    using that assms nth_mem[of j t] by (auto simp: nth_append)
  moreover have "[length A..<length (A @ t @ c # B)] ! j = length A + j" if "j \<le> length t" for j
    using that by (simp del: upt_Suc)
  ultimately show ?thesis
    unfolding find_from_def find_Some_iff
    by (intro exI[of _ "length t"]) (simp_all add: nth_append del: upt_Suc)
qed

lemma find_text_NoneD: "find_text pat h = None \<Longrightarrow> j + length pat \<le> length h \<Longrightarrow> take (length pat) (drop j h) \<noteq> pat"
  by (auto simp: find_text_def find_None_iff)

lemma nth_of_take:
  assumes "take (length pat) (drop j s) = pat" "i < length pat"
  shows "s ! (j + i) = pat ! i"
proof -
  have "length (take (length pat) (drop j s)) = length pat" using assms(1) by simp
  then have "j + i \<le> length s" using assms(2) by simp
  then have "take (length pat) (drop j s) ! i = s ! (j + i)" using assms(2) by simp
  then show ?thesis using assms(1) by simp
qed

lemma find_priority:
  assumes "list_all plain_char h" "find_text ''priority'' h = None"
  shows "find_text ''priority'' (''(address='' @ h @ '',priority='' @ rest) = Some (10 + length h)"
proof (rule find_text_Some)
  let ?s = "''(address='' @ h @ '',priority='' @ rest"
  have l8: "length ''priority'' = 8" and l9: "length ''(address='' = 9" by simp_all
  have "length (''(address='' @ h @ '','') = 10 + length h" by simp
  from drop_at[OF this, of "''priority='' @ rest"]
  show "take (length ''priority'') (drop (10 + length h) ?s) = ''priority''" by simp
  fix j assume j: "j < 10 + length h"
  show "take (length ''priority'') (drop j ?s) \<noteq> ''priority''"
  proof
    assume eq: "take (length ''priority'') (drop j ?s) = ''priority''"
    note nth = nth_of_take[OF eq]
    consider "j < 9" | "9 \<le> j" "j + 8 \<le> 9 + length h" | "9 + length h < j + 8" "9 \<le> j" by linarith
    then show False
    proof cases
      case 1
      then have "?s ! j = ''(address='' ! j" by (subst nth_append) simp
      moreover have "''(address='' ! j \<in> set ''(address=''" using 1 by (intro nth_mem) simp
      moreover have "?s ! j = CHR ''p''" using nth[of 0] by simp
      ultimately have "CHR ''p'' \<in> set ''(address=''" by metis
      then show False by simp
    next
      case 2
      have "take 8 (drop j ?s) = take 8 (drop (j - length ''(address='') h)"
        by (rule take_drop_mid) (use 2 l9 in simp_all)
      then have "take 8 (drop (j - 9) h) = ''priority''" unfolding l9 using eq[unfolded l8] by metis
      then show False using find_text_NoneD[OF assms(2), unfolded l8, of "j - 9"] 2 by linarith
    next
      case 3
      let ?i = "9 + length h - j"
      have i: "?i < length ''priority''" "j + ?i = 9 + length h" using 3 j by simp_all
      have "?s ! (9 + length h) = ''priority'' ! ?i" using nth[OF i(1)] unfolding i(2) .
      moreover have "''priority'' ! ?i \<in> set ''priority''" using i(1) by (rule nth_mem)
      moreover have "?s ! (9 + length h) = CHR '',''"
        using nth_append_length[of "''(address='' @ h" "CHR '',''" "''priority='' @ rest"] by simp
      ultimately have "CHR '','' \<in> set ''priority''" by metis
      then show False by simp
    qed
  qed
qed simp_all


lemma plain_char_trim: "plain_char c \<Longrightarrow> c \<noteq> CHR '' '' \<and> code c \<noteq> 9"
proof -
  assume "plain_char c"
  then have "\<not> c_isspace c" by (simp add: plain_char_def)
  moreover have "c_isspace CHR '' ''" by (simp add: c_isspace_def)
  ultimately show ?thesis by (cases "c = CHR '' ''") (auto simp: c_isspace_def)
qed

lemma slice_between: "slice (length A) (length A + length x) (A @ x @ B) = x"
  by (simp add: slice_def)

lemma parse_entry:
  assumes "entry_ok e"
  shows "parse_round_token (entry e) p = (True, add_address (fst e, int (snd e)) p)"
proof -
  obtain h q where e: "e = (h, q)" by (cases e)
  let ?s = "entry e"
  have h: "\<forall>c\<in>set h. plain_char c \<and> c \<noteq> CHR ''=''" "find_text ''priority'' h = None" "q \<le> 100"
    using assms by (auto simp: entry_ok_def e list_all_iff)
  have s: "?s = ''(address='' @ h @ '',priority='' @ dec_string q @ '')''" by (simp add: entry_def e)
  have a: "find_text ''address'' ?s = Some 1"
    by (rule find_text_Some) (simp_all add: s)
  have q: "find_text ''priority'' ?s = Some (10 + length h)"
    unfolding s using h by (intro find_priority) (simp_all add: list_all_iff)
  have d8: "drop 8 ?s = CHR ''='' # h @ CHR '','' # ''priority='' @ dec_string q @ '')''" by (simp add: s)
  have v1: "scan_value False (drop 8 ?s) 8 0 = Some (9 + length h, 9, 9 + length h)"
    unfolding d8 using scan_value_plain[OF h(1), of "CHR '',''" False _ 9 9] by simp
  have d18: "drop (18 + length h) ?s = CHR ''='' # dec_string q @ CHR '')'' # []"
  proof -
    have "length (''(address='' @ h @ '',priority'') = 18 + length h" by simp
    from drop_at[OF this, of "''='' @ dec_string q @ '')''"] show ?thesis unfolding s by simp
  qed
  have dg: "\<forall>c\<in>set (dec_string q). plain_char c \<and> c \<noteq> CHR ''=''" by (auto dest: dec_string_digits digit_not)
  have v2: "scan_value True (drop (18 + length h) ?s) (18 + length h) 0 =
      Some (19 + length h + length (dec_string q), 19 + length h, 19 + length h + length (dec_string q))"
    unfolding d18 using scan_value_plain[OF dg, of "CHR '')''" True "[]" "19 + length h" "19 + length h"] by simp
  have tr: "trim_value t = t" if "\<forall>c\<in>set t. plain_char c \<and> c \<noteq> CHR ''=''" for t
    using that plain_char_trim by (simp add: trim_value_def filter_id_conv)
  have s1: "slice 9 (9 + length h) ?s = h" by (simp add: slice_def s)
  have s2: "slice (19 + length h) (19 + length h + length (dec_string q)) ?s = dec_string q"
  proof -
    have "length (''(address='' @ h @ '',priority='') = 19 + length h" by simp
    with slice_between[of "''(address='' @ h @ '',priority=''" "dec_string q" "'')''"]
    show ?thesis unfolding s by (simp add: numeral_eq_Suc)
  qed
  have n: "1 + length ''address'' = 8" "10 + length h + length ''priority'' = 18 + length h" by simp_all
  show ?thesis
    unfolding parse_round_token_def a q prod.case option.case Let_def n v1 v2 s1 s2
    using h tr[OF h(1)] tr[OF dg] by (simp add: atoi_dec_string max_host_priority_def e)
qed

definition with_entries :: "(string \<times> nat) list \<Rightarrow> list_parser \<Rightarrow> list_parser" where
  "with_entries es p = p\<lparr>lp_addresses := lp_addresses p @
     map (\<lambda>(h, q). (insert_at (lp_beg p - 1) h (lp_unformatted p), int q)) es\<rparr>"

lemma add_with_entries: "with_entries es (add_address (fst e, int (snd e)) p) = with_entries (e # es) p"
  by (simp add: with_entries_def add_address_def split_def)

lemma entry_no_paren:
  assumes "entry_ok e"
  shows "CHR '')'' \<notin> set (''(address='' @ fst e @ '',priority='' @ dec_string (snd e))"
proof -
  have "CHR '')'' \<notin> set (fst e)" using assms by (auto simp: entry_ok_def list_all_iff plain_char_def)
  moreover have "CHR '')'' \<notin> set (dec_string (snd e))"
    using dec_string_digits[of "CHR '')''"] by (auto simp: c_isdigit_def)
  ultimately show ?thesis by simp
qed

lemma lp_loop_entry:
  assumes "entry_ok e" "lp_uri p = A @ entry e @ B" "length A \<le> lp_end p"
  shows "lp_loop (length A) l p =
    lp_loop (length A + length (entry e)) (length A + length (entry e) + 1) (add_address (fst e, int (snd e)) p)"
proof -
  let ?t = "''(address='' @ fst e @ '',priority='' @ dec_string (snd e)"
  have t: "entry e = ?t @ '')''" by (simp add: entry_def)
  have "find_from CHR '')'' (lp_uri p) (length A) = Some (length A + length ?t)"
    unfolding assms(2) t using find_from_at[OF entry_no_paren[OF assms(1)], of A B] by simp
  moreover have "char_at (lp_uri p) (length A) = CHR ''(''" by (simp add: char_at_def assms(2) t nth_append)
  moreover have "slice (length A) (length A + length ?t + 1) (lp_uri p) = entry e"
    using slice_between[of A "entry e" B] unfolding assms(2) by (simp add: t)
  ultimately show ?thesis
    using assms(3) parse_entry[OF assms(1), of p] by (simp add: lp_loop.simps[of "length A" l p] t)
qed


lemma lp_loop_entries:
  assumes "es \<noteq> []" "list_all entry_ok es" "lp_uri p = A @ join '','' (map entry es) @ B"
    and "lp_end p + 1 = length A + length (join '','' (map entry es))"
  shows "lp_loop (length A) l p = (True, with_entries es p)"
  using assms
proof (induction es arbitrary: A l p rule: induct_list012)
  case (2 e)
  have "lp_loop (length A) l p = lp_loop (length A + length (entry e)) (length A + length (entry e) + 1)
      (add_address (fst e, int (snd e)) p)"
    using 2 by (intro lp_loop_entry) (auto simp: entry_def)
  also have "\<dots> = (True, add_address (fst e, int (snd e)) p)" using 2 by (intro lp_loop_past) simp
  finally show ?case by (simp add: with_entries_def add_address_def split_def)
next
  case (3 e e' es)
  let ?k = "length A + length (entry e)" and ?p = "add_address (fst e, int (snd e)) p"
  let ?rest = "join '','' (map entry (e' # es))"
  have U: "lp_uri p = A @ entry e @ '','' @ ?rest @ B" using 3 by simp
  have "length ?rest > 0" by (cases es) (simp_all add: entry_def)
  then have k: "?k < lp_end p" using 3(6) by simp
  have "lp_loop (length A) l p = lp_loop ?k (?k + 1) ?p"
    using 3(4) U k by (intro lp_loop_entry) auto
  also have "\<dots> = lp_loop (?k + 1) (?k + 1) ?p"
    using k U by (subst lp_loop.simps) (simp add: add_address_def char_at_def nth_append)
  also have "\<dots> = (True, with_entries (e' # es) ?p)"
    using 3(2)[of ?p "A @ entry e @ '',''" "?k + 1"] 3(4,6) U by (simp add: add_address_def)
  finally show ?case by (simp add: add_with_entries)
qed simp


definition by_priority :: "address list \<Rightarrow> address list" where
  "by_priority = sort_key (\<lambda>a. - snd a)"


section \<open>Hosts of a DNS SRV record\<close>

definition before :: "srv_record \<Rightarrow> srv_record \<Rightarrow> bool" where
  "before a b \<longleftrightarrow> sr_priority a < sr_priority b \<or> sr_priority a = sr_priority b \<and> sr_weight b \<le> sr_weight a"

lemma sorted_wrt_concat:
  assumes "sorted_wrt S ks" "\<And>k. k \<in> set ks \<Longrightarrow> sorted_wrt R (g k)"
    and "\<And>k k' x y. S k k' \<Longrightarrow> x \<in> set (g k) \<Longrightarrow> y \<in> set (g k') \<Longrightarrow> R x y"
  shows "sorted_wrt R (concat (map g ks))"
  using assms by (induction ks) (auto simp: sorted_wrt_append)

lemma sorted_wrt_all: "(\<And>x y. x \<in> set xs \<Longrightarrow> y \<in> set xs \<Longrightarrow> R x y) \<Longrightarrow> sorted_wrt R xs"
  by (induction xs) auto

lemma mset_concat_groups:
  assumes "distinct ks" "\<And>k. mset (g k) = filter_mset (\<lambda>x. key x = k) M"
  shows "mset (concat (map g ks)) = filter_mset (\<lambda>x. key x \<in> set ks) M"
  using assms(1)
proof (induction ks)
  case (Cons k ks)
  then have "filter_mset (\<lambda>x. key x \<in> set (k # ks)) M =
      filter_mset (\<lambda>x. key x = k) M + filter_mset (\<lambda>x. key x \<in> set ks) M"
    by (auto intro!: multiset_eqI)
  then show ?case using Cons by (simp add: assms(2))
qed simp

definition weight_group :: "srv_record list \<Rightarrow> nat \<Rightarrow> srv_record list" where
  "weight_group rs w = rev (filter (\<lambda>r. sr_weight r = w) rs)"

definition priority_group :: "srv_record list \<Rightarrow> nat \<Rightarrow> srv_record list" where
  "priority_group rs p = (let ps = filter (\<lambda>r. sr_priority r = p) rs in
     concat (map (weight_group ps) (rev (sorted_list_of_set (sr_weight ` set ps)))))"

lemma mset_priority_group: "mset (priority_group rs p) = filter_mset (\<lambda>r. sr_priority r = p) (mset rs)"
proof -
  let ?ps = "filter (\<lambda>r. sr_priority r = p) rs"
  have "mset (priority_group rs p) =
      filter_mset (\<lambda>r. sr_weight r \<in> set (rev (sorted_list_of_set (sr_weight ` set ?ps)))) (mset ?ps)"
    unfolding priority_group_def Let_def
    by (rule mset_concat_groups) (simp_all only: weight_group_def mset_rev mset_filter rev_rev_ident
      distinct_rev distinct_sorted_list_of_set)
  also have "\<dots> = mset ?ps" by (auto simp: filter_mset_eq_conv intro!: filter_True)
  finally show ?thesis by simp
qed

lemma sorted_priority_group: "sorted_wrt before (priority_group rs p)"
  unfolding priority_group_def Let_def
proof (rule sorted_wrt_concat[where S = "\<lambda>a b. b < a"], goal_cases)
  case 1
  show ?case by (simp add: sorted_wrt_rev strict_sorted_list_of_set)
next
  case (2 w)
  show ?case by (rule sorted_wrt_all) (auto simp: weight_group_def before_def)
next
  case (3 w w' x y)
  then show ?case by (auto simp: weight_group_def before_def)
qed

lemma srv_groups:
  "srv_data_to_hostname_list rs = map (\<lambda>r. (sr_host r, sr_port r))
     (concat (map (priority_group rs) (sorted_list_of_set (sr_priority ` set rs))))"
  by (simp add: srv_data_to_hostname_list_def priority_group_def weight_group_def Let_def map_concat comp_def)

text \<open>
  The hosts of a DNS SRV lookup are exactly those of the records, lower priority numbers first
  and within a priority the heavier weights first.
\<close>

lemma srv_hosts_ordered:
  "\<exists>rs'. mset rs' = mset rs \<and> sorted_wrt before rs' \<and>
     srv_data_to_hostname_list rs = map (\<lambda>r. (sr_host r, sr_port r)) rs'"
proof (intro exI conjI)
  let ?rs = "concat (map (priority_group rs) (sorted_list_of_set (sr_priority ` set rs)))"
  show "mset ?rs = mset rs"
    using mset_concat_groups[of "sorted_list_of_set (sr_priority ` set rs)" "priority_group rs" sr_priority "mset rs"]
    by (simp add: mset_priority_group) (auto simp: filter_mset_eq_conv)
  show "sorted_wrt before ?rs"
  proof (rule sorted_wrt_concat[where S = "(<)"])
    fix p p' x y
    assume "p < p'" "x \<in> set (priority_group rs p)" "y \<in> set (priority_group rs p')"
    then show "before x y"
      by (auto simp: before_def priority_group_def weight_group_def Let_def)
  qed (simp_all add: strict_sorted_list_of_set sorted_priority_group)
qed (rule srv_groups)

text \<open>Connecting sees only the texts of the addresses.\<close>

lemma try_addresses_map:
  "try_addresses (\<lambda>a. one (f a)) err as e s = try_addresses one err (map f as) e s"
  by (induction as arbitrary: e s) (simp_all add: and_then_def split: option.split sum.split prod.split)

definition same_but_ports :: "srv_record option list option \<Rightarrow> srv_record option list option \<Rightarrow> bool" where
  "same_but_ports a b \<longleftrightarrow>
     map_option (map (map_option (\<lambda>r. r\<lparr>sr_port := 0\<rparr>))) a = map_option (map (map_option (\<lambda>r. r\<lparr>sr_port := 0\<rparr>))) b"


lemma query_ports:
  assumes "same_but_ports (dns h) (dns' h)"
  shows "map fst (query_srv_list dns h) = map fst (query_srv_list dns' h)"
proof -
  let ?z = "\<lambda>r. r\<lparr>sr_port := 0\<rparr>"
  have hosts: "map fst (srv_data_to_hostname_list (map ?z rs)) = map fst (srv_data_to_hostname_list rs)" for rs
    by (simp add: srv_data_to_hostname_list_def Let_def map_concat comp_def filter_map rev_map[symmetric]
        image_image split_def)
  show ?thesis
  proof (cases "dns h")
    case None
    then show ?thesis using assms by (cases "dns' h") (auto simp: same_but_ports_def query_srv_list_def)
  next
    case (Some a)
    then obtain b where b: "dns' h = Some b" and eq: "map (map_option ?z) a = map (map_option ?z) b"
      using assms by (cases "dns' h") (auto simp: same_but_ports_def)
    have none: "None \<in> set xs \<longleftrightarrow> None \<in> set (map (map_option ?z) xs)" for xs :: "srv_record option list"
      by (force simp: image_iff)
    have "map ?z (map the xs) = map the (map (map_option ?z) xs)" if "None \<notin> set xs" for xs
      using that by (auto simp: not_None_eq) (metis option.map_sel)
    then have "map ?z (map the a) = map ?z (map the b)" if "None \<notin> set a" "None \<notin> set b"
      using that eq by metis
    then show ?thesis
      using Some b none[of a] none[of b] eq hosts[of "map the a"] hosts[of "map the b"]
      by (auto simp: query_srv_list_def)
  qed
qed

text \<open>
  The ports of DNS SRV records are never used.  Two resolvers that answer with the same records
  up to their ports lead to the same connection, in every detail.
\<close>

lemma srv_ports_never_used:
  assumes "requested_srv_lookup uri = Inr True" "\<And>h. same_but_ports (ue_resolver W h) (dns h)"
  shows "connect_session n (W\<lparr>ue_resolver := dns\<rparr>) E uri s = connect_session n W E uri s"
proof -
  let ?W = "W\<lparr>ue_resolver := dns\<rparr>"
  have same: "ue_php_url_parse ?W = ue_php_url_parse W" "ue_process ?W = ue_process W" "ue_openssl ?W = ue_openssl W"
    by simp_all
  have step: "try_address n ?W E = try_address n W E" by (intro ext) (unfold try_address_def same, rule refl)
  have texts: "map fst (convert_srv_hostname_to_uri hs u) =
      map (\<lambda>h. fst (hd (convert_srv_hostname_to_uri [(h, 0)] u))) (map fst hs)" for hs u
    by (simp add: convert_srv_hostname_to_uri_def split_def)
  show ?thesis
  proof (cases "ue_php_url_parse W uri")
    case None
    then show ?thesis using assms(1)
      by (simp add: connect_session_def find_addresses_def dns_srv_get_hostname_list_def)
  next
    case (Some raw)
    let ?q = "\<lambda>d. query_srv_list d (url_host (url_of_php raw))"
    let ?c = "\<lambda>d. convert_srv_hostname_to_uri (?q d) (url_of_php raw)"
    have q: "map fst (?q dns) = map fst (?q (ue_resolver W))" using assms(2) by (intro query_ports[symmetric])
    then have eq: "map fst (?c dns) = map fst (?c (ue_resolver W))" by (simp only: texts)
    have fnd: "find_addresses V uri = Inr (?c (ue_resolver V), [])" if "ue_php_url_parse V = ue_php_url_parse W" for V
      using assms(1) Some that by (auto simp: find_addresses_def dns_srv_get_hostname_list_def Let_def
          convert_srv_hostname_to_uri_def)
    have len: "length (?c dns) = length (?c (ue_resolver W))" using arg_cong[OF eq, of length] by simp
    have run: "try_addresses (\<lambda>a. try_address n W E (fst a)) err (?c dns) e s =
        try_addresses (\<lambda>a. try_address n W E (fst a)) err (?c (ue_resolver W)) e s" for err e s
      using eq by (simp only: try_addresses_map[of "try_address n W E" fst])
    have f1: "find_addresses ?W uri = Inr (?c dns, [])" using fnd[of ?W] by simp
    show ?thesis unfolding connect_session_def f1 fnd[OF refl] sum.case prod.case step run len ..
  qed
qed

definition some_records :: "nat \<Rightarrow> resolver" where
  "some_records port = (\<lambda>h. Some [Some \<lparr>sr_priority = 1, sr_weight = 2, sr_port = port, sr_host = ''a''\<rparr>])"

definition some_uri_env :: uri_env where
  "some_uri_env = \<lparr>ue_php_url_parse = \<lambda>s. Some (empty_url\<lparr>url_user := ''u'', url_host := ''h''\<rparr>),
     ue_resolver = some_records 1, ue_sort = id,
     ue_process = \<lparr>cp_pid = 1, cp_os = ''Linux'', cp_platform = ''x86_64'', cp_host = None\<rparr>, ue_openssl = True\<rparr>"

lemma srv_ports_never_used_example:
  "\<forall>n E s. connect_session n (some_uri_env\<lparr>ue_resolver := some_records 2\<rparr>) E ''mysqlx+srv://u@h'' s =
     connect_session n some_uri_env E ''mysqlx+srv://u@h'' s"
proof (intro allI)
  fix n E s
  have "requested_srv_lookup ''mysqlx+srv://u@h'' = Inr True" by code_simp
  moreover have "same_but_ports (ue_resolver some_uri_env h) (some_records 2 h)" for h
    by (simp add: same_but_ports_def some_records_def some_uri_env_def)
  ultimately show "connect_session n (some_uri_env\<lparr>ue_resolver := some_records 2\<rparr>) E ''mysqlx+srv://u@h'' s =
      connect_session n some_uri_env E ''mysqlx+srv://u@h'' s"
    by (rule srv_ports_never_used)
qed

end
