(* ===== verification/Session_Steps.thy ===== *)
theory Session_Steps
  imports Failover
begin

text \<open>
  What the steps of a connection leave alone.  \<open>keeps\<close> says that an exchange of messages keeps a part
  of the caller's state, \<open>run_keeps\<close> that a step does; every step over the message layer keeps the
  session's state, attributes and options.  The locale \<open>session_steps\<close> is the contract of steps with
  an invariant, and its interpretations give what holds after \<open>connect\<close>, however the server answers.
\<close>

section \<open>What an exchange leaves alone\<close>

definition keeps :: "('c \<Rightarrow> 'k) \<Rightarrow> pb \<Rightarrow> ('v, 'z, 'c) hstate handlers \<Rightarrow> bool" where
  "keeps f P H \<longleftrightarrow> (\<forall>msg sm r sm'. process_received_message P H msg sm = (r, sm') \<longrightarrow>
     f (fst (fst sm')) = f (fst (fst sm)))"

lemma batch_keeps:
  assumes "keeps f P H" "process_batch (map (process_received_message P H) ms) r0 s = (r, s')"
  shows "f (fst s') = f (fst s)"
  using assms(2)
proof (induction ms arbitrary: r0 s)
  case (Cons m ms)
  obtain r1 s1 ms1 where m: "process_received_message P H m (s, []) = (r1, (s1, ms1))" by (metis prod.exhaust)
  then have "f (fst s1) = f (fst s)" using assms(1) unfolding keeps_def by fastforce
  then show ?case using Cons m by (cases r1) auto
qed simp

lemma round_keeps:
  assumes "keeps f P H" "receive_round io P H sm = (r, sm')"
  shows "f (fst (fst sm')) = f (fst (fst sm))"
proof (cases "snd sm = []")
  case True
  obtain m s1 where fr: "receive_frame io (fst sm) = (m, s1)" by (metis prod.exhaust)
  then have s1: "fst s1 = fst (fst sm)"
    by (auto simp: receive_frame_def Let_def split: prod.splits func_status.splits option.splits)
  show ?thesis
  proof (cases m)
    case None
    then show ?thesis using assms(2) fr s1 True by (auto simp: receive_round_def)
  next
    case (Some msg)
    obtain r1 sm1 where p: "process_received_message P H msg (s1, []) = (r1, sm1)" by (metis prod.exhaust)
    then have "f (fst (fst sm1)) = f (fst s1)" using assms(1) unfolding keeps_def by fastforce
    then show ?thesis using assms(2) fr s1 True Some p by (cases r1) (auto simp: receive_round_def)
  qed
next
  case False
  obtain r1 s1 where p: "process_batch (map (process_received_message P H) (snd sm)) HND_AGAIN (fst sm) = (r1, s1)"
    by (metis prod.exhaust)
  then show ?thesis using assms(2) False batch_keeps[OF assms(1) p] by (cases r1) (auto simp: receive_round_def)
qed

lemma loop_keeps:
  assumes "keeps f P H" "receive_loop n io P H sm = Some (r, s')"
  shows "f (fst s') = f (fst (fst sm))"
  using assms(2)
proof (induction n arbitrary: sm)
  case (Suc n)
  obtain r1 sm1 where rd: "receive_round io P H sm = (r1, sm1)" by (metis prod.exhaust)
  note kept = round_keeps[OF assms(1) rd]
  show ?case
  proof (cases r1)
    case (Inl e)
    then show ?thesis using Suc.prems rd kept by (cases sm1) auto
  next
    case (Inr st)
    show ?thesis
    proof (cases st)
      case None
      then show ?thesis using Suc.prems rd kept Inr by (cases sm1) auto
    next
      case (Some st')
      then show ?thesis using Suc.prems rd kept Inr Suc.IH[of sm1] by (cases "st' = HND_AGAIN") auto
    qed
  qed
qed simp

lemma receive_keeps:
  "keeps f P H \<Longrightarrow> receive_message n io P H s = Some (r, s') \<Longrightarrow> f (fst s') = f (fst s)"
  unfolding receive_message_def by (drule loop_keeps) auto

text \<open>The session's own data: its state, attributes and options.\<close>

definition own :: "auth_session \<Rightarrow> session \<times> attribs \<times> session_auth_data option" where
  "own a = (au_session a, au_attribs a, au_auth a)"

lemma own_upd [simp]:
  "own (a\<lparr>au_client_id := i\<rparr>) = own a" "own (a\<lparr>au_error := e\<rparr>) = own a" "own (a\<lparr>au_raised := w\<rparr>) = own a"
  "own (a\<lparr>au_plugin := p\<rparr>) = own a" "own (a\<lparr>au_mechanisms := m\<rparr>) = own a"
  "own (a\<lparr>au_capabilities := c\<rparr>) = own a"
  by (simp_all add: own_def)

lemma error_keeps:
  "bd_error B \<in> {Some session_handler_on_error, Some on_muted_auth_error} \<Longrightarrow>
   error_then_fail B e a = (r, a') \<Longrightarrow> own a' = own a"
  by (auto simp: error_then_fail_def report_error_def session_handler_on_error_def on_muted_auth_error_def
      raise_session_error_def)

lemma notice_keeps:
  "inspect_notice_frame F P (no_binds\<lparr>bd_client_id := Some set_client_id\<rparr>) n a = (r, a') \<Longrightarrow> own a' = own a"
  by (auto simp: inspect_notice_frame_def no_binds_def inspect_changed_state_def inspect_client_id_def
      set_client_id_def split: option.splits if_splits list.splits)

lemma continue_keeps:
  "auth_start_on_AUTHENTICATE_CONTINUE answer (auth_binds H m) d s = (r, s') \<Longrightarrow> own (fst s') = own (fst s)"
  by (auto simp: auth_start_on_AUTHENTICATE_CONTINUE_def auth_binds_def no_binds_def handler_on_auth_continue_def
      split: option.splits prod.splits sum.splits list.splits)

lemma keepsI:
  assumes "\<And>ty p h sm. handler_of P H ty p = Some (Some h) \<Longrightarrow> f (fst (fst (snd (h sm)))) = f (fst (fst sm))"
    and "on_UNEXPECTED H = None" "on_UNKNOWN H = None"
  shows "keeps f P H"
  unfolding keeps_def
proof (intro allI impI)
  fix msg sm r sm'
  assume p: "process_received_message P H msg sm = (r, sm')"
  show "f (fst (fst sm')) = f (fst (fst sm))"
  proof (cases "server_message_type_is_valid (fst msg)")
    case True
    then show ?thesis
      using p assms(2,3) assms(1)[of "fst msg" "snd msg" _ sm]
      by (cases "handler_of P H (fst msg) (snd msg)")
        (auto simp: process_received_message_def set_client_error_def Let_def split: option.splits)
  next
    case False
    then show ?thesis using p by (auto simp: process_received_message_def set_client_error_def Let_def)
  qed
qed

lemma keeping_keeps: "(\<And>r s'. h s = (r, s') \<Longrightarrow> g s' = g s) \<Longrightarrow> s = fst sm \<Longrightarrow> g (fst (snd (keeping h sm))) = g (fst sm)"
  by (auto simp: keeping_def split: prod.splits)

lemma auth_start_keeps: "keeps own P (auth_start_handlers answer F P (auth_binds H m) :: ('v, 'z, auth_session) hstate handlers)"
proof (rule keepsI)
  have B: "bd_error (auth_binds H m) \<in> {Some session_handler_on_error, Some on_muted_auth_error}"
    "bd_client_id (auth_binds H m) = Some set_client_id"
    by (auto simp: auth_binds_def)
  fix ty p h and sm :: "('v, 'z, auth_session) hstate \<times> messages"
  assume "handler_of P (auth_start_handlers answer F P (auth_binds H m)) ty p = Some (Some h)"
  then consider e where "h = keeping (on_app (error_then_fail (auth_binds H m) e))"
    | d where "h = keeping (auth_start_on_AUTHENTICATE_CONTINUE answer (auth_binds H m) d)"
    | "h = keeping (returning HND_PASS)"
    | n where "h = keeping (on_app (inspect_notice_frame F P (no_binds\<lparr>bd_client_id := Some set_client_id\<rparr>) n))"
    unfolding handler_of_def auth_start_handlers_def B(2) by (auto simp: no_handlers_def split: if_splits)
  then show "own (fst (fst (snd (h sm)))) = own (fst (fst sm))"
    by cases (auto simp: keeping_def on_app_def returning_def split: prod.splits
      dest: error_keeps[OF B(1)] notice_keeps continue_keeps)
qed (simp_all add: auth_start_handlers_def no_handlers_def)

lemma capabilities_get_keeps:
  "keeps (\<lambda>az. own (fst az)) P (capabilities_get_handlers F (no_binds\<lparr>bd_error := Some session_handler_on_error\<rparr>)
      :: ('v, 'z, auth_session \<times> zvalue) hstate handlers)"
proof (rule keepsI)
  let ?B = "no_binds\<lparr>bd_error := Some session_handler_on_error\<rparr>"
  have B: "bd_error ?B \<in> {Some session_handler_on_error, Some on_muted_auth_error}" by simp
  fix ty p h and sm :: "('v, 'z, auth_session \<times> zvalue) hstate \<times> messages"
  assume "handler_of P (capabilities_get_handlers F ?B :: ('v, 'z, auth_session \<times> zvalue) hstate handlers) ty p
    = Some (Some h)"
  then consider e where "h = keeping (on_app (\<lambda>(a, z). case error_then_fail ?B e a of (r, a') \<Rightarrow> (r, (a', z))))"
    | c where "h = keeping (on_app (\<lambda>(a, z). (Inr HND_PASS, (a, capabilities_to_zval F c))))"
    | "h = keeping (returning HND_AGAIN)"
    unfolding handler_of_def capabilities_get_handlers_def by (auto simp: no_handlers_def split: if_splits)
  then show "own (fst (fst (fst (snd (h sm))))) = own (fst (fst (fst sm)))"
    by cases (auto simp: keeping_def on_app_def returning_def split: prod.splits dest: error_keeps[OF B])
qed (simp_all add: capabilities_get_handlers_def no_handlers_def)


section \<open>What connecting leaves alone\<close>

text \<open>A run that ends keeps \<open>g\<close> of its state.\<close>

definition run_keeps :: "('s \<Rightarrow> 'k) \<Rightarrow> ('s \<Rightarrow> ('a, 's) run) \<Rightarrow> bool" where
  "run_keeps g f \<longleftrightarrow> (\<forall>s r s'. f s = Some (r, s') \<longrightarrow> g s' = g s)"

lemma run_keepsD: "run_keeps g f \<Longrightarrow> f s = Some (r, s') \<Longrightarrow> g s' = g s"
  by (simp add: run_keeps_def)

lemma and_then_keeps:
  assumes "\<And>r' s''. m = Some (r', s'') \<Longrightarrow> g s'' = g s" "\<And>x. run_keeps g (k x)"
    and "and_then m k = Some (r, s')"
  shows "g s' = g s"
  using assms by (auto simp: and_then_def run_keeps_def split: option.splits prod.splits sum.splits)

abbreviation owns :: "('v, 'z) auth_state \<Rightarrow> session \<times> attribs \<times> session_auth_data option" where
  "owns s \<equiv> own (fst s)"

lemma caps_read_keeps: "run_keeps owns (caps_get_read n E)"
  unfolding run_keeps_def
proof (intro allI impI)
  fix s r s' assume "caps_get_read n E s = Some (r, s')"
  then obtain r' a z ctx where "receive_message n (ae_io E) (ae_pb E)
      (capabilities_get_handlers (ae_floats E) (no_binds\<lparr>bd_error := Some session_handler_on_error\<rparr>))
      ((fst s, Undefined), snd s) = Some (r', ((a, z), ctx))" "s' = (a, ctx)"
    by (auto simp: caps_get_read_def split: prod.splits)
  then show "owns s' = owns s" using receive_keeps[OF capabilities_get_keeps] by fastforce
qed

lemma init_capabilities_keeps: "run_keeps owns (init_capabilities n E)"
  unfolding run_keeps_def init_capabilities_def
  by (auto split: prod.splits if_splits)
    (auto simp: and_then_def split: option.splits prod.splits sum.splits dest!: run_keepsD[OF caps_read_keeps])

lemma compression_keeps: "run_keeps owns (setup_compression n E avail pol algs caps)"
  unfolding run_keeps_def setup_compression_def by (auto split: prod.splits sum.splits)

lemma caps_set_keeps: "run_keeps owns (caps_set_get n E caps)"
  unfolding run_keeps_def caps_set_get_def
  by (auto split: prod.splits if_splits)
    (auto simp: and_then_def split: option.splits prod.splits sum.splits dest!: run_keepsD[OF caps_read_keeps])

lemma crypto_keeps: "run_keeps owns (setup_crypto_connection n E auth)"
  unfolding run_keeps_def setup_crypto_connection_def try_setup_crypto_connection_def Let_def set_error_info_def
  by (auto split: prod.splits if_splits option.splits)
    (auto simp: and_then_def split: option.splits prod.splits sum.splits if_splits dest!: run_keepsD[OF caps_read_keeps])

lemma attributes_keep: "run_keeps owns (send_client_attributes n E attribs)"
  unfolding run_keeps_def send_client_attributes_def
  by (auto split: if_splits dest!: run_keepsD[OF caps_set_keeps])

lemma plugin_keeps: "run_keeps owns (authenticate_with_plugin n E m p)"
  unfolding run_keeps_def authenticate_with_plugin_def
  by (auto simp: Let_def split: prod.splits if_splits dest!: receive_keeps[OF auth_start_keeps])

lemma try_keeps: "(\<And>m. run_keeps g (one m)) \<Longrightarrow> run_keeps g (try_mechanisms one ms)"
proof (induction ms)
  case (Cons m ms)
  show ?case
    unfolding run_keeps_def
    using run_keepsD[OF Cons.prems] run_keepsD[OF Cons.IH[OF Cons.prems]]
    by (auto split: option.splits prod.splits sum.splits bool.splits)
qed (simp add: run_keeps_def)


lemma login_keeps: "run_keeps owns (authentication_loop n E ax ms)"
  unfolding run_keeps_def
proof (intro allI impI)
  fix s r s'
  let ?one = "\<lambda>m s. case create_auth_plugin m ax of None \<Rightarrow> Some (Inl Null_dereference, s)
    | Some p \<Rightarrow> authenticate_with_plugin n E (1 < length ms) p s"
  have "run_keeps owns (?one m)" for m
    unfolding run_keeps_def by (auto split: option.splits dest: run_keepsD[OF plugin_keeps])
  then have tr: "run_keeps owns (try_mechanisms ?one ms)" by (rule try_keeps)
  assume run: "authentication_loop n E ax ms s = Some (r, s')"
  define t where "t = try_mechanisms ?one ms s"
  have t: "(case t of Some (Inr False, s1) \<Rightarrow>
      Some (Inr False, if 1 < length ms then (multiple_mechanisms_error ms (fst s1), snd s1) else s1)
    | r \<Rightarrow> r) = Some (r, s')"
    using run unfolding authentication_loop_def Let_def t_def .
  then obtain r0 s0 where t0: "t = Some (r0, s0)" by (cases t) auto
  then have "owns s0 = owns s" using run_keepsD[OF tr] t_def by simp
  then show "owns s' = owns s"
    using t unfolding t0
    by (auto simp: multiple_mechanisms_error_def raise_session_error_def split: sum.splits bool.splits if_splits)
qed

lemma open_keeps: "run_keeps owns (open_stream E auth)"
  unfolding run_keeps_def open_stream_def by (auto split: prod.splits sum.splits if_splits)

section \<open>Invariants of the steps\<close>

definition leads :: "('s \<Rightarrow> bool) \<Rightarrow> ('a, 's) run \<Rightarrow> bool" where
  "leads I m \<longleftrightarrow> (\<forall>r s'. m = Some (r, s') \<longrightarrow> I s')"

definition run_inv :: "('s \<Rightarrow> bool) \<Rightarrow> ('s \<Rightarrow> ('a, 's) run) \<Rightarrow> bool" where
  "run_inv I f \<longleftrightarrow> (\<forall>s. I s \<longrightarrow> leads I (f s))"

lemma leads_simps [simp]: "leads I (Some (r, s)) = I s" "leads I None"
  by (simp_all add: leads_def)

lemma run_invI: "(\<And>s. I s \<Longrightarrow> leads I (f s)) \<Longrightarrow> run_inv I f"
  by (simp add: run_inv_def)

lemma run_invD: "run_inv I f \<Longrightarrow> I s \<Longrightarrow> leads I (f s)"
  by (simp add: run_inv_def)

lemma leads_and_then [intro]:
  "leads I m \<Longrightarrow> (\<And>x s. I s \<Longrightarrow> leads I (k x s)) \<Longrightarrow> leads I (and_then m k)"
  by (auto simp: leads_def and_then_def split: option.splits prod.splits sum.splits)

text \<open>The contract of the steps with an invariant: each of them keeps it.\<close>

locale session_steps =
  fixes ops :: "'s auth_ops" and I :: "'s \<Rightarrow> bool"
  assumes capabilities: "I s \<Longrightarrow> leads I (ao_capabilities ops s)"
    and compression: "I s \<Longrightarrow> leads I (ao_compression ops c s)"
    and crypto: "I s \<Longrightarrow> leads I (ao_crypto ops s)"
    and login: "I s \<Longrightarrow> leads I (ao_login ops ms s)"
    and attributes: "I s \<Longrightarrow> leads I (ao_attributes ops s)"
    and no_tls: "I s \<Longrightarrow> I (ao_no_tls ops s)"
    and save: "I s \<Longrightarrow> I (ao_save ops c s)"
    and state: "I s \<Longrightarrow> st \<noteq> SESSION_ALLOCATED \<Longrightarrow> I (ao_state ops st s)"
begin

lemma init: "I s \<Longrightarrow> leads I (init_connection ops mode caps s)"
  unfolding init_connection_def by (auto intro!: leads_and_then crypto no_tls)

lemma auth: "I s \<Longrightarrow> leads I (run_auth ops mode user s)"
  unfolding run_auth_def Let_def
  by (rule leads_and_then[OF capabilities])
    (auto intro!: leads_and_then compression init state login split: option.split)

lemma authenticate: "I s \<Longrightarrow> leads I (session_authenticate ops mode user re s)"
  unfolding session_authenticate_def run_re_auth_def
  by (auto intro!: leads_and_then auth login save split: option.split)

lemma after_open:
  "I (ao_state ops SESSION_CONNECTING s) \<Longrightarrow>
   leads I (and_then (ao_attributes ops (ao_state ops SESSION_CONNECTING s))
     (\<lambda>st s2. if st \<noteq> PASS then Some (Inr st, s2) else session_authenticate ops mode user None s2))"
  by (auto intro!: leads_and_then attributes authenticate)

end

lemma keeps_inv: "run_keeps g f \<Longrightarrow> (\<And>s s'. g s' = g s \<Longrightarrow> I s \<Longrightarrow> I s') \<Longrightarrow> run_inv I f"
  unfolding run_keeps_def run_inv_def leads_def by blast

text \<open>An invariant of the session's own data that survives a change of state survives every step.\<close>

lemma wire_steps:
  assumes "\<And>s s'. owns s' = owns s \<Longrightarrow> I s \<Longrightarrow> I s'"
    and "\<And>st a c. I (a, c) \<Longrightarrow> st \<noteq> SESSION_ALLOCATED \<Longrightarrow> I (a\<lparr>au_session := state_set st (au_session a)\<rparr>, c)"
  shows "session_steps (wire_ops n E auth schema attribs) I"
proof -
  have inv: "run_inv I (init_capabilities n E)" "run_inv I (setup_compression n E av pol algs caps)"
    "run_inv I (setup_crypto_connection n E auth)" "run_inv I (send_client_attributes n E attribs)"
    "run_inv I (authentication_loop n E ax ms)" for av pol algs caps ax ms
    using init_capabilities_keeps compression_keeps crypto_keeps attributes_keep login_keeps assms(1)
    by (auto intro!: keeps_inv[where g = owns and I = I])
  have login: "leads I (authentication_loop n E ax ms ((fst s)\<lparr>au_mechanisms := ms\<rparr>, snd s))" if "I s" for ax ms s
  proof -
    have "I ((fst s)\<lparr>au_mechanisms := ms\<rparr>, snd s)" using that by (rule assms(1)[rotated]) simp
    then show ?thesis by (rule run_invD[OF inv(5)])
  qed
  show ?thesis
    using inv(1-4) login assms(2) assms(1)[of "(no_tls_warning a, c)" "(a, c)" for a c]
      assms(1)[of "(a\<lparr>au_capabilities := z\<rparr>, c)" "(a, c)" for a c z]
    by unfold_locales (auto simp: wire_ops_def no_tls_warning_def run_inv_def)
qed

definition used :: "('v, 'z) auth_state \<Rightarrow> bool" where
  "used s \<longleftrightarrow> sn_state (au_session (fst s)) \<noteq> SESSION_ALLOCATED"

definition with_attribs :: "attribs \<Rightarrow> ('v, 'z) auth_state \<Rightarrow> bool" where
  "with_attribs A s \<longleftrightarrow> au_attribs (fst s) = A"

interpretation used: session_steps "wire_ops n E auth schema attribs" used for n E auth schema attribs
  by (rule wire_steps) (auto simp: used_def own_def state_set_def)

interpretation kept: session_steps "wire_ops n E auth schema attribs" "with_attribs A" for n E auth schema attribs A
  by (rule wire_steps) (auto simp: with_attribs_def own_def)

section \<open>Attributes over the attempts\<close>

lemma attribs_simps [simp]:
  "au_attribs (fst (connect_prepare E s)) = au_attribs (fst s)"
  "au_attribs (fst (connect_failed s)) = au_attribs (fst s)"
  "au_attribs (fst (snd (connect_done auth s))) = au_attribs (fst s)"
  "au_attribs (default_error e a) = au_attribs a"
  "au_attribs (raise_exceptions cs a) = au_attribs a" "au_attribs (raise_warnings ws a) = au_attribs a"
  by (auto simp: connect_prepare_def connect_failed_def connect_done_def session_cleanup_def default_error_def
      raise_session_error_def raise_exceptions_def raise_warnings_def Let_def)

lemma get_scheme_attribs: "get_scheme env h port a = Inr (sch, a') \<Longrightarrow> au_attribs a' = au_attribs a"
  by (auto simp: get_scheme_def split: transport_type.splits)

lemma with_attribs_simps [simp]:
  "with_attribs A (connect_prepare E s) = with_attribs A s"
  "with_attribs A (connect_failed s) = with_attribs A s"
  "with_attribs A (default_error e a, c) = with_attribs A (a, c)"
  by (simp_all add: with_attribs_def)

lemma connect_done_attribs: "connect_done auth s = (r, s') \<Longrightarrow> with_attribs A s \<Longrightarrow> with_attribs A s'"
  using attribs_simps(3)[of auth s] by (simp add: with_attribs_def)

lemma handshake_attribs:
  assumes "with_attribs A s"
  shows "leads (with_attribs A) (connect_handshake (wire_ops n E auth schema at) mode user s)"
  unfolding connect_handshake_def
proof (rule leads_and_then)
  have "run_inv (with_attribs A) (open_stream E auth)"
    by (rule keeps_inv[OF open_keeps]) (simp add: own_def with_attribs_def)
  from run_invD[OF this assms] show "leads (with_attribs A) (ao_open (wire_ops n E auth schema at) s)"
    by (simp add: wire_ops_def)
next
  fix st and s1 :: "('a, 'b) auth_state"
  assume s1: "with_attribs A s1"
  let ?s = "ao_state (wire_ops n E auth schema at) SESSION_CONNECTING s1"
  have "with_attribs A ?s" by (rule kept.state[OF s1]) simp
  from kept.after_open[OF this] show "leads (with_attribs A) (if st \<noteq> PASS then Some (Inr FAIL, s1)
    else and_then (ao_attributes (wire_ops n E auth schema at) ?s) (\<lambda>st s2.
      if st \<noteq> PASS then Some (Inr st, s2)
      else session_authenticate (wire_ops n E auth schema at) mode user None s2))"
    using s1 by simp
qed

lemma connect_keeps_attribs:
  assumes "with_attribs A s"
  shows "leads (with_attribs A) (connect n E schema port s)"
proof (cases "au_auth (fst (connect_prepare E s))")
  case None
  then show ?thesis using assms by (simp add: connect_def Let_def with_attribs_def)
next
  case (Some auth)
  let ?a = "(fst (connect_prepare E s))\<lparr>au_default_schema := schema\<rparr>"
  show ?thesis
  proof (cases "get_scheme (ae_env E) (sa_hostname auth) port ?a")
    case (Inl e)
    then show ?thesis using assms Some by (simp add: connect_def Let_def with_attribs_def)
  next
    case (Inr sa)
    obtain sch a2 where sa: "sa = (sch, a2)" by fastforce
    have a2: "with_attribs A (a2\<lparr>au_scheme := z\<rparr>, c)" "with_attribs A (a2, c)" for z c
      using get_scheme_attribs[OF Inr[unfolded sa]] assms by (simp_all add: with_attribs_def)
    note h = handshake_attribs[OF a2(1)]
    show ?thesis
      using a2 Some Inr sa
      by (auto simp: connect_def Let_def intro!: leads_and_then h dest: connect_done_attribs split: prod.split)
  qed
qed

lemma connect_attribs:
  assumes "connect n E schema port s = Some (r, s')"
  shows "au_attribs (fst s') = au_attribs (fst s)"
  using connect_keeps_attribs[of "au_attribs (fst s)" s n E schema port] assms by (simp add: with_attribs_def)

lemma establish_attribs:
  "establish_connection n E auth u ty s = Some (r, s') \<Longrightarrow> au_attribs (fst s') = au_attribs (fst s)"
  unfolding establish_connection_def xmysqlnd_session_connect_def Let_def
  by (auto split: if_splits dest!: connect_attribs)

end
