(* ===== verification/Auth_Props.thy ===== *)
theory Auth_Props
  imports Session_Steps Reader_Props
begin

text \<open>
  Properties of connecting and authenticating: what a second address of a URI meets in the session
  that the first one has used, the order of TLS, client attributes and log in, and the answer to the
  challenge of the server.
\<close>

unbundle bit_operations_syntax

section \<open>A used session\<close>

lemma handshake_used:
  assumes "\<And>scheme t v. fst (ae_connect E scheme t v) = PASS"
    and "connect_handshake (wire_ops n E auth schema attribs) mode user s = Some (Inr r, s')"
  shows "used s'"
proof -
  let ?ops = "wire_ops n E auth schema attribs"
  obtain t where t: "set_connection_timeout (ae_env E) (sa_connection_timeout auth) = Inr t"
    using assms(2) by (cases "set_connection_timeout (ae_env E) (sa_connection_timeout auth)")
      (auto simp: connect_handshake_def wire_ops_def open_stream_def)
  obtain err v where "ae_connect E (au_scheme (fst s)) t (mc_vio (snd s)) = (PASS, err, v)"
    using assms(1) by (metis prod.exhaust fst_conv)
  then obtain s1 where o: "ao_open ?ops s = Some (Inr PASS, s1)"
    using t by (simp add: wire_ops_def open_stream_def)
  have "used (ao_state ?ops SESSION_CONNECTING s1)" by (simp add: wire_ops_def used_def state_set_def)
  note used.after_open[OF this]
  then show ?thesis using assms(2) by (cases s') (simp add: connect_handshake_def o leads_def)
qed

lemma cleanup_used [simp]: "used (session_cleanup s) = used s"
  by (simp add: session_cleanup_def used_def)

lemma connect_failed_used [simp]: "used (connect_failed s) = used s"
  by (auto simp: connect_failed_def used_def session_cleanup_def raise_session_error_def)

text \<open>A session that was used loses its options before it connects.\<close>

lemma connect_used:
  assumes "used s"
  shows "\<exists>s'. connect n E schema port s = Some (Inl Null_dereference, s')"
  using assms by (auto simp: connect_def connect_prepare_def used_def session_cleanup_def Let_def)

lemma connect_done_used: "connect_done auth s = (r, s') \<Longrightarrow> used s'"
  by (auto simp: connect_done_def Let_def split: if_splits) (simp_all add: used_def state_set_def)

lemma and_then_SomeD:
  "and_then m k = Some (Inr y, s') \<Longrightarrow> \<exists>x s1. m = Some (Inr x, s1) \<and> k x s1 = Some (Inr y, s')"
  by (auto simp: and_then_def split: option.splits prod.splits sum.splits)

lemma connect_fail_used:
  assumes "\<And>scheme t v. fst (ae_connect E scheme t v) = PASS" "au_transport (fst s) = Network"
    and "connect n E schema port s = Some (Inr FAIL, s1)"
  shows "used s1"
proof -
  let ?a = "(fst (connect_prepare E s))\<lparr>au_default_schema := schema\<rparr>"
  obtain auth where auth: "au_auth ?a = Some auth"
    using assms(3) by (cases "au_auth ?a") (auto simp: connect_def Let_def)
  have "au_transport ?a = Network"
    using assms(2) by (simp add: connect_prepare_def session_cleanup_def Let_def)
  then obtain scheme where sc: "get_scheme (ae_env E) (sa_hostname auth) port ?a = Inr (scheme, ?a)" "scheme \<noteq> []"
    using assms(3) auth by (auto simp: connect_def get_scheme_def Let_def split: sum.splits if_splits)
  define K :: "func_status \<Rightarrow> ('a, 'b) auth_state \<Rightarrow> (func_status, ('a, 'b) auth_state) run" where
    "K = (\<lambda>st s3. if st = PASS then (case connect_done auth s3 of (r, s4) \<Rightarrow> Some (Inr r, s4))
      else Some (Inr st, connect_failed (default_error (2008, ''HY000'', ''Out of memory'') (fst s3), snd s3)))"
  have "and_then (connect_handshake (wire_ops n E auth schema (au_attribs ?a)) (sa_ssl_mode auth)
      (sa_auth_mechanism auth) (?a\<lparr>au_scheme := scheme\<rparr>, snd (connect_prepare E s))) K = Some (Inr FAIL, s1)"
    using assms(3) sc auth unfolding K_def by (simp add: connect_def Let_def)
  from and_then_SomeD[OF this] obtain st s3 where
    h: "connect_handshake (wire_ops n E auth schema (au_attribs ?a)) (sa_ssl_mode auth)
      (sa_auth_mechanism auth) (?a\<lparr>au_scheme := scheme\<rparr>, snd (connect_prepare E s)) = Some (Inr st, s3)"
    and r: "K st s3 = Some (Inr FAIL, s1)"
    by blast
  have "used s3" by (rule handshake_used[OF assms(1) h])
  then have "used (default_error e (fst s3), snd s3)" for e by (simp add: used_def default_error_def)
  then show ?thesis using r connect_done_used[of auth s3 FAIL s1]
    by (auto simp: K_def split: if_splits prod.splits)
qed

text \<open>
  C29: there is no second attempt on a session whose stream was opened once.  When an attempt has
  opened the stream and then failed, at TLS, at the attributes or at the log in, the next attempt on
  the same session, which is how the hosts of a URI are tried in turn, frees the data of the options
  in \<^verbatim>\<open>cleanup\<close> and then reads the host from it: a null pointer.
\<close>

theorem second_host_crashes:
  assumes "\<And>scheme t v. fst (ae_connect E scheme t v) = PASS" "au_transport (fst s) = Network"
    and "xmysqlnd_session_connect n E auth schema port s = Some (Inr FAIL, s1)"
  shows "\<exists>s2. xmysqlnd_session_connect n E auth' schema' port' s1 = Some (Inl Null_dereference, s2)"
proof -
  have "used s1"
    using assms(3) unfolding xmysqlnd_session_connect_def
    by (rule connect_fail_used[OF assms(1), rotated]) (simp add: assms(2))
  then show ?thesis
    unfolding xmysqlnd_session_connect_def by (intro connect_used) (simp add: used_def)
qed


text \<open>A server that is reached and never answers, and one that is not reached.\<close>

definition mute_server :: "(unit, unit) auth_env" where
  "mute_server = \<lparr>ae_io = \<lparr>has_valid_stream = \<lambda>v. False, network_write = \<lambda>v bs. (v, 0),
       network_read = \<lambda>v n. (v, None)\<rparr>,
     ae_lib = plain_compressor, ae_floats = some_floats, ae_pb = some_pb,
     ae_hashes = \<lparr>hs_sha256 = \<lambda>b. replicate 32 7, hs_mysqlnd_scramble = \<lambda>s p. replicate 20 7\<rparr>,
     ae_addr = 1, ae_capabilities_get = [], ae_capabilities_set = \<lambda>z. [], ae_auth_start = \<lambda>m d. d,
     ae_auth_continue = \<lambda>d. d, ae_crypto = \<lambda>m os v. (True, v), ae_connect = \<lambda>sch t v. (PASS, None, v),
     ae_avail = \<lambda>a. False, ae_tls13 = True, ae_env = \<lambda>v. None, ae_supported = True\<rparr>"

definition absent_server :: "(unit, unit) auth_env" where
  "absent_server = mute_server\<lparr>ae_connect := \<lambda>sch t v. (FAIL, Some (2002, ''HY000'', ''refused''), v)\<rparr>"

definition network_session :: "(unit, unit) auth_state" where
  "network_session = ((new_auth_session 1)\<lparr>au_transport := Network\<rparr>,
     \<lparr>mc_vio = (), mc_executor = None, mc_error = None\<rparr>)"

lemma default_timeout: "set_connection_timeout (\<lambda>v. None) None = Inr (Some 10)"
  by code_simp

lemma server_env:
  "ae_env mute_server v = None" "ae_env mute_server = (\<lambda>v. None)" "ae_connect mute_server sch t u = (PASS, None, u)"
  "ae_env absent_server = (\<lambda>v. None)" "ae_connect absent_server sch t u = (FAIL, Some (2002, ''HY000'', ''refused''), u)"
  "ae_tls13 absent_server"
  by (simp_all add: mute_server_def absent_server_def)

lemma mute_send: "mc_executor ctx = None \<Longrightarrow> auth_send mute_server ty p ctx = (FAIL, ctx)"
  by (simp add: auth_send_def send_message_def send_frames_def pfc_send_def mute_server_def)

lemma mute_attempt:
  "map_option fst (xmysqlnd_session_connect 1 mute_server (new_auth_data\<lparr>sa_hostname := ''h1''\<rparr>) ''db'' 1
     network_session) = Some (Inr FAIL)"
  by (simp add: xmysqlnd_session_connect_def connect_def connect_prepare_def network_session_def new_auth_session_def
      new_session_def get_scheme_def connect_handshake_def wire_ops_def open_stream_def server_env default_timeout
      new_auth_data_def send_client_attributes_def session_authenticate_def run_auth_def init_capabilities_def mute_send)

theorem second_host_crashes_witness:
  "\<exists>s1 s2. xmysqlnd_session_connect 1 mute_server (new_auth_data\<lparr>sa_hostname := ''h1''\<rparr>) ''db'' 1 network_session =
       Some (Inr FAIL, s1) \<and>
     xmysqlnd_session_connect 1 mute_server (new_auth_data\<lparr>sa_hostname := ''h2''\<rparr>) ''db'' 1 s1 =
       Some (Inl Null_dereference, s2)"
proof -
  obtain s1 where s1: "xmysqlnd_session_connect 1 mute_server (new_auth_data\<lparr>sa_hostname := ''h1''\<rparr>) ''db'' 1
      network_session = Some (Inr FAIL, s1)"
    using mute_attempt by auto
  have "\<exists>s2. xmysqlnd_session_connect 1 mute_server (new_auth_data\<lparr>sa_hostname := ''h2''\<rparr>) ''db'' 1 s1 =
      Some (Inl Null_dereference, s2)"
    by (rule second_host_crashes[OF _ _ s1]) (simp_all add: mute_server_def network_session_def)
  then show ?thesis using s1 by blast
qed

section \<open>Attributes of the connection\<close>

lemma parsed_keys:
  "parse_attributes as acc = Inr (ok, acc', raised) \<Longrightarrow> ok \<Longrightarrow>
   set acc \<subseteq> set acc' \<and> (\<forall>a\<in>set as. a \<noteq> [] \<longrightarrow> fst (fst (parse_attribute a)) \<in> fst ` set acc')"
proof (induction as arbitrary: acc)
  case (Cons a as)
  show ?case
  proof (cases "a = []")
    case True
    then show ?thesis using Cons by simp
  next
    case False
    obtain kv cs where kv: "parse_attribute a = (kv, cs)" by fastforce
    then have rest: "parse_attributes as (acc @ [kv]) = Inr (ok, acc', raised)"
      using Cons(2,3) False by (auto split: if_splits)
    show ?thesis using Cons.IH[OF rest Cons(3)] kv False by (auto simp: image_iff)
  qed
qed simp

lemma parse_again:
  assumes "\<forall>a\<in>set as. a \<noteq> [] \<longrightarrow> fst (fst (parse_attribute a)) \<in> fst ` set acc" "\<exists>a\<in>set as. a \<noteq> []"
  shows "parse_attributes as acc = Inl Conn_attrib_dup_key"
  using assms
proof (induction as)
  case (Cons a as)
  then show ?case by (cases "parse_attribute a") auto
qed simp

definition has_attributes :: "string \<Rightarrow> bool" where
  "has_attributes user \<longleftrightarrow> \<not> iequal user ''true'' \<and> \<not> iequal user ''false'' \<and>
     (\<exists>a\<in>set (single_separator_split user CHR '',''). a \<noteq> [])"

text \<open>The list of attributes in a URI.\<close>

definition attribute_list :: "string \<Rightarrow> string \<Rightarrow> bool" where
  "attribute_list uri user \<longleftrightarrow> (\<exists>p. find_text ''connection-attributes'' uri = Some p \<and>
     char_at uri (p + 21) = CHR ''='' \<and> char_at uri (p + 22) = CHR ''['' \<and>
     (\<exists>e. find_from CHR '']'' uri (p + 22) = Some e \<and> slice (p + 23) e uri = user))"

lemma extract_list:
  assumes "attribute_list uri user"
  shows "extract_connection_attributes cp uri acc = check_attribs_length (parse_conn_attrib cp user True acc)"
proof -
  have ne: "uri \<noteq> []"
    using assms by (auto simp: attribute_list_def char_at_def)
  have n: "p + length ''connection-attributes'' = p + 21" for p :: nat by simp
  obtain p e where p: "find_text ''connection-attributes'' uri = Some p" "char_at uri (p + 21) = CHR ''=''"
    "char_at uri (p + 22) = CHR ''[''" and e: "find_from CHR '']'' uri (p + 22) = Some e" "slice (p + 23) e uri = user"
    using assms unfolding attribute_list_def by blast
  have s: "p + 21 + 1 = p + 22" "p + 21 + 2 = p + 23" by simp_all
  show ?thesis
    unfolding extract_connection_attributes_def p(1) option.case Let_def n s p(2,3) e using ne by simp
qed

lemma repeated_attributes:
  assumes "has_attributes user" "parse_conn_attrib cp user True [] = Inr (True, acc, raised)"
  shows "parse_conn_attrib cp' user True acc = Inl Conn_attrib_dup_key"
proof -
  let ?as = "single_separator_split user CHR '',''"
  have ne: "user \<noteq> []" using assms(1) by (auto simp: has_attributes_def single_separator_split_def)
  then obtain acc1 where p: "parse_attributes ?as [] = Inr (True, acc1, raised)"
    and acc: "acc = acc1 @ get_def_client_attribs cp"
    using assms by (auto simp: parse_conn_attrib_def has_attributes_def map_sum_def split: sum.splits if_splits)
  have "\<forall>a\<in>set ?as. a \<noteq> [] \<longrightarrow> fst (fst (parse_attribute a)) \<in> fst ` set acc"
    using parsed_keys[OF p] acc by auto
  then show ?thesis
    using parse_again[of ?as acc] assms(1) ne by (simp add: parse_conn_attrib_def has_attributes_def)
qed

text \<open>
  A list of client attributes makes the fall back to another host fail.  The attributes of the
  URI are collected again for every address into the same session, so after the failed attempt on
  one address the next one finds its keys taken and throws the error of a duplicate key, whatever the
  second address is.
\<close>

lemma second_host_repeats_attributes:
  assumes "has_attributes user" "attribute_list uri user" "attribute_list uri' user" "au_attribs (fst s) = []"
    and "try_address n W E uri s = Some (Inr (Some (FAIL, attempted)), s1)"
    and "extract_uri_information (ue_php_url_parse W) (ae_env E) uri' = Inr (u', ty')" "\<not> url_empty u'"
  shows "try_address n W E uri' s1 = Some (Inl Conn_attrib_dup_key, s1)"
proof -
  obtain acc raised where ex: "extract_connection_attributes (ue_process W) uri [] = Inr (True, acc, raised)"
    and acc: "au_attribs (fst s1) = acc"
    using assms(4,5)
    by (auto simp: try_address_def Let_def split: sum.splits prod.splits if_splits option.splits
      dest!: and_then_SomeD establish_attribs)
  then have "parse_conn_attrib (ue_process W) user True [] = Inr (True, acc, raised)"
    using extract_list[OF assms(2)]
    by (auto simp: check_attribs_length_def map_sum_def split: sum.splits if_splits)
  from repeated_attributes[OF assms(1) this]
  show ?thesis
    using extract_list[OF assms(3)] assms(6,7)
    by (simp add: try_address_def acc check_attribs_length_def)
qed

text \<open>A URI with one attribute, and a parser of it that knows nothing else.\<close>

definition two_hosts :: uri_env where
  "two_hosts = \<lparr>ue_php_url_parse = \<lambda>uri. Some (empty_url\<lparr>url_user := ''u'', url_host := ''h'', url_port := 1, url_path := ''/db'',
       url_query := ''connection-attributes=[a=b]&ssl-mode=disabled''\<rparr>),
     ue_resolver = \<lambda>h. None, ue_sort = id,
     ue_process = \<lparr>cp_pid = 1, cp_os = ''linux'', cp_platform = ''x86'', cp_host = None\<rparr>, ue_openssl = True\<rparr>"


lemma one_attribute:
  "attribute_list ''tcp://u@h1:1/db?connection-attributes=[a=b]&ssl-mode=disabled'' ''a=b''"
  "attribute_list ''tcp://u@h2:1/db?connection-attributes=[a=b]&ssl-mode=disabled'' ''a=b''"
  unfolding attribute_list_def by (rule exI[of _ 16]; intro conjI exI[of _ 42]; code_simp)+

lemma absent_attempt:
  "map_option fst (try_address 1 two_hosts absent_server ''tcp://u@h1:1/db?connection-attributes=[a=b]&ssl-mode=disabled'' network_session) =
     Some (Inr (Some (FAIL, True)))"
proof -
  let ?uri = "''tcp://u@h1:1/db?connection-attributes=[a=b]&ssl-mode=disabled''"
  define u where "u = empty_url\<lparr>url_user := ''u'', url_host := ''h'', url_port := 1, url_path := ''db'',
       url_query := ''connection-attributes=[a=b]&ssl-mode=disabled''\<rparr>"
  have 1: "extract_uri_information (ue_php_url_parse two_hosts) (\<lambda>v. None) ?uri = Inr (u, Network)" "\<not> url_empty u"
    unfolding u_def by (code_simp, code_simp)

  have "parse_conn_attrib (ue_process two_hosts) ''a=b'' True [] = Inr (True, (''a'', ''b'') #
      [(''_client_name'', ''mysql-connector-php''), (''_pid'', ''1''), (''_os'', ''linux''), (''_client_version'', ''8.0.30''),
       (''_client_license'', ''PHP License, version 3.01''), (''_platform'', ''x86'')], [])"
    by code_simp
  then have 2: "\<exists>attribs. extract_connection_attributes (ue_process two_hosts) ?uri [] = Inr (True, attribs, [])"
    by (simp add: extract_list[OF one_attribute(1)] check_attribs_length_def)
  have "map_sum id (map_option (\<lambda>(a, w). (sa_connection_timeout a, sa_ssl_mode a))) (extract_auth_information True u) =
      Inr (Some (None, Ssl_disabled))"
    unfolding u_def by code_simp
  then have 3: "\<exists>auth ws. extract_auth_information True u = Inr (Some (auth, ws)) \<and> sa_connection_timeout auth = None \<and>
      sa_ssl_mode auth = Ssl_disabled"
    by (cases "extract_auth_information True u") auto
  have "url_port u = 1" by (simp add: u_def)
  then show ?thesis
    using 1 2 3
    by (auto simp: try_address_def server_env network_session_def new_auth_session_def raise_warnings_def raise_exceptions_def
      establish_connection_def xmysqlnd_session_connect_def connect_def connect_prepare_def new_session_def get_scheme_def
      connect_handshake_def wire_ops_def open_stream_def default_timeout Let_def)
qed
lemma second_host_repeats_attributes_example:
  "\<exists>s1. try_address 1 two_hosts absent_server ''tcp://u@h1:1/db?connection-attributes=[a=b]&ssl-mode=disabled'' network_session =
       Some (Inr (Some (FAIL, True)), s1) \<and>
     try_address 1 two_hosts absent_server ''tcp://u@h2:1/db?connection-attributes=[a=b]&ssl-mode=disabled'' s1 =
       Some (Inl Conn_attrib_dup_key, s1)"
proof -
  let ?uri = "''tcp://u@h1:1/db?connection-attributes=[a=b]&ssl-mode=disabled''" and ?uri' = "''tcp://u@h2:1/db?connection-attributes=[a=b]&ssl-mode=disabled''"
  obtain s1 where s1: "try_address 1 two_hosts absent_server ?uri network_session = Some (Inr (Some (FAIL, True)), s1)"
    using absent_attempt by auto
  obtain u' ty' where u: "extract_uri_information (ue_php_url_parse two_hosts) (ae_env absent_server) ?uri' = Inr (u', ty')"
      "\<not> url_empty u'"
  proof
    show "extract_uri_information (ue_php_url_parse two_hosts) (ae_env absent_server) ?uri' =
        Inr (empty_url\<lparr>url_user := ''u'', url_host := ''h'', url_port := 1, url_path := ''db'',
          url_query := ''connection-attributes=[a=b]&ssl-mode=disabled''\<rparr>, Network)"
      unfolding server_env by code_simp
  qed code_simp
  have h: "has_attributes ''a=b''" by code_simp
  have "au_attribs (fst network_session) = []" by code_simp
  then have "try_address 1 two_hosts absent_server ?uri' s1 = Some (Inl Conn_attrib_dup_key, s1)"
    using second_host_repeats_attributes[OF h one_attribute _ s1 u] by blast
  then show ?thesis using s1 by blast
qed

section \<open>The order of the steps\<close>

text \<open>The steps with a log: what was done in which order, and whether TLS was set up.\<close>

datatype conn_event =
    Ev_open | Ev_attributes | Ev_capabilities | Ev_compression
  | Ev_tls bool | Ev_login "auth_mechanism list"

definition logging ::
  "((xdevapi_error + 'a) \<Rightarrow> conn_event) \<Rightarrow> ('s \<Rightarrow> ('a, 's) run) \<Rightarrow> 's \<times> conn_event list \<Rightarrow> ('a, 's \<times> conn_event list) run" where
  "logging ev f sl = map_option (\<lambda>(r, s'). (r, (s', snd sl @ [ev r]))) (f (fst sl))"

definition logged :: "'s auth_ops \<Rightarrow> ('s \<times> conn_event list) auth_ops" where
  "logged ops = \<lparr>ao_capabilities = logging (\<lambda>_. Ev_capabilities) (ao_capabilities ops),
     ao_compression = (\<lambda>c. logging (\<lambda>_. Ev_compression) (ao_compression ops c)),
     ao_crypto = logging (\<lambda>r. Ev_tls (r = Inr PASS)) (ao_crypto ops),
     ao_no_tls = map_prod (ao_no_tls ops) id,
     ao_state = (\<lambda>st. map_prod (ao_state ops st) id),
     ao_login = (\<lambda>ms. logging (\<lambda>_. Ev_login ms) (ao_login ops ms)),
     ao_save = (\<lambda>c. map_prod (ao_save ops c) id),
     ao_open = logging (\<lambda>_. Ev_open) (ao_open ops),
     ao_attributes = logging (\<lambda>_. Ev_attributes) (ao_attributes ops)\<rparr>"

definition forget :: "('a, 's \<times> 'l) run \<Rightarrow> ('a, 's) run" where
  "forget m = map_option (map_prod id fst) m"

lemma forget_bind:
  "forget m = m' \<Longrightarrow> (\<And>x s. forget (k x s) = k' x (fst s)) \<Longrightarrow> forget (and_then m k) = and_then m' k'"
  by (auto simp: forget_def and_then_def split: option.splits prod.splits sum.splits)

lemma forget_logging: "forget (logging ev f s) = f (fst s)"
  by (cases "f (fst s)") (auto simp: forget_def logging_def)

lemma forget_Some [simp]: "forget (Some (r, s)) = Some (r, fst s)"
  by (simp add: forget_def)

lemma forget_ops:
  "forget (ao_capabilities (logged ops) s) = ao_capabilities ops (fst s)"
  "forget (ao_compression (logged ops) c s) = ao_compression ops c (fst s)"
  "forget (ao_crypto (logged ops) s) = ao_crypto ops (fst s)"
  "forget (ao_login (logged ops) ms s) = ao_login ops ms (fst s)"
  "forget (ao_open (logged ops) s) = ao_open ops (fst s)"
  "forget (ao_attributes (logged ops) s) = ao_attributes ops (fst s)"
  "fst (ao_no_tls (logged ops) s) = ao_no_tls ops (fst s)"
  "fst (ao_state (logged ops) st s) = ao_state ops st (fst s)"
  "fst (ao_save (logged ops) z s) = ao_save ops z (fst s)"
  by (simp_all add: logged_def forget_logging)

lemma forget_init: "forget (init_connection (logged ops) mode caps s) = init_connection ops mode caps (fst s)"
  unfolding init_connection_def by (auto intro!: forget_bind simp: forget_ops)

lemma forget_run_auth: "forget (run_auth (logged ops) mode user s) = run_auth ops mode user (fst s)"
  unfolding run_auth_def Let_def
  by (auto intro!: forget_bind simp: forget_ops forget_init split: option.split)

lemma forget_handshake:
  "forget (connect_handshake (logged ops) mode user s) = connect_handshake ops mode user (fst s)"
  unfolding connect_handshake_def session_authenticate_def
  by (auto intro!: forget_bind simp: forget_ops forget_run_auth split: prod.split)

definition yields :: "((xdevapi_error + 'a) \<Rightarrow> 's \<Rightarrow> bool) \<Rightarrow> ('a, 's) run \<Rightarrow> bool" where
  "yields J m \<longleftrightarrow> (\<forall>r s'. m = Some (r, s') \<longrightarrow> J r s')"

lemma yields_Some [simp]: "yields J (Some (r, s)) = J r s"
  by (simp add: yields_def)

lemma yields_and_then:
  "yields J m \<Longrightarrow> (\<And>x s. J (Inr x) s \<Longrightarrow> yields I (k x s)) \<Longrightarrow> (\<And>e s. J (Inl e) s \<Longrightarrow> I (Inl e) s) \<Longrightarrow>
   yields I (and_then m k)"
  by (auto simp: yields_def and_then_def split: option.splits prod.splits sum.splits)

lemma yields_logging: "yields (\<lambda>r s'. snd s' = snd s @ [ev r]) (logging ev f s)"
  by (auto simp: yields_def logging_def)

definition no_login :: "conn_event list \<Rightarrow> bool" where
  "no_login l \<longleftrightarrow> (\<forall>ms. Ev_login ms \<notin> set l)"

definition tls_events :: "ssl_mode \<Rightarrow> conn_event list" where
  "tls_events mode = (if mode = Ssl_disabled then [] else [Ev_tls True])"

lemma init_logged:
  "no_login (snd s) \<Longrightarrow> yields (\<lambda>r s'. no_login (snd s') \<and> (r = Inr True \<longrightarrow> snd s' = snd s @ tls_events mode))
     (init_connection (logged ops) mode caps s)"
  unfolding init_connection_def
  by (auto simp: logged_def tls_events_def no_login_def intro!: yields_and_then[OF yields_logging])

lemma run_auth_logged:
  assumes "no_login (snd s)"
  shows "yields (\<lambda>r s'. no_login (snd s') \<or> (\<exists>caps. snd s' = snd s @ [Ev_capabilities, Ev_compression] @ tls_events mode @
       [Ev_login (gather_auth_mechanisms user mode caps)])) (run_auth (logged ops) mode user s)"
  unfolding run_auth_def Let_def
proof (rule yields_and_then[where J = "\<lambda>r s'. snd s' = snd s @ [Ev_capabilities]"], goal_cases)
  case 1
  show ?case unfolding logged_def by simp (rule yields_logging)
next
  case (2 c s1)
  show ?case
  proof (cases c)
    case None
    then show ?thesis using 2 assms by (simp add: no_login_def)
  next
    case (Some caps)
    have "yields (\<lambda>r s'. snd s' = snd s1 @ [Ev_compression]) (ao_compression (logged ops) caps s1)"
      unfolding logged_def by simp (rule yields_logging)
    then show ?thesis
      unfolding Some option.case
    proof (rule yields_and_then, goal_cases)
      case (1 x s2)
      then have "no_login (snd s2)" using 2 assms by (simp add: no_login_def)
      from init_logged[OF this] show ?case
      proof (rule yields_and_then, goal_cases)
        case (1 ok s3)
        show ?case
        proof (cases "ok \<and> gather_auth_mechanisms user mode caps \<noteq> []")
          case True
          have "yields (\<lambda>r s'. snd s' = snd s3 @ [Ev_login (gather_auth_mechanisms user mode caps)])
              (ao_login (logged ops) (gather_auth_mechanisms user mode caps)
                (ao_state (logged ops) SESSION_NON_AUTHENTICATED s3))"
            unfolding logged_def using yields_logging[of "map_prod _ id s3"] by simp
          then have "yields (\<lambda>r s'. \<exists>caps. snd s' = snd s @ [Ev_capabilities, Ev_compression] @ tls_events mode @
                [Ev_login (gather_auth_mechanisms user mode caps)])
              (and_then (ao_login (logged ops) (gather_auth_mechanisms user mode caps)
                (ao_state (logged ops) SESSION_NON_AUTHENTICATED s3)) (\<lambda>r s5. Some (Inr (r, caps), s5)))"
            by (rule yields_and_then) (use 1 2 True \<open>snd s2 = snd s1 @ [Ev_compression]\<close> in auto)
          then show ?thesis using True by (auto simp: yields_def)
        next
          case False
          then show ?thesis using 1 by (auto simp: logged_def)
        qed
      qed simp
    qed (use 2 assms in \<open>simp add: no_login_def\<close>)
  qed
qed (use assms in \<open>simp add: no_login_def\<close>)


text \<open>
  C4: credentials are sent last.  Whatever the steps do and however the server answers, when a
  connection comes to the log in, the stream was opened, the attributes were sent, the capabilities
  were read and compression was set up, in this order, and TLS was set up with success unless it is
  switched off; the mechanisms are those that the options, the mode and the capabilities give, and
  there is one log in.  The log changes nothing of the run.  The client attributes leave before TLS.
\<close>

theorem login_after_tls:
  assumes "connect_handshake (logged ops) mode user (s, []) = Some (r, (s', l))" "Ev_login ms \<in> set l"
  shows "connect_handshake ops mode user s = Some (r, s') \<and>
    l = [Ev_open, Ev_attributes, Ev_capabilities, Ev_compression] @ tls_events mode @ [Ev_login ms] \<and>
    (\<exists>caps. ms = gather_auth_mechanisms user mode caps)"
proof -
  have "yields (\<lambda>r s'. no_login (snd s') \<or> (\<exists>caps. snd s' = [Ev_open, Ev_attributes, Ev_capabilities, Ev_compression] @
      tls_events mode @ [Ev_login (gather_auth_mechanisms user mode caps)]))
    (connect_handshake (logged ops) mode user (s, []))"
    unfolding connect_handshake_def
  proof (rule yields_and_then[where J = "\<lambda>r s'. snd s' = [Ev_open]"], goal_cases)
    case 1
    show ?case unfolding logged_def using yields_logging[of "(s, [])" "\<lambda>_. Ev_open" "ao_open ops"] by simp
  next
    case (2 st s1)
    have "yields (\<lambda>r s'. snd s' = [Ev_open, Ev_attributes]) (ao_attributes (logged ops) (ao_state (logged ops) SESSION_CONNECTING s1))"
      unfolding logged_def
      using yields_logging[of "map_prod (ao_state ops SESSION_CONNECTING) id s1" "\<lambda>_. Ev_attributes" "ao_attributes ops"] 2
      by simp
    then have "yields (\<lambda>r s'. no_login (snd s') \<or> (\<exists>caps. snd s' = [Ev_open, Ev_attributes, Ev_capabilities, Ev_compression] @
        tls_events mode @ [Ev_login (gather_auth_mechanisms user mode caps)]))
      (and_then (ao_attributes (logged ops) (ao_state (logged ops) SESSION_CONNECTING s1))
        (\<lambda>st s2. if st \<noteq> PASS then Some (Inr st, s2) else session_authenticate (logged ops) mode user None s2))"
    proof (rule yields_and_then, goal_cases)
      case (1 st s2)
      then have "no_login (snd s2)" by (simp add: no_login_def)
      from run_auth_logged[OF this] have "yields (\<lambda>r s'. no_login (snd s') \<or>
          (\<exists>caps. snd s' = [Ev_open, Ev_attributes, Ev_capabilities, Ev_compression] @
          tls_events mode @ [Ev_login (gather_auth_mechanisms user mode caps)])) (session_authenticate (logged ops) mode user None s2)"
        unfolding session_authenticate_def option.case
        by (rule yields_and_then) (auto simp: 1 logged_def split: prod.splits)
      then show ?case using 1 by (simp add: no_login_def)
    qed (simp add: no_login_def)
    then show ?case using 2 by (simp add: no_login_def)
  qed (simp add: no_login_def)
  then obtain caps where "l = [Ev_open, Ev_attributes, Ev_capabilities, Ev_compression] @ tls_events mode @
      [Ev_login (gather_auth_mechanisms user mode caps)]"
    using assms unfolding yields_def no_login_def by fastforce
  moreover from this have "ms = gather_auth_mechanisms user mode caps"
    using assms(2) by (auto simp: tls_events_def split: if_splits)
  moreover have "connect_handshake ops mode user s = Some (r, s')"
    using forget_handshake[of ops mode user "(s, [])"] assms(1) by simp
  ultimately show ?thesis by blast
qed

definition willing_server :: "unit auth_ops" where
  "willing_server = \<lparr>ao_capabilities = \<lambda>s. Some (Inr (Some (Array [(Key_name ''tls'', Bool True)])), s),
     ao_compression = \<lambda>c s. Some (Inr (), s), ao_crypto = \<lambda>s. Some (Inr PASS, s), ao_no_tls = id,
     ao_state = \<lambda>st s. s, ao_login = \<lambda>ms s. Some (Inr True, s), ao_save = \<lambda>c s. s,
     ao_open = \<lambda>s. Some (Inr PASS, s), ao_attributes = \<lambda>s. Some (Inr PASS, s)\<rparr>"

theorem login_after_tls_witness:
  "connect_handshake willing_server Ssl_required Mech_unspecified () = Some (Inr PASS, ()) \<and>
   [Ev_open, Ev_attributes, Ev_capabilities, Ev_compression, Ev_tls True, Ev_login [Mech_plain]] =
     [Ev_open, Ev_attributes, Ev_capabilities, Ev_compression] @ tls_events Ssl_required @ [Ev_login [Mech_plain]] \<and>
   (\<exists>caps. [Mech_plain] = gather_auth_mechanisms Mech_unspecified Ssl_required caps)"
  by (rule login_after_tls) (code_simp, simp)

lemma plain_only_on_tls:
  "user = Mech_unspecified \<Longrightarrow> Mech_plain \<in> set (gather_auth_mechanisms user mode caps) \<Longrightarrow> mode \<noteq> Ssl_disabled"
  by (auto simp: gather_auth_mechanisms_def is_tls_enabled_def split: if_splits)

section \<open>The answer to a challenge\<close>

text \<open>
  What the server does with the answer of \<^verbatim>\<open>SHA256_MEMORY\<close>: it takes schema, user and the digits of the
  answer apart, and with the stored double hash it finds the hash of the password and checks it.
\<close>

definition unhex_digit :: "byte \<Rightarrow> byte option" where
  "unhex_digit c = (if 48 \<le> c \<and> c \<le> 57 then Some (c - 48) else if 97 \<le> c \<and> c \<le> 102 then Some (c - 87) else None)"

fun unhex :: "bytes \<Rightarrow> bytes option" where
  "unhex [] = Some []"
| "unhex [c] = None"
| "unhex (c # d # cs) = (case (unhex_digit c, unhex_digit d, unhex cs) of
     (Some a, Some b, Some bs) \<Rightarrow> Some ((push_bit 4 a OR b) # bs) | _ \<Rightarrow> None)"

definition server_accepts :: "hashes \<Rightarrow> bytes \<Rightarrow> bytes \<Rightarrow> bytes \<Rightarrow> (bytes \<times> bytes) option" where
  "server_accepts H stored salt data =
     (let schema = takeWhile (\<lambda>b. b \<noteq> 0) data; rest = drop (length schema + 1) data;
          user = takeWhile (\<lambda>b. b \<noteq> 0) rest
      in case unhex (drop (length user + 1) rest) of
           None \<Rightarrow> None
         | Some reply \<Rightarrow>
             if length reply = 32 \<and> hs_sha256 H (crypt_data reply (hs_sha256 H (stored @ salt)) 32) = stored
             then Some (schema, user) else None)"


lemma takeWhile_nul: "(0::byte) \<notin> set xs \<Longrightarrow> takeWhile (\<lambda>b. b \<noteq> 0) (xs @ 0 # ys) = xs"
  by (subst takeWhile_append2) auto

lemma unhex_hexconvtab: "i < 16 \<Longrightarrow> unhex_digit (hexconvtab ! i) = Some (word_of_nat i)"
proof -
  assume "i < 16"
  then have "i \<in> set [0..<16]" by simp
  moreover have "\<forall>i\<in>set [0..<16]. unhex_digit (hexconvtab ! i) = Some (word_of_nat i)" by code_simp
  ultimately show ?thesis by blast
qed

lemma nibbles: "push_bit 4 (drop_bit 4 b) OR (b AND 15) = (b :: byte)"
proof -
  have "b AND 15 = take_bit 4 b" by (simp add: take_bit_eq_mask mask_eq_exp_minus_1)
  moreover have "push_bit 4 (drop_bit 4 b) OR take_bit 4 b = b" by (intro bit_word_eqI) (auto simp: bit_simps)
  ultimately show ?thesis by simp
qed

lemma unhex_hex_hash: "unhex (hex_hash bs) = Some bs"
proof (induction bs)
  case Nil
  then show ?case by (simp add: hex_hash_def)
next
  case (Cons b bs)
  have "unat (drop_bit 4 b) < 16" using unsigned_less[of b, where ?'a = nat] by (subst unat_drop_bit_eq) (simp add: drop_bit_eq_div)
  moreover have "unat (b AND 15) < 16"
    using word_and_le1[of b 15] by (simp add: word_le_nat_alt)
  ultimately have "unhex_digit (hexconvtab ! unat (drop_bit 4 b)) = Some (drop_bit 4 b)"
    "unhex_digit (hexconvtab ! unat (b AND 15)) = Some (b AND 15)"
    by (simp_all add: unhex_hexconvtab)
  then show ?case using Cons by (simp add: hex_hash_def nibbles)
qed

lemma crypt_data_twice: "length a = n \<Longrightarrow> crypt_data (crypt_data b a n) b n = a"
  by (rule nth_equalityI) (simp_all add: crypt_data_def xor.assoc xor.commute xor.left_commute)

lemma length_crypt_data [simp]: "length (crypt_data a b n) = n"
  by (simp add: crypt_data_def)

text \<open>
  C14: the answer to the challenge of \<^verbatim>\<open>SHA256_MEMORY\<close> is one the server accepts.  For every hash with
  digests of 32 bytes, every salt of 20 bytes and every password that is not empty, the server, which
  knows only the double hash of the password, reads schema and user back from the answer and finds a
  value in it whose hash is the double hash.
\<close>

theorem sha256_answer_accepted:
  assumes "\<And>x. length (hs_sha256 H x) = 32" "length salt = 20" "ax_password ax \<noteq> []"
    and "0 \<notin> set (ax_default_schema ax)" "0 \<notin> set (ax_username ax)"
    and "create_auth_plugin Mech_sha256_memory ax = Some p"
  shows "\<exists>data p'. prepare_continue_auth_data H salt p = (Inr data, p') \<and>
    server_accepts H (hs_sha256 H (hs_sha256 H (ax_password ax))) salt data =
      Some (ax_default_schema ax, ax_username ax)"
proof -
  let ?h = "hs_sha256 H" and ?reply = "hash_data H salt (ax_password ax)"
  have p: "p = \<lparr>pg_mechanism = Mech_sha256_memory, pg_context = ax, pg_auth_data = []\<rparr>"
    using assms(6) by (simp add: create_auth_plugin_def)
  have reply: "?reply = crypt_data (?h (?h (?h (ax_password ax)) @ salt)) (?h (ax_password ax)) 32"
    using assms(1,2) by (simp add: hash_data_def Let_def sha256_max_length_def scramble_length_def)
  let ?data = "ax_default_schema ax @ 0 # ax_username ax @ 0 # hex_hash ?reply"
  have "scrambler_run H Mech_sha256_memory ax salt = Inr (hex_hash ?reply)"
    using assms(2,3) reply
    by (auto simp: scrambler_run_def calc_hash_def scramble_def scramble_length_def hash_length_def sha256_max_length_def)
  then have "\<exists>p'. prepare_continue_auth_data H salt p = (Inr ?data, p')"
    by (simp add: prepare_continue_auth_data_def p add_scramble_to_auth_data_def add_prefix_to_auth_data_def
        add_to_auth_data_def)
  moreover have "server_accepts H (?h (?h (ax_password ax))) salt ?data = Some (ax_default_schema ax, ax_username ax)"
    using assms(1,4,5)
    by (simp add: server_accepts_def Let_def takeWhile_nul unhex_hex_hash reply crypt_data_twice)
  ultimately show ?thesis by blast
qed

definition some_context :: auth_context where
  "some_context = \<lparr>ax_username = [117], ax_password = [112], ax_default_schema = [115]\<rparr>"

definition some_plugin :: auth_plugin where
  "some_plugin = \<lparr>pg_mechanism = Mech_sha256_memory, pg_context = some_context, pg_auth_data = []\<rparr>"

theorem sha256_answer_accepted_witness:
  "\<exists>data p'. prepare_continue_auth_data (ae_hashes mute_server) (replicate 20 1) some_plugin = (Inr data, p') \<and>
     server_accepts (ae_hashes mute_server) (hs_sha256 (ae_hashes mute_server)
       (hs_sha256 (ae_hashes mute_server) (ax_password some_context))) (replicate 20 1) data =
       Some (ax_default_schema some_context, ax_username some_context)"
  by (rule sha256_answer_accepted)
    (simp_all add: mute_server_def some_context_def some_plugin_def create_auth_plugin_def)

end
