(* ===== verification/Pb_Expr.thy ===== *)
theory Pb_Expr
  imports Parser_Entry Any_Conv
begin

text \<open>
  The expressions of the protocol and how they are built: the converters of
  \<^verbatim>\<open>cdkbase/mysqlx/converters.h\<close>, the builders of \<^verbatim>\<open>cdkbase/protocol/mysqlx/builders.h\<close>, \<^verbatim>\<open>any2expr\<close> of
  \<^verbatim>\<open>xmysqlnd_any2expr.cc\<close> and the entry points of \<^verbatim>\<open>crud_parsers/mysqlx_crud_parser.cc\<close>.
\<close>

section \<open>The messages\<close>

text \<open>
  \<^verbatim>\<open>Mysqlx.Expr\<close> of \<^verbatim>\<open>proto_def/mysqlx_expr.proto\<close>; optional fields are options.  The last two
  constructors are expressions whose required type is not set.
\<close>

datatype item_type = IT_MEMBER | IT_MEMBER_ASTERISK | IT_ARRAY_INDEX | IT_ARRAY_INDEX_ASTERISK | IT_DOUBLE_ASTERISK

record path_item =
  pi_type :: item_type
  pi_value :: "string option"
  pi_index :: "32 word option"

record column_identifier =
  id_path :: "path_item list"
  id_name :: "string option"
  id_table :: "string option"
  id_schema :: "string option"

datatype pb_expr =
    PB_IDENT column_identifier
  | PB_LITERAL scalar
  | PB_VARIABLE string
  | PB_FUNC_CALL string "string option" "pb_expr list"
  | PB_OPERATOR string "pb_expr list"
  | PB_PLACEHOLDER "32 word"
  | PB_OBJECT "(string \<times> pb_expr) list"
  | PB_ARRAY "pb_expr list"
  | PB_NO_TYPE_OBJECT "(string \<times> pb_expr) list"
  | PB_NO_TYPE_ARRAY "pb_expr list"

definition no_identifier :: column_identifier where
  "no_identifier = \<lparr>id_path = [], id_name = None, id_table = None, id_schema = None\<rparr>"

text \<open>\<^verbatim>\<open>IsInitialized\<close>: every required field of the message and its parts is set.\<close>

fun expr_initialized :: "pb_expr \<Rightarrow> bool" where
  "expr_initialized (PB_FUNC_CALL n s es) = list_all expr_initialized es"
| "expr_initialized (PB_OPERATOR n es) = list_all expr_initialized es"
| "expr_initialized (PB_OBJECT fs) = list_all (\<lambda>(k, e). expr_initialized e) fs"
| "expr_initialized (PB_ARRAY es) = list_all expr_initialized es"
| "expr_initialized (PB_NO_TYPE_OBJECT fs) = False"
| "expr_initialized (PB_NO_TYPE_ARRAY es) = False"
| "expr_initialized (PB_IDENT c) = True"
| "expr_initialized (PB_LITERAL l) = True"
| "expr_initialized (PB_VARIABLE v) = True"
| "expr_initialized (PB_PLACEHOLDER p) = True"

section \<open>Building an expression\<close>

definition path_item_of :: "path_el \<Rightarrow> path_item" where
  "path_item_of el = (case el of
     MEMBER n \<Rightarrow> \<lparr>pi_type = IT_MEMBER, pi_value = Some n, pi_index = None\<rparr>
   | MEMBER_ASTERISK \<Rightarrow> \<lparr>pi_type = IT_MEMBER_ASTERISK, pi_value = None, pi_index = None\<rparr>
   | ARRAY_INDEX i \<Rightarrow> \<lparr>pi_type = IT_ARRAY_INDEX, pi_value = None, pi_index = Some i\<rparr>
   | ARRAY_INDEX_ASTERISK \<Rightarrow> \<lparr>pi_type = IT_ARRAY_INDEX_ASTERISK, pi_value = None, pi_index = None\<rparr>
   | DOUBLE_ASTERISK \<Rightarrow> \<lparr>pi_type = IT_DOUBLE_ASTERISK, pi_value = None, pi_index = None\<rparr>)"

text \<open>The whole document is a member without a name.\<close>

definition path_items :: "doc_path \<Rightarrow> path_item list" where
  "path_items p = (case p of
     Whole_document \<Rightarrow> [\<lparr>pi_type = IT_MEMBER, pi_value = None, pi_index = None\<rparr>]
   | Path els \<Rightarrow> map path_item_of els)"

definition identifier_of :: "column_ref \<Rightarrow> column_identifier" where
  "identifier_of c = no_identifier\<lparr>id_name := Some (cr_name c),
     id_table := (if cref_has_table c then Some (tr_name (cr_table c)) else None),
     id_schema := (if cref_has_table c \<and> tref_has_schema (cr_table c) then Some (tr_schema (cr_table c)) else None)\<rparr>"

text \<open>
  The names of the placeholders are collected in the order of their occurrence and numbered by it:
  \<^verbatim>\<open>conv_placeholder\<close> takes the number of names so far and adds the name, whether it is there or not.
\<close>

definition conv_placeholder :: "string \<Rightarrow> string list \<Rightarrow> 32 word \<times> string list" where
  "conv_placeholder name ph = (word_of_nat (length ph), ph @ [name])"

text \<open>\<open>double\<close> rounds the exact decimal of a literal to the 64 bits of a double.\<close>

fun build_expr :: "(bool \<Rightarrow> int \<Rightarrow> int \<Rightarrow> 64 word) \<Rightarrow> expr \<Rightarrow> string list \<Rightarrow> pb_expr \<times> string list"
  and build_args :: "(bool \<Rightarrow> int \<Rightarrow> int \<Rightarrow> 64 word) \<Rightarrow> expr list \<Rightarrow> string list \<Rightarrow> pb_expr list \<times> string list"
  and build_fields :: "(bool \<Rightarrow> int \<Rightarrow> int \<Rightarrow> 64 word) \<Rightarrow> (string \<times> expr) list \<Rightarrow> string list \<Rightarrow>
    (string \<times> pb_expr) list \<times> string list"
where
  "build_expr double expr.V_NULL ph = (PB_LITERAL scalar.V_NULL, ph)"
| "build_expr double (expr.V_BOOL b) ph = (PB_LITERAL (scalar.V_BOOL b), ph)"
| "build_expr double (expr.V_STR s) ph = (PB_LITERAL (V_STRING s), ph)"
| "build_expr double (expr.V_OCTETS s) ph = (PB_LITERAL (scalar.V_OCTETS s), ph)"
| "build_expr double (expr.V_INT i) ph = (PB_LITERAL (V_SINT i), ph)"
| "build_expr double (expr.V_UINT u) ph = (PB_LITERAL (scalar.V_UINT u), ph)"
| "build_expr double (expr.V_DOUBLE neg m e) ph = (PB_LITERAL (scalar.V_DOUBLE (double neg m e)), ph)"
| "build_expr double (PARAM name) ph = map_prod PB_PLACEHOLDER id (conv_placeholder name ph)"
| "build_expr double (OP name args) ph = map_prod (PB_OPERATOR name) id (build_args double args ph)"
| "build_expr double (FUNC f args) ph =
     map_prod (PB_FUNC_CALL (tr_name f) (if tref_has_schema f then Some (tr_schema f) else None)) id
       (build_args double args ph)"
| "build_expr double (COL_REF c None) ph = (PB_IDENT (identifier_of c), ph)"
| "build_expr double (COL_REF c (Some p)) ph = (PB_IDENT ((identifier_of c)\<lparr>id_path := path_items p\<rparr>), ph)"
| "build_expr double (PATH p) ph = (PB_IDENT (no_identifier\<lparr>id_path := path_items p\<rparr>), ph)"
| "build_expr double (ARR es) ph = map_prod PB_ARRAY id (build_args double es ph)"
| "build_expr double (DOC kvs) ph = map_prod PB_OBJECT id (build_fields double kvs ph)"
| "build_args double [] ph = ([], ph)"
| "build_args double (e # es) ph = (case build_expr double e ph of (p, ph1) \<Rightarrow>
     case build_args double es ph1 of (ps, ph2) \<Rightarrow> (p # ps, ph2))"
| "build_fields double [] ph = ([], ph)"
| "build_fields double ((k, e) # kvs) ph = (case build_expr double e ph of (p, ph1) \<Rightarrow>
     case build_fields double kvs ph1 of (fs, ph2) \<Rightarrow> ((k, p) # fs, ph2))"

section \<open>Values as expressions\<close>

text \<open>The type of the expression is only set for scalars.\<close>

fun any2expr :: "any \<Rightarrow> pb_expr" where
  "any2expr (Any_scalar s) = PB_LITERAL s"
| "any2expr (Any_object fs) = PB_NO_TYPE_OBJECT (map (\<lambda>(k, v). (k, any2expr v)) fs)"
| "any2expr (Any_array vs) = PB_NO_TYPE_ARRAY (map any2expr vs)"

section \<open>Parsing\<close>

text \<open>Texts are given to the parser as C strings: they end at the first NUL byte.\<close>

definition c_str :: "string \<Rightarrow> string" where
  "c_str s = takeWhile (\<lambda>c. c \<noteq> CHR 0x00) s"

lemma c_str_id [simp]: "CHR 0x00 \<notin> set s \<Longrightarrow> c_str s = s"
  by (induction s) (auto simp: c_str_def)

text \<open>
  What a request can end with besides \<^verbatim>\<open>PASS\<close> and \<^verbatim>\<open>FAIL\<close>: the exceptions it throws, a parser that
  reads outside its input or does not return, a null pointer followed, an access outside a vector, a
  value read as an array that is none, a variable read before it is set, and an exception nothing catches.
\<close>

datatype crud_error =
    Bind_fail string
  | Find_fail
  | Offset_without_limit
  | Unknown_lock_waiting_option
  | Parser_stuck perror
  | Ps_runtime_error
  | Null_pointer
  | Out_of_range
  | Not_an_array
  | Uninitialised_read
  | Uncaught_exception

text \<open>
  What the requests use from outside.  \<open>ce_partial\<close> is what the builder has made of a text, and the
  names it has collected, when the parser finds an error in it.
\<close>

record crud_env =
  ce_double :: "bool \<Rightarrow> int \<Rightarrow> int \<Rightarrow> 64 word"
  ce_partial :: "parser_mode \<Rightarrow> string \<Rightarrow> string list \<Rightarrow> pb_expr \<times> string list"

definition mode_of :: "bool \<Rightarrow> parser_mode" where
  "mode_of doc_datamodel = (if doc_datamodel then DOCUMENT else TABLE)"

text \<open>An outcome of the parser: \<open>None\<close> for an error in the text.\<close>

definition caught :: "'a outcome \<Rightarrow> crud_error + 'a option" where
  "caught r = (case r of Inr x \<Rightarrow> Inr (Some x) | Inl (Parse_error m p) \<Rightarrow> Inr None | Inl e \<Rightarrow> Inl (Parser_stuck e))"

text \<open>
  \<open>crud_parse\<close> is \<^verbatim>\<open>parse\<close> with placeholders: the expression, none when the text has an error, and the
  names collected.  \<open>parse_closed\<close> is \<^verbatim>\<open>parse\<close> without them, which gives a null pointer (the inner
  \<open>None\<close>) for a text that has placeholders.
\<close>

definition crud_parse ::
  "crud_env \<Rightarrow> bool \<Rightarrow> string \<Rightarrow> string list \<Rightarrow> crud_error + pb_expr option \<times> string list" where
  "crud_parse E doc s ph = ebind (caught (expression_parser (enough_fuel (c_str s)) (mode_of doc) (c_str s))) (\<lambda>r. case r of
     None \<Rightarrow> Inr (None, snd (ce_partial E (mode_of doc) s ph))
   | Some e \<Rightarrow> Inr (map_prod Some id (build_expr (ce_double E) e ph)))"

definition parse_closed :: "crud_env \<Rightarrow> bool \<Rightarrow> string \<Rightarrow> crud_error + pb_expr option option" where
  "parse_closed E doc s = map_sum id (\<lambda>(r, ph). map_option (\<lambda>e. if ph = [] then Some e else None) r)
     (crud_parse E doc s [])"

end
