(* ===== verification/Crud_Parse.thy ===== *)
theory Crud_Parse
  imports Pb_Expr Frames
begin

text \<open>
  Orders and projections of requests, after the templates \<^verbatim>\<open>orderby\<close> and \<^verbatim>\<open>projection\<close> of
  \<^verbatim>\<open>crud_parsers/mysqlx_crud_parser.h\<close>, and the bindings of \<^verbatim>\<open>xmysqlnd_crud_collection_commands.cc\<close>.
\<close>

section \<open>Orders\<close>

record pb_order =
  or_direction :: sort_direction
  or_expr :: pb_expr

text \<open>
  The texts of the tokens are put together, without what was between them, up to the first token
  \<open>asc\<close> or \<open>desc\<close>; what follows that token is not looked at.  The fuel is the number of tokens; the
  iterator stays where it is at a character that starts no token, and the loop does not end then.
\<close>

fun orderby_loop :: "nat \<Rightarrow> tok_it \<Rightarrow> string \<Rightarrow> (string \<times> sort_direction) outcome" where
  "orderby_loop 0 it expr = Inl Out_of_fuel"
| "orderby_loop (Suc n) it expr =
     (if ti_end it then Inr (expr, ASC)
      else if map c_toupper (tok_bytes it) = ''ASC'' then Inr (expr, ASC)
      else if map c_toupper (tok_bytes it) = ''DESC'' then Inr (expr, DESC)
      else ebind (tok_next it) (\<lambda>it1. orderby_loop n it1 (expr @ tok_bytes it)))"

definition orderby_split :: "string \<Rightarrow> (string \<times> sort_direction) outcome" where
  "orderby_split s = ebind (tokenizer_begin s) (\<lambda>it. orderby_loop (length s + 2) it [])"

text \<open>The names of placeholders in an order are collected in a list of their own and dropped.\<close>

definition orderby :: "crud_env \<Rightarrow> bool \<Rightarrow> string \<Rightarrow> pb_order list \<Rightarrow> crud_error + func_status \<times> pb_order list" where
  "orderby E doc s orders = ebind (caught (orderby_split s)) (\<lambda>r. case r of
     None \<Rightarrow> Inr (FAIL, orders)
   | Some (text, dir) \<Rightarrow> ebind (crud_parse E doc text []) (\<lambda>(e, ph). case e of
       None \<Rightarrow> Inr (FAIL, orders @
         [\<lparr>or_direction = dir, or_expr = fst (ce_partial E (mode_of doc) text [])\<rparr>])
     | Some e \<Rightarrow> Inr (PASS, orders @ [\<lparr>or_direction = dir, or_expr = e\<rparr>])))"

section \<open>Projections\<close>

record pb_projection =
  pr_source :: pb_expr
  pr_alias :: "string option"

text \<open>Without an alias, the last word or string of the text becomes the alias.\<close>

fun projection_loop :: "nat \<Rightarrow> tok_it \<Rightarrow> string \<Rightarrow> string outcome" where
  "projection_loop 0 it ident = Inl Out_of_fuel"
| "projection_loop (Suc n) it ident =
     (if ti_end it then Inr ident
      else if map c_toupper (tok_bytes it) = ''AS'' then Inr []
      else ebind (tok_next it) (\<lambda>it1. projection_loop n it1
        (if tok_ty (ti_tok it) \<in> {T_WORD, T_QWORD, T_QSTRING, T_QQSTRING} then tok_bytes it else ident)))"

definition c_isalpha :: "char \<Rightarrow> bool" where
  "c_isalpha c \<longleftrightarrow> c_isupper c \<or> c_islower c"

definition is_alnum_identifier :: "string \<Rightarrow> bool" where
  "is_alnum_identifier s \<longleftrightarrow> s \<noteq> [] \<and> c_isalpha (hd s) \<and> list_all c_isalnum (tl s)"

definition projection_target :: "string \<Rightarrow> string outcome" where
  "projection_target s = ebind (ebind (tokenizer_begin s) (\<lambda>it. projection_loop (length s + 2) it []))
     (\<lambda>ident. Inr (if ident = [] then s
        else s @ '' AS '' @ (if is_alnum_identifier ident then ident else CHR 0x60 # ident @ [CHR 0x60])))"

definition projection ::
  "crud_env \<Rightarrow> bool \<Rightarrow> string \<Rightarrow> pb_projection list \<Rightarrow> crud_error + func_status \<times> pb_projection list" where
  "projection E doc s ps = ebind (caught (projection_target s)) (\<lambda>r. case r of
     None \<Rightarrow> Inr (FAIL, ps)
   | Some text \<Rightarrow>
       ebind (caught (projection_tbl_mode (enough_fuel (c_str text)) (mode_of doc) (c_str text))) (\<lambda>p. case p of
         None \<Rightarrow> Inr (FAIL, ps @ [\<lparr>pr_source = fst (ce_partial E (mode_of doc) text []), pr_alias = None\<rparr>])
       | Some (e, alias) \<Rightarrow>
           Inr (PASS, ps @ [\<lparr>pr_source = fst (build_expr (ce_double E) e []), pr_alias = alias\<rparr>])))"

section \<open>Bindings\<close>

text \<open>The names of the placeholders of a request, each with the value bound to it.\<close>

type_synonym bindings = "(string \<times> scalar option) list"

definition add_placeholder :: "string \<Rightarrow> bindings \<Rightarrow> bindings" where
  "add_placeholder name b = (if name \<in> fst ` set b then b else b @ [(name, None)])"

definition add_placeholders :: "string list \<Rightarrow> bindings \<Rightarrow> bindings" where
  "add_placeholders names b = fold add_placeholder names b"

definition get_placeholders :: "bindings \<Rightarrow> string list" where
  "get_placeholders b = map fst b"

text \<open>\<^verbatim>\<open>release_scalar\<close> of a value that is no scalar is a null pointer, which is written to the log.\<close>

definition bind_variable :: "string \<Rightarrow> zvalue \<Rightarrow> bindings \<Rightarrow> crud_error + bool \<times> bindings" where
  "bind_variable name v b =
     (if name \<notin> fst ` set b then Inr (False, b)
      else case zval2any v of
        Any_scalar s \<Rightarrow> Inr (True, map (\<lambda>(n, w). if n = name then (n, Some s) else (n, w)) b)
      | _ \<Rightarrow> Inl Null_pointer)"

text \<open>The values are added to the arguments the message has already.\<close>

fun finalize_bindings :: "bindings \<Rightarrow> scalar list \<Rightarrow> (crud_error + bool) \<times> scalar list" where
  "finalize_bindings [] args = (Inr True, args)"
| "finalize_bindings ((name, Some s) # b) args = finalize_bindings b (args @ [s])"
| "finalize_bindings ((name, None) # b) args = (Inl (Bind_fail name), args)"

definition get_bound_values :: "bindings \<Rightarrow> scalar option list" where
  "get_bound_values b = map snd b"

text \<open>
  Parsing an expression of a request: the numbers of its placeholders go on from the names of the
  bindings, to which the new names are added unless they are there.
\<close>

definition parse_expression ::
  "crud_env \<Rightarrow> bool \<Rightarrow> string \<Rightarrow> bindings \<Rightarrow> crud_error + pb_expr option \<times> bindings" where
  "parse_expression E doc s b = map_sum id
     (\<lambda>(e, ph). (e, case e of None \<Rightarrow> b | Some _ \<Rightarrow> add_placeholders ph b))
     (crud_parse E doc s (get_placeholders b))"

end
