(* ===== verification/Crud_Messages.thy ===== *)
theory Crud_Messages
  imports Crud_Parse
begin

text \<open>
  The messages of the requests, after \<^verbatim>\<open>proto_def/mysqlx_crud.proto\<close>: \<^verbatim>\<open>Find\<close>, \<^verbatim>\<open>Update\<close> and
  \<^verbatim>\<open>Delete\<close> extend what they have in common, so that the templates of the code are functions on the
  common part.  What a message means to the server is the message with its placeholders replaced.
\<close>

section \<open>The messages\<close>

record limit =
  lm_row_count :: "64 word option"
  lm_offset :: "64 word option"

record limit_expr =
  le_row_count :: "pb_expr option"
  le_offset :: "pb_expr option"

definition no_limit :: limit where
  "no_limit = \<lparr>lm_row_count = None, lm_offset = None\<rparr>"

record crud_msg =
  cm_schema :: string
  cm_name :: string
  cm_document :: bool
  cm_criteria :: "pb_expr option"
  cm_limit :: "limit option"
  cm_limit_expr :: "limit_expr option"
  cm_order :: "pb_order list"
  cm_args :: "scalar list"

datatype row_lock = SHARED_LOCK | EXCLUSIVE_LOCK

datatype row_lock_options = NOWAIT | SKIP_LOCKED

record find_msg = crud_msg +
  fm_projection :: "pb_projection list"
  fm_grouping :: "pb_expr list"
  fm_grouping_criteria :: "pb_expr option"
  fm_locking :: "row_lock option"
  fm_locking_options :: "row_lock_options option"

datatype update_type =
  UT_SET | ITEM_REMOVE | ITEM_SET | ITEM_REPLACE | ITEM_MERGE | ARRAY_INSERT | ARRAY_APPEND | MERGE_PATCH

record update_operation =
  uo_source :: "column_identifier option"
  uo_operation :: update_type
  uo_value :: "pb_expr option"

record update_msg = crud_msg +
  um_operation :: "update_operation list"

type_synonym delete_msg = crud_msg

record insert_msg =
  im_schema :: string
  im_name :: string
  im_document :: bool
  im_projection :: "string list"
  im_row :: "pb_expr list list"
  im_upsert :: bool

section \<open>Messages that can be sent\<close>

text \<open>\<^verbatim>\<open>IsInitialized\<close> of the messages: the fields the protocol requires are set.\<close>

definition limit_initialized :: "limit \<Rightarrow> bool" where
  "limit_initialized l \<longleftrightarrow> lm_row_count l \<noteq> None"

definition crud_initialized :: "'a crud_msg_scheme \<Rightarrow> bool" where
  "crud_initialized m \<longleftrightarrow> pred_option expr_initialized (cm_criteria m) \<and> pred_option limit_initialized (cm_limit m)
     \<and> list_all (\<lambda>r. expr_initialized (or_expr r)) (cm_order m)"

definition find_initialized :: "find_msg \<Rightarrow> bool" where
  "find_initialized m \<longleftrightarrow> crud_initialized m \<and> list_all (\<lambda>p. expr_initialized (pr_source p)) (fm_projection m)
     \<and> list_all expr_initialized (fm_grouping m) \<and> pred_option expr_initialized (fm_grouping_criteria m)"

definition update_initialized :: "update_msg \<Rightarrow> bool" where
  "update_initialized m \<longleftrightarrow> crud_initialized m \<and>
     list_all (\<lambda>op. uo_source op \<noteq> None \<and> pred_option expr_initialized (uo_value op)) (um_operation m)"

definition insert_initialized :: "insert_msg \<Rightarrow> bool" where
  "insert_initialized m \<longleftrightarrow> list_all (list_all expr_initialized) (im_row m)"

section \<open>What a message means\<close>

text \<open>
  A placeholder stands for the argument at its position; one without an argument stays, and the
  server refuses the message.
\<close>

fun fill :: "scalar list \<Rightarrow> pb_expr \<Rightarrow> pb_expr" where
  "fill args (PB_PLACEHOLDER p) =
     (if unat p < length args then PB_LITERAL (args ! unat p) else PB_PLACEHOLDER p)"
| "fill args (PB_FUNC_CALL n s es) = PB_FUNC_CALL n s (map (fill args) es)"
| "fill args (PB_OPERATOR n es) = PB_OPERATOR n (map (fill args) es)"
| "fill args (PB_OBJECT fs) = PB_OBJECT (map (\<lambda>(k, e). (k, fill args e)) fs)"
| "fill args (PB_ARRAY es) = PB_ARRAY (map (fill args) es)"
| "fill args (PB_NO_TYPE_OBJECT fs) = PB_NO_TYPE_OBJECT (map (\<lambda>(k, e). (k, fill args e)) fs)"
| "fill args (PB_NO_TYPE_ARRAY es) = PB_NO_TYPE_ARRAY (map (fill args) es)"
| "fill args (PB_IDENT c) = PB_IDENT c"
| "fill args (PB_LITERAL l) = PB_LITERAL l"
| "fill args (PB_VARIABLE v) = PB_VARIABLE v"

text \<open>The positions of the placeholders of an expression, in their order.\<close>

fun positions :: "pb_expr \<Rightarrow> nat list" where
  "positions (PB_PLACEHOLDER p) = [unat p]"
| "positions (PB_FUNC_CALL n s es) = concat (map positions es)"
| "positions (PB_OPERATOR n es) = concat (map positions es)"
| "positions (PB_OBJECT fs) = concat (map (\<lambda>(k, e). positions e) fs)"
| "positions (PB_ARRAY es) = concat (map positions es)"
| "positions (PB_NO_TYPE_OBJECT fs) = concat (map (\<lambda>(k, e). positions e) fs)"
| "positions (PB_NO_TYPE_ARRAY es) = concat (map positions es)"
| "positions (PB_IDENT c) = []"
| "positions (PB_LITERAL l) = []"
| "positions (PB_VARIABLE v) = []"

text \<open>An expression only sees the arguments at its positions.\<close>

lemma fill_prefix:
  "\<forall>p\<in>set (positions e). p < length xs \<Longrightarrow> fill (xs @ ys) e = fill xs e"
  by (induction e rule: positions.induct) (fastforce simp: nth_append)+

lemma fill_closed:
  "\<forall>p\<in>set (positions e). p < length xs \<Longrightarrow> positions (fill xs e) = []"
  by (induction e rule: positions.induct) fastforce+

definition limit_number :: "scalar list \<Rightarrow> pb_expr \<Rightarrow> 64 word option" where
  "limit_number args e = (case fill args e of
     PB_LITERAL (V_UINT w) \<Rightarrow> Some w | PB_LITERAL (V_SINT w) \<Rightarrow> Some w | _ \<Rightarrow> None)"

definition fill_limit :: "scalar list \<Rightarrow> limit_expr \<Rightarrow> limit" where
  "fill_limit args l = \<lparr>lm_row_count = Option.bind (le_row_count l) (limit_number args),
     lm_offset = Option.bind (le_offset l) (limit_number args)\<rparr>"

text \<open>A message without placeholders, arguments and expressions in its limit.\<close>

definition resolve_crud :: "scalar list \<Rightarrow> 'a crud_msg_scheme \<Rightarrow> 'a crud_msg_scheme" where
  "resolve_crud args m = m\<lparr>cm_criteria := map_option (fill args) (cm_criteria m),
     cm_limit := (case cm_limit_expr m of None \<Rightarrow> cm_limit m | Some l \<Rightarrow> Some (fill_limit args l)),
     cm_limit_expr := None,
     cm_order := map (or_expr_update (fill args)) (cm_order m),
     cm_args := []\<rparr>"

definition resolve_find :: "scalar list \<Rightarrow> find_msg \<Rightarrow> find_msg" where
  "resolve_find args m = (resolve_crud args m)\<lparr>
     fm_projection := map (pr_source_update (fill args)) (fm_projection m),
     fm_grouping := map (fill args) (fm_grouping m),
     fm_grouping_criteria := map_option (fill args) (fm_grouping_criteria m)\<rparr>"

definition resolve_update :: "scalar list \<Rightarrow> update_msg \<Rightarrow> update_msg" where
  "resolve_update args m = (resolve_crud args m)\<lparr>
     um_operation := map (uo_value_update (map_option (fill args))) (um_operation m)\<rparr>"

end
