(* ===== verification/Collection_Ops.thy ===== *)
theory Collection_Ops
  imports Crud_Messages
begin

text \<open>
  The requests on a collection, after \<^verbatim>\<open>xmysqlnd_crud_collection_commands.h\<close> and \<^verbatim>\<open>.cc\<close>.  A request is
  its message, its bindings and the number of the prepared statement it was last run as.  What
  remove, modify and find do alike is one definition on the common part of their messages.
\<close>

section \<open>The requests\<close>

record 'm crud_op =
  op_message :: 'm
  op_bindings :: bindings
  op_ps_message_id :: "32 word"

type_synonym find_op = "find_msg crud_op"
type_synonym modify_op = "update_msg crud_op"
type_synonym remove_op = "delete_msg crud_op"

definition find_message :: "bool \<Rightarrow> string \<Rightarrow> string \<Rightarrow> find_msg" where
  "find_message doc schema name =
     \<lparr>cm_schema = schema, cm_name = name, cm_document = doc, cm_criteria = None, cm_limit = None,
      cm_limit_expr = None, cm_order = [], cm_args = [], fm_projection = [], fm_grouping = [],
      fm_grouping_criteria = None, fm_locking = None, fm_locking_options = None\<rparr>"

definition update_message :: "bool \<Rightarrow> string \<Rightarrow> string \<Rightarrow> update_msg" where
  "update_message doc schema name =
     \<lparr>cm_schema = schema, cm_name = name, cm_document = doc, cm_criteria = None, cm_limit = None,
      cm_limit_expr = None, cm_order = [], cm_args = [], um_operation = []\<rparr>"

definition delete_message :: "bool \<Rightarrow> string \<Rightarrow> string \<Rightarrow> delete_msg" where
  "delete_message doc schema name =
     \<lparr>cm_schema = schema, cm_name = name, cm_document = doc, cm_criteria = None, cm_limit = None,
      cm_limit_expr = None, cm_order = [], cm_args = []\<rparr>"

definition collection_find_create :: "string \<Rightarrow> string \<Rightarrow> find_op" where
  "collection_find_create schema name =
     \<lparr>op_message = find_message True schema name, op_bindings = [], op_ps_message_id = 0\<rparr>"

definition collection_modify_create :: "string \<Rightarrow> string \<Rightarrow> modify_op" where
  "collection_modify_create schema name =
     \<lparr>op_message = update_message True schema name, op_bindings = [], op_ps_message_id = 0\<rparr>"

definition collection_remove_create :: "string \<Rightarrow> string \<Rightarrow> remove_op" where
  "collection_remove_create schema name =
     \<lparr>op_message = delete_message True schema name, op_bindings = [], op_ps_message_id = 0\<rparr>"

section \<open>What the requests share\<close>

text \<open>An expression parsed for a request and put into its message; its names join the bindings.\<close>

definition with_expression ::
  "crud_env \<Rightarrow> bool \<Rightarrow> string \<Rightarrow> (pb_expr \<Rightarrow> 'm \<Rightarrow> 'm) \<Rightarrow> 'm crud_op \<Rightarrow> crud_error + func_status \<times> 'm crud_op" where
  "with_expression E doc s put op = map_sum id
     (\<lambda>(r, b). case r of
        None \<Rightarrow> (FAIL, op\<lparr>op_bindings := b\<rparr>)
      | Some e \<Rightarrow> (PASS, op\<lparr>op_message := put e (op_message op), op_bindings := b\<rparr>))
     (parse_expression E doc s (op_bindings op))"

definition collection_set_criteria :: "crud_env \<Rightarrow> string \<Rightarrow> 'a crud_msg_scheme crud_op \<Rightarrow>
    crud_error + func_status \<times> 'a crud_msg_scheme crud_op" where
  "collection_set_criteria E criteria op =
     with_expression E True criteria (\<lambda>e m. m\<lparr>cm_criteria := Some e\<rparr>) op"

definition mutable_limit :: "'a crud_msg_scheme \<Rightarrow> limit" where
  "mutable_limit m = (case cm_limit m of None \<Rightarrow> no_limit | Some l \<Rightarrow> l)"

definition set_row_count :: "64 word \<Rightarrow> 'a crud_msg_scheme \<Rightarrow> 'a crud_msg_scheme" where
  "set_row_count n m = m\<lparr>cm_limit := Some ((mutable_limit m)\<lparr>lm_row_count := Some n\<rparr>)\<rparr>"

definition set_limit_offset :: "64 word \<Rightarrow> 'a crud_msg_scheme \<Rightarrow> 'a crud_msg_scheme" where
  "set_limit_offset n m = m\<lparr>cm_limit := Some ((mutable_limit m)\<lparr>lm_offset := Some n\<rparr>)\<rparr>"

definition collection_set_limit ::
  "64 word \<Rightarrow> 'a crud_msg_scheme crud_op \<Rightarrow> func_status \<times> 'a crud_msg_scheme crud_op" where
  "collection_set_limit n op = (PASS, op\<lparr>op_message := set_row_count n (op_message op)\<rparr>)"

definition collection_set_offset ::
  "64 word \<Rightarrow> 'a crud_msg_scheme crud_op \<Rightarrow> func_status \<times> 'a crud_msg_scheme crud_op" where
  "collection_set_offset n op = (PASS, op\<lparr>op_message := set_limit_offset n (op_message op)\<rparr>)"

definition collection_bind_value ::
  "string \<Rightarrow> zvalue \<Rightarrow> 'm crud_op \<Rightarrow> crud_error + func_status \<times> 'm crud_op" where
  "collection_bind_value name v op = map_sum id
     (\<lambda>(ok, b). (if ok then PASS else FAIL, op\<lparr>op_bindings := b\<rparr>)) (bind_variable name v (op_bindings op))"

definition collection_add_sort :: "crud_env \<Rightarrow> string \<Rightarrow> 'a crud_msg_scheme crud_op \<Rightarrow>
    crud_error + func_status \<times> 'a crud_msg_scheme crud_op" where
  "collection_add_sort E text op = map_sum id
     (\<lambda>(ret, os). (ret, op\<lparr>op_message := (op_message op)\<lparr>cm_order := os\<rparr>\<rparr>))
     (orderby E True text (cm_order (op_message op)))"

text \<open>When a name has no value, the arguments before it have been added already.\<close>

definition collection_finalize_bind ::
  "'a crud_msg_scheme crud_op \<Rightarrow> (crud_error + func_status) \<times> 'a crud_msg_scheme crud_op" where
  "collection_finalize_bind op =
     (case finalize_bindings (op_bindings op) (cm_args (op_message op)) of (r, args) \<Rightarrow>
        (map_sum id (\<lambda>ok. if ok then PASS else FAIL) r, op\<lparr>op_message := (op_message op)\<lparr>cm_args := args\<rparr>\<rparr>))"

section \<open>Add\<close>

record add_op =
  ad_message :: insert_msg
  ad_docs :: "string list"

definition collection_add_create :: "string \<Rightarrow> string \<Rightarrow> add_op" where
  "collection_add_create schema name =
     \<lparr>ad_message = \<lparr>im_schema = schema, im_name = name, im_document = True, im_projection = [], im_row = [],
        im_upsert = False\<rparr>, ad_docs = []\<rparr>"

definition collection_add_set_upsert :: "add_op \<Rightarrow> func_status \<times> add_op" where
  "collection_add_set_upsert op = (PASS, op\<lparr>ad_message := (ad_message op)\<lparr>im_upsert := True\<rparr>\<rparr>)"

definition add_document :: "string \<Rightarrow> add_op \<Rightarrow> add_op" where
  "add_document doc op = op\<lparr>ad_docs := ad_docs op @ [doc]\<rparr>"

definition bind_docs :: "add_op \<Rightarrow> add_op" where
  "bind_docs op = op\<lparr>ad_message := (ad_message op)\<lparr>im_row := im_row (ad_message op) @
     map (\<lambda>doc. [PB_LITERAL (V_STRING doc)]) (ad_docs op)\<rparr>\<rparr>"

section \<open>Modify\<close>

record modify_value =
  mv_path :: string
  mv_value :: zvalue
  mv_is_expression :: bool
  mv_is_document :: bool
  mv_validate_array :: bool

definition add_update_operation :: "update_operation \<Rightarrow> update_msg \<Rightarrow> update_msg" where
  "add_update_operation uo m = m\<lparr>um_operation := um_operation m @ [uo]\<rparr>"

definition identifier_or_empty :: "pb_expr \<Rightarrow> column_identifier" where
  "identifier_or_empty e = (case e of PB_IDENT c \<Rightarrow> c | _ \<Rightarrow> no_identifier)"

definition modify_path_ok :: "update_type \<Rightarrow> bool \<Rightarrow> column_identifier \<Rightarrow> bool" where
  "modify_path_ok ty validate_array c =
     (if id_path c \<noteq> [] then \<not> validate_array \<or> pi_type (last (id_path c)) = IT_ARRAY_INDEX
      else ty = ITEM_MERGE)"

text \<open>
  The operation is added to the message before its path is parsed, its path before its value: an
  operation that fails stays there without them.  A path with a placeholder gives a null pointer.
\<close>

definition modify_operation_value ::
  "crud_env \<Rightarrow> update_type \<Rightarrow> column_identifier \<Rightarrow> modify_value \<Rightarrow> modify_op \<Rightarrow> crud_error + func_status \<times> modify_op" where
  "modify_operation_value E ty c mv op =
     (let put = (\<lambda>v. add_update_operation \<lparr>uo_source = Some c, uo_operation = ty, uo_value = v\<rparr>);
          plain = (\<lambda>v. Inr (PASS, op\<lparr>op_message := put v (op_message op)\<rparr>)) in
      case mv_value mv of
        Undefined \<Rightarrow> plain None
      | String s \<Rightarrow>
          if mv_is_expression mv \<or> mv_is_document mv
          then ebind (with_expression E True s (\<lambda>e. put (Some e)) op) (\<lambda>(ret, op'). Inr (ret,
            if ret = PASS then op' else op'\<lparr>op_message := put None (op_message op')\<rparr>))
          else plain (Some (PB_LITERAL (V_STRING s)))
      | v \<Rightarrow> (case zval2any v of Any_scalar s \<Rightarrow> plain (Some (PB_LITERAL s)) | _ \<Rightarrow> Inl Null_pointer))"

definition modify_add_operation ::
  "crud_env \<Rightarrow> update_type \<Rightarrow> modify_value \<Rightarrow> modify_op \<Rightarrow> crud_error + func_status \<times> modify_op" where
  "modify_add_operation E ty mv op =
     (if is_array (mv_value mv) \<or> is_object (mv_value mv) then Inr (FAIL, op)
      else
        let failed = op\<lparr>op_message := add_update_operation
              \<lparr>uo_source = None, uo_operation = ty, uo_value = None\<rparr> (op_message op)\<rparr> in
        ebind (parse_closed E True (if mv_path mv = [] then ''$'' else mv_path mv)) (\<lambda>r. case r of
          None \<Rightarrow> Inr (FAIL, failed)
        | Some None \<Rightarrow> Inl Null_pointer
        | Some (Some e) \<Rightarrow>
            if modify_path_ok ty (mv_validate_array mv) (identifier_or_empty e)
            then modify_operation_value E ty (identifier_or_empty e) mv op
            else Inr (FAIL, failed)))"

definition modify_unset :: "crud_env \<Rightarrow> string \<Rightarrow> modify_op \<Rightarrow> crud_error + func_status \<times> modify_op" where
  "modify_unset E path op = modify_add_operation E ITEM_REMOVE
     \<lparr>mv_path = path, mv_value = Undefined, mv_is_expression = False, mv_is_document = False,
      mv_validate_array = False\<rparr> op"

definition modify_set :: "crud_env \<Rightarrow> modify_value \<Rightarrow> modify_op \<Rightarrow> crud_error + func_status \<times> modify_op" where
  "modify_set E = modify_add_operation E ITEM_SET"

definition modify_replace :: "crud_env \<Rightarrow> modify_value \<Rightarrow> modify_op \<Rightarrow> crud_error + func_status \<times> modify_op" where
  "modify_replace E = modify_add_operation E ITEM_REPLACE"

definition modify_merge :: "crud_env \<Rightarrow> modify_value \<Rightarrow> modify_op \<Rightarrow> crud_error + func_status \<times> modify_op" where
  "modify_merge E = modify_add_operation E ITEM_MERGE"

definition modify_patch :: "crud_env \<Rightarrow> modify_value \<Rightarrow> modify_op \<Rightarrow> crud_error + func_status \<times> modify_op" where
  "modify_patch E = modify_add_operation E MERGE_PATCH"

definition modify_array_insert ::
  "crud_env \<Rightarrow> modify_value \<Rightarrow> modify_op \<Rightarrow> crud_error + func_status \<times> modify_op" where
  "modify_array_insert E = modify_add_operation E ARRAY_INSERT"

definition modify_array_append ::
  "crud_env \<Rightarrow> modify_value \<Rightarrow> modify_op \<Rightarrow> crud_error + func_status \<times> modify_op" where
  "modify_array_append E = modify_add_operation E ARRAY_APPEND"

section \<open>Find\<close>

text \<open>Groupings are parsed as expressions of tables.\<close>

definition find_add_grouping :: "crud_env \<Rightarrow> string \<Rightarrow> find_op \<Rightarrow> crud_error + func_status \<times> find_op" where
  "find_add_grouping E field op =
     with_expression E False field (\<lambda>e m. m\<lparr>fm_grouping := fm_grouping m @ [e]\<rparr>) op"

text \<open>
  A projection with an alias goes through \<^verbatim>\<open>projection\<close>.  One without is parsed twice, the first time
  to see that it is a document; the names of the first time join the bindings as well.
\<close>

definition find_set_fields ::
  "crud_env \<Rightarrow> string \<Rightarrow> bool \<Rightarrow> find_op \<Rightarrow> crud_error + func_status \<times> find_op" where
  "find_set_fields E field allow_alias op =
     (if allow_alias then map_sum id
        (\<lambda>(ret, ps). (ret, op\<lparr>op_message := (op_message op)\<lparr>fm_projection := ps\<rparr>\<rparr>))
        (projection E (cm_document (op_message op)) field (fm_projection (op_message op)))
      else ebind (parse_expression E True field (op_bindings op)) (\<lambda>(r, b).
        let op1 = op\<lparr>op_bindings := b\<rparr> in
        case r of
          Some (PB_OBJECT fs) \<Rightarrow> with_expression E True field
            (\<lambda>e m. m\<lparr>fm_projection := fm_projection m @ [\<lparr>pr_source = e, pr_alias = None\<rparr>]\<rparr>) op1
        | _ \<Rightarrow> Inr (FAIL, op1)))"

definition find_set_having :: "crud_env \<Rightarrow> string \<Rightarrow> find_op \<Rightarrow> crud_error + func_status \<times> find_op" where
  "find_set_having E criteria op =
     with_expression E True criteria (\<lambda>e m. m\<lparr>fm_grouping_criteria := Some e\<rparr>) op"

definition verify_limit_offset :: "find_msg \<Rightarrow> crud_error + unit" where
  "verify_limit_offset m = (case cm_limit m of
     None \<Rightarrow> Inr ()
   | Some l \<Rightarrow> if lm_row_count l = None \<and> lm_offset l \<noteq> None then Inl Offset_without_limit else Inr ())"

definition find_verify_is_initialized :: "find_msg \<Rightarrow> crud_error + unit" where
  "find_verify_is_initialized m =
     (if find_initialized m then Inr () else ebind (verify_limit_offset m) (\<lambda>_. Inl Find_fail))"

definition find_enable_lock_shared :: "find_op \<Rightarrow> func_status \<times> find_op" where
  "find_enable_lock_shared op = (PASS, op\<lparr>op_message := (op_message op)\<lparr>fm_locking := Some SHARED_LOCK\<rparr>\<rparr>)"

definition find_enable_lock_exclusive :: "find_op \<Rightarrow> func_status \<times> find_op" where
  "find_enable_lock_exclusive op = (PASS, op\<lparr>op_message := (op_message op)\<lparr>fm_locking := Some EXCLUSIVE_LOCK\<rparr>\<rparr>)"

definition find_set_lock_waiting_option :: "int \<Rightarrow> find_op \<Rightarrow> crud_error + func_status \<times> find_op" where
  "find_set_lock_waiting_option lock op =
     (let put = (\<lambda>opt. Inr (PASS, op\<lparr>op_message := (op_message op)\<lparr>fm_locking_options := opt\<rparr>\<rparr>)) in
      if lock = 0 then put None
      else if lock = 1 then put (Some NOWAIT)
      else if lock = 2 then put (Some SKIP_LOCKED)
      else Inl Unknown_lock_waiting_option)"

text \<open>\<^verbatim>\<open>Collection_find::bind\<close>: the names bound one after the other, up to the first that fails.\<close>

fun find_bind :: "(zkey \<times> zvalue) list \<Rightarrow> find_op \<Rightarrow> crud_error + bool \<times> find_op" where
  "find_bind [] op = Inr (True, op)"
| "find_bind ((Key_index i, v) # bs) op = Inr (False, op)"
| "find_bind ((Key_name n, v) # bs) op = ebind (collection_bind_value n v op) (\<lambda>(ret, op1).
     if ret = PASS then find_bind bs op1 else Inr (False, op1))"

section \<open>Statements\<close>

text \<open>The parameters of an SQL statement: some go to the message at once, others when it is run.\<close>

record execute_op =
  ex_namespace :: string
  ex_stmt :: string
  ex_compact_metadata :: bool
  ex_params :: "zvalue list"
  ex_args :: "any list"

definition stmt_execute_create :: "string \<Rightarrow> string \<Rightarrow> execute_op" where
  "stmt_execute_create namespace stmt =
     \<lparr>ex_namespace = namespace, ex_stmt = stmt, ex_compact_metadata = False, ex_params = [], ex_args = []\<rparr>"

definition stmt_bind_one_param :: "zvalue \<Rightarrow> execute_op \<Rightarrow> func_status \<times> execute_op" where
  "stmt_bind_one_param v op = (PASS, op\<lparr>ex_params := ex_params op @ [v]\<rparr>)"

definition stmt_bind_value :: "zvalue \<Rightarrow> execute_op \<Rightarrow> func_status \<times> execute_op" where
  "stmt_bind_value v op = (PASS, op\<lparr>ex_args := ex_args op @ [zval2any v]\<rparr>)"

definition stmt_finalize_bind :: "execute_op \<Rightarrow> func_status \<times> execute_op" where
  "stmt_finalize_bind op = (PASS, op\<lparr>ex_args := ex_args op @ map zval2any (ex_params op)\<rparr>)"

end
