(* ===== verification/Prepared.thy ===== *)
theory Prepared
  imports Collection_Ops
begin

text \<open>
  Prepared statements, after \<^verbatim>\<open>Prepare_stmt_data\<close> of \<^verbatim>\<open>xmysqlnd_stmt.h\<close> and \<^verbatim>\<open>xmysqlnd_stmt.cc\<close>, and
  how the requests on a collection are run, after \<^verbatim>\<open>xmysqlnd_collection.cc\<close>.
\<close>

section \<open>The store of prepared statements\<close>

datatype ps_stmt = PS_FIND find_msg | PS_UPDATE update_msg | PS_DELETE delete_msg

text \<open>
  An entry is found by its message before it has a number; messages and their serializations
  determine each other.  \<^verbatim>\<open>delivered_ps\<close> is not set by the constructor: \<open>None\<close> until it is assigned.
\<close>

record ps_entry =
  pe_msg_id :: "32 word"
  pe_stmt :: ps_stmt
  pe_delivered :: "bool option"
  pe_bound_values :: "scalar option list"
  pe_bind_finalized :: bool
  pe_row_count :: "64 word"
  pe_has_row_count :: bool
  pe_offset :: "64 word"
  pe_has_offset :: bool

record ps_data =
  ps_next_id :: "32 word"
  ps_supported :: bool
  ps_message_code :: nat
  ps_db :: "ps_entry list"

definition new_ps_data :: ps_data where
  "new_ps_data = \<lparr>ps_next_id = 1, ps_supported = True, ps_message_code = 0, ps_db = []\<rparr>"

fun ps_index :: "(ps_entry \<Rightarrow> bool) \<Rightarrow> ps_entry list \<Rightarrow> nat option" where
  "ps_index P [] = None"
| "ps_index P (e # es) = (if P e then Some 0 else map_option Suc (ps_index P es))"

definition get_ps_entry :: "32 word \<Rightarrow> ps_data \<Rightarrow> nat option" where
  "get_ps_entry n D = ps_index (\<lambda>e. pe_msg_id e = n) (ps_db D)"

definition update_entry :: "nat \<Rightarrow> (ps_entry \<Rightarrow> ps_entry) \<Rightarrow> ps_data \<Rightarrow> ps_data" where
  "update_entry i f D = D\<lparr>ps_db := (ps_db D)[i := f (ps_db D ! i)]\<rparr>"

text \<open>The limits of a statement become placeholders behind those of its expressions.\<close>

definition common_handle_limit_expr :: "32 word \<Rightarrow> 'a crud_msg_scheme \<Rightarrow> 'a crud_msg_scheme" where
  "common_handle_limit_expr n m = (case cm_limit m of
     None \<Rightarrow> m
   | Some l \<Rightarrow> m\<lparr>cm_limit := None, cm_limit_expr := Some
       \<lparr>le_row_count = map_option (\<lambda>_. PB_PLACEHOLDER n) (lm_row_count l),
        le_offset = map_option (\<lambda>_. PB_PLACEHOLDER (if lm_row_count l = None then n else n + 1)) (lm_offset l)\<rparr>\<rparr>)"

definition limit_or_zero :: "(limit \<Rightarrow> 64 word option) \<Rightarrow> 'a crud_msg_scheme \<Rightarrow> 64 word" where
  "limit_or_zero sel m = (case Option.bind (cm_limit m) sel of None \<Rightarrow> 0 | Some w \<Rightarrow> w)"

definition new_ps_entry :: "32 word \<Rightarrow> ps_stmt \<Rightarrow> 'a crud_msg_scheme \<Rightarrow> ps_entry" where
  "new_ps_entry n s m =
     \<lparr>pe_msg_id = n, pe_stmt = s, pe_delivered = None, pe_bound_values = [], pe_bind_finalized = False,
      pe_row_count = limit_or_zero lm_row_count m,
      pe_has_row_count = (Option.bind (cm_limit m) lm_row_count \<noteq> None),
      pe_offset = limit_or_zero lm_offset m,
      pe_has_offset = (Option.bind (cm_limit m) lm_offset \<noteq> None)\<rparr>"

text \<open>
  \<open>wrap\<close> is \<^verbatim>\<open>set_allocated_type\<close> for the type of the message.  The result says whether the
  statement is new, its number, the message without its arguments and the store.
\<close>

definition add_message :: "('a crud_msg_scheme \<Rightarrow> ps_stmt) \<Rightarrow> 'a crud_msg_scheme \<Rightarrow> 32 word \<Rightarrow> ps_data \<Rightarrow>
    (bool \<times> 32 word) \<times> 'a crud_msg_scheme \<times> ps_data" where
  "add_message wrap m count D =
     (if \<not> ps_supported D then ((False, 0), m, D)
      else
        let m1 = m\<lparr>cm_args := []\<rparr>;
            s = wrap (common_handle_limit_expr count m1) in
        case ps_index (\<lambda>e. pe_stmt e = s) (ps_db D) of
          None \<Rightarrow> ((True, ps_next_id D), m1,
            D\<lparr>ps_next_id := ps_next_id D + 1, ps_db := ps_db D @ [new_ps_entry (ps_next_id D) s m1]\<rparr>)
        | Some i \<Rightarrow> ((False, pe_msg_id (ps_db D ! i)), m1, update_entry i
            (\<lambda>e. e\<lparr>pe_row_count := limit_or_zero lm_row_count m1, pe_offset := limit_or_zero lm_offset m1\<rparr>) D))"

section \<open>Preparing and executing\<close>

text \<open>
  What a request finds on the other side of the wire: whether the message to prepare could be
  sent and the error the server answered with, and whether an execution or a request could be sent.
\<close>

datatype prepare_reply = Not_sent | Answered | Refused nat

record 'w ps_wire =
  pw_prepare :: "32 word \<Rightarrow> ps_stmt \<Rightarrow> 'w \<Rightarrow> prepare_reply \<times> 'w"
  pw_execute :: "32 word \<Rightarrow> scalar list \<Rightarrow> 'w \<Rightarrow> func_status \<times> 'w"
  pw_send :: "ps_stmt \<Rightarrow> 'w \<Rightarrow> func_status \<times> 'w"

text \<open>\<^verbatim>\<open>ER_UNKNOWN_COM_ERROR\<close>: the server does not know prepared statements.\<close>

definition unknown_message_code :: nat where
  "unknown_message_code = 1047"

definition prepare_st_on_error_handler :: "nat \<Rightarrow> ps_data \<Rightarrow> ps_data" where
  "prepare_st_on_error_handler c D =
     (if c = unknown_message_code then D\<lparr>ps_message_code := c, ps_supported := False\<rparr>
      else D\<lparr>ps_message_code := c\<rparr>)"

definition get_prepare_resp :: "prepare_reply \<Rightarrow> ps_data \<Rightarrow> ps_data" where
  "get_prepare_resp r D = (case r of Refused c \<Rightarrow> prepare_st_on_error_handler c D | _ \<Rightarrow> D)"

definition erase_at :: "nat \<Rightarrow> 'a list \<Rightarrow> 'a list" where
  "erase_at i xs = take i xs @ drop (Suc i) xs"

definition send_prepare_msg :: "'w ps_wire \<Rightarrow> 32 word \<Rightarrow> ps_data \<Rightarrow> 'w \<Rightarrow> bool \<times> ps_data \<times> 'w" where
  "send_prepare_msg W n D w = (case get_ps_entry n D of
     None \<Rightarrow> (False, D, w)
   | Some i \<Rightarrow>
       (case pw_prepare W n (pe_stmt (ps_db D ! i)) w of (r, w1) \<Rightarrow>
          let D0 = D\<lparr>ps_message_code := 0\<rparr>; D1 = get_prepare_resp r D0 in
          if r = Not_sent then (True, D0, w1)
          else if \<not> ps_supported D1 then (False, D1, w1)
          else if ps_message_code D1 = 0 then (True, update_entry i (\<lambda>e. e\<lparr>pe_delivered := Some True\<rparr>) D1, w1)
          else (False, D1\<lparr>ps_db := erase_at i (ps_db D1)\<rparr>, w1)))"

text \<open>\<^verbatim>\<open>static_cast<int32_t>\<close> of a limit, kept in a signed integer of 64 bits.\<close>

definition limit_arg :: "64 word \<Rightarrow> scalar" where
  "limit_arg w = V_SINT (signed_take_bit 31 w)"

definition execute_args :: "ps_entry \<Rightarrow> scalar list" where
  "execute_args e =
     (if None \<in> set (pe_bound_values e) then [] else map the (pe_bound_values e))
     @ (if pe_has_row_count e then [limit_arg (pe_row_count e)] else [])
     @ (if pe_has_offset e then [limit_arg (pe_offset e)] else [])"

definition send_execute_msg :: "'w ps_wire \<Rightarrow> 32 word \<Rightarrow> ps_data \<Rightarrow> 'w \<Rightarrow> (crud_error + bool) \<times> 'w" where
  "send_execute_msg W n D w = (case get_ps_entry n D of
     None \<Rightarrow> (Inr False, w)
   | Some i \<Rightarrow> (case pe_delivered (ps_db D ! i) of
       None \<Rightarrow> (Inl Uninitialised_read, w)
     | Some False \<Rightarrow> (Inr False, w)
     | Some True \<Rightarrow> (case pw_execute W n (execute_args (ps_db D ! i)) w of (r, w1) \<Rightarrow> (Inr (r = PASS), w1))))"

definition ps_bind_values :: "32 word \<Rightarrow> scalar option list \<Rightarrow> ps_data \<Rightarrow> bool \<times> ps_data" where
  "ps_bind_values n vs D = (case get_ps_entry n D of
     None \<Rightarrow> (False, D)
   | Some i \<Rightarrow> (True, update_entry i (\<lambda>e. e\<lparr>pe_bound_values := vs\<rparr>) D))"

definition prepare_msg_delivered :: "32 word \<Rightarrow> ps_data \<Rightarrow> crud_error + bool" where
  "prepare_msg_delivered n D = (case get_ps_entry n D of
     None \<Rightarrow> Inr False
   | Some i \<Rightarrow> (case pe_delivered (ps_db D ! i) of None \<Rightarrow> Inl Uninitialised_read | Some b \<Rightarrow> Inr b))"

definition is_bind_finalized :: "32 word \<Rightarrow> ps_data \<Rightarrow> bool" where
  "is_bind_finalized n D = (case get_ps_entry n D of
     None \<Rightarrow> False | Some i \<Rightarrow> pe_bind_finalized (ps_db D ! i))"

definition set_finalized_bind :: "32 word \<Rightarrow> bool \<Rightarrow> ps_data \<Rightarrow> crud_error + ps_data" where
  "set_finalized_bind n b D = (case get_ps_entry n D of
     None \<Rightarrow> Inl Ps_runtime_error
   | Some i \<Rightarrow> Inr (update_entry i (\<lambda>e. e\<lparr>pe_bind_finalized := b\<rparr>) D))"

section \<open>Running a request on a collection\<close>

text \<open>
  The result is an error, or whether there is a statement to read the answer of; with it the
  request, the store and the other side.
\<close>

type_synonym ('o, 'w) request_outcome = "(crud_error + bool) \<times> 'o \<times> ps_data \<times> 'w"

text \<open>Without prepared statements.  The arguments are not added again when they count as finalized.\<close>

definition direct_request ::
  "('a crud_msg_scheme \<Rightarrow> ps_stmt) \<Rightarrow> ('a crud_msg_scheme \<Rightarrow> bool) \<Rightarrow> 'w ps_wire \<Rightarrow>
   'a crud_msg_scheme crud_op \<Rightarrow> ps_data \<Rightarrow> 'w \<Rightarrow> ('a crud_msg_scheme crud_op, 'w) request_outcome" where
  "direct_request wrap initialized W op D w =
     (case (if is_bind_finalized (op_ps_message_id op) D then (Inr PASS, op) else collection_finalize_bind op) of
        (Inl e, op1) \<Rightarrow> (Inl e, op1, D, w)
      | (Inr FAIL, op1) \<Rightarrow> (Inr False, op1, D, w)
      | (Inr PASS, op1) \<Rightarrow>
          if initialized (op_message op1)
          then (case pw_send W (wrap (op_message op1)) w of (r, w1) \<Rightarrow> (Inr (r = PASS), op1, D, w1))
          else (Inr False, op1, D, w))"

definition execute_prepared ::
  "'w ps_wire \<Rightarrow> 32 word \<Rightarrow> scalar option list \<Rightarrow> 'o \<Rightarrow> ps_data \<Rightarrow> 'w \<Rightarrow> ('o, 'w) request_outcome" where
  "execute_prepared W n vs op D w = (case prepare_msg_delivered n D of
     Inl e \<Rightarrow> (Inl e, op, D, w)
   | Inr False \<Rightarrow> (Inr False, op, D, w)
   | Inr True \<Rightarrow> (case ps_bind_values n vs D of (ok, D1) \<Rightarrow>
       if ok then (case send_execute_msg W n D1 w of (r, w1) \<Rightarrow> (r, op, D1, w1)) else (Inr False, op, D1, w)))"

text \<open>
  \<open>check\<close> says whether the message is looked at before it is executed: \<^verbatim>\<open>find\<close> does not.  A server
  that does not know prepared statements makes the request start again, without them.
\<close>

definition collection_request ::
  "('a crud_msg_scheme \<Rightarrow> ps_stmt) \<Rightarrow> ('a crud_msg_scheme \<Rightarrow> bool) \<Rightarrow> bool \<Rightarrow> 'w ps_wire \<Rightarrow>
   'a crud_msg_scheme crud_op \<Rightarrow> ps_data \<Rightarrow> 'w \<Rightarrow> ('a crud_msg_scheme crud_op, 'w) request_outcome" where
  "collection_request wrap initialized check W op D w =
     (if \<not> ps_supported D then direct_request wrap initialized W op D w
      else case add_message wrap (op_message op) (word_of_nat (length (op_bindings op))) D of
        ((is_new, n), m, D1) \<Rightarrow>
        (case collection_finalize_bind (op\<lparr>op_message := m\<rparr>) of
           (Inl e, op1) \<Rightarrow> (Inl e, op1, D1, w)
         | (Inr FAIL, op1) \<Rightarrow> (Inr False, op1, D1, w)
         | (Inr PASS, op1) \<Rightarrow>
             (case set_finalized_bind n True D1 of
                Inl e \<Rightarrow> (Inl e, op1\<lparr>op_ps_message_id := n\<rparr>, D1, w)
              | Inr D2 \<Rightarrow>
                  let op2 = op1\<lparr>op_ps_message_id := n\<rparr> in
                  case (if is_new then send_prepare_msg W n D2 w else (True, D2, w)) of (ok, D3, w1) \<Rightarrow>
                    if \<not> ok then
                      (if ps_supported D3 then (Inr False, op2, D3, w1)
                       else direct_request wrap initialized W op2 D3 w1)
                    else if check \<and> \<not> initialized (op_message op2) then (Inr False, op2, D3, w1)
                    else execute_prepared W n (get_bound_values (op_bindings op2)) op2 D3 w1)))"

definition collection_find :: "'w ps_wire \<Rightarrow> find_op \<Rightarrow> ps_data \<Rightarrow> 'w \<Rightarrow> (find_op, 'w) request_outcome" where
  "collection_find = collection_request PS_FIND find_initialized False"

text \<open>\<^verbatim>\<open>Collection_find::execute\<close>, up to reading the answer.\<close>

definition find_execute :: "'w ps_wire \<Rightarrow> find_op \<Rightarrow> ps_data \<Rightarrow> 'w \<Rightarrow> (find_op, 'w) request_outcome" where
  "find_execute W op D w = (case find_verify_is_initialized (op_message op) of
     Inl e \<Rightarrow> (Inl e, op, D, w) | Inr _ \<Rightarrow> collection_find W op D w)"

definition collection_modify :: "'w ps_wire \<Rightarrow> modify_op \<Rightarrow> ps_data \<Rightarrow> 'w \<Rightarrow> (modify_op, 'w) request_outcome" where
  "collection_modify = collection_request PS_UPDATE update_initialized True"

definition collection_remove :: "'w ps_wire \<Rightarrow> remove_op \<Rightarrow> ps_data \<Rightarrow> 'w \<Rightarrow> (remove_op, 'w) request_outcome" where
  "collection_remove = collection_request PS_DELETE crud_initialized True"

end
