(* ===== verification/Placeholders.thy ===== *)
theory Placeholders
  imports Crud_Messages
begin

text \<open>
  What placeholders stand for.  \<open>params\<close> are the names in an expression in their order, \<open>meant\<close> is
  the expression of the protocol with values in their places, without numbers and arguments; the
  laws relate them to the numbered expression that \<^verbatim>\<open>build_expr\<close> makes and to the bindings.
\<close>

section \<open>The meaning of an expression\<close>

fun params :: "expr \<Rightarrow> string list" where
  "params (PARAM n) = [n]"
| "params (OP name args) = concat (map params args)"
| "params (FUNC f args) = concat (map params args)"
| "params (ARR es) = concat (map params es)"
| "params (DOC kvs) = concat (map (\<lambda>(k, e). params e) kvs)"
| "params e = []"

fun meant :: "(bool \<Rightarrow> int \<Rightarrow> int \<Rightarrow> 64 word) \<Rightarrow> (string \<Rightarrow> scalar) \<Rightarrow> expr \<Rightarrow> pb_expr" where
  "meant double val (PARAM n) = PB_LITERAL (val n)"
| "meant double val (OP name args) = PB_OPERATOR name (map (meant double val) args)"
| "meant double val (FUNC f args) = PB_FUNC_CALL (tr_name f)
     (if tref_has_schema f then Some (tr_schema f) else None) (map (meant double val) args)"
| "meant double val (ARR es) = PB_ARRAY (map (meant double val) es)"
| "meant double val (DOC kvs) = PB_OBJECT (map (\<lambda>(k, e). (k, meant double val e)) kvs)"
| "meant double val e = fst (build_expr double e [])"

section \<open>Numbering\<close>

lemma build_names:
  "snd (build_expr d e ph) = ph @ params e"
  "snd (build_args d es ph) = ph @ concat (map params es)"
  "snd (build_fields d kvs ph) = ph @ concat (map (\<lambda>(k, e). params e) kvs)"
  by (induction d e ph and d es ph and d kvs ph rule: build_expr_build_args_build_fields.induct)
    (auto simp: conv_placeholder_def split: prod.splits)

definition numbers :: "nat \<Rightarrow> nat \<Rightarrow> nat list" where
  "numbers k n = map (\<lambda>i. unat (word_of_nat i :: 32 word)) [k..<k + n]"

lemma numbers_simps [simp]: "numbers k 0 = []" "numbers k (Suc 0) = [unat (word_of_nat k :: 32 word)]"
  by (simp_all add: numbers_def)

lemma numbers_add: "numbers k (n + m) = numbers k n @ numbers (k + n) m"
proof -
  have "[k..<k + n + m] = [k..<k + n] @ [k + n..<k + n + m]" by (rule upt_add_eq_append) simp
  then show ?thesis by (simp add: numbers_def add.assoc)
qed

lemma build_positions:
  "positions (fst (build_expr d e ph)) = numbers (length ph) (length (params e))"
  "concat (map positions (fst (build_args d es ph))) = numbers (length ph) (length (concat (map params es)))"
  "concat (map (\<lambda>(k, e). positions e) (fst (build_fields d kvs ph))) =
     numbers (length ph) (length (concat (map (\<lambda>(k, e). params e) kvs)))"
proof (induction d e ph and d es ph and d kvs ph rule: build_expr_build_args_build_fields.induct)
  case (17 d e es ph)
  obtain p ph1 ps ph2 where eq: "build_expr d e ph = (p, ph1)" "build_args d es ph1 = (ps, ph2)"
    by (metis surj_pair)
  with build_names(1)[of d e ph] have "ph1 = ph @ params e" by simp
  with 17(1) 17(2)[OF eq(1)[symmetric]] eq show ?case
    by (simp add: numbers_add)
next
  case (19 d k e kvs ph)
  obtain p ph1 ps ph2 where eq: "build_expr d e ph = (p, ph1)" "build_fields d kvs ph1 = (ps, ph2)"
    by (metis surj_pair)
  with build_names(1)[of d e ph] have "ph1 = ph @ params e" by simp
  with 19(1) 19(2)[OF eq(1)[symmetric]] eq show ?case
    by (simp add: numbers_add)
qed (simp_all add: conv_placeholder_def)

lemma numbers_below:
  assumes "k + n \<le> m" "m \<le> 2 ^ 32" "i \<in> set (numbers k n)"
  shows "i < m"
proof -
  from assms obtain j where j: "i = unat (word_of_nat j :: 32 word)" "j < k + n"
    by (auto simp: numbers_def)
  then have "i \<le> j" by (simp add: unat_of_nat)
  with j assms show ?thesis by simp
qed

text \<open>The values are found where the names have been numbered.\<close>

definition values_at :: "nat \<Rightarrow> (string \<Rightarrow> scalar) \<Rightarrow> string list \<Rightarrow> scalar list \<Rightarrow> bool" where
  "values_at k val ns args \<longleftrightarrow> k + length ns \<le> length args \<and> k + length ns \<le> 2 ^ 32 \<and>
     take (length ns) (drop k args) = map val ns"

lemma values_at_append:
  "values_at k val (ns @ ms) args \<longleftrightarrow> values_at k val ns args \<and> values_at (k + length ns) val ms args"
proof -
  have "take (length ns + length ms) (drop k args) =
      take (length ns) (drop k args) @ take (length ms) (drop (k + length ns) args)"
    by (subst take_add) (simp add: add.commute)
  moreover have "length (take (length ns) (drop k args)) = length (map val ns)" if "k + length ns \<le> length args"
    using that by simp
  ultimately show ?thesis
    unfolding values_at_def length_append map_append
    by (metis (no_types, lifting) add.assoc add_leD1 append_eq_append_conv)
qed

lemma values_at_one:
  assumes "values_at k val [n] args"
  shows "fill args (PB_PLACEHOLDER (word_of_nat k)) = PB_LITERAL (val n)"
proof -
  from assms have k: "k < length args" "k < 2 ^ 32" and t: "take 1 (drop k args) = [val n]"
    by (auto simp: values_at_def)
  from t k have "args ! k = val n" by (metis hd_drop_conv_nth hd_take length_drop list.sel(1) less_one zero_less_diff One_nat_def)
  moreover have "unat (word_of_nat k :: 32 word) = k" using k by (simp add: unat_of_nat)
  ultimately show ?thesis using k by simp
qed

lemma fill_build:
  "values_at (length ph) val (params e) args \<Longrightarrow> fill args (fst (build_expr d e ph)) = meant d val e"
  "values_at (length ph) val (concat (map params es)) args \<Longrightarrow>
     map (fill args) (fst (build_args d es ph)) = map (meant d val) es"
  "values_at (length ph) val (concat (map (\<lambda>(k, e). params e) kvs)) args \<Longrightarrow>
     map (\<lambda>(k, e). (k, fill args e)) (fst (build_fields d kvs ph)) = map (\<lambda>(k, e). (k, meant d val e)) kvs"
proof (induction d e ph and d es ph and d kvs ph rule: build_expr_build_args_build_fields.induct)
  case (8 d name ph)
  then show ?case by (simp only: params.simps build_expr.simps meant.simps conv_placeholder_def map_prod_simp fst_conv values_at_one)
next
  case (17 d e es ph)
  obtain p ph1 ps ph2 where eq: "build_expr d e ph = (p, ph1)" "build_args d es ph1 = (ps, ph2)"
    by (metis surj_pair)
  with build_names(1)[of d e ph] have "ph1 = ph @ params e" by simp
  with 17(1) 17(2)[OF eq(1)[symmetric]] 17(3) eq show ?case
    by (simp add: values_at_append)
next
  case (19 d k e kvs ph)
  obtain p ph1 ps ph2 where eq: "build_expr d e ph = (p, ph1)" "build_fields d kvs ph1 = (ps, ph2)"
    by (metis surj_pair)
  with build_names(1)[of d e ph] have "ph1 = ph @ params e" by simp
  with 19(1) 19(2)[OF eq(1)[symmetric]] 19(3) eq show ?case
    by (simp add: values_at_append)
qed auto

lemma build_initialized:
  "expr_initialized (fst (build_expr d e ph))"
  "list_all expr_initialized (fst (build_args d es ph))"
  "list_all (\<lambda>(k, e). expr_initialized e) (fst (build_fields d kvs ph))"
  by (induction d e ph and d es ph and d kvs ph rule: build_expr_build_args_build_fields.induct)
    (auto simp: conv_placeholder_def split: prod.splits)

section \<open>Bindings\<close>

text \<open>The names of the bindings of a request are always different.\<close>

definition bindings_wf :: "bindings \<Rightarrow> bool" where
  "bindings_wf b \<longleftrightarrow> distinct (get_placeholders b)"

lemma add_placeholder_names:
  "get_placeholders (add_placeholder n b) =
     (if n \<in> set (get_placeholders b) then get_placeholders b else get_placeholders b @ [n])"
  by (auto simp: add_placeholder_def get_placeholders_def)

lemma add_placeholder_wf: "bindings_wf b \<Longrightarrow> bindings_wf (add_placeholder n b)"
  by (auto simp: bindings_wf_def add_placeholder_names)

lemma add_placeholders_wf: "bindings_wf b \<Longrightarrow> bindings_wf (add_placeholders ns b)"
  by (induction ns arbitrary: b) (auto simp: add_placeholders_def add_placeholder_wf)

lemma add_placeholders_new:
  "distinct (get_placeholders b @ ns) \<Longrightarrow> add_placeholders ns b = b @ map (\<lambda>n. (n, None)) ns"
proof (induction ns arbitrary: b)
  case (Cons n ns)
  then have "add_placeholder n b = b @ [(n, None)]"
    by (auto simp: add_placeholder_def get_placeholders_def)
  moreover from Cons.prems have "distinct (get_placeholders (b @ [(n, None)]) @ ns)"
    by (auto simp: get_placeholders_def)
  ultimately show ?case
    using Cons.IH[of "b @ [(n, None)]"] by (simp add: add_placeholders_def)
qed (simp add: add_placeholders_def)

lemma add_placeholders_old:
  "set ns \<subseteq> set (get_placeholders b) \<Longrightarrow> add_placeholders ns b = b"
  by (induction ns) (auto simp: add_placeholders_def add_placeholder_def get_placeholders_def)

lemma add_placeholders_append: "add_placeholders (ns @ ms) b = add_placeholders ms (add_placeholders ns b)"
  by (simp add: add_placeholders_def)

lemma bind_variable_names:
  assumes "bind_variable n v b = Inr (ok, b')"
  shows "get_placeholders b' = get_placeholders b"
proof -
  have [simp]: "map (fst \<circ> (\<lambda>(m, w). if m = n then (m, Some s) else (m, w))) b = map fst b" for s :: scalar
    by (induction b) auto
  show ?thesis
    using assms by (auto simp: bind_variable_def get_placeholders_def split: if_splits any.splits)
qed

lemma bind_variable_wf: "bindings_wf b \<Longrightarrow> bind_variable n v b = Inr (ok, b') \<Longrightarrow> bindings_wf b'"
  by (simp add: bindings_wf_def bind_variable_names)

text \<open>Finalizing adds the values in the order of the names.\<close>

lemma finalize_bindings_all:
  "finalize_bindings (map (\<lambda>(n, s). (n, Some s)) vs) args = (Inr True, args @ map snd vs)"
  by (induction vs arbitrary: args) auto

lemma finalize_bindings_total:
  "(fst (finalize_bindings b args) = Inr True) = (None \<notin> snd ` set b)"
  by (induction b args rule: finalize_bindings.induct) auto

end
