(* ===== verification/Prepared_Laws.thy ===== *)
theory Prepared_Laws
  imports Prepared Placeholders
begin

text \<open>
  The contract of prepared statements: a server that keeps what it has been asked to prepare runs
  the same statement, whether a request is prepared and executed or sent with its arguments.  The
  contract of the three kinds of messages is the locale \<open>prepared_kind\<close>.
\<close>

section \<open>The server\<close>

text \<open>It keeps statements by number; \<open>sv_replies\<close> are its next answers to what it is to prepare.\<close>

record server =
  sv_replies :: "prepare_reply list"
  sv_prepared :: "32 word \<rightharpoonup> ps_stmt"
  sv_ran :: "ps_stmt list"

fun resolve_stmt :: "scalar list \<Rightarrow> ps_stmt \<Rightarrow> ps_stmt" where
  "resolve_stmt args (PS_FIND m) = PS_FIND (resolve_find args m)"
| "resolve_stmt args (PS_UPDATE m) = PS_UPDATE (resolve_update args m)"
| "resolve_stmt args (PS_DELETE m) = PS_DELETE (resolve_crud args m)"

fun stmt_args :: "ps_stmt \<Rightarrow> scalar list" where
  "stmt_args (PS_FIND m) = cm_args m"
| "stmt_args (PS_UPDATE m) = cm_args m"
| "stmt_args (PS_DELETE m) = cm_args m"

fun stmt_limit_expr :: "ps_stmt \<Rightarrow> limit_expr option" where
  "stmt_limit_expr (PS_FIND m) = cm_limit_expr m"
| "stmt_limit_expr (PS_UPDATE m) = cm_limit_expr m"
| "stmt_limit_expr (PS_DELETE m) = cm_limit_expr m"

definition server_prepare :: "32 word \<Rightarrow> ps_stmt \<Rightarrow> server \<Rightarrow> prepare_reply \<times> server" where
  "server_prepare n s sv = (let r = (case sv_replies sv of [] \<Rightarrow> Answered | r # rs \<Rightarrow> r) in
     (r, sv\<lparr>sv_replies := tl (sv_replies sv),
       sv_prepared := (if r = Answered \<or> r = Refused 0 then (sv_prepared sv)(n \<mapsto> s) else sv_prepared sv)\<rparr>))"

definition server_execute :: "32 word \<Rightarrow> scalar list \<Rightarrow> server \<Rightarrow> func_status \<times> server" where
  "server_execute n args sv = (PASS, case sv_prepared sv n of
     None \<Rightarrow> sv | Some s \<Rightarrow> sv\<lparr>sv_ran := sv_ran sv @ [resolve_stmt args s]\<rparr>)"

definition server_send :: "ps_stmt \<Rightarrow> server \<Rightarrow> func_status \<times> server" where
  "server_send s sv = (PASS, sv\<lparr>sv_ran := sv_ran sv @ [resolve_stmt (stmt_args s) s]\<rparr>)"

definition server_wire :: "server ps_wire" where
  "server_wire = \<lparr>pw_prepare = server_prepare, pw_execute = server_execute, pw_send = server_send\<rparr>"

lemma server_wire_simps [simp]:
  "pw_prepare server_wire = server_prepare" "pw_execute server_wire = server_execute"
  "pw_send server_wire = server_send"
  by (simp_all add: server_wire_def)

section \<open>The store and the server agree\<close>

definition has_limit_exprs :: "ps_entry \<Rightarrow> bool" where
  "has_limit_exprs e \<longleftrightarrow>
     pe_has_row_count e = (Option.bind (stmt_limit_expr (pe_stmt e)) le_row_count \<noteq> None) \<and>
     pe_has_offset e = (Option.bind (stmt_limit_expr (pe_stmt e)) le_offset \<noteq> None)"

definition ps_entry_ok :: "(32 word \<rightharpoonup> ps_stmt) \<Rightarrow> ps_entry \<Rightarrow> bool" where
  "ps_entry_ok prepared e \<longleftrightarrow> has_limit_exprs e \<and>
     (pe_delivered e = Some True \<longrightarrow> prepared (pe_msg_id e) = Some (pe_stmt e))"

definition ids_wf :: "ps_data \<Rightarrow> bool" where
  "ids_wf D \<longleftrightarrow> distinct (map pe_msg_id (ps_db D)) \<and> (\<forall>e\<in>set (ps_db D). pe_msg_id e < ps_next_id D)"

definition ps_agrees :: "ps_data \<Rightarrow> server \<Rightarrow> bool" where
  "ps_agrees D sv \<longleftrightarrow> ids_wf D \<and> (\<forall>e\<in>set (ps_db D). ps_entry_ok (sv_prepared sv) e)"

lemma ps_index_Some: "ps_index P xs = Some i \<Longrightarrow> i < length xs \<and> P (xs ! i)"
  by (induction xs arbitrary: i) (auto split: if_splits)

lemma ps_index_None: "ps_index P xs = None \<longleftrightarrow> (\<forall>x\<in>set xs. \<not> P x)"
  by (induction xs) auto

lemma ps_index_update: "i < length xs \<Longrightarrow> P x = P (xs ! i) \<Longrightarrow> ps_index P (xs[i := x]) = ps_index P xs"
  by (induction xs arbitrary: i) (auto split: nat.split)

lemma get_ps_entry_iff:
  assumes "ids_wf D"
  shows "get_ps_entry n D = Some i \<longleftrightarrow> i < length (ps_db D) \<and> pe_msg_id (ps_db D ! i) = n"
proof
  assume "get_ps_entry n D = Some i"
  then show "i < length (ps_db D) \<and> pe_msg_id (ps_db D ! i) = n"
    by (auto simp: get_ps_entry_def dest: ps_index_Some)
next
  assume i: "i < length (ps_db D) \<and> pe_msg_id (ps_db D ! i) = n"
  then obtain j where j: "get_ps_entry n D = Some j"
    by (cases "get_ps_entry n D") (auto simp: get_ps_entry_def ps_index_None)
  then have "j < length (ps_db D) \<and> pe_msg_id (ps_db D ! j) = n"
    by (auto simp: get_ps_entry_def dest: ps_index_Some)
  with i assms have "i = j"
    by (auto simp: ids_wf_def distinct_conv_nth)
  with j show "get_ps_entry n D = Some i" by simp
qed

text \<open>Changes of an entry that keep its number.\<close>

lemma update_entry_ids:
  assumes "ids_wf D" "\<And>e. pe_msg_id (f e) = pe_msg_id e" "i < length (ps_db D)"
  shows "ids_wf (update_entry i f D)"
proof -
  have "map pe_msg_id ((ps_db D)[i := f (ps_db D ! i)]) = map pe_msg_id (ps_db D)"
    using assms by (simp add: map_update) (metis length_map list_update_id nth_map)
  moreover have "\<forall>e\<in>set ((ps_db D)[i := f (ps_db D ! i)]). pe_msg_id e < ps_next_id D"
    using assms by (auto simp: ids_wf_def dest!: set_update_subset_insert[THEN subsetD])
  ultimately show ?thesis using assms by (simp add: ids_wf_def update_entry_def)
qed

lemma update_entry_simps [simp]:
  "ps_supported (update_entry i f D) = ps_supported D"
  "ps_next_id (update_entry i f D) = ps_next_id D"
  "length (ps_db (update_entry i f D)) = length (ps_db D)"
  "i < length (ps_db D) \<Longrightarrow> ps_db (update_entry i f D) ! i = f (ps_db D ! i)"
  by (simp_all add: update_entry_def)

lemma update_entry_agrees:
  assumes "ps_agrees D sv" "\<And>e. pe_msg_id (f e) = pe_msg_id e" "i < length (ps_db D)"
    and "ps_entry_ok (sv_prepared sv) (ps_db D ! i) \<Longrightarrow> ps_entry_ok (sv_prepared sv) (f (ps_db D ! i))"
  shows "ps_agrees (update_entry i f D) sv"
  using assms update_entry_ids[of D f i]
  by (auto simp: ps_agrees_def update_entry_def dest!: set_update_subset_insert[THEN subsetD])

text \<open>The entry of a number, which stays where it is.\<close>

definition entry_at :: "ps_data \<Rightarrow> nat \<Rightarrow> 32 word \<Rightarrow> ps_stmt \<Rightarrow> bool" where
  "entry_at D i n s \<longleftrightarrow> i < length (ps_db D) \<and> pe_msg_id (ps_db D ! i) = n \<and> pe_stmt (ps_db D ! i) = s"

lemma entry_at_get: "ids_wf D \<Longrightarrow> entry_at D i n s \<Longrightarrow> get_ps_entry n D = Some i"
  by (simp add: entry_at_def get_ps_entry_iff)

lemma entry_at_update:
  assumes "entry_at D i n s" "\<And>e. pe_msg_id (f e) = pe_msg_id e" "\<And>e. pe_stmt (f e) = pe_stmt e"
  shows "entry_at (update_entry i f D) i n s"
  using assms by (simp add: entry_at_def)

section \<open>Limits as arguments\<close>

definition small_limits :: "'a crud_msg_scheme \<Rightarrow> bool" where
  "small_limits m \<longleftrightarrow> pred_option (\<lambda>l. pred_option (\<lambda>w. w < 2 ^ 31) (lm_row_count l) \<and>
     pred_option (\<lambda>w. w < 2 ^ 31) (lm_offset l)) (cm_limit m)"

definition limit_args :: "'a crud_msg_scheme \<Rightarrow> scalar list" where
  "limit_args m =
     (if Option.bind (cm_limit m) lm_row_count \<noteq> None then [limit_arg (limit_or_zero lm_row_count m)] else [])
     @ (if Option.bind (cm_limit m) lm_offset \<noteq> None then [limit_arg (limit_or_zero lm_offset m)] else [])"

lemma limit_arg_small: "w < 2 ^ 31 \<Longrightarrow> limit_arg w = V_SINT w"
proof -
  assume w: "w < 2 ^ 31"
  then have t: "take_bit 31 w = w" by (simp add: take_bit_eq_mask less_mask_eq)
  moreover have "\<not> bit w 31" by (metis t bit_take_bit_iff less_irrefl)
  ultimately show ?thesis by (simp add: limit_arg_def signed_take_bit_def)
qed

definition well_placed_crud :: "nat \<Rightarrow> 'a crud_msg_scheme \<Rightarrow> bool" where
  "well_placed_crud k m \<longleftrightarrow> pred_option (\<lambda>e. \<forall>p\<in>set (positions e). p < k) (cm_criteria m) \<and>
     (\<forall>r\<in>set (cm_order m). \<forall>p\<in>set (positions (or_expr r)). p < k)"

definition well_placed_find :: "nat \<Rightarrow> find_msg \<Rightarrow> bool" where
  "well_placed_find k m \<longleftrightarrow> well_placed_crud k m \<and>
     (\<forall>r\<in>set (fm_projection m). \<forall>p\<in>set (positions (pr_source r)). p < k) \<and>
     (\<forall>e\<in>set (fm_grouping m). \<forall>p\<in>set (positions e). p < k) \<and>
     pred_option (\<lambda>e. \<forall>p\<in>set (positions e). p < k) (fm_grouping_criteria m)"

definition well_placed_update :: "nat \<Rightarrow> update_msg \<Rightarrow> bool" where
  "well_placed_update k m \<longleftrightarrow> well_placed_crud k m \<and>
     (\<forall>u\<in>set (um_operation m). pred_option (\<lambda>e. \<forall>p\<in>set (positions e). p < k) (uo_value u))"

lemma map_option_fill:
  "pred_option (\<lambda>e. \<forall>p\<in>set (positions e). p < length vs) x \<Longrightarrow>
     map_option (fill (vs @ ws)) x = map_option (fill vs) x"
  by (cases x) (simp_all add: fill_prefix)

lemma limits_resolved:
  assumes "small_limits m" "cm_limit m = Some l" "length vs + 2 \<le> 2 ^ 32"
  defines "n \<equiv> word_of_nat (length vs) :: 32 word"
  shows "fill_limit (vs @ limit_args m) \<lparr>le_row_count = map_option (\<lambda>_. PB_PLACEHOLDER n) (lm_row_count l),
    le_offset = map_option (\<lambda>_. PB_PLACEHOLDER (if lm_row_count l = None then n else n + 1)) (lm_offset l)\<rparr> = l"
proof -
  have n: "unat n = length vs" using assms(3) by (simp add: n_def unat_of_nat)
  have "n + 1 = word_of_nat (Suc (length vs))" by (simp add: n_def)
  then have n1: "unat (n + 1) = Suc (length vs)" using assms(3) by (simp add: unat_of_nat del: of_nat_Suc)
  obtain r k where l: "l = \<lparr>lm_row_count = r, lm_offset = k\<rparr>" by (cases l) auto
  show ?thesis
    using assms(1,2) n n1
    by (cases r; cases k)
      (auto simp: l fill_limit_def limit_args_def limit_or_zero_def limit_number_def small_limits_def
        limit_arg_small nth_append)
qed

lemma resolve_crud_prepared:
  assumes "well_placed_crud (length vs) m" "small_limits m" "length vs + 2 \<le> 2 ^ 32" "cm_limit_expr m = None"
  shows "resolve_crud (vs @ limit_args m) (common_handle_limit_expr (word_of_nat (length vs)) m) = resolve_crud vs m"
proof -
  have orders: "map (or_expr_update (fill (vs @ limit_args m))) (cm_order m) = map (or_expr_update (fill vs)) (cm_order m)"
    using assms(1) by (auto simp: well_placed_crud_def fill_prefix)
  have criteria: "map_option (fill (vs @ limit_args m)) (cm_criteria m) = map_option (fill vs) (cm_criteria m)"
    using assms(1) by (intro map_option_fill) (simp add: well_placed_crud_def)
  show ?thesis
  proof (cases "cm_limit m")
    case None
    with orders criteria assms(4) show ?thesis by (simp add: resolve_crud_def common_handle_limit_expr_def)
  next
    case (Some l)
    with limits_resolved[OF assms(2) Some assms(3)] orders criteria assms(4) show ?thesis
      by (simp add: resolve_crud_def common_handle_limit_expr_def)
  qed
qed

section \<open>Sending, preparing, executing\<close>

lemma prepared_here:
  assumes "ps_agrees D sv" "entry_at D i n s" "e \<in> set (ps_db D)" "ps_entry_ok (sv_prepared sv) e"
  shows "ps_entry_ok ((sv_prepared sv)(n \<mapsto> s)) e"
proof -
  from assms(3) obtain j where j: "j < length (ps_db D)" "e = ps_db D ! j" by (auto simp: in_set_conv_nth)
  show ?thesis
  proof (cases "pe_msg_id e = n")
    case True
    with j have "entry_at D j n (pe_stmt e)" by (simp add: entry_at_def)
    moreover have "ids_wf D" using assms(1) by (simp add: ps_agrees_def)
    ultimately have "get_ps_entry n D = Some i" "get_ps_entry n D = Some j"
      using assms(2) by (auto intro: entry_at_get)
    then have "i = j" by simp
    with assms(2) j have "pe_stmt e = s" by (simp add: entry_at_def)
    with True assms(4) show ?thesis by (simp add: ps_entry_ok_def)
  next
    case False
    with assms(4) show ?thesis by (simp add: ps_entry_ok_def)
  qed
qed

lemma set_erase_at: "set (erase_at i xs) \<subseteq> set xs"
  by (auto simp: erase_at_def dest: in_set_takeD in_set_dropD)

lemma map_erase_at: "map f (erase_at i xs) = erase_at i (map f xs)"
  by (simp add: erase_at_def take_map drop_map)

lemma distinct_erase_at: "distinct xs \<Longrightarrow> distinct (erase_at i xs)"
  by (auto simp: erase_at_def set_take_disj_set_drop_if_distinct)

lemma erase_agrees: "ps_agrees D sv \<Longrightarrow> ps_agrees (D\<lparr>ps_db := erase_at i (ps_db D)\<rparr>) sv"
  using set_erase_at[of i "ps_db D"]
  by (auto simp: ps_agrees_def ids_wf_def map_erase_at distinct_erase_at)

lemma agrees_fields:
  "ps_agrees (D\<lparr>ps_message_code := c\<rparr>) sv = ps_agrees D sv"
  "ps_agrees (D\<lparr>ps_supported := b\<rparr>) sv = ps_agrees D sv"
  "ps_agrees D (sv\<lparr>sv_replies := rs\<rparr>) = ps_agrees D sv"
  "ps_agrees D (sv\<lparr>sv_ran := ss\<rparr>) = ps_agrees D sv"
  by (simp_all add: ps_agrees_def ids_wf_def)

lemma server_prepare_agrees:
  assumes "ps_agrees D sv" "entry_at D i n s" "server_prepare n s sv = (r, sv')"
  shows "ps_agrees D sv'" "sv_ran sv' = sv_ran sv"
    and "r = Answered \<or> r = Refused 0 \<Longrightarrow> sv_prepared sv' n = Some s"
  using assms prepared_here[OF assms(1,2)]
  by (auto simp: server_prepare_def Let_def ps_agrees_def)

lemma send_prepare_agrees:
  assumes "ps_agrees D sv" "ps_supported D" "entry_at D i n s"
    and "send_prepare_msg server_wire n D sv = (ok, D', sv')"
  shows "ps_agrees D' sv'" "sv_ran sv' = sv_ran sv"
    and "ok \<Longrightarrow> \<exists>d. ps_supported D' \<and> i < length (ps_db D') \<and> ps_db D' ! i = (ps_db D ! i)\<lparr>pe_delivered := d\<rparr>"
    and "\<not> ok \<Longrightarrow> \<not> ps_supported D' \<Longrightarrow> ps_db D' = ps_db D"
proof -
  have i: "get_ps_entry n D = Some i" "i < length (ps_db D)" "pe_stmt (ps_db D ! i) = s" "pe_msg_id (ps_db D ! i) = n"
    using assms(1,3) entry_at_get[of D i n s] by (auto simp: ps_agrees_def entry_at_def)
  obtain r sv1 where r: "server_prepare n s sv = (r, sv1)" by (cases "server_prepare n s sv") auto
  note sp = server_prepare_agrees[OF assms(1,3) r]
  let ?D1 = "get_prepare_resp r (D\<lparr>ps_message_code := 0\<rparr>)"
  have D1: "ps_agrees ?D1 sv1" "ps_db ?D1 = ps_db D"
    using sp(1) by (auto simp: get_prepare_resp_def prepare_st_on_error_handler_def agrees_fields split: prepare_reply.splits)
  have ok_reply: "r = Answered \<or> r = Refused 0" if "ps_supported ?D1" "ps_message_code ?D1 = 0" "r \<noteq> Not_sent"
    using that by (cases r) (auto simp: get_prepare_resp_def prepare_st_on_error_handler_def unknown_message_code_def split: if_splits)
  have deliver: "ps_agrees (update_entry i (\<lambda>e. e\<lparr>pe_delivered := Some True\<rparr>) ?D1) sv1"
    if "ps_supported ?D1" "ps_message_code ?D1 = 0" "r \<noteq> Not_sent"
    using D1 i sp(3)[OF ok_reply[OF that]]
    by (intro update_entry_agrees) (auto simp: ps_entry_ok_def has_limit_exprs_def)
  note run = assms(4) r i D1 sp deliver erase_agrees[OF D1(1), of i]
  show "ps_agrees D' sv'" "sv_ran sv' = sv_ran sv"
    using run by (auto simp: send_prepare_msg_def Let_def agrees_fields split: if_splits)
  show "\<exists>d. ps_supported D' \<and> i < length (ps_db D') \<and> ps_db D' ! i = (ps_db D ! i)\<lparr>pe_delivered := d\<rparr>" if ok
  proof (cases "r = Not_sent")
    case True
    with run that have "D' = D\<lparr>ps_message_code := 0\<rparr>" by (simp add: send_prepare_msg_def)
    with assms(2) i show ?thesis by (intro exI[of _ "pe_delivered (ps_db D ! i)"]) simp
  next
    case False
    with run that assms(2) show ?thesis
      by (intro exI[of _ "Some True"]) (auto simp: send_prepare_msg_def Let_def split: if_splits)
  qed
  show "ps_db D' = ps_db D" if "\<not> ok" "\<not> ps_supported D'"
    using run that by (auto simp: send_prepare_msg_def Let_def split: if_splits)
qed

section \<open>The contract of a kind of messages\<close>

locale prepared_kind =
  fixes wrap :: "'a crud_msg_scheme \<Rightarrow> ps_stmt"
    and resolve :: "scalar list \<Rightarrow> 'a crud_msg_scheme \<Rightarrow> 'a crud_msg_scheme"
    and well_placed :: "nat \<Rightarrow> 'a crud_msg_scheme \<Rightarrow> bool"
  assumes resolve_wrap: "resolve_stmt vs (wrap m) = wrap (resolve vs m)"
    and args_wrap: "stmt_args (wrap m) = cm_args m"
    and limit_wrap: "stmt_limit_expr (wrap m) = cm_limit_expr m"
    and resolve_args: "resolve vs (m\<lparr>cm_args := ws\<rparr>) = resolve vs m"
    and well_placed_args: "well_placed k (m\<lparr>cm_args := ws\<rparr>) = well_placed k m"
    and resolve_prepared: "well_placed (length vs) m \<Longrightarrow> small_limits m \<Longrightarrow> length vs + 2 \<le> 2 ^ 32 \<Longrightarrow>
      cm_limit_expr m = None \<Longrightarrow>
      resolve (vs @ limit_args m) (common_handle_limit_expr (word_of_nat (length vs)) m) = resolve vs m"
begin

text \<open>The entry a message has got in the store: its statement and its limits.\<close>

definition stored :: "ps_data \<Rightarrow> nat \<Rightarrow> 32 word \<Rightarrow> 32 word \<Rightarrow> 'a crud_msg_scheme \<Rightarrow> bool" where
  "stored D i n c m \<longleftrightarrow> entry_at D i n (wrap (common_handle_limit_expr c m)) \<and>
     pe_row_count (ps_db D ! i) = limit_or_zero lm_row_count m \<and> pe_offset (ps_db D ! i) = limit_or_zero lm_offset m"

lemma has_limits:
  assumes "cm_limit_expr m = None"
  shows "Option.bind (stmt_limit_expr (wrap (common_handle_limit_expr c m))) le_row_count \<noteq> None \<longleftrightarrow>
      Option.bind (cm_limit m) lm_row_count \<noteq> None"
    and "Option.bind (stmt_limit_expr (wrap (common_handle_limit_expr c m))) le_offset \<noteq> None \<longleftrightarrow>
      Option.bind (cm_limit m) lm_offset \<noteq> None"
  using assms by (auto simp: limit_wrap common_handle_limit_expr_def split: option.splits)

lemma add_message_stored:
  assumes "ps_agrees D sv" "ps_supported D" "ps_next_id D + 1 \<noteq> 0" "cm_limit_expr m = None"
    and "add_message wrap m c D = ((fresh, n), m1, D1)"
  shows "m1 = m\<lparr>cm_args := []\<rparr> \<and> ps_supported D1 \<and> ps_agrees D1 sv \<and> (\<exists>i. stored D1 i n c m1 \<and>
    (fresh \<or> (\<exists>e\<in>set (ps_db D). pe_delivered (ps_db D1 ! i) = pe_delivered e)))"
proof -
  let ?m1 = "m\<lparr>cm_args := []\<rparr>"
  let ?s = "wrap (common_handle_limit_expr c ?m1)"
  have m1: "m1 = ?m1" using assms(2,5) by (auto simp: add_message_def Let_def split: option.splits)
  show ?thesis
  proof (cases "ps_index (\<lambda>e. pe_stmt e = ?s) (ps_db D)")
    case None
    let ?e = "new_ps_entry (ps_next_id D) ?s ?m1"
    have D1: "D1 = D\<lparr>ps_next_id := ps_next_id D + 1, ps_db := ps_db D @ [?e]\<rparr>" "n = ps_next_id D"
      using assms(2,5) None by (auto simp: add_message_def Let_def)
    have lt: "ps_next_id D < ps_next_id D + 1"
      using unatSuc[of "ps_next_id D"] assms(3) by (simp add: word_less_nat_alt add.commute)
    have ok: "ps_entry_ok (sv_prepared sv) ?e"
      using has_limits[of ?m1 c] assms(4) by (simp add: ps_entry_ok_def has_limit_exprs_def new_ps_entry_def)
    have "ids_wf D1"
      using assms(1) lt by (auto simp: ps_agrees_def ids_wf_def D1 new_ps_entry_def dest: less_trans)
    with assms(1) ok have "ps_agrees D1 sv" by (auto simp: ps_agrees_def D1)
    moreover have "stored D1 (length (ps_db D)) n c ?m1"
      by (simp add: stored_def entry_at_def D1 new_ps_entry_def)
    moreover have fresh using assms(2,5) None by (auto simp: add_message_def Let_def)
    ultimately show ?thesis using m1 D1 assms(2) by auto
  next
    case (Some i)
    then have i: "i < length (ps_db D)" "pe_stmt (ps_db D ! i) = ?s" by (auto dest: ps_index_Some)
    let ?f = "\<lambda>e. e\<lparr>pe_row_count := limit_or_zero lm_row_count ?m1, pe_offset := limit_or_zero lm_offset ?m1\<rparr>"
    have D1: "D1 = update_entry i ?f D" "n = pe_msg_id (ps_db D ! i)"
      using assms(2,5) Some by (auto simp: add_message_def Let_def)
    have "ps_agrees D1 sv"
      unfolding D1 using assms(1) i by (intro update_entry_agrees) (auto simp: ps_entry_ok_def has_limit_exprs_def)
    moreover have "stored D1 i n c ?m1"
      using i by (simp add: stored_def entry_at_def D1)
    moreover have "pe_delivered (ps_db D1 ! i) = pe_delivered (ps_db D ! i)" "ps_db D ! i \<in> set (ps_db D)"
      using i by (simp_all add: D1)
    ultimately show ?thesis using m1 D1 assms(2) by auto
  qed
qed

text \<open>Executing a stored statement runs the message with the bound values.\<close>

definition ran_after :: "(crud_error + bool) \<Rightarrow> scalar list \<Rightarrow> 'a crud_msg_scheme \<Rightarrow> server \<Rightarrow> ps_stmt list" where
  "ran_after r vs m sv = sv_ran sv @ (if r = Inr True then [wrap (resolve vs m)] else [])"

lemma execute_args_stored:
  assumes "stored D i n c m" "ps_agrees D sv" "cm_limit_expr m = None"
  shows "execute_args ((ps_db D ! i)\<lparr>pe_bound_values := map Some vs\<rparr>) = vs @ limit_args m"
proof -
  have e: "pe_stmt (ps_db D ! i) = wrap (common_handle_limit_expr c m)" "i < length (ps_db D)"
    using assms(1) by (auto simp: stored_def entry_at_def)
  then have "has_limit_exprs (ps_db D ! i)" using assms(2) by (auto simp: ps_agrees_def ps_entry_ok_def)
  then have "pe_has_row_count (ps_db D ! i) = (Option.bind (cm_limit m) lm_row_count \<noteq> None)"
      "pe_has_offset (ps_db D ! i) = (Option.bind (cm_limit m) lm_offset \<noteq> None)"
    using has_limits[OF assms(3), of c] e(1) by (auto simp: has_limit_exprs_def)
  moreover have "map (the \<circ> Some) vs = vs" by (simp add: o_def)
  ultimately show ?thesis
    using assms(1) by (auto simp: execute_args_def limit_args_def stored_def)
qed

lemma execute_runs:
  assumes "ps_agrees D sv" "stored D i n (word_of_nat (length vs)) m" "cm_limit_expr m = None"
    and "well_placed (length vs) m" "small_limits m" "length vs + 2 \<le> 2 ^ 32"
    and "execute_prepared server_wire n (map Some vs) op D sv = (r, op', D', sv')"
  shows "ps_agrees D' sv' \<and> sv_ran sv' = ran_after r vs m sv"
proof -
  let ?f = "\<lambda>e. e\<lparr>pe_bound_values := map Some vs\<rparr>"
  let ?D = "update_entry i ?f D"
  have at: "entry_at D i n (wrap (common_handle_limit_expr (word_of_nat (length vs)) m))" and i: "i < length (ps_db D)"
    using assms(2) by (auto simp: stored_def entry_at_def)
  have wf: "ids_wf D" using assms(1) by (simp add: ps_agrees_def)
  have agrees: "ps_agrees ?D sv"
    using assms(1) i by (intro update_entry_agrees) (auto simp: ps_entry_ok_def has_limit_exprs_def)
  have get: "get_ps_entry n D = Some i" by (rule entry_at_get[OF wf at])
  have get': "get_ps_entry n ?D = Some i"
  proof (rule entry_at_get)
    show "ids_wf ?D" using agrees by (simp add: ps_agrees_def)
    show "entry_at ?D i n (wrap (common_handle_limit_expr (word_of_nat (length vs)) m))"
      using at by (intro entry_at_update) auto
  qed
  show ?thesis
  proof (cases "pe_delivered (ps_db D ! i) = Some True")
    case True
    have "ps_entry_ok (sv_prepared sv) (ps_db D ! i)" using assms(1) i by (auto simp: ps_agrees_def)
    then have kept: "sv_prepared sv n = Some (wrap (common_handle_limit_expr (word_of_nat (length vs)) m))"
      using True at by (simp add: ps_entry_ok_def entry_at_def)
    have "ps_db ?D ! i = ?f (ps_db D ! i)" using i by simp
    then show ?thesis
      using assms(7) True get get' kept agrees execute_args_stored[OF assms(2,1,3), of vs]
        resolve_prepared[OF assms(4,5,6,3)]
      by (auto simp: execute_prepared_def prepare_msg_delivered_def ps_bind_values_def send_execute_msg_def
          server_execute_def resolve_wrap ran_after_def agrees_fields)
  next
    case False
    then show ?thesis
      using assms(1,7) get
      by (auto simp: execute_prepared_def prepare_msg_delivered_def ran_after_def split: option.splits bool.splits)
  qed
qed

lemma direct_runs:
  assumes "ps_agrees D sv" "is_bind_finalized (op_ps_message_id op) D"
    and "direct_request wrap initialized server_wire op D sv = (r, op', D', sv')"
  shows "ps_agrees D' sv' \<and> sv_ran sv' = ran_after r (cm_args (op_message op)) (op_message op) sv"
  using assms
  by (auto simp: direct_request_def server_send_def ran_after_def resolve_wrap args_wrap agrees_fields split: if_splits)

text \<open>
  A request whose values are bound runs its own meaning, prepared or not, and the store stays in
  agreement with the server.
\<close>

lemma request_runs:
  assumes agrees: "ps_agrees D sv" and sup: "ps_supported D" and room: "ps_next_id D + 1 \<noteq> 0"
    and le: "cm_limit_expr (op_message op) = None" and wp: "well_placed (length vals) (op_message op)"
    and small: "small_limits (op_message op)" and len: "length vals + 2 \<le> 2 ^ 32"
    and bound: "op_bindings op = map (\<lambda>(x, s). (x, Some s)) vals"
    and run: "collection_request wrap initialized check server_wire op D sv = (r, op', D', sv')"
  shows "ps_agrees D' sv' \<and> sv_ran sv' = ran_after r (map snd vals) (op_message op) sv"
proof -
  let ?vs = "map snd vals"
  let ?m = "(op_message op)\<lparr>cm_args := []\<rparr>"
  let ?c = "word_of_nat (length vals) :: 32 word"
  obtain fresh n m1 D1 where am: "add_message wrap (op_message op) ?c D = ((fresh, n), m1, D1)"
    by (metis prod_cases3 surj_pair)
  obtain i where m1: "m1 = ?m" and s1: "ps_supported D1" "ps_agrees D1 sv" and st: "stored D1 i n ?c ?m"
    using add_message_stored[OF agrees sup room le am] by blast
  let ?op = "op\<lparr>op_message := ?m\<lparr>cm_args := ?vs\<rparr>\<rparr>"
  let ?op2 = "?op\<lparr>op_ps_message_id := n\<rparr>"
  have fin: "collection_finalize_bind (op\<lparr>op_message := ?m\<rparr>) = (Inr PASS, ?op)"
    by (simp add: collection_finalize_bind_def bound finalize_bindings_all)
  let ?D2 = "update_entry i (\<lambda>e. e\<lparr>pe_bind_finalized := True\<rparr>) D1"
  have at: "entry_at D1 i n (wrap (common_handle_limit_expr ?c ?m))" and i: "i < length (ps_db D1)"
    using st by (auto simp: stored_def entry_at_def)
  have get: "get_ps_entry n D1 = Some i" using s1(2) at by (auto simp: ps_agrees_def intro: entry_at_get)
  have s2: "ps_agrees ?D2 sv"
    using s1(2) i by (intro update_entry_agrees) (auto simp: ps_entry_ok_def has_limit_exprs_def)
  have at2: "entry_at ?D2 i n (wrap (common_handle_limit_expr ?c ?m))" using at by (intro entry_at_update) auto
  have st2: "stored ?D2 i n ?c ?m" using st at2 i by (simp add: stored_def)
  obtain ok D3 sv3 where snd: "(if fresh then send_prepare_msg server_wire n ?D2 sv else (True, ?D2, sv)) = (ok, D3, sv3)"
    by (metis prod_cases3)
  have s3: "ps_agrees D3 sv3" "sv_ran sv3 = sv_ran sv"
    and ok3: "ok \<Longrightarrow> \<exists>d. i < length (ps_db D3) \<and> ps_db D3 ! i = (ps_db ?D2 ! i)\<lparr>pe_delivered := d\<rparr>"
    and no3: "\<not> ok \<Longrightarrow> \<not> ps_supported D3 \<Longrightarrow> ps_db D3 = ps_db ?D2"
    using snd s2 s1(1) at2 i send_prepare_agrees[OF s2 _ at2, of ok D3 sv3]
    by (auto split: if_splits intro!: exI[of _ "pe_delivered (ps_db ?D2 ! i)"])
  have gb: "get_bound_values (map (\<lambda>(x, s). (x, Some s)) vals) = map Some ?vs"
    by (simp add: get_bound_values_def comp_def case_prod_beta)
  have run': "(if \<not> ok then if ps_supported D3 then (Inr False, ?op2, D3, sv3)
         else direct_request wrap initialized server_wire ?op2 D3 sv3
       else if check \<and> \<not> initialized (op_message ?op2) then (Inr False, ?op2, D3, sv3)
       else execute_prepared server_wire n (map Some ?vs) ?op2 D3 sv3) = (r, op', D', sv')"
    using run sup am m1 fin get snd
    by (simp add: collection_request_def set_finalized_bind_def bound Let_def gb del: map_map cong: if_cong)
  have ran: "ran_after r (map snd vals) (?m\<lparr>cm_args := ws\<rparr>) sv3 = ran_after r (map snd vals) (op_message op) sv" for ws
    using resolve_args[of ?vs ws "op_message op"] s3(2) by (simp add: ran_after_def)
  show ?thesis
  proof (cases ok)
    case True
    then obtain d where d: "i < length (ps_db D3)" "ps_db D3 ! i = (ps_db ?D2 ! i)\<lparr>pe_delivered := d\<rparr>"
      using ok3 by blast
    have st3: "stored D3 i n (word_of_nat (length ?vs)) ?m" using st d i by (simp add: stored_def entry_at_def)
    have m: "cm_limit_expr ?m = None" "well_placed (length ?vs) ?m" "small_limits ?m" "length ?vs + 2 \<le> 2 ^ 32"
      using le wp small len by (simp_all add: well_placed_args small_limits_def)
    show ?thesis
    proof (cases "check \<and> \<not> initialized (op_message ?op2)")
      case True
      with run' \<open>ok\<close> s3 show ?thesis by (auto simp: ran_after_def)
    next
      case False
      with run' \<open>ok\<close> have "execute_prepared server_wire n (map Some ?vs) ?op2 D3 sv3 = (r, op', D', sv')"
        by (simp split: if_splits)
      from execute_runs[OF s3(1) st3 m this] ran[of "[]"] show ?thesis by simp
    qed
  next
    case False
    show ?thesis
    proof (cases "ps_supported D3")
      case True
      with run' \<open>\<not> ok\<close> s3 show ?thesis by (auto simp: ran_after_def)
    next
      case False
      with no3 \<open>\<not> ok\<close> have db: "ps_db D3 = ps_db ?D2" by simp
      have "get_ps_entry n D3 = Some i"
        using s3(1) at2 db by (intro entry_at_get) (auto simp: ps_agrees_def entry_at_def)
      then have "is_bind_finalized (op_ps_message_id ?op2) D3" using i by (simp add: is_bind_finalized_def db)
      from direct_runs[OF s3(1) this, of initialized r op' D' sv'] run' \<open>\<not> ok\<close> False ran[of ?vs]
      show ?thesis by simp
    qed
  qed
qed

text \<open>
  It runs when the server accepts what it is to prepare and the statements in the store have been
  delivered.
\<close>

lemma send_prepare_accepted:
  assumes "ps_agrees D sv" "ps_supported D" "entry_at D i n s" "sv_replies sv = []"
  shows "\<exists>D' sv'. send_prepare_msg server_wire n D sv = (True, D', sv') \<and> pe_delivered (ps_db D' ! i) = Some True"
proof -
  have "get_ps_entry n D = Some i" "i < length (ps_db D)"
    using assms(1,3) entry_at_get[of D i n s] by (auto simp: ps_agrees_def entry_at_def)
  with assms show ?thesis
    by (auto simp: send_prepare_msg_def server_prepare_def get_prepare_resp_def Let_def update_entry_def)
qed

lemma execute_accepted:
  assumes "get_ps_entry n D = Some i" "i < length (ps_db D)" "pe_delivered (ps_db D ! i) = Some True"
  shows "fst (execute_prepared server_wire n vs op D sv) = Inr True"
proof -
  have "ps_index (\<lambda>e. pe_msg_id e = n) ((ps_db D)[i := (ps_db D ! i)\<lparr>pe_bound_values := vs\<rparr>]) =
      ps_index (\<lambda>e. pe_msg_id e = n) (ps_db D)"
    using assms(2) by (intro ps_index_update) auto
  then show ?thesis
    using assms
    by (simp add: execute_prepared_def prepare_msg_delivered_def ps_bind_values_def send_execute_msg_def
        server_execute_def get_ps_entry_def update_entry_def)
qed

lemma request_accepted:
  assumes agrees: "ps_agrees D sv" and sup: "ps_supported D" and room: "ps_next_id D + 1 \<noteq> 0"
    and le: "cm_limit_expr (op_message op) = None"
    and bound: "op_bindings op = map (\<lambda>(x, s). (x, Some s)) vals"
    and ready: "check \<longrightarrow> initialized ((op_message op)\<lparr>cm_args := map snd vals\<rparr>)"
    and accepts: "sv_replies sv = []" "\<forall>e\<in>set (ps_db D). pe_delivered e = Some True"
  shows "fst (collection_request wrap initialized check server_wire op D sv) = Inr True"
proof -
  let ?m = "(op_message op)\<lparr>cm_args := []\<rparr>"
  let ?c = "word_of_nat (length vals) :: 32 word"
  obtain fresh n m1 D1 where am: "add_message wrap (op_message op) ?c D = ((fresh, n), m1, D1)"
    by (metis prod_cases3 surj_pair)
  obtain i where m1: "m1 = ?m" and s1: "ps_supported D1" "ps_agrees D1 sv" and st: "stored D1 i n ?c ?m"
    and old: "fresh \<or> pe_delivered (ps_db D1 ! i) = Some True"
    using add_message_stored[OF agrees sup room le am] accepts(2) by metis
  have fin: "collection_finalize_bind (op\<lparr>op_message := ?m\<rparr>) = (Inr PASS, op\<lparr>op_message := ?m\<lparr>cm_args := map snd vals\<rparr>\<rparr>)"
    by (simp add: collection_finalize_bind_def bound finalize_bindings_all)
  let ?D2 = "update_entry i (\<lambda>e. e\<lparr>pe_bind_finalized := True\<rparr>) D1"
  have at: "entry_at D1 i n (wrap (common_handle_limit_expr ?c ?m))" and i: "i < length (ps_db D1)"
    using st by (auto simp: stored_def entry_at_def)
  have get: "get_ps_entry n D1 = Some i" using s1(2) at by (auto simp: ps_agrees_def intro: entry_at_get)
  have s2: "ps_agrees ?D2 sv"
    using s1(2) i by (intro update_entry_agrees) (auto simp: ps_entry_ok_def has_limit_exprs_def)
  have at2: "entry_at ?D2 i n (wrap (common_handle_limit_expr ?c ?m))" using at by (intro entry_at_update) auto
  obtain D3 sv3 where snd: "(if fresh then send_prepare_msg server_wire n ?D2 sv else (True, ?D2, sv)) = (True, D3, sv3)"
    and d3: "pe_delivered (ps_db D3 ! i) = Some True"
    using send_prepare_accepted[OF s2 _ at2 accepts(1)] s1(1) old i by (cases fresh) auto
  have "ps_agrees D3 sv3" "i < length (ps_db D3)" "pe_msg_id (ps_db D3 ! i) = n"
    using snd s2 s1(1) at2 i send_prepare_agrees(1,3)[OF s2 _ at2, of True D3 sv3]
    by (auto simp: entry_at_def split: if_splits)
  then have get3: "get_ps_entry n D3 = Some i" "i < length (ps_db D3)" by (auto simp: ps_agrees_def get_ps_entry_iff)
  from ready show ?thesis
    using sup am m1 fin get snd execute_accepted[OF get3 d3]
    by (simp add: collection_request_def set_finalized_bind_def bound Let_def cong: if_cong)
qed

end

end
