(* ===== verification/Crud_Props.thy ===== *)
theory Crud_Props
  imports Prepared_Laws
begin

text \<open>
  Properties of the requests on a collection: they run what was written with the values that were
  bound, prepared or not; and where they do not.
\<close>

section \<open>The kinds of messages\<close>

lemma handled_fields [simp]:
  "fm_projection (common_handle_limit_expr c m) = fm_projection m"
  "fm_grouping (common_handle_limit_expr c m) = fm_grouping m"
  "fm_grouping_criteria (common_handle_limit_expr c m) = fm_grouping_criteria m"
  "um_operation (common_handle_limit_expr c u) = um_operation u"
  by (simp_all add: common_handle_limit_expr_def split: option.split)

lemma resolve_crud_args: "resolve_crud vs (m\<lparr>cm_args := ws\<rparr>) = resolve_crud vs m"
  by (simp add: resolve_crud_def split: option.split)

lemma well_placed_crud_args: "well_placed_crud k (m\<lparr>cm_args := ws\<rparr>) = well_placed_crud k m"
  by (simp add: well_placed_crud_def)

interpretation find_kind: prepared_kind PS_FIND resolve_find well_placed_find
proof
  fix vs :: "scalar list" and m :: find_msg
  assume a: "well_placed_find (length vs) m" "small_limits m" "length vs + 2 \<le> 2 ^ 32" "cm_limit_expr m = None"
  have "resolve_crud (vs @ limit_args m) (common_handle_limit_expr (word_of_nat (length vs)) m) = resolve_crud vs m"
    using a by (intro resolve_crud_prepared) (auto simp: well_placed_find_def)
  with a(1) show "resolve_find (vs @ limit_args m) (common_handle_limit_expr (word_of_nat (length vs)) m) = resolve_find vs m"
    by (simp add: resolve_find_def well_placed_find_def map_option_fill fill_prefix cong: map_cong)
qed (simp_all add: resolve_find_def well_placed_find_def resolve_crud_args well_placed_crud_args)

interpretation modify_kind: prepared_kind PS_UPDATE resolve_update well_placed_update
proof
  fix vs :: "scalar list" and m :: update_msg
  assume a: "well_placed_update (length vs) m" "small_limits m" "length vs + 2 \<le> 2 ^ 32" "cm_limit_expr m = None"
  have "resolve_crud (vs @ limit_args m) (common_handle_limit_expr (word_of_nat (length vs)) m) = resolve_crud vs m"
    using a by (intro resolve_crud_prepared) (auto simp: well_placed_update_def)
  with a(1) show "resolve_update (vs @ limit_args m) (common_handle_limit_expr (word_of_nat (length vs)) m) = resolve_update vs m"
    by (auto simp: resolve_update_def well_placed_update_def map_option_fill
        intro!: arg_cong[of _ _ "\<lambda>us. um_operation_update (\<lambda>_. us) _"] map_cong)
qed (simp_all add: resolve_update_def well_placed_update_def resolve_crud_args well_placed_crud_args)

interpretation remove_kind: prepared_kind PS_DELETE resolve_crud well_placed_crud
  by unfold_locales (simp_all add: resolve_crud_args well_placed_crud_args resolve_crud_prepared)

section \<open>Binding\<close>

text \<open>A value that is no array and no object, and the scalar it is sent as.\<close>

definition scalar_of :: "zvalue \<Rightarrow> scalar" where
  "scalar_of v = (case zval2any v of Any_scalar s \<Rightarrow> s | _ \<Rightarrow> scalar.V_NULL)"

definition plain_value :: "zvalue \<Rightarrow> bool" where
  "plain_value v \<longleftrightarrow> \<not> is_array v \<and> \<not> is_object v"

lemma plain_scalar: "plain_value v \<Longrightarrow> zval2any v = Any_scalar (scalar_of v)"
  by (cases v) (auto simp: plain_value_def scalar_of_def is_array_def is_object_def)

text \<open>The entries of the array a user binds.\<close>

definition named :: "(string \<times> zvalue) list \<Rightarrow> (zkey \<times> zvalue) list" where
  "named bs = map (\<lambda>(n, v). (Key_name n, v)) bs"

definition with_values :: "(string \<times> zvalue) list \<Rightarrow> bindings \<Rightarrow> bindings" where
  "with_values bs b = map (\<lambda>(n, w). (n, case map_of bs n of None \<Rightarrow> w | Some v \<Rightarrow> Some (scalar_of v))) b"

lemma collection_bind_plain:
  assumes "plain_value v" "n \<in> set (get_placeholders (op_bindings op))"
  shows "collection_bind_value n v op = Inr (PASS, op\<lparr>op_bindings := with_values [(n, v)] (op_bindings op)\<rparr>)"
  using assms plain_scalar[OF assms(1)]
  by (auto simp: collection_bind_value_def bind_variable_def with_values_def get_placeholders_def
      intro!: arg_cong[of _ _ "\<lambda>b. op_bindings_update (\<lambda>_. b) op"])

lemma with_values_names: "get_placeholders (with_values bs b) = get_placeholders b"
  by (auto simp: with_values_def get_placeholders_def)

lemma find_bind_plain:
  assumes "list_all (\<lambda>(n, v). plain_value v \<and> n \<in> set (get_placeholders (op_bindings op))) bs"
    and "distinct (map fst bs)"
  shows "find_bind (named bs) op = Inr (True, op\<lparr>op_bindings := with_values bs (op_bindings op)\<rparr>)"
  using assms
proof (induction bs arbitrary: op)
  case (Cons x bs)
  obtain n v where x: "x = (n, v)" by (cases x)
  let ?op = "op\<lparr>op_bindings := with_values [(n, v)] (op_bindings op)\<rparr>"
  have "find_bind (named bs) ?op = Inr (True, ?op\<lparr>op_bindings := with_values bs (op_bindings ?op)\<rparr>)"
    using Cons.prems by (intro Cons.IH) (auto simp: with_values_names list_all_iff)
  moreover have "with_values bs (with_values [(n, v)] b) = with_values (x # bs) b" for b
  proof -
    have "map_of bs n = None" using Cons.prems(2) by (simp add: x map_of_eq_None_iff)
    then show ?thesis by (auto simp: with_values_def x split: option.split)
  qed
  ultimately show ?case
    using Cons.prems by (simp add: x named_def collection_bind_plain)
qed (simp add: with_values_def named_def)

text \<open>The values bound to the names of a request.\<close>

definition bound_scalar :: "(string \<times> zvalue) list \<Rightarrow> string \<Rightarrow> scalar" where
  "bound_scalar bs n = scalar_of (the (map_of bs n))"

lemma with_values_all:
  assumes "set ns \<subseteq> fst ` set bs"
  shows "with_values bs (map (\<lambda>n. (n, None)) ns) = map (\<lambda>(n, s). (n, Some s)) (map (\<lambda>n. (n, bound_scalar bs n)) ns)"
proof -
  have "\<exists>v. map_of bs n = Some v" if "n \<in> set ns" for n
    using assms that by (metis in_mono map_of_eq_None_iff not_None_eq)
  then show ?thesis by (fastforce simp: with_values_def bound_scalar_def)
qed

section \<open>A request runs what was written\<close>

lemma parse_new_criteria:
  assumes "expression_parser (enough_fuel s) DOCUMENT s = Inr e" "CHR 0x00 \<notin> set s" "distinct (params e)"
    and "op_bindings op = []"
  shows "collection_set_criteria E s op =
    Inr (PASS, op\<lparr>op_message := (op_message op)\<lparr>cm_criteria := Some (fst (build_expr (ce_double E) e []))\<rparr>,
      op_bindings := map (\<lambda>n. (n, None)) (params e)\<rparr>)"
proof -
  obtain p ph where eq: "build_expr (ce_double E) e [] = (p, ph)" by (cases "build_expr (ce_double E) e []")
  with build_names(1)[of "ce_double E" e "[]"] have ph: "ph = params e" by simp
  have "add_placeholders (params e) [] = map (\<lambda>n. (n, None)) (params e)"
    using assms(3) add_placeholders_new[of "[]" "params e"] by (simp add: get_placeholders_def)
  with assms eq ph show ?thesis
    by (simp add: collection_set_criteria_def with_expression_def parse_expression_def crud_parse_def caught_def
        get_placeholders_def mode_of_def)
qed

definition limited :: "64 word \<Rightarrow> limit" where
  "limited n = \<lparr>lm_row_count = Some n, lm_offset = None\<rparr>"

lemma fill_criteria:
  assumes "length (params e) \<le> 2 ^ 32"
  shows "fill (map val (params e)) (fst (build_expr d e [])) = meant d val e"
    and "\<forall>p\<in>set (positions (fst (build_expr d e []))). p < length (params e)"
proof -
  show "fill (map val (params e)) (fst (build_expr d e [])) = meant d val e"
    using assms by (intro fill_build(1)) (simp add: values_at_def)
  show "\<forall>p\<in>set (positions (fst (build_expr d e []))). p < length (params e)"
    using numbers_below[of 0 "length (params e)" "length (params e)"] assms by (auto simp: build_positions)
qed


definition new_server :: server where
  "new_server = \<lparr>sv_replies = [], sv_prepared = (\<lambda>_. None), sv_ran = []\<rparr>"

lemma new_agrees: "ps_agrees new_ps_data sv"
  by (simp add: ps_agrees_def ids_wf_def new_ps_data_def)

lemma new_ps_data_simps [simp]:
  "ps_supported new_ps_data" "ps_next_id new_ps_data = 1" "ps_db new_ps_data = []"
  by (simp_all add: new_ps_data_def)

definition some_find :: find_op where
  "some_find = \<lparr>op_message = (find_message True ''s'' ''c'')
       \<lparr>cm_criteria := Some (PB_OPERATOR ''=='' [PB_PLACEHOLDER 0, PB_PLACEHOLDER 1]), cm_limit := Some (limited 5)\<rparr>,
     op_bindings = [(''x'', Some (V_SINT 7)), (''y'', Some (V_SINT 8))], op_ps_message_id = 0\<rparr>"


text \<open>
  C2: a search on a collection runs what was written.  When the criteria parse and their
  placeholders have different names, setting the criteria and a limit succeeds, so does binding a
  value to each name in any order, and the search makes the server run exactly the criteria with
  the values where their names stand, with that limit, when the server accepts statements to prepare.
\<close>

theorem find_runs_what_was_written:
  assumes parsed: "expression_parser (enough_fuel s) DOCUMENT s = Inr e" "CHR 0x00 \<notin> set s"
    and names: "distinct (params e)" "length (params e) + 2 \<le> 2 ^ 32"
    and bs: "distinct (map fst bs)" "fst ` set bs = set (params e)" "list_all (\<lambda>(n, v). plain_value v) bs"
    and n: "n < 2 ^ 31"
    and D: "ps_agrees D sv" "ps_supported D" "ps_next_id D + 1 \<noteq> 0"
    and accepts: "sv_replies sv = []" "\<forall>e\<in>set (ps_db D). pe_delivered e = Some True"
  shows "\<exists>op1 op2 op3 D' sv'.
    collection_set_criteria E s (collection_find_create schema name) = Inr (PASS, op1) \<and>
    find_bind (named bs) (snd (collection_set_limit n op1)) = Inr (True, op2) \<and>
    find_execute server_wire op2 D sv = (Inr True, op3, D', sv') \<and>
    ps_agrees D' sv' \<and>
    sv_ran sv' = sv_ran sv @ [PS_FIND ((find_message True schema name)
      \<lparr>cm_criteria := Some (meant (ce_double E) (bound_scalar bs) e), cm_limit := Some (limited n)\<rparr>)]"
proof -
  let ?p = "fst (build_expr (ce_double E) e [])"
  let ?m = "(find_message True schema name)\<lparr>cm_criteria := Some ?p\<rparr>"
  let ?op1 = "(collection_find_create schema name)\<lparr>op_message := ?m, op_bindings := map (\<lambda>n. (n, None)) (params e)\<rparr>"
  let ?vals = "map (\<lambda>n. (n, bound_scalar bs n)) (params e)"
  let ?op2 = "?op1\<lparr>op_message := ?m\<lparr>cm_limit := Some (limited n)\<rparr>, op_bindings := map (\<lambda>(x, s). (x, Some s)) ?vals\<rparr>"
  have set_criteria: "collection_set_criteria E s (collection_find_create schema name) = Inr (PASS, ?op1)"
    using parse_new_criteria[OF parsed names(1), of "collection_find_create schema name" E]
    by (simp add: collection_find_create_def)
  have limit: "snd (collection_set_limit n ?op1) = ?op1\<lparr>op_message := ?m\<lparr>cm_limit := Some (limited n)\<rparr>\<rparr>"
    by (simp add: collection_set_limit_def set_row_count_def mutable_limit_def find_message_def no_limit_def limited_def)
  have bind: "find_bind (named bs) (snd (collection_set_limit n ?op1)) = Inr (True, ?op2)"
    unfolding limit
  proof (subst find_bind_plain)
    show "list_all (\<lambda>(x, v). plain_value v \<and> x \<in> set (get_placeholders (op_bindings
        (?op1\<lparr>op_message := ?m\<lparr>cm_limit := Some (limited n)\<rparr>\<rparr>)))) bs"
      using bs(3) imageI[of _ "set bs" fst] by (fastforce simp: list_all_iff get_placeholders_def comp_def bs(2))
    show "distinct (map fst bs)" by (rule bs(1))
  qed (use with_values_all[of "params e" bs] bs(2) in simp)
  obtain r op3 D' sv' where run: "collection_find server_wire ?op2 D sv = (r, op3, D', sv')"
    by (rule prod_cases4)
  have le: "cm_limit_expr (op_message ?op2) = None" by (simp add: find_message_def)
  have wp: "well_placed_find (length ?vals) (op_message ?op2)"
    using fill_criteria(2)[of e "ce_double E"] names(2)
    by (simp add: well_placed_find_def well_placed_crud_def find_message_def)
  have small: "small_limits (op_message ?op2)" using n by (simp add: small_limits_def limited_def)
  have b: "op_bindings ?op2 = map (\<lambda>(x, s). (x, Some s)) ?vals" by simp
  have len: "length ?vals + 2 \<le> 2 ^ 32" using names(2) by simp
  have res: "resolve_find (map snd ?vals) (op_message ?op2) = (find_message True schema name)
      \<lparr>cm_criteria := Some (meant (ce_double E) (bound_scalar bs) e), cm_limit := Some (limited n)\<rparr>"
    using fill_criteria(1)[of e "bound_scalar bs" "ce_double E"] names(2)
    by (simp add: resolve_find_def resolve_crud_def find_message_def comp_def)
  have "r = Inr True"
    using find_kind.request_accepted[OF D le b, of False find_initialized] accepts run
    by (simp add: collection_find_def)
  moreover have "find_initialized (op_message ?op2)"
    by (simp add: find_initialized_def crud_initialized_def find_message_def build_initialized limit_initialized_def limited_def)
  then have "find_execute server_wire ?op2 D sv = (r, op3, D', sv')"
    using run by (simp add: find_execute_def find_verify_is_initialized_def)
  ultimately show ?thesis
    using set_criteria bind res find_kind.request_runs[OF D le wp small len b run[unfolded collection_find_def]]
    by (simp add: find_kind.ran_after_def)
qed

definition quiet_env :: crud_env where
  "quiet_env = \<lparr>ce_double = (\<lambda>_ _ _. 0), ce_partial = (\<lambda>_ _ ph. (PB_NO_TYPE_OBJECT [], ph))\<rparr>"

lemma parsed_two_names: "expression_parser (enough_fuel ''a = :x or b = :y'') DOCUMENT ''a = :x or b = :y'' =
    Inr (OP ''||'' [OP ''=='' [PATH (Path [MEMBER ''a'']), PARAM ''x''],
                    OP ''=='' [PATH (Path [MEMBER ''b'']), PARAM ''y'']])"
  by code_simp

theorem find_runs_what_was_written_witness:
  "\<exists>op1 op2 op3 D' sv'.
    collection_set_criteria quiet_env ''a = :x or b = :y'' (collection_find_create ''s'' ''c'') = Inr (PASS, op1) \<and>
    find_bind (named [(''y'', String ''u''), (''x'', Long 3)]) (snd (collection_set_limit 10 op1)) = Inr (True, op2) \<and>
    find_execute server_wire op2 new_ps_data new_server = (Inr True, op3, D', sv') \<and>
    ps_agrees D' sv' \<and>
    sv_ran sv' = sv_ran new_server @ [PS_FIND ((find_message True ''s'' ''c'')
      \<lparr>cm_criteria := Some (meant (ce_double quiet_env) (bound_scalar [(''y'', String ''u''), (''x'', Long 3)])
         (OP ''||'' [OP ''=='' [PATH (Path [MEMBER ''a'']), PARAM ''x''],
                     OP ''=='' [PATH (Path [MEMBER ''b'']), PARAM ''y'']])),
       cm_limit := Some (limited 10)\<rparr>)]"
  by (rule find_runs_what_was_written[OF parsed_two_names])
    (auto simp: new_agrees new_server_def plain_value_def is_array_def is_object_def)

section \<open>Where a request does not run what was written\<close>

lemma parsed_one_name: "expression_parser (enough_fuel ''a = :x or b = :x'') DOCUMENT ''a = :x or b = :x'' =
    Inr (OP ''||'' [OP ''=='' [PATH (Path [MEMBER ''a'']), PARAM ''x''],
                    OP ''=='' [PATH (Path [MEMBER ''b'']), PARAM ''x'']])"
  by code_simp

definition member_of :: "string \<Rightarrow> pb_expr" where
  "member_of n = PB_IDENT (no_identifier\<lparr>id_path := [path_item_of (MEMBER n)]\<rparr>)"

definition either_is :: "pb_expr \<Rightarrow> pb_expr \<Rightarrow> pb_expr" where
  "either_is p q =
     PB_OPERATOR ''||'' [PB_OPERATOR ''=='' [member_of ''a'', p], PB_OPERATOR ''=='' [member_of ''b'', q]]"

lemma repeated_name_criteria:
  "collection_set_criteria E ''a = :x or b = :x'' (collection_find_create schema name) =
     Inr (PASS, (collection_find_create schema name)
       \<lparr>op_message := (find_message True schema name)\<lparr>cm_criteria := Some (either_is (PB_PLACEHOLDER 0) (PB_PLACEHOLDER 1))\<rparr>,
        op_bindings := [(''x'', None)]\<rparr>)"
proof -
  have "c_str ''a = :x or b = :x'' = ''a = :x or b = :x''" by (rule c_str_id) simp
  then show ?thesis
    by (simp add: collection_set_criteria_def with_expression_def parse_expression_def crud_parse_def caught_def
        mode_of_def parsed_one_name conv_placeholder_def path_items_def either_is_def member_of_def
        collection_find_create_def get_placeholders_def add_placeholders_def add_placeholder_def)
qed

text \<open>
  C23: a name that occurs twice in the criteria is given two numbers but only one argument.  With a
  limit the prepared statement puts the limit in the second place: the search for
  \<^verbatim>\<open>a = :x or b = :x\<close> with \<open>x\<close> bound to any number and a limit of \<open>n\<close> succeeds, and makes the
  server look for documents whose \<open>b\<close> is \<open>n\<close>.
\<close>

theorem repeated_name_takes_limit:
  "\<exists>op1 op2 op3 D' sv'.
    collection_set_criteria E ''a = :x or b = :x'' (collection_find_create schema name) = Inr (PASS, op1) \<and>
    collection_bind_value ''x'' (Long v) (snd (collection_set_limit n op1)) = Inr (PASS, op2) \<and>
    collection_find server_wire op2 new_ps_data new_server = (Inr True, op3, D', sv') \<and>
    sv_ran sv' = [PS_FIND ((find_message True schema name)
      \<lparr>cm_criteria := Some (either_is (PB_LITERAL (V_SINT v)) (PB_LITERAL (limit_arg n))),
       cm_limit := Some \<lparr>lm_row_count = Some (signed_take_bit 31 n), lm_offset = None\<rparr>\<rparr>)]"
  unfolding repeated_name_criteria
  by (simp add: collection_set_limit_def set_row_count_def mutable_limit_def no_limit_def find_message_def
      collection_bind_value_def bind_variable_def collection_find_create_def collection_find_def
      collection_request_def add_message_def Let_def common_handle_limit_expr_def new_ps_entry_def
      limit_or_zero_def collection_finalize_bind_def set_finalized_bind_def get_ps_entry_def update_entry_def
      send_prepare_msg_def server_prepare_def new_server_def get_prepare_resp_def execute_prepared_def
      prepare_msg_delivered_def ps_bind_values_def send_execute_msg_def server_execute_def execute_args_def
      resolve_find_def resolve_crud_def fill_limit_def limit_number_def limit_arg_def get_bound_values_def
      either_is_def member_of_def)

text \<open>
  C28: a search that is run before its name is bound fails with an error, as it should, but leaves
  its statement in the store of prepared statements, where it is taken for one that was sent.  When
  the name is bound and the search is run again, nothing is prepared and the flag that says whether
  the statement was delivered is read without ever having been set.
\<close>

theorem run_after_failed_bind_reads_uninitialised:
  assumes "op_bindings op = [(x, None)]" "plain_value v"
  shows "\<exists>op1 D1 op2. collection_find W op new_ps_data w = (Inl (Bind_fail x), op1, D1, w) \<and>
    collection_bind_value x v op1 = Inr (PASS, op2) \<and> fst (collection_find W op2 D1 w) = Inl Uninitialised_read"
  using assms plain_scalar[OF assms(2)]
  by (simp add: collection_find_def collection_request_def add_message_def Let_def collection_finalize_bind_def
      collection_bind_value_def bind_variable_def set_finalized_bind_def get_ps_entry_def update_entry_def
      execute_prepared_def prepare_msg_delivered_def new_ps_entry_def)

theorem run_after_failed_bind_reads_uninitialised_witness:
  "\<exists>op1 D1 op2. collection_find server_wire (some_find\<lparr>op_bindings := [(''x'', None)]\<rparr>) new_ps_data new_server =
      (Inl (Bind_fail ''x''), op1, D1, new_server) \<and>
    collection_bind_value ''x'' (Long 1) op1 = Inr (PASS, op2) \<and>
    fst (collection_find server_wire op2 D1 new_server) = Inl Uninitialised_read"
  by (rule run_after_failed_bind_reads_uninitialised) (simp_all add: plain_value_def is_array_def is_object_def)

text \<open>
  C24: on a server that does not know prepared statements, a search that is run, given another value
  and run again makes the server run the first value both times: the arguments of its message
  count as finalized and are not made again.
\<close>

theorem unsupported_reruns_old_value:
  assumes "op_bindings op = [(x, Some a)]" "find_initialized (op_message op)" "plain_value v"
    and "sv_replies sv = [Refused unknown_message_code]"
  shows "\<exists>op1 D1 sv1 op2 op3 D2 sv2.
    collection_find server_wire op new_ps_data sv = (Inr True, op1, D1, sv1) \<and>
    collection_bind_value x v op1 = Inr (PASS, op2) \<and> op_bindings op2 = [(x, Some (scalar_of v))] \<and>
    collection_find server_wire op2 D1 sv1 = (Inr True, op3, D2, sv2) \<and>
    sv_ran sv2 = sv_ran sv @ [PS_FIND (resolve_find [a] (op_message op)), PS_FIND (resolve_find [a] (op_message op))]"
proof -
  have "find_initialized ((op_message op)\<lparr>cm_args := ws\<rparr>)" for ws
    using assms(2) by (simp add: find_initialized_def crud_initialized_def)
  then show ?thesis
    using assms plain_scalar[OF assms(3)]
    by (simp add: collection_find_def collection_request_def add_message_def Let_def collection_finalize_bind_def
        collection_bind_value_def bind_variable_def set_finalized_bind_def get_ps_entry_def update_entry_def
        new_ps_entry_def send_prepare_msg_def server_prepare_def get_prepare_resp_def
        prepare_st_on_error_handler_def unknown_message_code_def direct_request_def is_bind_finalized_def
        server_send_def find_kind.resolve_args)
qed

theorem unsupported_reruns_old_value_witness:
  "\<exists>op1 D1 sv1 op2 op3 D2 sv2.
    collection_find server_wire (some_find\<lparr>op_bindings := [(''x'', Some (V_SINT 7))]\<rparr>) new_ps_data
      (new_server\<lparr>sv_replies := [Refused unknown_message_code]\<rparr>) = (Inr True, op1, D1, sv1) \<and>
    collection_bind_value ''x'' (Long 9) op1 = Inr (PASS, op2) \<and> op_bindings op2 = [(''x'', Some (scalar_of (Long 9)))] \<and>
    collection_find server_wire op2 D1 sv1 = (Inr True, op3, D2, sv2) \<and>
    sv_ran sv2 = sv_ran (new_server\<lparr>sv_replies := [Refused unknown_message_code]\<rparr>) @
      [PS_FIND (resolve_find [V_SINT 7] (op_message (some_find\<lparr>op_bindings := [(''x'', Some (V_SINT 7))]\<rparr>))),
       PS_FIND (resolve_find [V_SINT 7] (op_message (some_find\<lparr>op_bindings := [(''x'', Some (V_SINT 7))]\<rparr>)))]"
  by (rule unsupported_reruns_old_value)
    (simp_all add: some_find_def find_message_def find_initialized_def crud_initialized_def limit_initialized_def
      limited_def plain_value_def is_array_def is_object_def)

section \<open>Orders\<close>

text \<open>
  An order is cut at its first \<open>asc\<close> or \<open>desc\<close>: further keys are lost.  The spaces between its
  tokens are lost as well, which changes what it says.
\<close>

lemma order_keys_lost: "orderby_split ''a desc, b'' = Inr (''a'', DESC)"
  by code_simp

lemma order_spaces_lost: "orderby_split ''not a'' = Inr (''nota'', ASC)"
  by code_simp

end
