(* ===== verification/Legacy_Parser.thy ===== *)
theory Legacy_Parser
  imports Pb_Expr
begin

text \<open>
  The older parser of \<^verbatim>\<open>crud_parsers/legacy_tokenizer.cc\<close> and \<^verbatim>\<open>expression_parser.cc\<close>, which reads the
  columns that an update of a table sets.  Positions of tokens only occur in its messages and are
  not modelled; the state of a parser is the list of the tokens left.
\<close>

section \<open>Tokens\<close>

text \<open>The reserved words have one type here: reading a column never asks which word it is.\<close>

datatype legacy_type =
    L_RESERVED | L_LPAREN | L_RPAREN | L_LSQBRACKET | L_RSQBRACKET | L_IDENT | L_LSTRING | L_LNUM
  | L_DOT | L_COMMA | L_EQ | L_NE | L_GT | L_GE | L_LT | L_LE | L_BITAND | L_BITOR | L_LSHIFT | L_RSHIFT
  | L_PLUS | L_MINUS | L_MUL | L_DIV | L_NEG | L_BANG | L_PLACEHOLDER | L_DOUBLESTAR | L_MOD
  | L_LINTEGER | L_DOLLAR | L_COLON | L_LCURLY | L_RCURLY | L_ARROW | L_QUOTE

type_synonym legacy_token = "legacy_type \<times> string"

datatype legacy_error = Legacy_parser_error | Bad_lexical_cast

definition legacy_reserved_words :: "string list" where
  "legacy_reserved_words =
    [''and'', ''or'', ''xor'', ''is'', ''not'', ''like'', ''in'', ''regexp'', ''between'', ''interval'',
     ''escape'', ''div'', ''hex'', ''bin'', ''true'', ''false'', ''null'', ''second'', ''minute'',
     ''hour'', ''day'', ''week'', ''month'', ''quarter'', ''year'', ''microsecond'', ''as'', ''asc'',
     ''desc'', ''cast'', ''character'', ''set'', ''charset'', ''ascii'', ''unicode'', ''byte'',
     ''binary'', ''char'', ''nchar'', ''date'', ''datetime'', ''time'', ''decimal'', ''signed'',
     ''unsigned'', ''integer'', ''int'', ''json'']"

text \<open>The words are compared without case, as C strings.\<close>

definition legacy_word_type :: "string \<Rightarrow> legacy_type" where
  "legacy_word_type w =
     (if map c_tolower (c_str w) \<in> set legacy_reserved_words then L_RESERVED else L_IDENT)"

text \<open>
  A number that begins with a digit: with a point it is a float, whose exponent needs digits.  A
  number that begins with a point is a float as well.
\<close>

definition legacy_fraction :: "string \<Rightarrow> string \<Rightarrow> (legacy_token \<times> string) option" where
  "legacy_fraction before s =
     (let frac = takeWhile c_isdigit s; r = dropWhile c_isdigit s in
      if r \<noteq> [] \<and> c_toupper (hd r) = CHR ''E'' then
        let sign = takeWhile (\<lambda>c. c = CHR ''-'' \<or> c = CHR ''+'') (take 1 (tl r));
            r1 = drop (length sign) (tl r); digits = takeWhile c_isdigit r1 in
        if digits = [] then None
        else Some ((L_LNUM, before @ frac @ [hd r] @ sign @ digits), dropWhile c_isdigit r1)
      else Some ((L_LNUM, before @ frac), r))"

definition legacy_number :: "string \<Rightarrow> (legacy_token \<times> string) option" where
  "legacy_number s =
     (let digits = takeWhile c_isdigit s; r = dropWhile c_isdigit s in
      if r \<noteq> [] \<and> hd r = CHR ''.'' then legacy_fraction (digits @ ''.'') (tl r)
      else Some ((L_LINTEGER, digits), r))"

text \<open>
  The text of a quoted string and what follows it.  A quote ends it unless a quote follows; at the
  end of the input a backslash ends it as a quote does.
\<close>

fun legacy_quoted :: "char \<Rightarrow> string \<Rightarrow> (string \<times> string) option" where
  "legacy_quoted q [] = None"
| "legacy_quoted q [c] =
     (if c = q \<or> c = CHR 0x5C \<and> q \<noteq> CHR 0x60 then Some ([], []) else None)"
| "legacy_quoted q (c # d # s) =
     (if c = q \<and> d \<noteq> q then Some ([], d # s)
      else if c = q \<or> c = CHR 0x5C \<and> q \<noteq> CHR 0x60
      then map_option (map_prod ((#) d) id) (legacy_quoted q s)
      else map_option (map_prod ((#) c) id) (legacy_quoted q (d # s)))"

definition legacy_symbols2 :: "(string \<times> legacy_token) list" where
  "legacy_symbols2 =
    [(''**'', (L_DOUBLESTAR, ''**'')), (''!='', (L_NE, ''!='')), (''<<'', (L_LSHIFT, ''<<'')), (''<='', (L_LE, ''<='')),
     (''<>'', (L_NE, ''!='')), (''>>'', (L_RSHIFT, ''>>'')), (''>='', (L_GE, ''>=''))]"

definition legacy_symbols1 :: "(char \<times> legacy_type) list" where
  "legacy_symbols1 =
    [(CHR ''?'', L_PLACEHOLDER), (CHR ''+'', L_PLUS), (CHR ''-'', L_MINUS), (CHR ''*'', L_MUL), (CHR ''/'', L_DIV),
     (CHR ''$'', L_DOLLAR), (CHR ''%'', L_MOD), (CHR ''='', L_EQ), (CHR ''&'', L_BITAND), (CHR ''|'', L_BITOR),
     (CHR ''('', L_LPAREN), (CHR '')'', L_RPAREN), (CHR ''['', L_LSQBRACKET), (CHR '']'', L_RSQBRACKET),
     (CHR ''{'', L_LCURLY), (CHR ''}'', L_RCURLY), (CHR ''~'', L_NEG), (CHR '','', L_COMMA), (CHR '':'', L_COLON),
     (CHR ''!'', L_BANG), (CHR ''<'', L_LT), (CHR ''>'', L_GT), (CHR ''.'', L_DOT)]"

text \<open>
  One round of \<^verbatim>\<open>get_tokens\<close> behind a character that is no space.  Behind an arrow the next two
  single quotes are tokens of their own: \<open>arrow\<close> is \<^verbatim>\<open>arrow_last\<close>, \<open>inside\<close> is \<^verbatim>\<open>inside_arrow\<close>.
\<close>

type_synonym legacy_turn = "legacy_token \<times> bool \<times> bool \<times> string"

definition legacy_symbol :: "bool \<Rightarrow> bool \<Rightarrow> char \<Rightarrow> string \<Rightarrow> legacy_turn option" where
  "legacy_symbol arrow inside c s =
     (if c = CHR ''-'' \<and> \<not> arrow \<and> s \<noteq> [] \<and> hd s = CHR ''>'' then Some ((L_ARROW, ''->''), True, inside, tl s)
      else if c = CHR ''.'' \<and> s \<noteq> [] \<and> c_isdigit (hd s)
      then map_option (\<lambda>(t, r). (t, arrow, inside, r)) (legacy_fraction ''.'' s)
      else case (if s = [] then None else map_of legacy_symbols2 [c, hd s]) of
        Some t \<Rightarrow> Some (t, arrow, inside, tl s)
      | None \<Rightarrow> (case map_of legacy_symbols1 c of
          Some ty \<Rightarrow> Some ((ty, [c]), arrow, inside, s)
        | None \<Rightarrow>
            if c = CHR 0x27 \<and> arrow then
              (if inside then Some ((L_QUOTE, [CHR 0x27]), False, False, s)
               else Some ((L_QUOTE, [CHR 0x27]), True, True, s))
            else if c = CHR 0x22 \<or> c = CHR 0x27 \<or> c = CHR 0x60
            then map_option (\<lambda>(val, r). ((if c = CHR 0x60 then L_IDENT else L_LSTRING, val), arrow, inside, r))
              (legacy_quoted c s)
            else None))"

definition word_char :: "char \<Rightarrow> bool" where
  "word_char c \<longleftrightarrow> c_isalnum c \<or> c = CHR ''_''"

definition legacy_round :: "bool \<Rightarrow> bool \<Rightarrow> char \<Rightarrow> string \<Rightarrow> legacy_turn option" where
  "legacy_round arrow inside c s =
     (if c_isdigit c then map_option (\<lambda>(t, r). (t, arrow, inside, r)) (legacy_number (c # s))
      else if word_char c then
        let w = c # takeWhile word_char s in Some ((legacy_word_type w, w), arrow, inside, dropWhile word_char s)
      else legacy_symbol arrow inside c s)"

lemma length_dropWhile_tl: "length (dropWhile P (drop k (tl (dropWhile P s)))) \<le> length s"
proof -
  have "length (dropWhile P (drop k (tl (dropWhile P s)))) \<le> length (drop k (tl (dropWhile P s)))"
    by (rule length_dropWhile_le)
  also have "\<dots> \<le> length (dropWhile P s)" by simp
  also have "\<dots> \<le> length s" by (rule length_dropWhile_le)
  finally show ?thesis .
qed

lemma legacy_fraction_length: "legacy_fraction b s = Some (t, r) \<Longrightarrow> length r \<le> length s"
  using length_dropWhile_tl[of c_isdigit _ s] length_dropWhile_le[of c_isdigit s]
  by (auto simp: legacy_fraction_def Let_def split: if_splits)

lemma legacy_quoted_length: "legacy_quoted q s = Some (v, r) \<Longrightarrow> length r \<le> length s"
  by (induction q s arbitrary: v r rule: legacy_quoted.induct) (fastforce split: if_splits)+

lemma legacy_number_length:
  assumes "c_isdigit c" "legacy_number (c # s) = Some (t, r)"
  shows "length r \<le> length s"
proof (cases "dropWhile c_isdigit s \<noteq> [] \<and> hd (dropWhile c_isdigit s) = CHR ''.''")
  case True
  with assms have "legacy_fraction (c # takeWhile c_isdigit s @ ''.'') (tl (dropWhile c_isdigit s)) = Some (t, r)"
    by (simp add: legacy_number_def)
  then have "length r \<le> length (tl (dropWhile c_isdigit s))" by (rule legacy_fraction_length)
  also have "\<dots> \<le> length (dropWhile c_isdigit s)" by simp
  also have "\<dots> \<le> length s" by (rule length_dropWhile_le)
  finally show ?thesis .
next
  case False
  with assms have "r = dropWhile c_isdigit s" by (auto simp: legacy_number_def Let_def)
  then show ?thesis by (simp add: length_dropWhile_le)
qed

lemma legacy_symbol_length:
  assumes "legacy_symbol a n c s = Some (t, a', n', r)"
  shows "length r \<le> length s"
proof -
  have "r = s \<or> r = tl s \<or> (\<exists>t. legacy_fraction ''.'' s = Some (t, r)) \<or> (\<exists>v. legacy_quoted c s = Some (v, r))"
    using assms unfolding legacy_symbol_def
    by (simp only: split: if_split_asm option.split_asm) auto
  then show ?thesis using legacy_fraction_length legacy_quoted_length by auto
qed

lemma legacy_round_length: "legacy_round a n c s = Some (t, a', n', r) \<Longrightarrow> length r \<le> length s"
  using legacy_number_length[of c s] legacy_symbol_length[of a n c s] length_dropWhile_le[of word_char s]
  by (auto simp: legacy_round_def Let_def split: if_split_asm)

function (sequential) legacy_tokens :: "bool \<Rightarrow> bool \<Rightarrow> string \<Rightarrow> legacy_error + legacy_token list" where
  "legacy_tokens arrow inside [] = Inr []"
| "legacy_tokens arrow inside (c # s) =
     (if c_isspace c then legacy_tokens arrow inside s
      else case legacy_round arrow inside c s of
        None \<Rightarrow> Inl Legacy_parser_error
      | Some (t, arrow1, inside1, r) \<Rightarrow> map_sum id ((#) t) (legacy_tokens arrow1 inside1 r))"
  by pat_completeness auto
termination
  by (relation "measure (\<lambda>(a, n, s). length s)") (auto dest: legacy_round_length simp: less_Suc_eq_le)

section \<open>Columns\<close>

definition legacy_type_is :: "legacy_type \<Rightarrow> legacy_token list \<Rightarrow> bool" where
  "legacy_type_is ty ts \<longleftrightarrow> ts \<noteq> [] \<and> fst (hd ts) = ty"

definition legacy_consume :: "legacy_type \<Rightarrow> legacy_token list \<Rightarrow> legacy_error + string \<times> legacy_token list" where
  "legacy_consume ty ts = (if legacy_type_is ty ts then Inr (snd (hd ts), tl ts) else Inl Legacy_parser_error)"

definition legacy_id :: "legacy_token list \<Rightarrow> legacy_error + string \<times> legacy_token list" where
  "legacy_id ts = (if legacy_type_is L_IDENT ts then legacy_consume L_IDENT ts else legacy_consume L_MUL ts)"

definition docpath_member :: "legacy_token list \<Rightarrow> legacy_error + path_item \<times> legacy_token list" where
  "docpath_member ts = ebind (legacy_consume L_DOT ts) (\<lambda>(d, ts1).
     let item = (\<lambda>ty. map_sum id (\<lambda>(v, ts2). (\<lparr>pi_type = ty, pi_value = Some v, pi_index = None\<rparr>, ts2))) in
     if legacy_type_is L_IDENT ts1 then item IT_MEMBER (legacy_consume L_IDENT ts1)
     else if legacy_type_is L_LSTRING ts1 then item IT_MEMBER (legacy_consume L_LSTRING ts1)
     else if legacy_type_is L_MUL ts1 then item IT_MEMBER_ASTERISK (legacy_consume L_MUL ts1)
     else Inl Legacy_parser_error)"

text \<open>\<^verbatim>\<open>lexical_cast\<close> of the digits to a 32-bit \<^verbatim>\<open>int\<close>.\<close>

definition legacy_index :: "string \<Rightarrow> legacy_error + 32 word" where
  "legacy_index s = (let v = foldl (\<lambda>v c. 10 * v + (of_char c - 48)) (0 :: int) s in
     if s \<noteq> [] \<and> v < 2 ^ 31 then Inr (word_of_int v) else Inl Bad_lexical_cast)"

definition docpath_array_loc :: "legacy_token list \<Rightarrow> legacy_error + path_item \<times> legacy_token list" where
  "docpath_array_loc ts = ebind (legacy_consume L_LSQBRACKET ts) (\<lambda>(b, ts1).
     if legacy_type_is L_MUL ts1 then
       map_sum id (\<lambda>(v, ts2). (\<lparr>pi_type = IT_ARRAY_INDEX_ASTERISK, pi_value = None, pi_index = None\<rparr>, ts2))
         (legacy_consume L_RSQBRACKET ts1)
     else if legacy_type_is L_LINTEGER ts1 then
       ebind (legacy_consume L_LINTEGER ts1) (\<lambda>(v, ts2). ebind (legacy_index v) (\<lambda>i.
         map_sum id (\<lambda>(b, ts3). (\<lparr>pi_type = IT_ARRAY_INDEX, pi_value = None, pi_index = Some i\<rparr>, ts3))
           (legacy_consume L_RSQBRACKET ts2)))
     else Inl Legacy_parser_error)"

lemma docpath_member_length: "docpath_member ts = Inr (i, r) \<Longrightarrow> length r < length ts"
  by (auto simp: docpath_member_def legacy_consume_def legacy_type_is_def Let_def ebind_def split: if_splits sum.splits)

lemma docpath_array_loc_length: "docpath_array_loc ts = Inr (i, r) \<Longrightarrow> length r < length ts"
  by (auto simp: docpath_array_loc_def legacy_consume_def legacy_type_is_def Let_def ebind_def split: if_splits sum.splits)

function docpath_items :: "legacy_token list \<Rightarrow> legacy_error + path_item list \<times> legacy_token list" where
  "docpath_items ts =
     (if legacy_type_is L_DOT ts then
        (case docpath_member ts of Inl e \<Rightarrow> Inl e
         | Inr (i, ts1) \<Rightarrow> map_sum id (map_prod ((#) i) id) (docpath_items ts1))
      else if legacy_type_is L_LSQBRACKET ts then
        (case docpath_array_loc ts of Inl e \<Rightarrow> Inl e
         | Inr (i, ts1) \<Rightarrow> map_sum id (map_prod ((#) i) id) (docpath_items ts1))
      else if legacy_type_is L_DOUBLESTAR ts then
        map_sum id (map_prod ((#) \<lparr>pi_type = IT_DOUBLE_ASTERISK, pi_value = None, pi_index = None\<rparr>) id)
          (docpath_items (tl ts))
      else Inr ([], ts))"
  by pat_completeness auto
termination
  by (relation "measure length")
    (auto dest: docpath_member_length docpath_array_loc_length simp: legacy_type_is_def)

definition legacy_document_path :: "legacy_token list \<Rightarrow> legacy_error + path_item list \<times> legacy_token list" where
  "legacy_document_path ts = ebind (docpath_items ts) (\<lambda>(path, ts1).
     if path \<noteq> [] \<and> pi_type (last path) = IT_DOUBLE_ASTERISK then Inl Legacy_parser_error else Inr (path, ts1))"

function legacy_parts :: "legacy_token list \<Rightarrow> legacy_error + string list \<times> legacy_token list" where
  "legacy_parts ts =
     (if legacy_type_is L_DOT ts then
        (case legacy_id (tl ts) of Inl e \<Rightarrow> Inl e
         | Inr (part, ts1) \<Rightarrow> map_sum id (map_prod ((#) part) id) (legacy_parts ts1))
      else Inr ([], ts))"
  by pat_completeness auto
termination
  by (relation "measure length")
    (auto simp: legacy_type_is_def legacy_id_def legacy_consume_def less_Suc_eq_le split: if_splits
      dest!: arg_cong[of _ _ length])

text \<open>\<^verbatim>\<open>column_field\<close>: what follows the column is not looked at.\<close>

definition column_of_parts :: "string list \<Rightarrow> path_item list \<Rightarrow> column_identifier" where
  "column_of_parts parts path = (let rs = rev parts in
     \<lparr>id_path = path, id_name = Some (hd rs),
      id_table = (if 2 \<le> length rs then Some (rs ! 1) else None),
      id_schema = (if 3 \<le> length rs then Some (rs ! 2) else None)\<rparr>)"

definition legacy_column_field :: "string \<Rightarrow> legacy_error + pb_expr" where
  "legacy_column_field s = ebind (legacy_tokens False False s) (\<lambda>ts.
     ebind (legacy_id ts) (\<lambda>(part, ts1).
       if part = ''*'' then Inr (PB_OPERATOR ''*'' [])
       else ebind (legacy_parts ts1) (\<lambda>(parts, ts2).
         if 3 < length (part # parts) then Inl Legacy_parser_error
         else if legacy_type_is L_ARROW ts2 then
           ebind (legacy_consume L_ARROW ts2) (\<lambda>(v1, ts3).
           ebind (legacy_consume L_QUOTE ts3) (\<lambda>(v2, ts4).
           ebind (legacy_consume L_DOLLAR ts4) (\<lambda>(v3, ts5).
           ebind (legacy_document_path ts5) (\<lambda>(path, ts6).
           ebind (legacy_consume L_QUOTE ts6) (\<lambda>(v4, ts7).
             Inr (PB_IDENT (column_of_parts (part # parts) path)))))))
         else Inr (PB_IDENT (column_of_parts (part # parts) [])))))"

end
