(* ===== verification/Table_Ops.thy ===== *)
theory Table_Ops
  imports Prepared Legacy_Parser
begin

text \<open>
  The requests on a table, after \<^verbatim>\<open>xmysqlnd_crud_table_commands.h\<close> and \<^verbatim>\<open>.cc\<close>, and how they are run,
  after \<^verbatim>\<open>xmysqlnd_table.cc\<close>.  Unlike those on collections they keep every occurrence of a name in
  \<open>to_placeholders\<close>, with a value for each in \<open>to_bound_values\<close>, none for a null pointer.
\<close>

section \<open>The requests\<close>

record 'm table_op =
  to_message :: 'm
  to_placeholders :: "string list"
  to_bound_values :: "scalar option list"
  to_ps_message_id :: "32 word"

type_synonym select_op = "find_msg table_op"
type_synonym table_update_op = "update_msg table_op"
type_synonym table_delete_op = "delete_msg table_op"

definition table_delete_create :: "string \<Rightarrow> string \<Rightarrow> table_delete_op" where
  "table_delete_create schema name = \<lparr>to_message = delete_message False schema name,
     to_placeholders = [], to_bound_values = [], to_ps_message_id = 0\<rparr>"

definition table_update_create :: "string \<Rightarrow> string \<Rightarrow> table_update_op" where
  "table_update_create schema name = \<lparr>to_message = update_message False schema name,
     to_placeholders = [], to_bound_values = [], to_ps_message_id = 0\<rparr>"

text \<open>\<^verbatim>\<open>resize (n, nullptr)\<close>.\<close>

definition resize_null :: "nat \<Rightarrow> scalar option list \<Rightarrow> scalar option list" where
  "resize_null n vs = take n vs @ replicate (n - length vs) None"

section \<open>What the requests share\<close>

text \<open>
  An expression parsed for a request.  The names go to the request itself, also those of a text
  that turns out to have an error; the values are only made as many as the names when it has none.
\<close>

definition table_expression :: "crud_env \<Rightarrow> bool \<Rightarrow> string \<Rightarrow> (pb_expr \<Rightarrow> 'm \<Rightarrow> 'm) \<Rightarrow>
    (nat \<Rightarrow> scalar option list \<Rightarrow> scalar option list) \<Rightarrow> 'm table_op \<Rightarrow> crud_error + func_status \<times> 'm table_op" where
  "table_expression E doc s put resize op = map_sum id
     (\<lambda>(r, ph). case r of
        None \<Rightarrow> (FAIL, op\<lparr>to_placeholders := ph\<rparr>)
      | Some e \<Rightarrow> (PASS, op\<lparr>to_message := put e (to_message op), to_placeholders := ph,
          to_bound_values := resize (length ph) (to_bound_values op)\<rparr>))
     (crud_parse E doc s (to_placeholders op))"

text \<open>New criteria forget the values bound so far.\<close>

definition table_set_criteria :: "crud_env \<Rightarrow> string \<Rightarrow> 'a crud_msg_scheme table_op \<Rightarrow>
    crud_error + func_status \<times> 'a crud_msg_scheme table_op" where
  "table_set_criteria E criteria op = table_expression E (cm_document (to_message op)) criteria
     (\<lambda>e m. m\<lparr>cm_criteria := Some e\<rparr>) (\<lambda>n vs. resize_null n []) op"

definition table_set_limit ::
  "64 word \<Rightarrow> 'a crud_msg_scheme table_op \<Rightarrow> func_status \<times> 'a crud_msg_scheme table_op" where
  "table_set_limit n op = (PASS, op\<lparr>to_message := set_row_count n (to_message op)\<rparr>)"

definition table_set_offset ::
  "64 word \<Rightarrow> 'a crud_msg_scheme table_op \<Rightarrow> func_status \<times> 'a crud_msg_scheme table_op" where
  "table_set_offset n op = (PASS, op\<lparr>to_message := set_limit_offset n (to_message op)\<rparr>)"

definition table_add_orderby :: "crud_env \<Rightarrow> string \<Rightarrow> 'a crud_msg_scheme table_op \<Rightarrow>
    crud_error + func_status \<times> 'a crud_msg_scheme table_op" where
  "table_add_orderby E text op = map_sum id
     (\<lambda>(ret, rs). (ret, op\<lparr>to_message := (to_message op)\<lparr>cm_order := rs\<rparr>\<rparr>))
     (orderby E (cm_document (to_message op)) text (cm_order (to_message op)))"

text \<open>\<^verbatim>\<open>xmysqlnd_crud_table__bind_value\<close>: the value goes to the first occurrence of the name.\<close>

fun first_index :: "string \<Rightarrow> string list \<Rightarrow> nat option" where
  "first_index n [] = None"
| "first_index n (m # ms) = (if m = n then Some 0 else map_option Suc (first_index n ms))"

definition table_bind :: "string list \<Rightarrow> scalar option list \<Rightarrow> string \<Rightarrow> zvalue \<Rightarrow>
    crud_error + func_status \<times> scalar option list" where
  "table_bind ph vs name v = (case first_index name ph of
     None \<Rightarrow> Inr (FAIL, vs)
   | Some i \<Rightarrow>
       if length vs \<le> i then Inl Out_of_range
       else (case zval2any v of Any_scalar s \<Rightarrow> Inr (PASS, vs[i := Some s]) | _ \<Rightarrow> Inl Null_pointer))"

definition no_criteria :: "'a crud_msg_scheme table_op \<Rightarrow> bool" where
  "no_criteria op \<longleftrightarrow> to_placeholders op \<noteq> [] \<and> cm_criteria (to_message op) = None"

definition table_bind_value :: "string \<Rightarrow> zvalue \<Rightarrow> 'a crud_msg_scheme table_op \<Rightarrow>
    crud_error + func_status \<times> 'a crud_msg_scheme table_op" where
  "table_bind_value name v op =
     (if no_criteria op then Inr (FAIL, op)
      else map_sum id (\<lambda>(ret, vs). (ret, op\<lparr>to_bound_values := vs\<rparr>))
        (table_bind (to_placeholders op) (to_bound_values op) name v))"

text \<open>The arguments are made anew, when every name has a value.\<close>

definition table_finalize :: "scalar list \<Rightarrow> scalar option list \<Rightarrow> func_status \<times> scalar list" where
  "table_finalize args vs = (if None \<in> set vs then (FAIL, args) else (PASS, map the vs))"

definition table_finalize_bind ::
  "'a crud_msg_scheme table_op \<Rightarrow> func_status \<times> 'a crud_msg_scheme table_op" where
  "table_finalize_bind op =
     (if no_criteria op then (FAIL, op)
      else map_prod id (\<lambda>args. op\<lparr>to_message := (to_message op)\<lparr>cm_args := args\<rparr>\<rparr>)
        (table_finalize (cm_args (to_message op)) (to_bound_values op)))"

section \<open>Insert\<close>

record table_insert_op =
  ti_message :: insert_msg
  ti_column_names :: "string list"
  ti_rows :: "zvalue list"

text \<open>
  The columns are strings or arrays of them; the loop ends at the first value that is neither, when
  it comes first, and behind the first array with another value in it.  There is at least one.
\<close>

definition string_of :: "zvalue \<Rightarrow> string" where
  "string_of v = (case v of String s \<Rightarrow> s | _ \<Rightarrow> [])"

definition is_string :: "zvalue \<Rightarrow> bool" where
  "is_string v = (case v of String s \<Rightarrow> True | _ \<Rightarrow> False)"

fun insert_add_columns :: "zvalue list \<Rightarrow> func_status \<Rightarrow> string list \<Rightarrow> string list" where
  "insert_add_columns [] ret names = names"
| "insert_add_columns (c # cs) ret names =
     (case c of
        String s \<Rightarrow> insert_add_columns cs PASS (names @ [s])
      | Array es \<Rightarrow>
          let vs = map snd es; names1 = names @ map string_of (takeWhile is_string vs) in
          if list_all is_string vs then insert_add_columns cs PASS names1 else names1
      | _ \<Rightarrow> if ret = FAIL then names else insert_add_columns cs ret names)"

definition table_insert_create :: "string \<Rightarrow> string \<Rightarrow> zvalue list \<Rightarrow> table_insert_op" where
  "table_insert_create schema name columns =
     \<lparr>ti_message = \<lparr>im_schema = schema, im_name = name, im_document = False, im_projection = [], im_row = [],
        im_upsert = False\<rparr>, ti_column_names = insert_add_columns columns FAIL [], ti_rows = []\<rparr>"

definition table_insert_add_row :: "zvalue \<Rightarrow> table_insert_op \<Rightarrow> func_status \<times> table_insert_op" where
  "table_insert_add_row row op = (PASS, op\<lparr>ti_rows := ti_rows op @ [row]\<rparr>)"

definition insert_bind_row :: "zvalue \<Rightarrow> pb_expr list" where
  "insert_bind_row v = (case v of
     Array es \<Rightarrow> map (\<lambda>(k, w). any2expr (zval2any w)) es
   | _ \<Rightarrow> [any2expr (zval2any v)])"

definition table_insert_finalize_bind :: "table_insert_op \<Rightarrow> func_status \<times> table_insert_op" where
  "table_insert_finalize_bind op = (PASS, op\<lparr>ti_message := (ti_message op)
     \<lparr>im_projection := im_projection (ti_message op) @ ti_column_names op,
      im_row := im_row (ti_message op) @ map insert_bind_row (ti_rows op)\<rparr>\<rparr>)"

section \<open>Update\<close>

text \<open>
  The operation is added before its column is read.  A placeholder in the value adds its name, but
  no value for it.
\<close>

definition table_update_add_operation :: "crud_env \<Rightarrow> update_type \<Rightarrow> string \<Rightarrow> zvalue \<Rightarrow> bool \<Rightarrow> bool \<Rightarrow>
    table_update_op \<Rightarrow> crud_error + func_status \<times> table_update_op" where
  "table_update_add_operation E ty path v is_expression is_document op =
     (if is_array v \<or> is_object v then Inr (FAIL, op)
      else
        let added = (\<lambda>c w. add_update_operation \<lparr>uo_source = c, uo_operation = ty, uo_value = w\<rparr>) in
        (case legacy_column_field (if path = [] then ''$'' else path) of
           Inl Bad_lexical_cast \<Rightarrow> Inl Uncaught_exception
         | Inl Legacy_parser_error \<Rightarrow> Inr (FAIL, op\<lparr>to_message := added None None (to_message op)\<rparr>)
         | Inr e \<Rightarrow>
             let c = Some (identifier_or_empty e) in
             if is_string v \<and> (is_expression \<or> is_document) then
               ebind (table_expression E (cm_document (to_message op)) (string_of v)
                  (\<lambda>e. added c (Some e)) (\<lambda>n vs. vs) op) (\<lambda>(ret, op'). Inr (ret,
                  if ret = PASS then op' else op'\<lparr>to_message := added c None (to_message op')\<rparr>))
             else
               (case zval2any v of
                  Any_scalar s \<Rightarrow>
                    Inr (PASS, op\<lparr>to_message := added c (Some (PB_LITERAL s)) (to_message op)\<rparr>)
                | _ \<Rightarrow> Inl Null_pointer)))"

definition table_update_unset :: "crud_env \<Rightarrow> string \<Rightarrow> table_update_op \<Rightarrow> crud_error + func_status \<times> table_update_op" where
  "table_update_unset E path = table_update_add_operation E ITEM_REMOVE path Null False False"

definition table_update_set :: "crud_env \<Rightarrow> string \<Rightarrow> zvalue \<Rightarrow> bool \<Rightarrow> bool \<Rightarrow> table_update_op \<Rightarrow>
    crud_error + func_status \<times> table_update_op" where
  "table_update_set E path v is_expression is_document =
     table_update_add_operation E UT_SET path v is_expression is_document"

section \<open>Select\<close>

definition select_add_grouping :: "crud_env \<Rightarrow> string \<Rightarrow> select_op \<Rightarrow> crud_error + func_status \<times> select_op" where
  "select_add_grouping E field = table_expression E False field
     (\<lambda>e m. m\<lparr>fm_grouping := fm_grouping m @ [e]\<rparr>) resize_null"

definition select_set_having :: "crud_env \<Rightarrow> string \<Rightarrow> select_op \<Rightarrow> crud_error + func_status \<times> select_op" where
  "select_set_having E criteria = table_expression E False criteria
     (\<lambda>e m. m\<lparr>fm_grouping_criteria := Some e\<rparr>) resize_null"

definition select_set_column :: "crud_env \<Rightarrow> string \<Rightarrow> bool \<Rightarrow> select_op \<Rightarrow> crud_error + func_status \<times> select_op" where
  "select_set_column E column allow_alias op =
     (let doc = cm_document (to_message op) in
      if allow_alias then map_sum id
        (\<lambda>(ret, ps). (ret, op\<lparr>to_message := (to_message op)\<lparr>fm_projection := ps\<rparr>\<rparr>))
        (projection E doc column (fm_projection (to_message op)))
      else ebind (parse_closed E doc column) (\<lambda>r. case r of
        None \<Rightarrow> Inr (FAIL, op)
      | Some None \<Rightarrow> Inl Null_pointer
      | Some (Some (PB_OBJECT fs)) \<Rightarrow> table_expression E doc column
          (\<lambda>e m. m\<lparr>fm_projection := fm_projection m @ [\<lparr>pr_source = e, pr_alias = None\<rparr>]\<rparr>) resize_null op
      | Some (Some e) \<Rightarrow> Inr (FAIL, op)))"

text \<open>
  The columns of a select.  Whether a value is an array is asked of the first column, whichever
  column is looked at; the entries of a value that is no array are read all the same.  The second
  result is the exception raised in PHP.
\<close>

datatype column_exception = Invalid_type | Wrong_param_1 | Add_sort_fail

fun select_entries :: "crud_env \<Rightarrow> zvalue list \<Rightarrow> func_status \<Rightarrow> select_op \<Rightarrow>
    crud_error + (func_status option \<times> select_op)" where
  "select_entries E [] ret op = Inr (Some ret, op)"
| "select_entries E (v # vs) ret op = (case v of
     String s \<Rightarrow> ebind (select_set_column E s True op) (\<lambda>(ret1, op1). select_entries E vs ret1 op1)
   | _ \<Rightarrow> Inr (None, op))"

fun select_columns :: "crud_env \<Rightarrow> zvalue \<Rightarrow> zvalue list \<Rightarrow> func_status \<Rightarrow> select_op \<Rightarrow>
    crud_error + column_exception option \<times> select_op" where
  "select_columns E first [] ret op = Inr (if ret = FAIL then Some Add_sort_fail else None, op)"
| "select_columns E first (c # cs) ret op =
     (let go = (\<lambda>(ret1, op1). if ret1 = FAIL then Inr (Some Add_sort_fail, op1) else select_columns E first cs ret1 op1) in
      case c of
        Object fs \<Rightarrow> Inr (Some Invalid_type, op)
      | String s \<Rightarrow> ebind (select_set_column E s True op) go
      | Array es \<Rightarrow>
          if is_array first then ebind (select_entries E (map snd es) ret op) (\<lambda>(r, op1). case r of
            None \<Rightarrow> Inr (Some Wrong_param_1, op1) | Some ret1 \<Rightarrow> go (ret1, op1))
          else go (ret, op)
      | _ \<Rightarrow> if is_array first then Inl Not_an_array else go (ret, op))"

definition table_select_create :: "crud_env \<Rightarrow> string \<Rightarrow> string \<Rightarrow> zvalue list \<Rightarrow>
    crud_error + column_exception option \<times> select_op" where
  "table_select_create E schema name columns = (case columns of
     [] \<Rightarrow> Inl Out_of_range
   | first # _ \<Rightarrow> select_columns E first columns PASS \<lparr>to_message = find_message False schema name,
       to_placeholders = [], to_bound_values = [], to_ps_message_id = 0\<rparr>)"

section \<open>Running a request on a table\<close>

definition table_direct_request ::
  "('a crud_msg_scheme \<Rightarrow> ps_stmt) \<Rightarrow> ('a crud_msg_scheme \<Rightarrow> bool) \<Rightarrow> 'w ps_wire \<Rightarrow>
   'a crud_msg_scheme table_op \<Rightarrow> ps_data \<Rightarrow> 'w \<Rightarrow> ('a crud_msg_scheme table_op, 'w) request_outcome" where
  "table_direct_request wrap initialized W op D w =
     (case (if is_bind_finalized (to_ps_message_id op) D then (PASS, op) else table_finalize_bind op) of
        (FAIL, op1) \<Rightarrow> (Inr False, op1, D, w)
      | (PASS, op1) \<Rightarrow>
          if initialized (to_message op1)
          then (case pw_send W (wrap (to_message op1)) w of (r, w1) \<Rightarrow> (Inr (r = PASS), op1, D, w1))
          else (Inr False, op1, D, w))"

text \<open>\<open>mark\<close>: a select does not take note that its arguments are finalized, nor of its number.\<close>

definition table_request ::
  "('a crud_msg_scheme \<Rightarrow> ps_stmt) \<Rightarrow> ('a crud_msg_scheme \<Rightarrow> bool) \<Rightarrow> bool \<Rightarrow> 'w ps_wire \<Rightarrow>
   'a crud_msg_scheme table_op \<Rightarrow> ps_data \<Rightarrow> 'w \<Rightarrow> ('a crud_msg_scheme table_op, 'w) request_outcome" where
  "table_request wrap initialized mark W op D w =
     (if \<not> ps_supported D then table_direct_request wrap initialized W op D w
      else case add_message wrap (to_message op) (word_of_nat (length (to_bound_values op))) D of
        ((is_new, n), m, D1) \<Rightarrow>
        (case table_finalize_bind (op\<lparr>to_message := m\<rparr>) of
           (FAIL, op1) \<Rightarrow> (Inr False, op1, D1, w)
         | (PASS, op1) \<Rightarrow>
             (case (if mark then set_finalized_bind n True D1 else Inr D1) of
                Inl e \<Rightarrow> (Inl e, op1\<lparr>to_ps_message_id := n\<rparr>, D1, w)
              | Inr D2 \<Rightarrow>
                  let op2 = (if mark then op1\<lparr>to_ps_message_id := n\<rparr> else op1) in
                  case (if is_new then send_prepare_msg W n D2 w else (True, D2, w)) of (ok, D3, w1) \<Rightarrow>
                    if \<not> ok then
                      (if ps_supported D3 then (Inr False, op2, D3, w1)
                       else table_direct_request wrap initialized W op2 D3 w1)
                    else if \<not> initialized (to_message op2) then (Inr False, op2, D3, w1)
                    else execute_prepared W n (to_bound_values op2) op2 D3 w1)))"

definition table_select :: "'w ps_wire \<Rightarrow> select_op \<Rightarrow> ps_data \<Rightarrow> 'w \<Rightarrow> (select_op, 'w) request_outcome" where
  "table_select = table_request PS_FIND find_initialized False"

definition table_update :: "'w ps_wire \<Rightarrow> table_update_op \<Rightarrow> ps_data \<Rightarrow> 'w \<Rightarrow> (table_update_op, 'w) request_outcome" where
  "table_update = table_request PS_UPDATE update_initialized True"

definition table_delete :: "'w ps_wire \<Rightarrow> table_delete_op \<Rightarrow> ps_data \<Rightarrow> 'w \<Rightarrow> (table_delete_op, 'w) request_outcome" where
  "table_delete = table_request PS_DELETE crud_initialized True"

end
