(* ===== verification/Table_Props.thy ===== *)
theory Table_Props
  imports Table_Ops Crud_Props
begin

text \<open>
  Properties of the requests on a table and of the parser of the columns they set.
\<close>

section \<open>Names that occur twice\<close>

lemma first_index_Some:
  "first_index n ms = Some k \<Longrightarrow> k < length ms \<and> ms ! k = n \<and> (\<forall>j<k. ms ! j \<noteq> n)"
  by (induction ms arbitrary: k) (auto simp: nth_Cons split: if_splits nat.splits)

lemma repeated_not_first:
  assumes "\<not> distinct ms"
  obtains i where "i < length ms" "first_index (ms ! i) ms \<noteq> Some i"
proof -
  from assms obtain i j where ij: "i < j" "j < length ms" "ms ! i = ms ! j"
    by (metis distinct_conv_nth linorder_neqE_nat)
  then have "first_index (ms ! j) ms \<noteq> Some j" using first_index_Some[of "ms ! j" ms j] by auto
  with ij(2) that show thesis by blast
qed

text \<open>Binding names one after the other, whether it succeeds or not.\<close>

fun table_binds :: "(string \<times> zvalue) list \<Rightarrow> 'a crud_msg_scheme table_op \<Rightarrow> crud_error + 'a crud_msg_scheme table_op" where
  "table_binds [] op = Inr op"
| "table_binds ((n, v) # bs) op = ebind (table_bind_value n v op) (\<lambda>(ret, op1). table_binds bs op1)"

lemma table_bind_value_names:
  "table_bind_value n v op = Inr (ret, op1) \<Longrightarrow>
     to_placeholders op1 = to_placeholders op \<and> to_message op1 = to_message op \<and>
     length (to_bound_values op1) = length (to_bound_values op)"
  by (auto simp: table_bind_value_def table_bind_def split: if_splits option.splits any.splits)

lemma table_bind_value_keeps:
  assumes "table_bind_value n v op = Inr (ret, op1)" "first_index (to_placeholders op ! i) (to_placeholders op) \<noteq> Some i"
    and "i < length (to_placeholders op)"
  shows "to_bound_values op1 ! i = to_bound_values op ! i"
proof -
  have "first_index n (to_placeholders op) \<noteq> Some i"
    using assms(2) first_index_Some[of n "to_placeholders op" i] by auto
  then show ?thesis
    using assms(1) by (auto simp: table_bind_value_def table_bind_def split: if_splits option.splits any.splits)
qed

lemma table_binds_keep:
  assumes "table_binds bs op = Inr op1" "first_index (to_placeholders op ! i) (to_placeholders op) \<noteq> Some i"
    and "i < length (to_placeholders op)"
  shows "to_placeholders op1 = to_placeholders op \<and> to_message op1 = to_message op \<and>
    length (to_bound_values op1) = length (to_bound_values op) \<and> to_bound_values op1 ! i = to_bound_values op ! i"
  using assms
proof (induction bs arbitrary: op)
  case (Cons b bs)
  obtain n v where b: "b = (n, v)" by (cases b)
  with Cons.prems(1) obtain ret op2 where op2: "table_bind_value n v op = Inr (ret, op2)" "table_binds bs op2 = Inr op1"
    by (auto simp: ebind_def split: sum.splits)
  note same = table_bind_value_names[OF op2(1)] table_bind_value_keeps[OF op2(1) Cons.prems(2,3)]
  with Cons.IH[OF op2(2)] Cons.prems(2,3) show ?case by simp
qed simp

text \<open>
  C25: a search of a table whose criteria have a name twice can never be run: whatever values are
  bound to whatever names afterwards, the second occurrence keeps none, the arguments are not
  finalized and nothing is sent.
\<close>

theorem repeated_name_never_runs:
  fixes op1 :: select_op
  assumes "table_set_criteria E s op = Inr (PASS, op1)" "\<not> distinct (to_placeholders op1)"
    and "table_binds bs op1 = Inr op2" "ps_supported D"
  shows "fst (table_finalize_bind op2) = FAIL \<and> fst (table_select W op2 D w) = Inr False"
proof -
  obtain i where i: "i < length (to_placeholders op1)" "first_index (to_placeholders op1 ! i) (to_placeholders op1) \<noteq> Some i"
    using repeated_not_first[OF assms(2)] by blast
  have vs: "to_bound_values op1 = replicate (length (to_placeholders op1)) None"
    using assms(1) by (auto simp: table_set_criteria_def table_expression_def resize_null_def map_sum_def
        split: sum.splits option.splits)
  from table_binds_keep[OF assms(3) i(2,1)] i vs
  have "to_bound_values op2 ! i = None" "i < length (to_bound_values op2)" by simp_all
  then have none: "None \<in> set (to_bound_values op2)" by (metis nth_mem)
  then have fin: "fst (table_finalize_bind (op2\<lparr>to_message := m\<rparr>)) = FAIL" for m
    by (simp add: table_finalize_bind_def table_finalize_def)
  obtain fresh n m D1 where am: "add_message PS_FIND (to_message op2) (word_of_nat (length (to_bound_values op2))) D =
      ((fresh, n), m, D1)"
    by (metis prod_cases3 surj_pair)
  have "fst (table_select W op2 D w) = Inr False"
    using fin[of m] assms(4) am
    by (cases "table_finalize_bind (op2\<lparr>to_message := m\<rparr>)") (simp add: table_select_def table_request_def)
  with fin[of "to_message op2"] show ?thesis by simp
qed

lemma parsed_table_name: "expression_parser (enough_fuel ''a = :x or b = :x'') TABLE ''a = :x or b = :x'' =
    Inr (OP ''||'' [OP ''=='' [COL_REF (cref_empty\<lparr>cr_name := ''a''\<rparr>) None, PARAM ''x''],
                    OP ''=='' [COL_REF (cref_empty\<lparr>cr_name := ''b''\<rparr>) None, PARAM ''x'']])"
  by code_simp

definition some_select :: select_op where
  "some_select = \<lparr>to_message = find_message False ''s'' ''t'', to_placeholders = [], to_bound_values = [],
     to_ps_message_id = 0\<rparr>"

definition selected :: select_op where
  "selected = snd (case table_set_criteria quiet_env ''a = :x or b = :x'' some_select of Inr r \<Rightarrow> r)"

lemma select_criteria: "table_set_criteria quiet_env ''a = :x or b = :x'' some_select = Inr (PASS, selected)"
    "to_placeholders selected = [''x'', ''x'']" "to_bound_values selected = [None, None]"
    "cm_criteria (to_message selected) \<noteq> None"
  by (simp_all add: selected_def table_set_criteria_def table_expression_def crud_parse_def caught_def mode_of_def
      parsed_table_name conv_placeholder_def some_select_def find_message_def resize_null_def numeral_2_eq_2)

theorem repeated_name_never_runs_witness:
  "\<exists>op2. table_binds [(''x'', Long 1), (''x'', Long 2)] selected = Inr op2 \<and>
     fst (table_finalize_bind op2) = FAIL \<and> fst (table_select server_wire op2 new_ps_data new_server) = Inr False"
proof -
  obtain op2 where op2: "table_binds [(''x'', Long 1), (''x'', Long 2)] selected = Inr op2"
    using select_criteria by (simp add: table_bind_value_def no_criteria_def table_bind_def)
  have "fst (table_finalize_bind op2) = FAIL \<and> fst (table_select server_wire op2 new_ps_data new_server) = Inr False"
    by (rule repeated_name_never_runs[OF select_criteria(1) _ op2]) (simp_all add: select_criteria)
  with op2 show ?thesis by blast
qed

section \<open>Columns\<close>

definition ticked :: "string \<Rightarrow> string" where
  "ticked s = CHR 0x60 # concat (map (\<lambda>c. if c = CHR 0x60 then [c, c] else [c]) s) @ [CHR 0x60]"

lemma quoted_ticked:
  assumes "t = [] \<or> hd t \<noteq> CHR 0x60"
  shows "legacy_quoted (CHR 0x60) (concat (map (\<lambda>c. if c = CHR 0x60 then [c, c] else [c]) s) @ CHR 0x60 # t) = Some (s, t)"
proof (induction s)
  case Nil
  with assms show ?case by (cases t) auto
next
  case (Cons c s)
  let ?r = "concat (map (\<lambda>c. if c = CHR 0x60 then [c, c] else [c]) s) @ CHR 0x60 # t"
  obtain d r where "?r = d # r" by (cases ?r) auto
  with Cons.IH show ?case by (cases "c = CHR 0x60") simp_all
qed

lemma tokens_ticked:
  assumes "t = [] \<or> hd t \<noteq> CHR 0x60"
  shows "legacy_tokens False False (ticked s @ t) = map_sum id ((#) (L_IDENT, s)) (legacy_tokens False False t)"
proof -
  let ?r = "concat (map (\<lambda>c. if c = CHR 0x60 then [c, c] else [c]) s) @ CHR 0x60 # t"
  have "legacy_symbol False False (CHR 0x60) ?r = Some ((L_IDENT, s), False, False, t)"
    using quoted_ticked[OF assms, of s] by (simp add: legacy_symbol_def legacy_symbols2_def legacy_symbols1_def)
  then have "legacy_round False False (CHR 0x60) ?r = Some ((L_IDENT, s), False, False, t)"
    by (simp add: legacy_round_def word_char_def c_isdigit_def c_isalnum_def c_isupper_def c_islower_def)
  then show ?thesis by (simp add: ticked_def c_isspace_def)
qed

lemma tokens_dot:
  assumes "t \<noteq> []" "\<not> c_isdigit (hd t)"
  shows "legacy_tokens False False (CHR ''.'' # t) = map_sum id ((#) (L_DOT, ''.'')) (legacy_tokens False False t)"
proof -
  have "\<not> c_isspace (CHR ''.'')" "\<not> c_isdigit (CHR ''.'')" "\<not> word_char (CHR ''.'')"
    by (simp_all add: word_char_def c_isdigit_def c_isalnum_def c_isupper_def c_islower_def c_isspace_def)
  with assms show ?thesis
    by (simp add: legacy_round_def legacy_symbol_def legacy_symbols2_def legacy_symbols1_def)
qed

lemma ticked_hd [simp]: "ticked s \<noteq> []" "hd (ticked s) = CHR 0x60" "hd (ticked s @ t) = CHR 0x60"
  by (simp_all add: ticked_def)

text \<open>
  C26: a column of an update whose schema, table and name are quoted, with the quotes in them
  doubled, is read as exactly these, whatever characters they have; so is a name alone.  Only a
  first part that is a star is taken for all columns.
\<close>

theorem quoted_column_round_trip:
  assumes "sch \<noteq> ''*''" "name \<noteq> ''*''"
  shows "legacy_column_field (ticked sch @ ''.'' @ ticked tab @ ''.'' @ ticked name) =
      Inr (PB_IDENT \<lparr>id_path = [], id_name = Some name, id_table = Some tab, id_schema = Some sch\<rparr>) \<and>
    legacy_column_field (ticked name) = Inr (PB_IDENT \<lparr>id_path = [], id_name = Some name, id_table = None, id_schema = None\<rparr>)"
proof
  have ticks: "\<not> c_isdigit (CHR 0x60)" by (simp add: c_isdigit_def)
  have one: "legacy_tokens False False (ticked name) = Inr [(L_IDENT, name)]"
    using tokens_ticked[of "[]" name] by simp
  have "legacy_tokens False False (ticked sch @ ''.'' @ ticked tab @ ''.'' @ ticked name) =
      Inr [(L_IDENT, sch), (L_DOT, ''.''), (L_IDENT, tab), (L_DOT, ''.''), (L_IDENT, name)]"
    using one ticks by (simp add: tokens_ticked tokens_dot del: legacy_tokens.simps)
  with assms show "legacy_column_field (ticked sch @ ''.'' @ ticked tab @ ''.'' @ ticked name) =
      Inr (PB_IDENT \<lparr>id_path = [], id_name = Some name, id_table = Some tab, id_schema = Some sch\<rparr>)"
    by (simp add: legacy_column_field_def legacy_id_def legacy_consume_def legacy_type_is_def column_of_parts_def
        legacy_parts.simps numeral_2_eq_2 numeral_3_eq_3)
  from assms one show "legacy_column_field (ticked name) =
      Inr (PB_IDENT \<lparr>id_path = [], id_name = Some name, id_table = None, id_schema = None\<rparr>)"
    by (simp add: legacy_column_field_def legacy_id_def legacy_consume_def legacy_type_is_def column_of_parts_def
        legacy_parts.simps numeral_3_eq_3)
qed

theorem quoted_column_round_trip_witness:
  "legacy_column_field (ticked ''a.`b'' @ ''.'' @ ticked [] @ ''.'' @ ticked ''date'') =
      Inr (PB_IDENT \<lparr>id_path = [], id_name = Some ''date'', id_table = Some [], id_schema = Some ''a.`b''\<rparr>) \<and>
    legacy_column_field (ticked ''date'') = Inr (PB_IDENT \<lparr>id_path = [], id_name = Some ''date'', id_table = None, id_schema = None\<rparr>)"
  by (rule quoted_column_round_trip) simp_all

text \<open>Without quotes, a column that has the name of a reserved word is refused.\<close>

lemma reserved_column_rejected:
  "list_all (\<lambda>w. legacy_column_field w = Inl Legacy_parser_error) legacy_reserved_words"
  by code_simp


section \<open>Values with placeholders\<close>

text \<open>
  C27: when the value an update sets is an expression with a placeholder, its name joins the names of
  the update behind its criteria, but no place for its value is made: binding the name writes
  behind the end of the values.
\<close>

theorem set_expression_bind_out_of_range:
  assumes op: "length (to_bound_values op) = length (to_placeholders op)" "cm_criteria (to_message op) \<noteq> None"
      "\<not> cm_document (to_message op)"
    and parsed: "expression_parser (enough_fuel s) TABLE s = Inr e" "CHR 0x00 \<notin> set s"
    and x: "params e = x # ns" "x \<notin> set (to_placeholders op)"
    and column: "legacy_column_field path = Inr c" "path \<noteq> []"
  shows "\<exists>op1. table_update_set E path (String s) True False op = Inr (PASS, op1) \<and>
    table_bind_value x v op1 = Inl Out_of_range"
proof -
  let ?ph = "to_placeholders op"
  obtain p ph where eq: "build_expr (ce_double E) e ?ph = (p, ph)" by (cases "build_expr (ce_double E) e ?ph")
  with build_names(1)[of "ce_double E" e ?ph] have ph: "ph = ?ph @ params e" by simp
  have "first_index x (ms @ x # ns) = Some (length ms)" if "x \<notin> set ms" for ms
    using that by (induction ms) auto
  then have "first_index x (?ph @ x # ns) = Some (length ?ph)" using x(2) by simp
  then show ?thesis
    using op parsed column eq ph x
    by (simp add: table_update_set_def table_update_add_operation_def is_array_def is_object_def is_string_def
        string_of_def table_expression_def crud_parse_def caught_def mode_of_def table_bind_value_def
        no_criteria_def table_bind_def add_update_operation_def)
qed

definition some_update :: table_update_op where
  "some_update = \<lparr>to_message = (update_message False ''s'' ''t'')\<lparr>cm_criteria := Some (PB_PLACEHOLDER 0)\<rparr>,
     to_placeholders = [''y''], to_bound_values = [None], to_ps_message_id = 0\<rparr>"

lemma parsed_param: "expression_parser (enough_fuel '':x'') TABLE '':x'' = Inr (PARAM ''x'')"
  by code_simp

lemma parsed_column:
  "legacy_column_field ''c'' = Inr (PB_IDENT \<lparr>id_path = [], id_name = Some ''c'', id_table = None, id_schema = None\<rparr>)"
  by code_simp

theorem set_expression_bind_out_of_range_witness:
  "\<exists>op1. table_update_set quiet_env ''c'' (String '':x'') True False some_update = Inr (PASS, op1) \<and>
    table_bind_value ''x'' (Long 1) op1 = Inl Out_of_range"
  by (rule set_expression_bind_out_of_range[OF _ _ _ parsed_param _ _ _ parsed_column])
    (simp_all add: some_update_def update_message_def)

end
