(* ===== verification/Spec2Isabelle.thy ===== *)
theory Spec2Isabelle
  imports Parser_Props Reader_Props Compress_Setup Row_Props Pool_Props Stmt_Props
    Options_Props Address_Props Auth_Props Crud_Props Table_Props
begin

text \<open>
  A verification of the MySQL X DevAPI extension for PHP.

  \<^bold>\<open>The program.\<close>  The extension lets PHP scripts talk to a MySQL server over the X Protocol.  A
  session (\<^verbatim>\<open>src/xmysqlnd/xmysqlnd_session.cc\<close>), taken from a connection pool where the script
  uses a client (\<^verbatim>\<open>src/mysqlx_client.cc\<close>), sends requests and reads replies as protobuf messages
  (\<^verbatim>\<open>src/xmysqlnd/xmysqlnd_wireprotocol.cc\<close>), which a frame codec puts on the stream
  (\<^verbatim>\<open>xmysqlnd_protocol_frame_codec.cc\<close>) and which may be compressed
  (\<^verbatim>\<open>xmysqlnd_compression.cc\<close>, negotiated by \<^verbatim>\<open>xmysqlnd_compression_setup.cc\<close>).  The conditions,
  projections and orders of CRUD requests are strings that the expression parser of the CDK
  (\<^verbatim>\<open>src/xmysqlnd/cdkbase/parser\<close>) turns into expression trees, from which the requests on collections
  and tables (\<^verbatim>\<open>xmysqlnd_crud_collection_commands.cc\<close>, \<^verbatim>\<open>xmysqlnd_crud_table_commands.cc\<close>) build their
  messages; these are sent as they are or as prepared statements (\<^verbatim>\<open>xmysqlnd_stmt.cc\<close>).

  \<^bold>\<open>Foundations.\<close>
  \<^item> \<open>Prelude\<close>: outcomes (\<open>Inl\<close> an error), the option bind, lemmas on lists and words and the
    collections of simplification rules that the other theories share.
  \<^item> \<open>Bytes\<close>: little-endian numbers of fixed size, unsigned subtraction that wraps around, and the
    locale \<open>prefix_code\<close>, the contract of a format whose items can be read off the front of a byte
    string one by one; it gives once and for all that a concatenation of items is decoded to
    exactly these items.  The frames of the codec and the batches inside compressed messages are
    its two interpretations.
  \<^item> \<open>Zvalue\<close>, \<open>Decimal\<close>: PHP values (\<^verbatim>\<open>src/util/value.cc\<close>) and the printing and reading of numbers.

  \<^bold>\<open>Expressions\<close> (\<^verbatim>\<open>src/xmysqlnd/cdkbase/parser\<close>).
  \<^item> \<open>Char_Iter\<close>: UTF-8 decoding and the character iterator (\<^verbatim>\<open>char_iterator.h\<close>,
    \<^verbatim>\<open>foundation/string.h\<close>, the encodings of rapidjson).
  \<^item> \<open>Tokens\<close>: the tokenizer (\<^verbatim>\<open>tokenizer.h\<close>, \<^verbatim>\<open>tokenizer.cc\<close>); \<open>Keywords\<close>: keywords and operators;
    \<open>Numbers\<close>: the conversions of number literals; \<open>Expr_Model\<close>: the stored expressions.
  \<^item> \<open>Expr_Parser\<close>: the recursive descent parser, every production of \<^verbatim>\<open>expr_parser.cc\<close>, with
    fuel for the nesting of calls, and its entry points.
  \<^item> \<open>Lexer_Laws\<close>, \<open>Lexer_Run\<close>: tokens lie inside the input, the tokenizer moves forward and ends,
    quoted strings are read back.  \<open>Parser_Laws\<close>, \<open>Parser_Safe\<close>: no production moves backwards or
    reports an error outside the input.  \<open>Parser_Fuel\<close>: more fuel never changes an answer.
    \<open>Doc_Map\<close>: a document literal is a sorted map in which the last value of a key wins.
    \<open>Parser_Entry\<close>, \<open>Parser_Props\<close>: what follows for the entry points.
  \<^item> Fuel: \<open>32\<close> nested calls for each byte of the input and \<open>45\<close> more are enough on every input of
    characters that start a token, which is proved; on others the source may recurse without
    end, which is proved too.

  \<^bold>\<open>Requests\<close> (\<^verbatim>\<open>src/xmysqlnd\<close>).
  \<^item> \<open>Pb_Expr\<close>: the expressions of the protocol, how they are built from stored ones, with their
    placeholders numbered (\<^verbatim>\<open>builders.h\<close>, \<^verbatim>\<open>crud_parsers/mysqlx_crud_parser.cc\<close>); \<open>Crud_Parse\<close>: orders,
    projections and the bindings of a request.  Rounding a decimal to a double is a parameter, and
    so is what the builder has made of a text when the parser finds an error in it.
  \<^item> \<open>Crud_Messages\<close>: the messages, and what one means: the message with its placeholders replaced.
    \<open>Placeholders\<close>: the numbered expression with the values filled in is the expression that was
    written with the values in the places of the names.
  \<^item> \<open>Collection_Ops\<close>, \<open>Table_Ops\<close>: the operations of the requests on collections and tables;
    \<open>Legacy_Parser\<close>: the older parser, of the columns that an update sets
    (\<^verbatim>\<open>crud_parsers/legacy_tokenizer.cc\<close>, \<^verbatim>\<open>expression_parser.cc\<close>).
  \<^item> \<open>Prepared\<close>: the store of prepared statements and running a request with it
    (\<^verbatim>\<open>xmysqlnd_collection.cc\<close>).  \<open>Prepared_Laws\<close>: a server that keeps statements by number, and the
    locale \<open>prepared_kind\<close>, the contract between a kind of messages and the statements prepared from
    it; it is interpreted for finds, updates and deletes.
  \<^item> \<open>Crud_Props\<close>, \<open>Table_Props\<close>: requests run what was written, prepared or not, when the names in
    them are different; what happens otherwise, on servers without prepared statements, and after
    errors.
  \<^item> Fuel: the loops over the tokens of an order or a projection take one round for each token, of
    which there are no more than bytes in the text; at a character that starts no token the loop of
    the source does not end, nor does the model return.

  \<^bold>\<open>The wire\<close> (\<^verbatim>\<open>src/xmysqlnd\<close>).
  \<^item> \<open>Frames\<close>: the frame codec over a stream \<open>vio\<close>, whose behaviour (\<open>keeps_bytes\<close>) is a
    hypothesis.  The send loop runs on fuel; one round more than the payload has bytes is enough
    for a packet limit of at least 2, which is proved.
  \<^item> \<open>Compression\<close>: composing and extracting batches; the compression library is a parameter.
  \<^item> \<open>Any_Conv\<close>: PHP values as protobuf \<^verbatim>\<open>Any\<close> values (\<^verbatim>\<open>xmysqlnd_zval2any.cc\<close>).
  \<^item> \<open>Messages\<close>: the record of handlers, the dispatch on the message type, the receive loop and the
    sending of a message.  The protobuf parser is a record of functions.  The fuel of the receive
    loop is the number of rounds; a read of \<open>n\<close> frames takes \<open>n\<close>, and one more when a frame is
    compressed.
  \<^item> \<open>Handlers\<close>: notices, errors and the handler tables of every exchange.
  \<^item> \<open>Result_Meta\<close>: column descriptions (\<^verbatim>\<open>xmysqlnd_stmt_result_meta.cc\<close>), an interpretation of the
    locale \<open>append_store\<close>.
  \<^item> \<open>Result_Reader\<close>: the handlers that read the reply to a statement.
  \<^item> \<open>Reader_Laws\<close>: the locale \<open>handler_machine\<close>, the contract between the receive loop and a table
    of handlers that acts as a step function on messages; its interpretations are the
    acknowledging tables and the statement reader.  \<open>Reader_Props\<close>: result sets are delivered
    completely, compression is transparent, and where it is not.
  \<^item> \<open>Row_Decode\<close>, \<open>Row_Props\<close>: the decoding of the fields of a row by column type.  The loop over
    the members of a set needs one round more than there are members.
  \<^item> \<open>Compress_Setup\<close>: the negotiation of compression.

  \<^bold>\<open>Results\<close> (\<^verbatim>\<open>xmysqlnd_stmt.cc\<close>, \<^verbatim>\<open>xmysqlnd_rowset_buffered.cc\<close>, \<^verbatim>\<open>xmysqlnd_rowset_fwd.cc\<close>).
  \<^item> \<open>Rowset\<close>: the memory of buffered and forward row sets, with accesses outside it and through
    null pointers as errors, its invariant, and the locale \<open>list_cursor\<close>, the contract between a
    cursor and the rows it stands before; calling \<^verbatim>\<open>fetchOne\<close> enumerates them.
  \<^item> \<open>Stmt\<close>: execution state, warnings, the callbacks that collect a reply and the operations that
    read buffered, forward and all results.
  \<^item> \<open>Stmt_Laws\<close>: what the callbacks collect; the locale \<open>collector\<close> is interpreted for the two
    contexts they act on, \<open>list_cursor\<close> for buffered results.  \<open>Fwd_Laws\<close>: the forward cursor, the
    second interpretation of \<open>list_cursor\<close>, over the rows in memory and on the line.
    \<open>Result_Seq\<close>: statements with several results, by the locale \<open>result_reader\<close>.
    \<open>Stmt_Props\<close>: what a script sees.
  \<^item> Fuel: a read needs as many rounds as the reply has messages, the loops over results as many as
    it has result sets, which is proved.

  \<^bold>\<open>Connecting\<close> (\<^verbatim>\<open>xmysqlnd_session.cc\<close>).
  \<^item> \<open>Conn_Options\<close>: the data a connection needs and the options of a URI that set it; \<open>Ciphers\<close>: the
    allowed ciphers and cipher suites and how the options choose among them.
  \<^item> \<open>Addresses\<close>: the list of hosts in a URI.  The loop over the list ends because its index grows.
    \<open>Uris\<close>: transport, attributes of the client and DNS SRV.  PHP's parser of URIs and the
    resolver are parameters.
  \<^item> \<open>Auth\<close>: scramblers, plugins and the choice of mechanisms, and the exchange of one log in;
    \<open>Connect\<close>: the steps of a connection, in their order over any implementation of them
    (\<open>auth_ops\<close>) and over the message layer (\<open>wire_ops\<close>); \<open>Failover\<close>: one session over the addresses of
    a URI.
  \<^item> \<open>Options_Props\<close>, \<open>Address_Props\<close>: what the options and the addresses of a URI come to.
    \<open>Session_Steps\<close>: what an exchange keeps of the session, and the locale \<open>session_steps\<close>, the contract
    of steps with an invariant, interpreted for the steps over the message layer.  \<open>Auth_Props\<close>: the
    order of TLS and log in, the answer to a challenge, and what a second address meets.

  \<^bold>\<open>Sessions.\<close>
  \<^item> \<open>Session_State\<close>: the states of a session, closing and resetting.
  \<^item> \<open>Pool\<close>, \<open>Pool_Props\<close>: client options and the connection pool, as a step relation whose
    reachable states keep the pool within its size.

  \<^bold>\<open>Not modelled.\<close>  The administrative commands on schemas, collections and their indexes send
  fixed SQL statements with their parameters.  The PHP classes only unpack arguments; where one of
  them decides something, as \<^verbatim>\<open>Collection_find::bind\<close> and \<^verbatim>\<open>execute\<close>, it is modelled with the operation it
  calls.  The JSON parser and the protocol layer of the CDK serve its own core, which the
  extension does not call; protobuf, the compression libraries, rapidjson and
  boost are not part of the program.  Memory management, logging and reference counting are left
  out throughout.
\<close>

end
